(* ===== verification/Prelude.thy ===== *)
theory Prelude
  imports Main "HOL-Library.AList" "HOL-Library.Multiset" "HOL-Library.Char_ord"
    "HOL-Library.List_Lexorder" "HOL-Library.Product_Lexorder"
begin

text \<open>
  Shared vocabulary of the development: time, Python dictionaries as insertion-ordered
  association lists, Python's slicing, \<open>min\<close> with a key, and the collections of
  facts the component proofs draw on.
\<close>

section \<open>Types shared by the components\<close>

text \<open>
  A \<open>datetime\<close> is the number of microseconds since the epoch and a \<open>timedelta\<close> a
  number of microseconds; Python's arithmetic on both is exact integer arithmetic.
\<close>

type_synonym time = int
type_synonym duration = int

text \<open>A Python dictionary keeps the insertion order of its keys; updating a key keeps its place.\<close>

type_synonym ('k, 'v) dict = "('k \<times> 'v) list"

abbreviation dict_get :: "('k, 'v) dict \<Rightarrow> 'k \<Rightarrow> 'v option" where
  "dict_get d k \<equiv> map_of d k"

abbreviation dict_set :: "'k \<Rightarrow> 'v \<Rightarrow> ('k, 'v) dict \<Rightarrow> ('k, 'v) dict" where
  "dict_set k v d \<equiv> AList.update k v d"

abbreviation dict_has :: "('k, 'v) dict \<Rightarrow> 'k \<Rightarrow> bool" where
  "dict_has d k \<equiv> map_of d k \<noteq> None"

abbreviation dict_keys :: "('k, 'v) dict \<Rightarrow> 'k list" where
  "dict_keys d \<equiv> map fst d"

abbreviation dict_values :: "('k, 'v) dict \<Rightarrow> 'v list" where
  "dict_values d \<equiv> map snd d"

named_theorems inv_intros \<open>operations that keep a component's invariant\<close>
named_theorems store_simps \<open>what the queue's operations do to the abstract store\<close>
named_theorems plane_simps \<open>frame and effect facts of the control plane's steps\<close>

section \<open>Dictionaries\<close>

lemma dict_get_set [simp]: "dict_get (dict_set k v d) = (map_of d)(k \<mapsto> v)"
  by (rule update_conv')

lemma dict_has_iff_keys: "dict_has d k \<longleftrightarrow> k \<in> set (dict_keys d)"
  by (simp add: map_of_eq_None_iff)

lemma distinct_dict_set [simp]:
  "distinct (dict_keys d) \<Longrightarrow> distinct (dict_keys (dict_set k v d))"
  by (rule distinct_update)

lemma dict_values_iff:
  "distinct (dict_keys d) \<Longrightarrow> v \<in> set (dict_values d) \<longleftrightarrow> (\<exists>k. dict_get d k = Some v)"
  by (force simp: image_iff)

lemma dict_get_map_values:
  "map_of (map (\<lambda>(k, v). (k, f k v)) d) k = map_option (f k) (map_of d k)"
  by (induction d) auto

lemma dict_keys_map_values [simp]:
  "dict_keys (map (\<lambda>(k, v). (k, f k v)) d) = dict_keys d"
  by (induction d) auto

lemma dict_keys_set_existing:
  "dict_has d k \<Longrightarrow> dict_keys (dict_set k v d) = dict_keys d"
  by (induction d) (auto split: if_splits)

lemma dict_set_fresh: "\<not> dict_has d k \<Longrightarrow> dict_set k v d = d @ [(k, v)]"
  by (induction d) (auto split: if_splits)

section \<open>Slicing and selection\<close>

text \<open>Python's \<open>xs[:limit]\<close>: a negative limit counts from the end.\<close>

definition slice_to :: "int \<Rightarrow> 'a list \<Rightarrow> 'a list" where
  "slice_to limit xs =
     (if 0 \<le> limit then take (nat limit) xs else take (length xs - nat (- limit)) xs)"

text \<open>Python's \<open>xs[-limit:]\<close>; note that \<open>xs[-0:]\<close> is the whole list.\<close>

definition slice_last :: "int \<Rightarrow> 'a list \<Rightarrow> 'a list" where
  "slice_last limit xs =
     (if limit > 0 then drop (length xs - nat limit) xs
      else drop (nat (- limit)) xs)"

lemma slice_to_nat [simp]: "slice_to (int n) xs = take n xs"
  by (simp add: slice_to_def)

lemma set_slice_to: "set (slice_to l xs) \<subseteq> set xs"
  by (auto simp: slice_to_def dest: in_set_takeD)

text \<open>Python's \<open>min(xs, key=f)\<close> on a non-empty list: the first minimal element.\<close>

fun min_by :: "('a \<Rightarrow> 'k::linorder) \<Rightarrow> 'a \<Rightarrow> 'a list \<Rightarrow> 'a" where
  "min_by f x [] = x"
| "min_by f x (y # ys) = (if f y < f x then min_by f y ys else min_by f x ys)"

lemma min_by_in: "min_by f x ys \<in> set (x # ys)"
  by (induction ys arbitrary: x) auto

lemma min_by_le: "z \<in> set (x # ys) \<Longrightarrow> f (min_by f x ys) \<le> f z"
proof (induction ys arbitrary: x z)
  case Nil
  then show ?case by simp
next
  case (Cons y ys)
  let ?m = "if f y < f x then y else x"
  have "f ?m \<le> f x" "f ?m \<le> f y" by auto
  moreover have "f (min_by f ?m ys) \<le> f w" if "w \<in> set (?m # ys)" for w
    using Cons.IH [OF that] .
  moreover have "min_by f x (y # ys) = min_by f ?m ys" by simp
  ultimately show ?case
    using Cons.prems by (metis list.set_intros order.trans set_ConsD)
qed

lemma sorted_take_map: "sorted (map f xs) \<Longrightarrow> sorted (map f (take n xs))"
  by (metis sorted_wrt_take take_map)

lemma distinct_map_sort_key [simp]: "distinct (map f (sort_key g xs)) = distinct (map f xs)"
  by (simp add: distinct_map)

lemma sorted_split_le:
  assumes "sorted (map f (xs @ ys))" and "x \<in> set xs" and "y \<in> set ys"
  shows "f x \<le> f y"
  using assms by (auto simp: sorted_append)

lemma sorted_key_fst:
  fixes f :: "'a \<Rightarrow> 'k::linorder" and g :: "'a \<Rightarrow> 'l::linorder"
  assumes "sorted (map (\<lambda>x. (f x, g x)) xs)"
  shows "sorted (map f xs)"
  using assms by (induction xs) auto

lemma hd_sort_key_le:
  assumes "y \<in> set xs"
  shows "f (hd (sort_key f xs)) \<le> f y"
proof -
  have ne: "sort_key f xs \<noteq> []"
    using assms by (metis empty_iff empty_set set_sort)
  then obtain z zs where eq: "sort_key f xs = z # zs" by (meson list.exhaust)
  have "sorted (map f (sort_key f xs))" by simp
  moreover have "y \<in> set (sort_key f xs)" using assms by simp
  ultimately show ?thesis by (auto simp: eq)
qed

section \<open>Options as Python's truthiness\<close>

text \<open>\<open>x or y\<close> on optional strings: \<open>None\<close> and the empty string are falsy.\<close>

definition truthy :: "string option \<Rightarrow> bool" where
  "truthy x \<longleftrightarrow> (case x of None \<Rightarrow> False | Some s \<Rightarrow> s \<noteq> [])"

definition or_else :: "string option \<Rightarrow> string \<Rightarrow> string" where
  "or_else x d = (case x of None \<Rightarrow> d | Some s \<Rightarrow> if s = [] then d else s)"

lemma truthy_simps [simp]:
  "\<not> truthy None" "truthy (Some s) \<longleftrightarrow> s \<noteq> []"
  by (simp_all add: truthy_def)

lemma or_else_simps [simp]:
  "or_else None d = d" "or_else (Some s) d = (if s = [] then d else s)"
  by (simp_all add: or_else_def)

end
