(* ===== verification/PyText.thy ===== *)
theory PyText
  imports Prelude
begin

text \<open>
  Python's text operations, as the source uses them. A Python string is a sequence of code
  points; the model covers the code points below 256 (Latin-1), on which every predicate
  below agrees with Python's (\<open>str.isspace\<close>, \<open>str.isalnum\<close>, \<open>str.lower\<close>,
  \<open>str.splitlines\<close>).
\<close>

section \<open>Character classes\<close>

definition code :: "char \<Rightarrow> nat" where
  "code c = of_char c"

text \<open>\<open>str.isspace\<close>, which is also \<open>re\<close>'s class \<open>\s\<close> on strings.\<close>

definition isspace :: "char \<Rightarrow> bool" where
  "isspace c \<longleftrightarrow>
     (let n = code c in 9 \<le> n \<and> n \<le> 13 \<or> 28 \<le> n \<and> n \<le> 32 \<or> n = 133 \<or> n = 160)"

definition is_ascii_alnum :: "char \<Rightarrow> bool" where
  "is_ascii_alnum c \<longleftrightarrow>
     (let n = code c in 48 \<le> n \<and> n \<le> 57 \<or> 65 \<le> n \<and> n \<le> 90 \<or> 97 \<le> n \<and> n \<le> 122)"

text \<open>\<open>str.isalnum\<close>: letters, and the digits and fractions of the upper half.\<close>

definition isalnum :: "char \<Rightarrow> bool" where
  "isalnum c \<longleftrightarrow> is_ascii_alnum c \<or>
     (let n = code c in n = 170 \<or> n = 178 \<or> n = 179 \<or> n = 181 \<or> n = 185 \<or> n = 186 \<or>
        188 \<le> n \<and> n \<le> 190 \<or> 192 \<le> n \<and> n \<noteq> 215 \<and> n \<noteq> 247)"

text \<open>\<open>re\<close>'s class \<open>\w\<close>.\<close>

definition isword :: "char \<Rightarrow> bool" where
  "isword c \<longleftrightarrow> isalnum c \<or> c = CHR ''_''"

definition lower_char :: "char \<Rightarrow> char" where
  "lower_char c =
     (let n = code c in
      if 65 \<le> n \<and> n \<le> 90 \<or> 192 \<le> n \<and> n \<le> 222 \<and> n \<noteq> 215 then char_of (n + 32) else c)"

definition lower :: "string \<Rightarrow> string" where
  "lower s = map lower_char s"

section \<open>Stripping, splitting, joining\<close>

definition lstrip :: "string \<Rightarrow> string" where
  "lstrip s = dropWhile isspace s"

definition rstrip :: "string \<Rightarrow> string" where
  "rstrip s = rev (dropWhile isspace (rev s))"

definition strip :: "string \<Rightarrow> string" where
  "strip s = rstrip (lstrip s)"

text \<open>\<open>s.strip(chars)\<close>, \<open>s.lstrip(chars)\<close> and \<open>s.rstrip(chars)\<close>.\<close>

definition lstrip_chars :: "char list \<Rightarrow> string \<Rightarrow> string" where
  "lstrip_chars cs s = dropWhile (\<lambda>c. c \<in> set cs) s"

definition rstrip_chars :: "char list \<Rightarrow> string \<Rightarrow> string" where
  "rstrip_chars cs s = rev (dropWhile (\<lambda>c. c \<in> set cs) (rev s))"

definition strip_chars :: "char list \<Rightarrow> string \<Rightarrow> string" where
  "strip_chars cs s = rstrip_chars cs (lstrip_chars cs s)"

definition startswith :: "string \<Rightarrow> string \<Rightarrow> bool" where
  "startswith s p \<longleftrightarrow> take (length p) s = p"

definition endswith :: "string \<Rightarrow> string \<Rightarrow> bool" where
  "endswith s p \<longleftrightarrow> length p \<le> length s \<and> drop (length s - length p) s = p"

text \<open>\<open>s.split(sep)\<close> for a separator of one character.\<close>

fun split_on :: "char \<Rightarrow> string \<Rightarrow> string list" where
  "split_on sep [] = [[]]"
| "split_on sep (c # cs) =
     (if c = sep then [] # split_on sep cs
      else case split_on sep cs of [] \<Rightarrow> [[c]] | w # ws \<Rightarrow> (c # w) # ws)"

text \<open>\<open>s.split()\<close>: runs of white space separate, and no piece is empty.\<close>

fun split_ws_acc :: "string \<Rightarrow> string \<Rightarrow> string list" where
  "split_ws_acc acc [] = (if acc = [] then [] else [rev acc])"
| "split_ws_acc acc (c # cs) =
     (if isspace c then (if acc = [] then [] else [rev acc]) @ split_ws_acc [] cs
      else split_ws_acc (c # acc) cs)"

definition split_ws :: "string \<Rightarrow> string list" where
  "split_ws s = split_ws_acc [] s"

text \<open>\<open>str.splitlines\<close>: CR LF counts as one break, a final break opens no new line.\<close>

definition islinebreak :: "char \<Rightarrow> bool" where
  "islinebreak c \<longleftrightarrow>
     (let n = code c in 10 \<le> n \<and> n \<le> 13 \<or> 28 \<le> n \<and> n \<le> 30 \<or> n = 133)"

fun splitlines_acc :: "string \<Rightarrow> string \<Rightarrow> string list" where
  "splitlines_acc acc [] = (if acc = [] then [] else [rev acc])"
| "splitlines_acc acc [c] =
     (if islinebreak c then [rev acc] else [rev (c # acc)])"
| "splitlines_acc acc (c # d # cs) =
     (if c = CHR 0x0D \<and> d = CHR 0x0A then rev acc # splitlines_acc [] cs
      else if islinebreak c then rev acc # splitlines_acc [] (d # cs)
      else splitlines_acc (c # acc) (d # cs))"

definition splitlines :: "string \<Rightarrow> string list" where
  "splitlines s = splitlines_acc [] s"

fun join :: "string \<Rightarrow> string list \<Rightarrow> string" where
  "join sep [] = []"
| "join sep [w] = w"
| "join sep (w # ws) = w @ sep @ join sep ws"

definition newline :: string where
  "newline = [CHR 0x0A]"

definition replace_char :: "char \<Rightarrow> char \<Rightarrow> string \<Rightarrow> string" where
  "replace_char a b s = map (\<lambda>c. if c = a then b else c) s"

text \<open>
  \<open>s.split(sub, 1)\<close> and \<open>s.partition(sub)\<close> rest on the first occurrence of
  \<open>sub\<close>: \<open>cut_at sub s\<close> is the text before and after it, or \<open>None\<close>.
\<close>

fun cut_at :: "string \<Rightarrow> string \<Rightarrow> (string \<times> string) option" where
  "cut_at sub [] = (if sub = [] then Some ([], []) else None)"
| "cut_at sub (c # cs) =
     (if startswith (c # cs) sub then Some ([], drop (length sub) (c # cs))
      else case cut_at sub cs of None \<Rightarrow> None | Some (a, b) \<Rightarrow> Some (c # a, b))"

definition contains :: "string \<Rightarrow> string \<Rightarrow> bool" where
  "contains s sub \<longleftrightarrow> cut_at sub s \<noteq> None"

text \<open>\<open>s.rsplit(c, 1)[-1]\<close>: what follows the last occurrence of \<open>c\<close>.\<close>

definition after_last :: "char \<Rightarrow> string \<Rightarrow> string" where
  "after_last c s = rev (takeWhile (\<lambda>x. x \<noteq> c) (rev s))"

text \<open>
  \<open>int(s)\<close> on a decimal text: surrounding white space, a sign, digits with single underscores
  between them; \<open>None\<close> where it raises \<open>ValueError\<close>.
\<close>

definition is_digit :: "char \<Rightarrow> bool" where
  "is_digit c \<longleftrightarrow> 48 \<le> code c \<and> code c \<le> 57"

fun parse_digits :: "bool \<Rightarrow> int \<Rightarrow> string \<Rightarrow> int option" where
  "parse_digits after_digit acc [] = (if after_digit then Some acc else None)"
| "parse_digits after_digit acc (c # cs) =
     (if is_digit c then parse_digits True (10 * acc + (int (code c) - 48)) cs
      else if c = CHR ''_'' \<and> after_digit then parse_digits False acc cs
      else None)"

definition py_int :: "string \<Rightarrow> int option" where
  "py_int s =
     (case strip s of
        [] \<Rightarrow> None
      | c # cs \<Rightarrow>
          if c = CHR ''-'' then map_option uminus (parse_digits False 0 cs)
          else if c = CHR ''+'' then parse_digits False 0 cs
          else parse_digits False 0 (c # cs))"

section \<open>The classes bit by bit\<close>

text \<open>
  A character is its eight bits, least significant first; these forms of the classes let a
  concrete text be evaluated without arithmetic.
\<close>

definition low_letter :: "bool \<Rightarrow> bool \<Rightarrow> bool \<Rightarrow> bool \<Rightarrow> bool \<Rightarrow> bool" where
  "low_letter b0 b1 b2 b3 b4 \<longleftrightarrow>
     (b0 \<or> b1 \<or> b2 \<or> b3 \<or> b4) \<and> \<not> (b4 \<and> b3 \<and> (b2 \<or> b1 \<and> b0))"

lemma isspace_bits [code]:
  "isspace (Char b0 b1 b2 b3 b4 b5 b6 b7) \<longleftrightarrow>
     \<not> b6 \<and>
     (if b7 then \<not> b4 \<and> \<not> b3 \<and> \<not> b1 \<and> (if b5 then \<not> b2 \<and> \<not> b0 else b2 \<and> b0)
      else if b5 then \<not> b4 \<and> \<not> b3 \<and> \<not> b2 \<and> \<not> b1 \<and> \<not> b0
      else b3 \<and> (if b4 then b2 else if b2 then \<not> b1 else b1 \<or> b0))"
  by (cases b0; cases b1; cases b2; cases b3; cases b4; cases b5; cases b6; cases b7;
      simp add: isspace_def code_def)

lemma is_ascii_alnum_bits [code]:
  "is_ascii_alnum (Char b0 b1 b2 b3 b4 b5 b6 b7) \<longleftrightarrow>
     \<not> b7 \<and> (if b6 then low_letter b0 b1 b2 b3 b4 else b5 \<and> b4 \<and> (\<not> b3 \<or> \<not> b2 \<and> \<not> b1))"
  by (cases b0; cases b1; cases b2; cases b3; cases b4; cases b5; cases b6; cases b7;
      simp add: is_ascii_alnum_def code_def low_letter_def)

lemma lower_char_bits [code]:
  "lower_char (Char b0 b1 b2 b3 b4 b5 b6 b7) =
     (if b6 \<and> \<not> b5 \<and>
         (if b7 then \<not> (b4 \<and> b3 \<and> b2 \<and> b1 \<and> b0) \<and> \<not> (b4 \<and> \<not> b3 \<and> b2 \<and> b1 \<and> b0)
          else low_letter b0 b1 b2 b3 b4)
      then Char b0 b1 b2 b3 b4 True b6 b7 else Char b0 b1 b2 b3 b4 b5 b6 b7)"
  by (cases b0; cases b1; cases b2; cases b3; cases b4; cases b5; cases b6; cases b7;
      simp add: lower_char_def code_def low_letter_def char_of_def bit_0)

lemma islinebreak_bits [code]:
  "islinebreak (Char b0 b1 b2 b3 b4 b5 b6 b7) \<longleftrightarrow>
     \<not> b6 \<and> \<not> b5 \<and>
     (if b7 then \<not> b4 \<and> \<not> b3 \<and> b2 \<and> \<not> b1 \<and> b0
      else b3 \<and> (if b4 then b2 \<and> \<not> (b1 \<and> b0) else if b2 then \<not> b1 else b1))"
  by (cases b0; cases b1; cases b2; cases b3; cases b4; cases b5; cases b6; cases b7;
      simp add: islinebreak_def code_def)

section \<open>Facts\<close>

lemma startswith_iff: "startswith s p \<longleftrightarrow> (\<exists>r. s = p @ r)"
  by (metis append_eq_conv_conj append_take_drop_id startswith_def)

lemma endswith_iff: "endswith s p \<longleftrightarrow> (\<exists>r. s = r @ p)"
proof
  assume "endswith s p"
  then show "\<exists>r. s = r @ p" unfolding endswith_def by (metis append_take_drop_id)
next
  assume "\<exists>r. s = r @ p"
  then show "endswith s p" by (auto simp: endswith_def)
qed

lemma startswith_append [simp]: "startswith (p @ s) p"
  by (simp add: startswith_def)

lemma length_lower [simp]: "length (lower s) = length s"
  by (simp add: lower_def)

lemma lower_append [simp]: "lower (s @ t) = lower s @ lower t"
  by (simp add: lower_def)

lemma split_on_ne [simp]: "split_on sep s \<noteq> []"
  by (induction s) (auto split: list.split)

lemma split_on_no_sep: "w \<in> set (split_on sep s) \<Longrightarrow> sep \<notin> set w"
  by (induction s arbitrary: w) (auto split: if_splits list.splits)

lemma join_split_on: "join [sep] (split_on sep s) = s"
proof (induction s)
  case (Cons c cs)
  show ?case
  proof (cases "split_on sep cs")
    case Nil
    then show ?thesis by simp
  next
    case (Cons w ws)
    with Cons.IH show ?thesis by (cases ws) auto
  qed
qed simp

lemma strip_sub: "set (strip s) \<subseteq> set s"
proof -
  have "set (dropWhile P xs) \<subseteq> set xs" for P :: "char \<Rightarrow> bool" and xs
    by (auto dest: set_dropWhileD)
  then show ?thesis
    unfolding strip_def rstrip_def lstrip_def by (metis order.trans set_rev)
qed

lemma strip_idem [simp]: "strip (strip s) = strip s"
proof -
  have idem: "rstrip (rstrip t) = rstrip t" for t
    by (simp add: rstrip_def dropWhile_idem)
  have comm: "lstrip (rstrip (lstrip s)) = rstrip (lstrip s)"
  proof (cases "rstrip (lstrip s)")
    case (Cons c t)
    then have "\<exists>r. lstrip s = (c # t) @ r"
      unfolding rstrip_def
      by (metis rev_append rev_rev_ident takeWhile_dropWhile_id)
    then have "\<not> isspace c"
      unfolding lstrip_def by (metis append_Cons hd_dropWhile list.discI list.sel(1))
    with Cons show ?thesis by (simp add: lstrip_def)
  qed (simp add: lstrip_def)
  show ?thesis by (simp add: strip_def comm idem)
qed

lemma cut_Some: "cut_at sub s = Some (a, b) \<Longrightarrow> s = a @ sub @ b"
proof (induction s arbitrary: a b)
  case (Cons c cs)
  show ?case
  proof (cases "startswith (c # cs) sub")
    case True
    with Cons.prems show ?thesis
      by (auto simp: startswith_iff)
  next
    case False
    with Cons show ?thesis by (auto split: option.splits)
  qed
qed (auto split: if_splits)

lemma cut_first: "cut_at sub s = Some (a, b) \<Longrightarrow> sub \<noteq> [] \<Longrightarrow> cut_at sub a = None"
proof (induction s arbitrary: a b)
  case (Cons c cs)
  show ?case
  proof (cases "startswith (c # cs) sub")
    case True
    with Cons.prems show ?thesis by auto
  next
    case False
    with Cons.prems obtain a' where a: "a = c # a'" and rec: "cut_at sub cs = Some (a', b)"
      by (auto split: option.splits)
    from Cons.prems(1) have "c # cs = a @ sub @ b" by (rule cut_Some)
    with False a have "\<not> startswith (c # a') sub"
      by (metis append_Cons append_assoc list.inject startswith_iff)
    moreover have "cut_at sub a' = None" using Cons.IH [OF rec] Cons.prems(2) by simp
    ultimately show ?thesis by (simp add: a)
  qed
qed (auto split: if_splits)

lemma contains_iff: "contains s sub \<longleftrightarrow> (\<exists>a b. s = a @ sub @ b)"
proof
  assume "contains s sub"
  then show "\<exists>a b. s = a @ sub @ b"
    by (auto simp: contains_def dest: cut_Some)
next
  assume "\<exists>a b. s = a @ sub @ b"
  then obtain a b where "s = a @ sub @ b" by blast
  then show "contains s sub"
  proof (induction a arbitrary: s)
    case Nil
    then have "startswith s sub" by simp
    then show ?case by (cases s) (auto simp: contains_def startswith_def)
  next
    case (Cons c a)
    then have "contains (a @ sub @ b) sub" by simp
    with Cons.prems show ?case by (auto simp: contains_def split: option.splits)
  qed
qed

lemma isspace_lower: "isspace c \<Longrightarrow> lower_char c = c"
  by (auto simp: isspace_def lower_char_def Let_def)

lemma lower_no_space: "\<forall>c \<in> set (lower x). \<not> isspace c \<Longrightarrow> \<forall>c \<in> set x. \<not> isspace c"
  unfolding lower_def using isspace_lower by fastforce

lemma split_ws_acc_word:
  "\<forall>c \<in> set w. \<not> isspace c \<Longrightarrow> isspace d \<Longrightarrow> rev acc @ w \<noteq> [] \<Longrightarrow>
     split_ws_acc acc (w @ d # r) = (rev acc @ w) # split_ws_acc [] r"
  by (induction w arbitrary: acc) auto

lemma split_ws_word:
  "\<forall>c \<in> set w. \<not> isspace c \<Longrightarrow> isspace d \<Longrightarrow> w \<noteq> [] \<Longrightarrow> split_ws (w @ d # r) = w # split_ws r"
  using split_ws_acc_word [of w d "[]" r] by (simp add: split_ws_def)

end
