(* ===== verification/Models.thy ===== *)
theory Models
  imports PyText
begin

text \<open>
  The data the components exchange: the queue records of \<open>queue/models.py\<close>, the messages of
  \<open>transports/base.py\<close>, and the exceptions the modelled code raises, with the exception
  classes its handlers catch.
\<close>

section \<open>Queue records (queue/models.py)\<close>

datatype task_state =
  RECEIVED | QUEUED | RUNNING | ACTION | DONE | FAILED | REJECTED | APPROVED

fun state_value :: "task_state \<Rightarrow> string" where
  "state_value RECEIVED = ''received''"
| "state_value QUEUED = ''queued''"
| "state_value RUNNING = ''running''"
| "state_value ACTION = ''action''"
| "state_value DONE = ''done''"
| "state_value FAILED = ''failed''"
| "state_value REJECTED = ''rejected''"
| "state_value APPROVED = ''approved''"

definition all_states :: "task_state list" where
  "all_states = [RECEIVED, QUEUED, RUNNING, ACTION, DONE, FAILED, REJECTED, APPROVED]"

text \<open>\<open>TaskState(value)\<close>: the member with that value; the class raises on any other.\<close>

definition state_of_value :: "string \<Rightarrow> task_state option" where
  "state_of_value v = List.find (\<lambda>st. state_value st = v) all_states"

lemma state_of_value_inverse [simp]: "state_of_value (state_value st) = Some st"
  by (cases st) (simp_all add: state_of_value_def all_states_def)

lemma state_value_inject [simp]: "state_value a = state_value b \<longleftrightarrow> a = b"
  by (cases a; cases b) simp_all

record evidence =
  ev_branch :: "string option"
  ev_commit :: "string option"
  ev_pr_url :: "string option"

record task_spec =
  sp_repo_url :: string
  sp_base_branch :: string
  sp_instructions :: string
  sp_model_request :: "string option"
  sp_verify :: "string option"
  sp_depends_on :: "string list"

record task =
  t_id :: string
  t_transport_id :: string
  t_thread_id :: "string option"
  t_sender :: "string option"
  t_subject :: "string option"
  t_state :: task_state
  t_attempts :: nat
  t_lease_until :: "time option"
  t_created_at :: time
  t_spec :: "task_spec option"
  t_evidence :: "evidence option"

text \<open>The constructor call \<open>Task(id=..., transport_id=...)\<close> with every default; \<open>now\<close> is
  what the \<open>created_at\<close> factory reads.\<close>

definition new_task :: "string \<Rightarrow> string \<Rightarrow> time \<Rightarrow> task" where
  "new_task i tr now =
     \<lparr>t_id = i, t_transport_id = tr, t_thread_id = None, t_sender = None, t_subject = None,
      t_state = RECEIVED, t_attempts = 0, t_lease_until = None, t_created_at = now,
      t_spec = None, t_evidence = None\<rparr>"

definition new_spec :: "string \<Rightarrow> task_spec" where
  "new_spec url =
     \<lparr>sp_repo_url = url, sp_base_branch = ''main'', sp_instructions = [],
      sp_model_request = None, sp_verify = None, sp_depends_on = []\<rparr>"

section \<open>Messages (transports/base.py)\<close>

record attachment =
  at_name :: string
  at_content_type :: string
  at_size :: int

record raw_message =
  rm_transport_id :: string
  rm_thread_id :: "string option"
  rm_sender :: "string option"
  rm_subject :: "string option"
  rm_body :: string
  rm_attachments :: "attachment list"
  rm_headers :: "(string, string) dict"
  rm_received_at :: time

definition has_attachments :: "raw_message \<Rightarrow> bool" where
  "has_attachments m \<longleftrightarrow> rm_attachments m \<noteq> []"

record outbound =
  ob_thread_id :: "string option"
  ob_subject :: string
  ob_body :: string
  ob_headers :: "(string, string) dict"

section \<open>Exceptions\<close>

datatype exn =
    TaskNotFoundError string
  | StateConflictError string task_state task_state
  | UnknownTokenError string
  | ExpiredTokenError string
  | TokenAlreadyUsedError string
  | ApprovalNotApplicableError string task_state
  | ApprovalMismatchError string string
  | MissingSignatureError
  | UnauthorizedSenderError "string option"
  | BadSignatureError
  | RateLimitedError string
  | EmailAuthError string
  | GitError string
  | ProtectedBranchError string
  | WorktreeError string
  | SandboxError string
  | TaskWorkerError string
  | DispatchError string
  | DecisionError string
  | ReviewError string
  | ProviderError string
  | UnknownProviderError string
  | InboundError string
  | RuntimeError string
  | ValueError string
  | KeyError string
  | AssertionError
  | NotImplementedError string
  | FileNotFoundError string
  | TimeoutExpired string "string option" "string option"
  | OSError string
  | TypeError string
  | LookupError string
  | RepoError string
  | EnvironmentBuildError string
  | JSONDecodeError string
  | JmapError string
  | StateMismatchError string
  | KubernetesError string
  | TransportError string
  | AgentMailError string
  | ImapError string
  | SmtpError string
  | EventSourceError string
  | AttributeError string
  | IndexError string
  | URLError string
  | YAMLError string
  | HTTPError int string string
  | OtherError string

text \<open>
  \<open>TimeoutExpired\<close> carries the output captured so far, \<open>HTTPError\<close> the status, the
  reason and the body of the response. The classes the handlers catch (\<open>except QueueError\<close>, \<open>except AuthError\<close>, ...).\<close>

fun is_QueueError :: "exn \<Rightarrow> bool" where
  "is_QueueError (TaskNotFoundError _) = True"
| "is_QueueError (StateConflictError _ _ _) = True"
| "is_QueueError _ = False"

fun is_ApprovalError :: "exn \<Rightarrow> bool" where
  "is_ApprovalError (UnknownTokenError _) = True"
| "is_ApprovalError (ExpiredTokenError _) = True"
| "is_ApprovalError (TokenAlreadyUsedError _) = True"
| "is_ApprovalError (ApprovalNotApplicableError _ _) = True"
| "is_ApprovalError (ApprovalMismatchError _ _) = True"
| "is_ApprovalError _ = False"

fun is_AuthError :: "exn \<Rightarrow> bool" where
  "is_AuthError MissingSignatureError = True"
| "is_AuthError (UnauthorizedSenderError _) = True"
| "is_AuthError BadSignatureError = True"
| "is_AuthError (RateLimitedError _) = True"
| "is_AuthError (EmailAuthError _) = True"
| "is_AuthError _ = False"

fun is_GitError :: "exn \<Rightarrow> bool" where
  "is_GitError (GitError _) = True"
| "is_GitError (ProtectedBranchError _) = True"
| "is_GitError _ = False"

text \<open>\<open>type(exc).__name__\<close>.\<close>

fun exn_name :: "exn \<Rightarrow> string" where
  "exn_name (TaskNotFoundError _) = ''TaskNotFoundError''"
| "exn_name (StateConflictError _ _ _) = ''StateConflictError''"
| "exn_name (UnknownTokenError _) = ''UnknownTokenError''"
| "exn_name (ExpiredTokenError _) = ''ExpiredTokenError''"
| "exn_name (TokenAlreadyUsedError _) = ''TokenAlreadyUsedError''"
| "exn_name (ApprovalNotApplicableError _ _) = ''ApprovalNotApplicableError''"
| "exn_name (ApprovalMismatchError _ _) = ''ApprovalMismatchError''"
| "exn_name MissingSignatureError = ''MissingSignatureError''"
| "exn_name (UnauthorizedSenderError _) = ''UnauthorizedSenderError''"
| "exn_name BadSignatureError = ''BadSignatureError''"
| "exn_name (RateLimitedError _) = ''RateLimitedError''"
| "exn_name (EmailAuthError _) = ''EmailAuthError''"
| "exn_name (GitError _) = ''GitError''"
| "exn_name (ProtectedBranchError _) = ''ProtectedBranchError''"
| "exn_name (WorktreeError _) = ''WorktreeError''"
| "exn_name (SandboxError _) = ''SandboxError''"
| "exn_name (TaskWorkerError _) = ''TaskWorkerError''"
| "exn_name (DispatchError _) = ''DispatchError''"
| "exn_name (DecisionError _) = ''DecisionError''"
| "exn_name (ReviewError _) = ''ReviewError''"
| "exn_name (ProviderError _) = ''ProviderError''"
| "exn_name (UnknownProviderError _) = ''UnknownProviderError''"
| "exn_name (InboundError _) = ''InboundError''"
| "exn_name (RuntimeError _) = ''RuntimeError''"
| "exn_name (ValueError _) = ''ValueError''"
| "exn_name (KeyError _) = ''KeyError''"
| "exn_name AssertionError = ''AssertionError''"
| "exn_name (NotImplementedError _) = ''NotImplementedError''"
| "exn_name (FileNotFoundError _) = ''FileNotFoundError''"
| "exn_name (TimeoutExpired _ _ _) = ''TimeoutExpired''"
| "exn_name (OSError _) = ''OSError''"
| "exn_name (TypeError _) = ''TypeError''"
| "exn_name (LookupError _) = ''LookupError''"
| "exn_name (RepoError _) = ''RepoError''"
| "exn_name (EnvironmentBuildError _) = ''EnvironmentBuildError''"
| "exn_name (JSONDecodeError _) = ''JSONDecodeError''"
| "exn_name (JmapError _) = ''JmapError''"
| "exn_name (StateMismatchError _) = ''StateMismatchError''"
| "exn_name (KubernetesError _) = ''KubernetesError''"
| "exn_name (TransportError _) = ''TransportError''"
| "exn_name (AgentMailError _) = ''AgentMailError''"
| "exn_name (ImapError _) = ''ImapError''"
| "exn_name (SmtpError _) = ''SmtpError''"
| "exn_name (EventSourceError _) = ''EventSourceError''"
| "exn_name (AttributeError _) = ''AttributeError''"
| "exn_name (IndexError _) = ''IndexError''"
| "exn_name (URLError _) = ''URLError''"
| "exn_name (YAMLError _) = ''YAMLError''"
| "exn_name (HTTPError _ _ _) = ''HTTPError''"
| "exn_name (OtherError n) = n"

section \<open>repr and the texts of the exceptions\<close>

definition hex_digit :: "nat \<Rightarrow> char" where
  "hex_digit n = (if n < 10 then char_of (48 + n) else char_of (87 + n))"

definition printable :: "char \<Rightarrow> bool" where
  "printable c \<longleftrightarrow> (let n = code c in 32 \<le> n \<and> n < 127 \<or> 161 \<le> n \<and> n \<noteq> 173)"

definition repr_char :: "char \<Rightarrow> char \<Rightarrow> string" where
  "repr_char q c =
     (let n = code c; bs = char_of (92::nat) in
      if c = q \<or> n = 92 then [bs, c]
      else if n = 10 then [bs, CHR ''n'']
      else if n = 13 then [bs, CHR ''r'']
      else if n = 9 then [bs, CHR ''t'']
      else if printable c then [c]
      else [bs, CHR ''x'', hex_digit (n div 16), hex_digit (n mod 16)])"

text \<open>\<open>repr(s)\<close>: single quotes unless the text has one and no double quote.\<close>

definition py_repr :: "string \<Rightarrow> string" where
  "py_repr s =
     (let sq = char_of (39::nat); dq = char_of (34::nat);
          q = (if sq \<in> set s \<and> dq \<notin> set s then dq else sq)
      in [q] @ concat (map (repr_char q) s) @ [q])"

text \<open>\<open>repr\<close> of a list and of a tuple of texts.\<close>

definition py_repr_list :: "string list \<Rightarrow> string" where
  "py_repr_list xs = ''['' @ join '', '' (map py_repr xs) @ '']''"

definition py_repr_tuple :: "string list \<Rightarrow> string" where
  "py_repr_tuple xs =
     (case xs of [x] \<Rightarrow> ''('' @ py_repr x @ '',)'' | _ \<Rightarrow> ''('' @ join '', '' (map py_repr xs) @ '')'')"

fun digits_of :: "nat \<Rightarrow> string" where
  "digits_of n =
     (if n < 10 then [char_of (48 + n)] else digits_of (n div 10) @ [char_of (48 + n mod 10)])"

declare digits_of.simps [simp del]

definition show_int :: "int \<Rightarrow> string" where
  "show_int i = (if i < 0 then CHR ''-'' # digits_of (nat (- i)) else digits_of (nat i))"

text \<open>\<open>str(exc)\<close> for the exceptions whose text is sent to a human.\<close>

fun exn_text :: "exn \<Rightarrow> string" where
  "exn_text (TaskNotFoundError i) = ''no task with id '' @ py_repr i"
| "exn_text (StateConflictError i expected actual) =
     ''task '' @ py_repr i @ '' is '' @ state_value actual @ '', expected '' @ state_value expected"
| "exn_text (UnknownTokenError tk) = tk"
| "exn_text (ExpiredTokenError tk) = tk"
| "exn_text (TokenAlreadyUsedError tk) = tk"
| "exn_text (ApprovalNotApplicableError i st) =
     ''task '' @ py_repr i @ '' is '' @ state_value st @ '' and does not need a decision''"
| "exn_text (ApprovalMismatchError i f) =
     ''approval for '' @ py_repr i @ '' does not match the '' @ f"
| "exn_text MissingSignatureError = ''missing signature header''"
| "exn_text (UnauthorizedSenderError s) = (case s of None \<Rightarrow> ''None'' | Some x \<Rightarrow> x)"
| "exn_text BadSignatureError = ''signature mismatch''"
| "exn_text (RateLimitedError s) = s"
| "exn_text (EmailAuthError s) = s"
| "exn_text (GitError s) = s"
| "exn_text (ProtectedBranchError s) = s"
| "exn_text (WorktreeError s) = s"
| "exn_text (SandboxError s) = s"
| "exn_text (TaskWorkerError s) = s"
| "exn_text (DispatchError s) = s"
| "exn_text (DecisionError s) = s"
| "exn_text (ReviewError s) = s"
| "exn_text (ProviderError s) = s"
| "exn_text (UnknownProviderError s) = s"
| "exn_text (InboundError s) = s"
| "exn_text (RuntimeError s) = s"
| "exn_text (ValueError s) = s"
| "exn_text (KeyError s) = py_repr s"
| "exn_text AssertionError = []"
| "exn_text (NotImplementedError s) = s"
| "exn_text (FileNotFoundError s) = s"
| "exn_text (TimeoutExpired s _ _) = s"
| "exn_text (OSError s) = s"
| "exn_text (TypeError s) = s"
| "exn_text (LookupError s) = s"
| "exn_text (RepoError s) = s"
| "exn_text (EnvironmentBuildError s) = s"
| "exn_text (JSONDecodeError s) = s"
| "exn_text (JmapError s) = s"
| "exn_text (StateMismatchError s) = s"
| "exn_text (KubernetesError s) = s"
| "exn_text (TransportError s) = s"
| "exn_text (AgentMailError s) = s"
| "exn_text (ImapError s) = s"
| "exn_text (SmtpError s) = s"
| "exn_text (EventSourceError s) = s"
| "exn_text (AttributeError s) = s"
| "exn_text (IndexError s) = s"
| "exn_text (URLError s) = s"
| "exn_text (YAMLError s) = s"
| "exn_text (HTTPError n reason _) = ''HTTP Error '' @ show_int n @ '': '' @ reason"
| "exn_text (OtherError s) = s"

end
