(* ===== verification/QueuePort.thy ===== *)
theory QueuePort
  imports Models
begin

text \<open>
  The queue interface (\<open>queue/port.py\<close>). A component that receives a \<open>Queue\<close> object
  takes a record of its operations; the locale \<open>task_queue\<close> states what every backend
  promises, by what each operation does to an abstract store (task ids to tasks); labelled
  steps and runs describe any number of clients whose operations interleave.
\<close>

section \<open>The operations of a queue object\<close>

record 'q queue_ops =
  q_enqueue :: "task \<Rightarrow> task_state \<Rightarrow> time \<Rightarrow> 'q \<Rightarrow> task option \<times> 'q"
  q_get :: "string \<Rightarrow> 'q \<Rightarrow> task option"
  q_list :: "task_state \<Rightarrow> int \<Rightarrow> 'q \<Rightarrow> task list"
  q_claim :: "task \<Rightarrow> duration \<Rightarrow> time \<Rightarrow> 'q \<Rightarrow> bool \<times> 'q"
  q_claim_next :: "duration \<Rightarrow> time \<Rightarrow> 'q \<Rightarrow> task option \<times> 'q"
  q_transition :: "task \<Rightarrow> task_state \<Rightarrow> evidence option \<Rightarrow> time \<Rightarrow> 'q \<Rightarrow> (exn + task) \<times> 'q"
  q_release_stale :: "time \<Rightarrow> 'q \<Rightarrow> task list \<times> 'q"

section \<open>The abstract store\<close>

type_synonym store = "string \<rightharpoonup> task"

definition fresh :: "store \<Rightarrow> task \<Rightarrow> bool" where
  "fresh m t \<longleftrightarrow>
     m (t_id t) = None \<and> (\<forall>i t'. m i = Some t' \<longrightarrow> t_transport_id t' \<noteq> t_transport_id t)"

definition enqueued :: "task_state \<Rightarrow> time \<Rightarrow> task \<Rightarrow> task" where
  "enqueued st now t =
     t\<lparr>t_state := st, t_attempts := 0, t_lease_until := None, t_created_at := now\<rparr>"

definition claimed :: "duration \<Rightarrow> time \<Rightarrow> task \<Rightarrow> task" where
  "claimed lease now t = t\<lparr>t_state := RUNNING, t_lease_until := Some (now + lease)\<rparr>"

definition moved :: "task_state \<Rightarrow> evidence option \<Rightarrow> task \<Rightarrow> task" where
  "moved to_state ev t =
     t\<lparr>t_state := to_state,
       t_lease_until := (if to_state = RUNNING then t_lease_until t else None),
       t_evidence := ev\<rparr>"

definition stale :: "time \<Rightarrow> task \<Rightarrow> bool" where
  "stale now t \<longleftrightarrow>
     t_state t = RUNNING \<and> (case t_lease_until t of None \<Rightarrow> False | Some l \<Rightarrow> l < now)"

definition released :: "task \<Rightarrow> task" where
  "released t = t\<lparr>t_state := QUEUED, t_attempts := t_attempts t + 1, t_lease_until := None\<rparr>"

lemmas update_defs = enqueued_def claimed_def moved_def released_def

text \<open>What never changes about a task once it is stored.\<close>

definition same_task :: "task \<Rightarrow> task \<Rightarrow> bool" where
  "same_task t t' \<longleftrightarrow>
     t_id t' = t_id t \<and> t_transport_id t' = t_transport_id t \<and> t_thread_id t' = t_thread_id t \<and>
     t_sender t' = t_sender t \<and> t_subject t' = t_subject t \<and> t_spec t' = t_spec t \<and>
     t_created_at t' = t_created_at t"

lemma same_task_refl [simp]: "same_task t t"
  by (simp add: same_task_def)

lemma same_task_trans: "same_task a b \<Longrightarrow> same_task b c \<Longrightarrow> same_task a c"
  by (auto simp: same_task_def)

lemma same_task_updates [simp]:
  "same_task t (claimed l now t)" "same_task t (moved st ev t)" "same_task t (released t)"
  by (simp_all add: same_task_def update_defs)

text \<open>Ids key the store and a transport id names one task.\<close>

definition store_ok :: "store \<Rightarrow> bool" where
  "store_ok m \<longleftrightarrow>
     finite (dom m) \<and> (\<forall>i t. m i = Some t \<longrightarrow> t_id t = i) \<and>
     (\<forall>i j t t'. m i = Some t \<longrightarrow> m j = Some t' \<longrightarrow> t_transport_id t = t_transport_id t' \<longrightarrow> i = j)"

text \<open>Only a running task holds a lease.\<close>

definition leases_ok :: "store \<Rightarrow> bool" where
  "leases_ok m \<longleftrightarrow> (\<forall>i t. m i = Some t \<longrightarrow> t_lease_until t \<noteq> None \<longrightarrow> t_state t = RUNNING)"

lemma store_okD: "store_ok m \<Longrightarrow> m i = Some t \<Longrightarrow> t_id t = i"
  by (simp add: store_ok_def)

lemma store_ok_update:
  assumes "store_ok m" and "m i = Some t" and "same_task t t'"
  shows "store_ok (m(i \<mapsto> t'))"
  using assms unfolding store_ok_def same_task_def by (auto split: if_splits)

lemma store_ok_insert:
  assumes ok: "store_ok m" and fr: "fresh m t"
    and "t_id t' = t_id t" "t_transport_id t' = t_transport_id t"
  shows "store_ok (m(t_id t \<mapsto> t'))"
  using assms unfolding store_ok_def fresh_def by (auto split: if_splits) metis+

lemma store_ok_map:
  assumes "store_ok m" and "\<And>t. same_task t (f t)"
  shows "store_ok (\<lambda>i. map_option f (m i))"
proof -
  have "dom (\<lambda>i. map_option f (m i)) = dom m" by (auto simp: dom_def)
  with assms show ?thesis unfolding store_ok_def same_task_def by fastforce
qed

text \<open>
  The queue's order: creation time, then the id as the backend compares ids (\<open>idkey\<close> is the
  identity for Python's \<open>str\<close> and the collation's sort key for a database).
\<close>

definition age :: "(string \<Rightarrow> string) \<Rightarrow> task \<Rightarrow> time \<times> string" where
  "age idkey t = (t_created_at t, idkey (t_id t))"

lemma age_created: "age k s \<le> age k u \<Longrightarrow> t_created_at s \<le> t_created_at u"
  by (auto simp: age_def less_eq_prod_simp)

section \<open>The interface as a locale\<close>

text \<open>
  \<open>canon\<close> is what a backend keeps of an enqueued task, \<open>merge_ev\<close> how it combines the
  evidence of a transition with the evidence it holds.
\<close>

locale task_queue =
  fixes Q :: "'q queue_ops"
    and store :: "'q \<Rightarrow> store"
    and invar :: "'q \<Rightarrow> bool"
    and canon :: "task \<Rightarrow> task"
    and merge_ev :: "evidence option \<Rightarrow> evidence option \<Rightarrow> evidence option"
    and idkey :: "string \<Rightarrow> string"
  assumes canon_keys: "t_id (canon t) = t_id t" "t_transport_id (canon t) = t_transport_id t"
    and invar_store: "invar q \<Longrightarrow> store_ok (store q)"
    and get_law: "invar q \<Longrightarrow> q_get Q i q = store q i"
    and list_sound: "invar q \<Longrightarrow> 0 \<le> limit \<Longrightarrow> t \<in> set (q_list Q st limit q) \<Longrightarrow>
          store q (t_id t) = Some t \<and> t_state t = st"
    and list_sorted: "invar q \<Longrightarrow> 0 \<le> limit \<Longrightarrow> sorted (map (age idkey) (q_list Q st limit q))"
    and list_distinct: "invar q \<Longrightarrow> 0 \<le> limit \<Longrightarrow> distinct (q_list Q st limit q)"
    and list_complete: "invar q \<Longrightarrow> 0 \<le> limit \<Longrightarrow> store q i = Some t \<Longrightarrow> t_state t = st \<Longrightarrow>
          t \<notin> set (q_list Q st limit q) \<Longrightarrow>
          int (length (q_list Q st limit q)) = limit \<and>
          (\<forall>u \<in> set (q_list Q st limit q). age idkey u \<le> age idkey t)"
    and list_length: "invar q \<Longrightarrow> 0 \<le> limit \<Longrightarrow> int (length (q_list Q st limit q)) \<le> limit"
    and enqueue_invar: "invar q \<Longrightarrow> invar (snd (q_enqueue Q t st now q))"
    and enqueue_fresh: "invar q \<Longrightarrow> fresh (store q) t \<Longrightarrow>
          fst (q_enqueue Q t st now q) = Some (enqueued st now (canon t)) \<and>
          store (snd (q_enqueue Q t st now q)) = (store q)(t_id t \<mapsto> enqueued st now (canon t))"
    and enqueue_dup: "invar q \<Longrightarrow> \<not> fresh (store q) t \<Longrightarrow> q_enqueue Q t st now q = (None, q)"
    and claim_invar: "invar q \<Longrightarrow> invar (snd (q_claim Q t lease now q))"
    and claim_ok: "invar q \<Longrightarrow> store q (t_id t) = Some s \<Longrightarrow> t_state s = QUEUED \<Longrightarrow>
          fst (q_claim Q t lease now q) \<and>
          store (snd (q_claim Q t lease now q)) = (store q)(t_id t \<mapsto> claimed lease now s)"
    and claim_lost: "invar q \<Longrightarrow> \<not> (\<exists>s. store q (t_id t) = Some s \<and> t_state s = QUEUED) \<Longrightarrow>
          q_claim Q t lease now q = (False, q)"
    and claim_next_invar: "invar q \<Longrightarrow> invar (snd (q_claim_next Q lease now q))"
    and claim_next_some: "invar q \<Longrightarrow> q_claim_next Q lease now q = (Some t, q') \<Longrightarrow>
          (\<exists>s. store q (t_id t) = Some s \<and> t_state s = QUEUED \<and> t = claimed lease now s \<and>
               store q' = (store q)(t_id t \<mapsto> t) \<and>
               (\<forall>i u. store q i = Some u \<longrightarrow> t_state u = QUEUED \<longrightarrow> age idkey s \<le> age idkey u))"
    and claim_next_none: "invar q \<Longrightarrow> q_claim_next Q lease now q = (None, q') \<Longrightarrow>
          q' = q \<and> (\<forall>i u. store q i = Some u \<longrightarrow> t_state u \<noteq> QUEUED)"
    and transition_invar: "invar q \<Longrightarrow> invar (snd (q_transition Q t st ev now q))"
    and transition_missing: "invar q \<Longrightarrow> store q (t_id t) = None \<Longrightarrow>
          q_transition Q t st ev now q = (Inl (TaskNotFoundError (t_id t)), q)"
    and transition_conflict: "invar q \<Longrightarrow> store q (t_id t) = Some s \<Longrightarrow> t_state s \<noteq> t_state t \<Longrightarrow>
          q_transition Q t st ev now q =
            (Inl (StateConflictError (t_id t) (t_state t) (t_state s)), q)"
    and transition_ok: "invar q \<Longrightarrow> store q (t_id t) = Some s \<Longrightarrow> t_state s = t_state t \<Longrightarrow>
          fst (q_transition Q t st ev now q) = Inr (moved st (merge_ev ev (t_evidence s)) s) \<and>
          store (snd (q_transition Q t st ev now q)) =
            (store q)(t_id t \<mapsto> moved st (merge_ev ev (t_evidence s)) s)"
    and release_invar: "invar q \<Longrightarrow> invar (snd (q_release_stale Q now q))"
    and release_store: "invar q \<Longrightarrow>
          store (snd (q_release_stale Q now q)) =
            (\<lambda>i. map_option (\<lambda>t. if stale now t then released t else t) (store q i))"
    and release_result: "invar q \<Longrightarrow>
          set (fst (q_release_stale Q now q)) =
            {released t | t i. store q i = Some t \<and> stale now t}"
    and release_distinct: "invar q \<Longrightarrow> distinct (map t_id (fst (q_release_stale Q now q)))"
    and release_sorted: "invar q \<Longrightarrow> sorted (map (age (\<lambda>i. i)) (fst (q_release_stale Q now q)))"

section \<open>Labelled steps and runs\<close>

datatype qlabel =
    Enqueued string task_state
  | Duplicate string
  | Claimed string
  | ClaimLost
  | Moved string task_state task_state
  | MoveFailed exn
  | Released "string list"

inductive qstep :: "'q queue_ops \<Rightarrow> 'q \<Rightarrow> qlabel \<Rightarrow> 'q \<Rightarrow> bool" for Q where
  enq: "q_enqueue Q t st now q = (Some t', q') \<Longrightarrow> qstep Q q (Enqueued (t_id t) st) q'"
| dup: "q_enqueue Q t st now q = (None, q') \<Longrightarrow> qstep Q q (Duplicate (t_id t)) q'"
| claim: "q_claim Q t lease now q = (True, q') \<Longrightarrow> qstep Q q (Claimed (t_id t)) q'"
| claim_lost: "q_claim Q t lease now q = (False, q') \<Longrightarrow> qstep Q q ClaimLost q'"
| claim_next: "q_claim_next Q lease now q = (Some t, q') \<Longrightarrow> qstep Q q (Claimed (t_id t)) q'"
| claim_none: "q_claim_next Q lease now q = (None, q') \<Longrightarrow> qstep Q q ClaimLost q'"
| move: "q_transition Q t st ev now q = (Inr t', q') \<Longrightarrow> qstep Q q (Moved (t_id t) (t_state t) st) q'"
| move_failed: "q_transition Q t st ev now q = (Inl e, q') \<Longrightarrow> qstep Q q (MoveFailed e) q'"
| release: "q_release_stale Q now q = (ts, q') \<Longrightarrow> qstep Q q (Released (map t_id ts)) q'"

inductive qrun :: "'q queue_ops \<Rightarrow> 'q \<Rightarrow> qlabel list \<Rightarrow> 'q \<Rightarrow> bool" for Q where
  qrun_nil: "qrun Q q [] q"
| qrun_cons: "qstep Q q l q1 \<Longrightarrow> qrun Q q1 ls q' \<Longrightarrow> qrun Q q (l # ls) q'"

inductive_simps qrun_nil_simp [simp]: "qrun Q q [] q'"
inductive_simps qrun_cons_simp: "qrun Q q (l # ls) q'"
inductive_cases qstep_claimedE: "qstep Q q (Claimed i) q'"

lemma qrun_append:
  "qrun Q q (xs @ ys) q' \<longleftrightarrow> (\<exists>q1. qrun Q q xs q1 \<and> qrun Q q1 ys q')"
  by (induction xs arbitrary: q) (auto simp: qrun_cons_simp)

text \<open>The labels at which task \<open>i\<close> stops running.\<close>

fun frees :: "string \<Rightarrow> qlabel \<Rightarrow> bool" where
  "frees i (Moved j a b) = (i = j \<and> a = RUNNING \<and> b \<noteq> RUNNING)"
| "frees i (Released js) = (i \<in> set js)"
| "frees i _ = False"

text \<open>The calls as commands, and the run a list of commands makes.\<close>

datatype qcmd =
    CEnqueue task task_state time
  | CClaim task duration time
  | CClaimNext duration time
  | CTransition task task_state "evidence option" time
  | CRelease time

fun qexec :: "'q queue_ops \<Rightarrow> qcmd \<Rightarrow> 'q \<Rightarrow> qlabel \<times> 'q" where
  "qexec Q (CEnqueue t st now) q =
     (case q_enqueue Q t st now q of
        (Some _, q') \<Rightarrow> (Enqueued (t_id t) st, q') | (None, q') \<Rightarrow> (Duplicate (t_id t), q'))"
| "qexec Q (CClaim t lease now) q =
     (case q_claim Q t lease now q of (b, q') \<Rightarrow> (if b then Claimed (t_id t) else ClaimLost, q'))"
| "qexec Q (CClaimNext lease now) q =
     (case q_claim_next Q lease now q of
        (Some t, q') \<Rightarrow> (Claimed (t_id t), q') | (None, q') \<Rightarrow> (ClaimLost, q'))"
| "qexec Q (CTransition t st ev now) q =
     (case q_transition Q t st ev now q of
        (Inr _, q') \<Rightarrow> (Moved (t_id t) (t_state t) st, q') | (Inl e, q') \<Rightarrow> (MoveFailed e, q'))"
| "qexec Q (CRelease now) q =
     (case q_release_stale Q now q of (ts, q') \<Rightarrow> (Released (map t_id ts), q'))"

fun qexecs :: "'q queue_ops \<Rightarrow> qcmd list \<Rightarrow> 'q \<Rightarrow> qlabel list \<times> 'q" where
  "qexecs Q [] q = ([], q)"
| "qexecs Q (c # cs) q =
     (let (l, q1) = qexec Q c q; (ls, q') = qexecs Q cs q1 in (l # ls, q'))"

lemma qexec_step: "qexec Q c q = (l, q') \<Longrightarrow> qstep Q q l q'"
  by (cases c) (auto split: prod.splits option.splits sum.splits if_splits intro: qstep.intros)

lemma qexecs_run: "qexecs Q cs q = (ls, q') \<Longrightarrow> qrun Q q ls q'"
  by (induction cs arbitrary: q ls)
    (auto split: prod.splits intro: qrun.intros dest: qexec_step)

lemma qexecs_labels: "fst (qexecs Q cs q) = ls \<Longrightarrow> qrun Q q ls (snd (qexecs Q cs q))"
  by (rule qexecs_run) auto

section \<open>What every run of every backend keeps\<close>

text \<open>
  \<open>progress l m m'\<close>: a step labelled \<open>l\<close> turns the store \<open>m\<close> into \<open>m'\<close>
  without losing a task, rewriting what identifies it, lowering its attempts, or taking it
  out of \<open>running\<close> other than by a label that frees it.
\<close>

definition progress :: "qlabel \<Rightarrow> store \<Rightarrow> store \<Rightarrow> bool" where
  "progress l m m' \<longleftrightarrow>
     (\<forall>i t. m i = Some t \<longrightarrow>
        (\<exists>t'. m' i = Some t' \<and> same_task t t' \<and> t_attempts t \<le> t_attempts t' \<and>
              (t_state t = RUNNING \<longrightarrow> \<not> frees i l \<longrightarrow> t_state t' = RUNNING)))"

lemma progress_refl [simp]: "progress l m m"
  by (auto simp: progress_def)

lemma progress_update:
  assumes "m i = Some s" and "same_task s s'" and "t_attempts s \<le> t_attempts s'"
    and "t_state s = RUNNING \<Longrightarrow> \<not> frees i l \<Longrightarrow> t_state s' = RUNNING"
  shows "progress l m (m(i \<mapsto> s'))"
  using assms by (auto simp: progress_def)

lemma progress_insert: "m i = None \<Longrightarrow> progress l m (m(i \<mapsto> s))"
  by (auto simp: progress_def)

lemma leases_ok_update:
  "leases_ok m \<Longrightarrow> (t_lease_until s \<noteq> None \<Longrightarrow> t_state s = RUNNING) \<Longrightarrow> leases_ok (m(i \<mapsto> s))"
  by (auto simp: leases_ok_def)

context task_queue
begin

lemma enqueue_cases:
  assumes "invar q" and "q_enqueue Q t st now q = (r, q')"
  obtains (new) "fresh (store q) t" "r = Some (enqueued st now (canon t))"
      "store q' = (store q)(t_id t \<mapsto> enqueued st now (canon t))"
  | (duplicate) "\<not> fresh (store q) t" "r = None" "q' = q"
  using enqueue_fresh [OF assms(1), of t st now] enqueue_dup [OF assms(1), of t st now] assms(2)
  by (cases "fresh (store q) t") auto

lemma claim_cases:
  assumes "invar q" and "q_claim Q t lease now q = (b, q')"
  obtains (won) s where "store q (t_id t) = Some s" "t_state s = QUEUED" "b"
      "store q' = (store q)(t_id t \<mapsto> claimed lease now s)"
  | (lost) "\<not> (\<exists>s. store q (t_id t) = Some s \<and> t_state s = QUEUED)" "\<not> b" "q' = q"
  using claim_ok [OF assms(1), of t _ lease now] claim_lost [OF assms(1), of t lease now] assms(2)
  by (cases "\<exists>s. store q (t_id t) = Some s \<and> t_state s = QUEUED") auto

lemma transition_cases:
  assumes "invar q" and "q_transition Q t st ev now q = (r, q')"
  obtains (missing) "store q (t_id t) = None" "r = Inl (TaskNotFoundError (t_id t))" "q' = q"
  | (conflict) s where "store q (t_id t) = Some s" "t_state s \<noteq> t_state t"
      "r = Inl (StateConflictError (t_id t) (t_state t) (t_state s))" "q' = q"
  | (moved) s where "store q (t_id t) = Some s" "t_state s = t_state t"
      "r = Inr (moved st (merge_ev ev (t_evidence s)) s)"
      "store q' = (store q)(t_id t \<mapsto> moved st (merge_ev ev (t_evidence s)) s)"
proof (cases "store q (t_id t)")
  case None
  with transition_missing [OF assms(1) None, of st ev now] assms(2) show ?thesis
    by (auto intro: missing)
next
  case (Some s)
  show ?thesis
  proof (cases "t_state s = t_state t")
    case True
    with transition_ok [OF assms(1) Some True, of st ev now] assms(2) Some show ?thesis
      by (auto intro: moved)
  next
    case False
    with transition_conflict [OF assms(1) Some False, of st ev now] assms(2) Some show ?thesis
      by (auto intro: conflict)
  qed
qed

lemma released_ids:
  assumes "invar q" and "q_release_stale Q now q = (ts, q')" and "store q i = Some t"
    and "i \<notin> set (map t_id ts)"
  shows "\<not> stale now t"
proof
  assume "stale now t"
  with release_result [OF assms(1), of now] assms(2,3) have "released t \<in> set ts" by auto
  moreover have "t_id (released t) = i"
    using store_okD [OF invar_store [OF assms(1)] assms(3)] by (simp add: released_def)
  ultimately show False using assms(4) by force
qed

lemma release_progress:
  assumes "invar q" and eq: "q_release_stale Q now q = (ts, q')"
  shows "progress (Released (map t_id ts)) (store q) (store q')"
  unfolding progress_def
proof (intro allI impI)
  fix i t assume t: "store q i = Some t"
  let ?t' = "if stale now t then released t else t"
  have "store q' i = Some ?t'"
    using release_store [OF assms(1), of now] eq t by simp
  moreover have "same_task t ?t'" "t_attempts t \<le> t_attempts ?t'"
    by (auto simp: released_def same_task_def)
  moreover have "t_state ?t' = RUNNING" if "t_state t = RUNNING" "\<not> frees i (Released (map t_id ts))"
    using released_ids [OF assms t] that by simp
  ultimately show "\<exists>t'. store q' i = Some t' \<and> same_task t t' \<and> t_attempts t \<le> t_attempts t' \<and>
      (t_state t = RUNNING \<longrightarrow> \<not> frees i (Released (map t_id ts)) \<longrightarrow> t_state t' = RUNNING)"
    by blast
qed

lemma qstep_invar: "qstep Q q l q' \<Longrightarrow> invar q \<Longrightarrow> invar q'"
  by (induction rule: qstep.induct)
    (metis snd_conv enqueue_invar claim_invar claim_next_invar transition_invar release_invar)+

lemma qstep_progress:
  assumes "qstep Q q l q'" and inv: "invar q"
  shows "progress l (store q) (store q')"
  using assms(1)
proof cases
  case (enq t st now t')
  with inv show ?thesis
    by (auto elim!: enqueue_cases intro: progress_insert simp: fresh_def)
next
  case (dup t st now)
  with inv show ?thesis by (auto elim!: enqueue_cases)
next
  case (claim t lease now)
  with inv show ?thesis
    by (auto elim!: claim_cases intro!: progress_update simp: claimed_def same_task_def)
next
  case (claim_lost t lease now)
  with inv show ?thesis by (auto elim!: claim_cases)
next
  case (claim_next lease now t)
  with claim_next_some [OF inv claim_next(2)] show ?thesis
    by (auto intro!: progress_update simp: claimed_def same_task_def)
next
  case (claim_none lease now)
  with claim_next_none [OF inv claim_none(2)] show ?thesis by simp
next
  case (move t st ev now t')
  with inv show ?thesis
    by (auto elim!: transition_cases intro!: progress_update simp: moved_def same_task_def)
next
  case (move_failed t st ev now e)
  with inv show ?thesis by (auto elim!: transition_cases)
next
  case (release now ts)
  with release_progress [OF inv release(2)] show ?thesis by simp
qed

lemma qstep_leases:
  assumes "qstep Q q l q'" and inv: "invar q" and ok: "leases_ok (store q)"
  shows "leases_ok (store q')"
  using assms(1)
proof cases
  case (enq t st now t')
  with inv ok show ?thesis
    by (auto elim!: enqueue_cases intro!: leases_ok_update simp: enqueued_def)
next
  case (dup t st now)
  with inv ok show ?thesis by (auto elim!: enqueue_cases)
next
  case (claim t lease now)
  with inv ok show ?thesis
    by (auto elim!: claim_cases intro!: leases_ok_update simp: claimed_def)
next
  case (claim_lost t lease now)
  with inv ok show ?thesis by (auto elim!: claim_cases)
next
  case (claim_next lease now t)
  with ok claim_next_some [OF inv claim_next(2)] show ?thesis
    by (auto intro!: leases_ok_update simp: claimed_def)
next
  case (claim_none lease now)
  with ok claim_next_none [OF inv claim_none(2)] show ?thesis by simp
next
  case (move t st ev now t')
  with inv ok show ?thesis
    by (auto elim!: transition_cases intro!: leases_ok_update simp: moved_def split: if_splits)
next
  case (move_failed t st ev now e)
  with inv ok show ?thesis by (auto elim!: transition_cases)
next
  case (release now ts)
  with ok release_store [OF inv, of now] show ?thesis
    by (auto simp: leases_ok_def released_def split: if_splits)
qed

lemma qrun_keeps:
  "qrun Q q ls q' \<Longrightarrow> invar q \<Longrightarrow>
     invar q' \<and> (leases_ok (store q) \<longrightarrow> leases_ok (store q'))"
  by (induction rule: qrun.induct) (auto dest: qstep_invar qstep_leases)

lemma qrun_durable:
  "qrun Q q ls q' \<Longrightarrow> invar q \<Longrightarrow> store q i = Some t \<Longrightarrow>
     \<exists>t'. store q' i = Some t' \<and> same_task t t' \<and> t_attempts t \<le> t_attempts t'"
proof (induction arbitrary: t rule: qrun.induct)
  case (qrun_nil q)
  then show ?case by auto
next
  case (qrun_cons q l q1 ls q')
  from qstep_progress [OF qrun_cons.hyps(1) qrun_cons.prems(1)] qrun_cons.prems(2)
  obtain t1 where t1: "store q1 i = Some t1" "same_task t t1" "t_attempts t \<le> t_attempts t1"
    by (auto simp: progress_def)
  from qrun_cons.IH [OF qstep_invar [OF qrun_cons.hyps(1) qrun_cons.prems(1)] t1(1)]
  obtain t' where "store q' i = Some t'" "same_task t1 t'" "t_attempts t1 \<le> t_attempts t'"
    by blast
  with t1 show ?case by (meson order.trans same_task_trans)
qed

lemma qrun_stays_running:
  "qrun Q q ls q' \<Longrightarrow> invar q \<Longrightarrow> store q i = Some t \<Longrightarrow> t_state t = RUNNING \<Longrightarrow>
     \<forall>l \<in> set ls. \<not> frees i l \<Longrightarrow> \<exists>t'. store q' i = Some t' \<and> t_state t' = RUNNING"
proof (induction arbitrary: t rule: qrun.induct)
  case (qrun_cons q l q1 ls q')
  from qstep_progress [OF qrun_cons.hyps(1) qrun_cons.prems(1)] qrun_cons.prems
  obtain t1 where "store q1 i = Some t1" "t_state t1 = RUNNING"
    unfolding progress_def by (metis list.set_intros(1))
  with qrun_cons.IH qstep_invar [OF qrun_cons.hyps(1) qrun_cons.prems(1)] qrun_cons.prems(4)
  show ?case by auto
qed auto

lemma qstep_claimed:
  assumes "qstep Q q (Claimed i) q'" and "invar q"
  shows "\<exists>s s'. store q i = Some s \<and> t_state s = QUEUED \<and> store q' i = Some s' \<and> t_state s' = RUNNING"
  using assms
  by (elim qstep_claimedE)
    (auto elim!: claim_cases dest!: claim_next_some [OF assms(2)] simp: claimed_def)

text \<open>Between two successful claims of a task, some step took it out of \<open>running\<close>.\<close>

lemma claims_exclusive:
  assumes run: "qrun Q q (pre @ Claimed i # mid @ Claimed i # post) q'" and inv: "invar q"
  shows "\<exists>l \<in> set mid. frees i l"
proof (rule ccontr)
  assume none: "\<not> (\<exists>l \<in> set mid. frees i l)"
  from run obtain q1 q2 q3 q4 where r: "qrun Q q pre q1" "qstep Q q1 (Claimed i) q2"
      "qrun Q q2 mid q3" "qstep Q q3 (Claimed i) q4"
    by (auto simp: qrun_append qrun_cons_simp)
  have inv1: "invar q1" using qrun_keeps [OF r(1) inv] by simp
  have inv2: "invar q2" using qstep_invar [OF r(2) inv1] .
  have inv3: "invar q3" using qrun_keeps [OF r(3) inv2] by simp
  from qstep_claimed [OF r(2) inv1] obtain s where "store q2 i = Some s" "t_state s = RUNNING"
    by blast
  with qrun_stays_running [OF r(3) inv2] none
  obtain s' where "store q3 i = Some s'" "t_state s' = RUNNING" by blast
  with qstep_claimed [OF r(4) inv3] show False by auto
qed

text \<open>A release hands every run whose lease has passed back to the queue.\<close>

lemma release_requeues:
  assumes "invar q" and "store q i = Some t" and "t_state t = RUNNING"
    and "t_lease_until t = Some l" and "l < now"
  shows "store (snd (q_release_stale Q now q)) i = Some (released t)"
  using assms by (simp add: release_store stale_def)

end

end
