(* ===== verification/MemQueue.thy ===== *)
theory MemQueue
  imports QueuePort
begin

text \<open>
  The in-memory queue (\<open>queue/memory.py\<close>): two dictionaries, the tasks by id and the ids by
  transport id. The clock reading a method makes is its argument \<open>now\<close>. It is shown to
  satisfy the queue interface.
\<close>

record memory_queue =
  mq_tasks :: "(string, task) dict"
  mq_by_transport :: "(string, string) dict"

definition mem_empty :: memory_queue where
  "mem_empty = \<lparr>mq_tasks = [], mq_by_transport = []\<rparr>"

text \<open>The sort key \<open>(task.created_at, task.id)\<close>.\<close>

definition age_key :: "task \<Rightarrow> time \<times> string" where
  "age_key t = (t_created_at t, t_id t)"

lemma age_key_eq: "age (\<lambda>i. i) = age_key"
  by (simp add: age_def age_key_def fun_eq_iff)

definition mem_put :: "task \<Rightarrow> memory_queue \<Rightarrow> memory_queue" where
  "mem_put t q = q\<lparr>mq_tasks := dict_set (t_id t) t (mq_tasks q)\<rparr>"

definition mem_enqueue ::
  "task \<Rightarrow> task_state \<Rightarrow> time \<Rightarrow> memory_queue \<Rightarrow> task option \<times> memory_queue" where
  "mem_enqueue t st now q =
     (if dict_has (mq_by_transport q) (t_transport_id t) \<or> dict_has (mq_tasks q) (t_id t)
      then (None, q)
      else let stored = t\<lparr>t_state := st, t_attempts := 0, t_lease_until := None,
                          t_created_at := now\<rparr>
           in (Some stored,
               q\<lparr>mq_tasks := dict_set (t_id stored) stored (mq_tasks q),
                 mq_by_transport :=
                   dict_set (t_transport_id stored) (t_id stored) (mq_by_transport q)\<rparr>))"

definition mem_get :: "string \<Rightarrow> memory_queue \<Rightarrow> task option" where
  "mem_get i q = dict_get (mq_tasks q) i"

definition mem_list :: "task_state \<Rightarrow> int \<Rightarrow> memory_queue \<Rightarrow> task list" where
  "mem_list st limit q =
     (let tasks = filter (\<lambda>t. t_state t = st) (dict_values (mq_tasks q))
      in slice_to limit (sort_key age_key tasks))"

definition mem_claim :: "task \<Rightarrow> duration \<Rightarrow> time \<Rightarrow> memory_queue \<Rightarrow> bool \<times> memory_queue" where
  "mem_claim t lease now q =
     (case dict_get (mq_tasks q) (t_id t) of
        None \<Rightarrow> (False, q)
      | Some stored \<Rightarrow>
          if t_state stored \<noteq> QUEUED then (False, q)
          else (True, mem_put (stored\<lparr>t_state := RUNNING, t_lease_until := Some (now + lease)\<rparr>) q))"

definition mem_claim_next :: "duration \<Rightarrow> time \<Rightarrow> memory_queue \<Rightarrow> task option \<times> memory_queue" where
  "mem_claim_next lease now q =
     (case filter (\<lambda>t. t_state t = QUEUED) (dict_values (mq_tasks q)) of
        [] \<Rightarrow> (None, q)
      | x # xs \<Rightarrow>
          let stored = min_by age_key x xs;
              running = stored\<lparr>t_state := RUNNING, t_lease_until := Some (now + lease)\<rparr>
          in (Some running, mem_put running q))"

definition mem_transition ::
  "task \<Rightarrow> task_state \<Rightarrow> evidence option \<Rightarrow> memory_queue \<Rightarrow> (exn + task) \<times> memory_queue" where
  "mem_transition t to_state ev q =
     (case dict_get (mq_tasks q) (t_id t) of
        None \<Rightarrow> (Inl (TaskNotFoundError (t_id t)), q)
      | Some stored \<Rightarrow>
          if t_state stored \<noteq> t_state t
          then (Inl (StateConflictError (t_id t) (t_state t) (t_state stored)), q)
          else let s1 = stored\<lparr>t_state := to_state\<rparr>;
                   s2 = (if to_state \<noteq> RUNNING then s1\<lparr>t_lease_until := None\<rparr> else s1);
                   s3 = (case ev of None \<Rightarrow> s2 | Some e \<Rightarrow> s2\<lparr>t_evidence := Some e\<rparr>)
               in (Inr s3, mem_put s3 q))"

text \<open>The loop of \<open>release_stale\<close>: the dictionary it leaves and the copies it collects.\<close>

fun release_loop :: "time \<Rightarrow> (string, task) dict \<Rightarrow> (string, task) dict \<times> task list" where
  "release_loop now [] = ([], [])"
| "release_loop now ((k, stored) # rest) =
     (let (d, out) = release_loop now rest in
      if t_state stored \<noteq> RUNNING then ((k, stored) # d, out)
      else case t_lease_until stored of
             None \<Rightarrow> ((k, stored) # d, out)
           | Some l \<Rightarrow>
               if l \<ge> now then ((k, stored) # d, out)
               else let s = stored\<lparr>t_state := QUEUED, t_attempts := t_attempts stored + 1,
                                   t_lease_until := None\<rparr>
                    in ((k, s) # d, s # out))"

definition mem_release_stale :: "time \<Rightarrow> memory_queue \<Rightarrow> task list \<times> memory_queue" where
  "mem_release_stale now q =
     (case release_loop now (mq_tasks q) of
        (d, out) \<Rightarrow> (sort_key age_key out, q\<lparr>mq_tasks := d\<rparr>))"

definition mem_ops :: "memory_queue queue_ops" where
  "mem_ops =
     \<lparr>q_enqueue = mem_enqueue, q_get = mem_get, q_list = mem_list, q_claim = mem_claim,
      q_claim_next = mem_claim_next, q_transition = (\<lambda>t st ev now. mem_transition t st ev),
      q_release_stale = mem_release_stale\<rparr>"

section \<open>Invariant and abstraction\<close>

definition mem_store :: "memory_queue \<Rightarrow> store" where
  "mem_store q = map_of (mq_tasks q)"

text \<open>Keys are ids, and the transport index names exactly the stored tasks.\<close>

definition index_ok :: "store \<Rightarrow> (string \<rightharpoonup> string) \<Rightarrow> bool" where
  "index_ok m ix \<longleftrightarrow>
     (\<forall>i t. m i = Some t \<longrightarrow> t_id t = i) \<and>
     (\<forall>tr i. ix tr = Some i \<longleftrightarrow> (\<exists>t. m i = Some t \<and> t_transport_id t = tr))"

definition mem_inv :: "memory_queue \<Rightarrow> bool" where
  "mem_inv q \<longleftrightarrow>
     distinct (dict_keys (mq_tasks q)) \<and> index_ok (mem_store q) (map_of (mq_by_transport q))"

lemma mem_inv_empty [simp]: "mem_inv mem_empty"
  by (simp add: mem_inv_def mem_empty_def index_ok_def mem_store_def)

lemma index_ok_store_ok: "index_ok m ix \<Longrightarrow> finite (dom m) \<Longrightarrow> store_ok m"
  unfolding index_ok_def store_ok_def by (metis option.inject)

lemma index_ok_fresh: "index_ok m ix \<Longrightarrow> fresh m t \<longleftrightarrow> ix (t_transport_id t) = None \<and> m (t_id t) = None"
  unfolding index_ok_def fresh_def by (metis not_None_eq)

lemma index_ok_insert:
  assumes "index_ok m ix" and "fresh m t" and "t_id t' = t_id t" "t_transport_id t' = t_transport_id t"
  shows "index_ok (m(t_id t \<mapsto> t')) (ix(t_transport_id t \<mapsto> t_id t))"
  using assms unfolding index_ok_def fresh_def by (auto split: if_splits)

lemma index_ok_update:
  assumes "index_ok m ix" and "m i = Some s" and "same_task s t"
  shows "index_ok (m(i \<mapsto> t)) ix"
  using assms unfolding index_ok_def same_task_def by (auto split: if_splits)

lemma index_ok_map:
  assumes "index_ok m ix" and "\<And>t. same_task t (f t)"
  shows "index_ok (\<lambda>i. map_option f (m i)) ix"
  using assms unfolding index_ok_def same_task_def by auto

lemma finite_dom_mem_store [simp]: "finite (dom (mem_store q))"
  by (simp add: mem_store_def finite_dom_map_of)

lemma mem_inv_store_ok: "mem_inv q \<Longrightarrow> store_ok (mem_store q)"
  by (metis mem_inv_def index_ok_store_ok finite_dom_mem_store)

lemma mem_inv_fresh:
  "mem_inv q \<Longrightarrow> fresh (mem_store q) t \<longleftrightarrow>
    \<not> (dict_has (mq_by_transport q) (t_transport_id t) \<or> dict_has (mq_tasks q) (t_id t))"
  by (metis mem_inv_def mem_store_def index_ok_fresh)

lemma mem_store_put [simp]: "mem_store (mem_put t q) = (mem_store q)(t_id t \<mapsto> t)"
  by (simp add: mem_store_def mem_put_def)

lemma mem_inv_put [inv_intros]:
  assumes "mem_inv q" and "mem_store q (t_id t) = Some s" and "same_task s t"
  shows "mem_inv (mem_put t q)"
proof -
  have "mq_by_transport (mem_put t q) = mq_by_transport q"
    "distinct (dict_keys (mq_tasks (mem_put t q)))"
    using assms(1) by (simp_all add: mem_put_def mem_inv_def)
  with assms show ?thesis by (simp add: mem_inv_def index_ok_update)
qed

lemma mem_values_iff:
  assumes "mem_inv q"
  shows "t \<in> set (dict_values (mq_tasks q)) \<longleftrightarrow> mem_store q (t_id t) = Some t"
proof -
  from assms have "distinct (dict_keys (mq_tasks q))" by (simp add: mem_inv_def)
  then have "t \<in> set (dict_values (mq_tasks q)) \<longleftrightarrow> (\<exists>i. mem_store q i = Some t)"
    unfolding mem_store_def by (rule dict_values_iff)
  also have "\<dots> \<longleftrightarrow> mem_store q (t_id t) = Some t"
    using assms by (auto simp: mem_inv_def index_ok_def)
  finally show ?thesis .
qed

lemma mem_values_ids: "mem_inv q \<Longrightarrow> map t_id (dict_values (mq_tasks q)) = dict_keys (mq_tasks q)"
proof (simp, intro ballI)
  fix x assume inv: "mem_inv q" and x: "x \<in> set (mq_tasks q)"
  then have "mem_store q (fst x) = Some (snd x)" by (simp add: mem_inv_def mem_store_def)
  then show "t_id (snd x) = fst x" using inv by (auto simp: mem_inv_def index_ok_def)
qed

lemma distinct_values: "mem_inv q \<Longrightarrow> distinct (dict_values (mq_tasks q))"
  by (metis distinct_map mem_inv_def mem_values_ids)

section \<open>The operations meet the interface\<close>

lemma mem_enqueue_eq:
  "mem_enqueue t st now q =
     (if dict_has (mq_by_transport q) (t_transport_id t) \<or> dict_has (mq_tasks q) (t_id t)
      then (None, q)
      else (Some (enqueued st now t),
            q\<lparr>mq_tasks := dict_set (t_id t) (enqueued st now t) (mq_tasks q),
              mq_by_transport := dict_set (t_transport_id t) (t_id t) (mq_by_transport q)\<rparr>))"
  by (simp add: mem_enqueue_def enqueued_def Let_def)

lemma mem_enqueue_new:
  assumes "mem_inv q" and "fresh (mem_store q) t"
  shows "mem_inv (snd (mem_enqueue t st now q))"
    and "fst (mem_enqueue t st now q) = Some (enqueued st now t)"
    and "mem_store (snd (mem_enqueue t st now q)) = (mem_store q)(t_id t \<mapsto> enqueued st now t)"
proof -
  let ?q' = "q\<lparr>mq_tasks := dict_set (t_id t) (enqueued st now t) (mq_tasks q),
              mq_by_transport := dict_set (t_transport_id t) (t_id t) (mq_by_transport q)\<rparr>"
  have eq: "mem_enqueue t st now q = (Some (enqueued st now t), ?q')"
    using assms by (simp add: mem_enqueue_eq mem_inv_fresh)
  have store: "mem_store ?q' = (mem_store q)(t_id t \<mapsto> enqueued st now t)"
    by (simp add: mem_store_def)
  show "fst (mem_enqueue t st now q) = Some (enqueued st now t)"
    and "mem_store (snd (mem_enqueue t st now q)) = (mem_store q)(t_id t \<mapsto> enqueued st now t)"
    using eq store by simp_all
  have "index_ok (mem_store ?q') (map_of (mq_by_transport ?q'))"
    using assms unfolding store by (auto simp: mem_inv_def enqueued_def intro: index_ok_insert)
  with assms(1) eq show "mem_inv (snd (mem_enqueue t st now q))"
    by (simp add: mem_inv_def)
qed

lemma mem_enqueue_dup:
  "mem_inv q \<Longrightarrow> \<not> fresh (mem_store q) t \<Longrightarrow> mem_enqueue t st now q = (None, q)"
  by (auto simp: mem_enqueue_eq mem_inv_fresh)

lemma mem_enqueue_inv [inv_intros]: "mem_inv q \<Longrightarrow> mem_inv (snd (mem_enqueue t st now q))"
  by (cases "fresh (mem_store q) t") (simp_all add: mem_enqueue_new mem_enqueue_dup)

lemma mem_list_all:
  assumes "0 \<le> limit"
  shows "mem_list st limit q =
    take (nat limit) (sort_key age_key (filter (\<lambda>t. t_state t = st) (dict_values (mq_tasks q))))"
  using assms by (simp add: mem_list_def slice_to_def Let_def)

lemma mem_list_sound:
  assumes "mem_inv q" and "0 \<le> limit" and "t \<in> set (mem_list st limit q)"
  shows "mem_store q (t_id t) = Some t \<and> t_state t = st"
proof -
  from assms(3) have "t \<in> set (filter (\<lambda>t. t_state t = st) (dict_values (mq_tasks q)))"
    unfolding mem_list_all [OF assms(2)] by (metis in_set_takeD set_sort)
  then show ?thesis using mem_values_iff [OF assms(1)] by simp
qed

lemma mem_list_complete:
  assumes inv: "mem_inv q" and lim: "0 \<le> limit" and t: "mem_store q i = Some t" "t_state t = st"
    and out: "t \<notin> set (mem_list st limit q)"
  shows "int (length (mem_list st limit q)) = limit \<and>
    (\<forall>u \<in> set (mem_list st limit q). age_key u \<le> age_key t)"
proof -
  let ?all = "sort_key age_key (filter (\<lambda>t. t_state t = st) (dict_values (mq_tasks q)))"
  let ?pre = "take (nat limit) ?all" and ?post = "drop (nat limit) ?all"
  have "mem_store q (t_id t) = Some t"
    using t inv by (auto simp: mem_inv_def index_ok_def)
  then have "t \<in> set ?all" using mem_values_iff [OF inv] t(2) by simp
  with out have post: "t \<in> set ?post"
    unfolding mem_list_all [OF lim] by (metis Un_iff append_take_drop_id set_append)
  have "sorted (map age_key (?pre @ ?post))"
    by (simp only: append_take_drop_id) simp
  with post have "\<forall>u \<in> set ?pre. age_key u \<le> age_key t"
    by (metis sorted_split_le)
  moreover have "length ?pre = nat limit"
    using post by (metis drop_all empty_iff empty_set length_take min_def nat_le_linear)
  ultimately show ?thesis unfolding mem_list_all [OF lim] using lim by simp
qed

lemma mem_claim_won:
  assumes "mem_inv q" and "mem_store q (t_id t) = Some s" and "t_state s = QUEUED"
  shows "mem_claim t lease now q = (True, mem_put (claimed lease now s) q)"
    and "t_id s = t_id t"
  using assms store_okD [OF mem_inv_store_ok]
  by (simp_all add: mem_claim_def claimed_def) (simp_all add: mem_store_def)

lemma mem_claim_lost:
  "\<not> (\<exists>s. mem_store q (t_id t) = Some s \<and> t_state s = QUEUED) \<Longrightarrow>
     mem_claim t lease now q = (False, q)"
  by (auto simp: mem_claim_def mem_store_def split: option.splits)

lemma mem_claim_inv [inv_intros]:
  assumes inv: "mem_inv q"
  shows "mem_inv (snd (mem_claim t lease now q))"
proof (cases "\<exists>s. mem_store q (t_id t) = Some s \<and> t_state s = QUEUED")
  case True
  then obtain s where s: "mem_store q (t_id t) = Some s" "t_state s = QUEUED" by blast
  have "mem_inv (mem_put (claimed lease now s) q)"
    using s mem_claim_won(2) [OF inv s] by (intro mem_inv_put [OF inv, of _ s]) (simp_all add: claimed_def same_task_def)
  then show ?thesis by (simp only: mem_claim_won(1) [OF inv s] snd_conv)
next
  case False
  from mem_claim_lost [OF this] inv show ?thesis by simp
qed

lemma mem_claim_next_cases:
  assumes "mem_inv q"
  obtains (none) "mem_claim_next lease now q = (None, q)"
      "\<forall>i u. mem_store q i = Some u \<longrightarrow> t_state u \<noteq> QUEUED"
  | (some) s where "mem_claim_next lease now q = (Some (claimed lease now s), mem_put (claimed lease now s) q)"
      "mem_store q (t_id s) = Some s" "t_state s = QUEUED"
      "\<forall>i u. mem_store q i = Some u \<longrightarrow> t_state u = QUEUED \<longrightarrow> age_key s \<le> age_key u"
proof (cases "filter (\<lambda>t. t_state t = QUEUED) (dict_values (mq_tasks q))")
  case Nil
  then have "\<forall>t \<in> set (dict_values (mq_tasks q)). t_state t \<noteq> QUEUED"
    by (simp add: filter_empty_conv)
  then have "\<forall>i u. mem_store q i = Some u \<longrightarrow> t_state u \<noteq> QUEUED"
    using mem_values_iff [OF assms] store_okD [OF mem_inv_store_ok [OF assms]] by blast
  with Nil show ?thesis by (auto intro: none simp: mem_claim_next_def)
next
  case (Cons x xs)
  let ?s = "min_by age_key x xs"
  have mem: "u \<in> set (x # xs) \<longleftrightarrow> mem_store q (t_id u) = Some u \<and> t_state u = QUEUED" for u
    unfolding Cons [symmetric] using mem_values_iff [OF assms] by auto
  have "?s \<in> set (x # xs)" by (rule min_by_in)
  then have s: "mem_store q (t_id ?s) = Some ?s" "t_state ?s = QUEUED"
    using mem by blast+
  have "age_key ?s \<le> age_key u" if "mem_store q i = Some u" "t_state u = QUEUED" for i u
  proof -
    have "u \<in> set (x # xs)"
      using mem that store_okD [OF mem_inv_store_ok [OF assms]] by blast
    from min_by_le [OF this] show ?thesis .
  qed
  with s show ?thesis
    by (intro some [of ?s]) (auto simp: mem_claim_next_def Cons claimed_def Let_def)
qed

lemma mem_transition_moved:
  assumes "mem_store q (t_id t) = Some s" and "t_state s = t_state t"
  shows "mem_transition t st ev q =
    (let s' = moved st (case ev of None \<Rightarrow> t_evidence s | Some e \<Rightarrow> Some e) s in (Inr s', mem_put s' q))"
  using assms by (auto simp: mem_transition_def mem_store_def moved_def Let_def split: option.split)

lemma mem_transition_inv [inv_intros]:
  assumes inv: "mem_inv q"
  shows "mem_inv (snd (mem_transition t st ev q))"
proof (cases "\<exists>s. mem_store q (t_id t) = Some s \<and> t_state s = t_state t")
  case True
  then obtain s where s: "mem_store q (t_id t) = Some s" "t_state s = t_state t" by blast
  have "t_id s = t_id t" using store_okD [OF mem_inv_store_ok [OF inv] s(1)] .
  with s inv show ?thesis
    by (auto simp: mem_transition_moved Let_def moved_def same_task_def intro!: mem_inv_put)
next
  case False
  with inv show ?thesis
    by (auto simp: mem_transition_def mem_store_def split: option.splits)
qed

lemma release_loop_eq:
  "release_loop now d =
     (map (\<lambda>(k, t). (k, if stale now t then released t else t)) d,
      map released (filter (stale now) (dict_values d)))"
proof (induction d)
  case (Cons kt d)
  then show ?case
    by (cases kt) (auto simp: stale_def released_def Let_def not_less split: option.splits)
qed simp

lemma mem_release_store:
  "mem_store (snd (mem_release_stale now q)) =
     (\<lambda>i. map_option (\<lambda>t. if stale now t then released t else t) (mem_store q i))"
  by (auto simp: mem_release_stale_def release_loop_eq mem_store_def dict_get_map_values fun_eq_iff)

lemma mem_release_inv [inv_intros]: "mem_inv q \<Longrightarrow> mem_inv (snd (mem_release_stale now q))"
proof -
  assume inv: "mem_inv q"
  let ?q' = "snd (mem_release_stale now q)"
  have "dict_keys (mq_tasks ?q') = dict_keys (mq_tasks q)" "mq_by_transport ?q' = mq_by_transport q"
    by (auto simp: mem_release_stale_def release_loop_eq)
  moreover have "index_ok (mem_store ?q') (map_of (mq_by_transport q))"
    unfolding mem_release_store using inv by (auto simp: mem_inv_def intro!: index_ok_map)
  ultimately show ?thesis using inv by (simp add: mem_inv_def)
qed

lemma mem_release_result:
  assumes "mem_inv q"
  shows "set (fst (mem_release_stale now q)) = {released t | t i. mem_store q i = Some t \<and> stale now t}"
proof -
  have "set (fst (mem_release_stale now q)) =
      released ` {t \<in> set (dict_values (mq_tasks q)). stale now t}"
    by (auto simp: mem_release_stale_def release_loop_eq)
  also have "\<dots> = {released t | t i. mem_store q i = Some t \<and> stale now t}"
    using mem_values_iff [OF assms] store_okD [OF mem_inv_store_ok [OF assms]] by blast
  finally show ?thesis .
qed

lemma mem_release_distinct: "mem_inv q \<Longrightarrow> distinct (map t_id (fst (mem_release_stale now q)))"
proof -
  assume inv: "mem_inv q"
  let ?vs = "filter (stale now) (dict_values (mq_tasks q))"
  have "distinct (map t_id (dict_values (mq_tasks q)))"
    unfolding mem_values_ids [OF inv] using inv by (simp add: mem_inv_def)
  then have "distinct (map t_id ?vs)" by (rule distinct_map_filter)
  moreover have "t_id \<circ> released = t_id" by (simp add: released_def fun_eq_iff)
  ultimately have "distinct (map t_id (map released ?vs))" by simp
  then show ?thesis
    unfolding mem_release_stale_def release_loop_eq split_conv fst_conv distinct_map_sort_key .
qed

lemma mem_ops_simps [simp]:
  "q_enqueue mem_ops = mem_enqueue" "q_get mem_ops = mem_get" "q_list mem_ops = mem_list"
  "q_claim mem_ops = mem_claim" "q_claim_next mem_ops = mem_claim_next"
  "q_transition mem_ops t st ev now = mem_transition t st ev"
  "q_release_stale mem_ops = mem_release_stale"
  by (simp_all add: mem_ops_def)

definition replace_ev :: "evidence option \<Rightarrow> evidence option \<Rightarrow> evidence option" where
  "replace_ev new old = (case new of None \<Rightarrow> old | Some e \<Rightarrow> Some e)"

interpretation mq: task_queue mem_ops mem_store mem_inv "\<lambda>t. t" replace_ev "\<lambda>i. i"
proof (unfold_locales, goal_cases)
  case (3 q) then show ?case by (rule mem_inv_store_ok)
next
  case (4 q i) show ?case by (simp add: mem_get_def mem_store_def)
next
  case (5 q limit t st) then show ?case using mem_list_sound by simp
next
  case (6 q limit st) then show ?case
    by (simp add: mem_list_all sorted_take_map age_key_eq)
next
  case (7 q limit st) then show ?case
    by (simp add: mem_list_all distinct_take distinct_values)
next
  case (8 q limit i t st) then show ?case using mem_list_complete by (simp add: age_key_eq)
next
  case (9 q limit st) then show ?case by (simp add: mem_list_all)
next
  case (10 q t st now) then show ?case by (simp add: mem_enqueue_inv)
next
  case (11 q t st now) then show ?case by (simp add: mem_enqueue_new)
next
  case (12 q t st now) then show ?case by (simp add: mem_enqueue_dup)
next
  case (13 q t lease now) then show ?case by (simp add: mem_claim_inv)
next
  case (14 q t s lease now)
  from mem_claim_won [OF 14] show ?case by (simp add: claimed_def)
next
  case (15 q t lease now) then show ?case by (simp add: mem_claim_lost)
next
  case (16 q lease now)
  show ?case
  proof (cases rule: mem_claim_next_cases [OF 16, of lease now])
    case (2 s)
    have "mem_inv (mem_put (claimed lease now s) q)"
      using 2 by (intro mem_inv_put [OF 16, of _ s]) (simp_all add: claimed_def same_task_def)
    with 2 show ?thesis by simp
  qed (simp add: 16)
next
  case (17 q lease now t q')
  show ?case
  proof (cases rule: mem_claim_next_cases [OF 17(1), of lease now])
    case 1
    with 17 show ?thesis by simp
  next
    case (2 s)
    with 17 have "t = claimed lease now s" "q' = mem_put t q" by auto
    with 2 show ?thesis by (intro exI [of _ s]) (simp add: claimed_def age_key_eq)
  qed
next
  case (18 q lease now q')
  show ?case
  proof (cases rule: mem_claim_next_cases [OF 18(1), of lease now])
    case 1
    with 18 show ?thesis by simp
  next
    case (2 s)
    with 18 show ?thesis by simp
  qed
next
  case (19 q t st ev now) then show ?case by (simp add: mem_transition_inv)
next
  case (20 q t st ev now) then show ?case
    by (simp add: mem_transition_def mem_store_def)
next
  case (21 q t s st ev now) then show ?case
    by (simp add: mem_transition_def mem_store_def)
next
  case (22 q t s st ev now)
  have "t_id s = t_id t" using store_okD [OF mem_inv_store_ok [OF 22(1)] 22(2)] .
  with mem_transition_moved [OF 22(2,3), of st ev] show ?case
    by (simp add: replace_ev_def Let_def moved_def)
next
  case (23 q now) then show ?case by (simp add: mem_release_inv)
next
  case (24 q now) then show ?case by (simp add: mem_release_store)
next
  case (25 q now) then show ?case by (simp add: mem_release_result)
next
  case (26 q now) then show ?case by (simp add: mem_release_distinct)
next
  case (27 q now) then show ?case
    by (simp add: mem_release_stale_def release_loop_eq age_key_eq)
qed simp_all

section \<open>Properties of the in-memory queue\<close>

text \<open>
  Whatever the clients do and however their calls interleave, two successful claims of one
  task are separated by a step that took it out of \<open>running\<close> (a transition or the release of
  an expired lease): no two workers hold a task at once.
\<close>

theorem mem_claims_exclusive:
  assumes "qrun mem_ops mem_empty (pre @ Claimed i # mid @ Claimed i # post) q"
  shows "\<exists>l \<in> set mid. frees i l"
  using assms by (rule mq.claims_exclusive) simp

theorem mem_claims_exclusive_witness:
  "\<exists>l \<in> set [ClaimLost, Released [''a'']]. frees ''a'' l"
proof -
  let ?t = "new_task ''a'' ''m'' 0"
  have "fst (qexecs mem_ops [CEnqueue ?t QUEUED 1, CClaimNext 10 2, CClaim ?t 10 3, CRelease 20,
      CClaimNext 10 21] mem_empty) =
    [Enqueued ''a'' QUEUED] @ Claimed ''a'' # [ClaimLost, Released [''a'']] @ Claimed ''a'' # []"
    by code_simp
  from mem_claims_exclusive [OF qexecs_labels [OF this]] show ?thesis .
qed

end
