(* ===== verification/PyJson.thy ===== *)
theory PyJson
  imports Models
begin

text \<open>
  The JSON text of a list of strings: \<open>json.dumps(list(...))\<close> with its default
  \<open>ensure_ascii\<close>, and \<open>json.loads\<close> on an array of strings (\<open>None\<close> where the parser
  raises or the text is not such an array). Decoding what was encoded gives the list back.
\<close>

section \<open>Encoding\<close>

definition backslash :: char where
  "backslash = char_of (92::nat)"

definition dquote :: char where
  "dquote = char_of (34::nat)"

definition json_esc :: "char \<Rightarrow> string" where
  "json_esc c =
     (let n = code c in
      if n = 34 \<or> n = 92 then [backslash, c]
      else if n = 10 then [backslash, CHR ''n'']
      else if n = 13 then [backslash, CHR ''r'']
      else if n = 9 then [backslash, CHR ''t'']
      else if n = 12 then [backslash, CHR ''f'']
      else if n = 8 then [backslash, CHR ''b'']
      else if 32 \<le> n \<and> n \<le> 126 then [c]
      else [backslash, CHR ''u'', CHR ''0'', CHR ''0'', hex_digit (n div 16), hex_digit (n mod 16)])"

definition dumps_str :: "string \<Rightarrow> string" where
  "dumps_str s = dquote # concat (map json_esc s) @ [dquote]"

definition dumps_strs :: "string list \<Rightarrow> string" where
  "dumps_strs xs = ''['' @ join '', '' (map dumps_str xs) @ '']''"

section \<open>Decoding\<close>

definition hex_val :: "char \<Rightarrow> nat option" where
  "hex_val c =
     (let n = code c in
      if 48 \<le> n \<and> n \<le> 57 then Some (n - 48)
      else if 97 \<le> n \<and> n \<le> 102 then Some (n - 87)
      else if 65 \<le> n \<and> n \<le> 70 then Some (n - 55)
      else None)"

text \<open>Four hexadecimal digits; the model's characters end at 255.\<close>

definition hex4 :: "string \<Rightarrow> char option" where
  "hex4 s =
     (case map hex_val s of
        [Some a, Some b, Some c, Some d] \<Rightarrow>
          if a = 0 \<and> b = 0 then Some (char_of (16 * c + d)) else None
      | _ \<Rightarrow> None)"

definition unescape :: "char \<Rightarrow> char option" where
  "unescape e =
     (if code e = 34 \<or> code e = 92 \<or> e = CHR ''/'' then Some e
      else if e = CHR ''b'' then Some (char_of (8::nat))
      else if e = CHR ''f'' then Some (char_of (12::nat))
      else if e = CHR ''n'' then Some (char_of (10::nat))
      else if e = CHR ''r'' then Some (char_of (13::nat))
      else if e = CHR ''t'' then Some (char_of (9::nat))
      else None)"

definition cons_fst :: "'a \<Rightarrow> ('a list \<times> 'b) option \<Rightarrow> ('a list \<times> 'b) option" where
  "cons_fst c = map_option (\<lambda>(s, r). (c # s, r))"

fun scanstring :: "string \<Rightarrow> (string \<times> string) option" where
  "scanstring [] = None"
| "scanstring (c # r) =
     (if code c = 34 then Some ([], r)
      else if code c = 92 then
        (case r of
           [] \<Rightarrow> None
         | e # r' \<Rightarrow>
             if e = CHR ''u'' then
               (case hex4 (take 4 r') of
                  None \<Rightarrow> None | Some ch \<Rightarrow> cons_fst ch (scanstring (drop 4 r')))
             else
               (case unescape e of None \<Rightarrow> None | Some ch \<Rightarrow> cons_fst ch (scanstring r')))
      else if code c < 32 then None
      else cons_fst c (scanstring r))"

definition json_ws :: "char \<Rightarrow> bool" where
  "json_ws c \<longleftrightarrow> code c = 32 \<or> code c = 9 \<or> code c = 10 \<or> code c = 13"

definition skip_ws :: "string \<Rightarrow> string" where
  "skip_ws = dropWhile json_ws"

lemma scanstring_shorter: "scanstring s = Some (x, r) \<Longrightarrow> length r < length s"
proof (induction s arbitrary: x r rule: scanstring.induct)
  case (2 c s)
  show ?case
  proof (cases "code c = 34 \<or> code c \<noteq> 92")
    case True
    with 2 show ?thesis by (fastforce simp: cons_fst_def split: if_splits)
  next
    case False
    with "2.prems" obtain e s' ch t x' where s: "s = e # s'"
        and rec: "scanstring t = Some (x', r)" and t: "t = drop 4 s' \<and> e = CHR ''u'' \<or> t = s' \<and> e \<noteq> CHR ''u''"
        and ch: "e = CHR ''u'' \<Longrightarrow> hex4 (take 4 s') = Some ch" "e \<noteq> CHR ''u'' \<Longrightarrow> unescape e = Some ch"
      by (auto simp: cons_fst_def split: list.splits if_splits option.splits)
    from False have c: "code c \<noteq> 34" "code c = 92" by auto
    from t show ?thesis
    proof
      assume "t = drop 4 s' \<and> e = CHR ''u''"
      with "2.IH"(1) [OF c s] ch(1) rec s show ?thesis by fastforce
    next
      assume "t = s' \<and> e \<noteq> CHR ''u''"
      with "2.IH"(2) [OF c s] ch(2) rec s show ?thesis by fastforce
    qed
  qed
qed simp

lemma skip_ws_length: "length (skip_ws s) \<le> length s"
  by (simp add: skip_ws_def length_dropWhile_le)

function load_items :: "string \<Rightarrow> (string list \<times> string) option" where
  "load_items s =
     (case s of
        [] \<Rightarrow> None
      | c # r \<Rightarrow>
          if code c \<noteq> 34 then None
          else case scanstring r of
                 None \<Rightarrow> None
               | Some (x, r1) \<Rightarrow>
                   (case skip_ws r1 of
                      [] \<Rightarrow> None
                    | d # r2 \<Rightarrow>
                        if d = CHR '']'' then Some ([x], r2)
                        else if d = CHR '','' then cons_fst x (load_items (skip_ws r2))
                        else None))"
  by pat_completeness auto
termination
proof (relation "measure length", goal_cases)
  case (2 s c r p x r1 d r2)
  from 2 have "length (skip_ws r2) \<le> length r2" "length (d # r2) \<le> length r1" "length r1 < length r"
    using skip_ws_length [of r2] skip_ws_length [of r1] scanstring_shorter [of r x r1] by auto
  with 2 show ?case by simp
qed simp

declare load_items.simps [simp del]

definition loads_strs :: "string \<Rightarrow> string list option" where
  "loads_strs s =
     (case skip_ws s of
        [] \<Rightarrow> None
      | c # r \<Rightarrow>
          if c \<noteq> CHR ''['' then None
          else (case skip_ws r of
                  [] \<Rightarrow> None
                | d # r1 \<Rightarrow>
                    if d = CHR '']'' then (if skip_ws r1 = [] then Some [] else None)
                    else (case load_items (d # r1) of
                            None \<Rightarrow> None
                          | Some (xs, r2) \<Rightarrow> if skip_ws r2 = [] then Some xs else None)))"

section \<open>Round trip\<close>

lemma hex_val_digit: "n < 16 \<Longrightarrow> hex_val (hex_digit n) = Some n"
  by (auto simp: hex_val_def hex_digit_def code_def Let_def)

lemma hex4_esc:
  "hex4 [CHR ''0'', CHR ''0'', hex_digit (code c div 16), hex_digit (code c mod 16)] = Some c"
proof -
  have lt: "code c < 256" by (simp add: code_def)
  have "char_of (16 * (code c div 16) + code c mod 16) = c" by (simp add: code_def)
  moreover have "hex_val (CHR ''0'') = Some 0" by (simp add: hex_val_def code_def)
  ultimately show ?thesis using lt by (simp add: hex4_def hex_val_digit)
qed

lemma scan_esc: "scanstring (json_esc c @ r) = cons_fst c (scanstring r)"
proof -
  let ?n = "code c"
  have eq: "c = char_of ?n" by (simp add: code_def)
  have bs: "code backslash = 92" by (simp add: backslash_def code_def)
  consider "?n = 34 \<or> ?n = 92" | "?n = 10" | "?n = 13" | "?n = 9" | "?n = 12" | "?n = 8"
    | "32 \<le> ?n" "?n \<le> 126" "?n \<noteq> 34" "?n \<noteq> 92"
    | "?n \<noteq> 34" "?n \<noteq> 92" "?n \<noteq> 10" "?n \<noteq> 13" "?n \<noteq> 9" "?n \<noteq> 12" "?n \<noteq> 8" "\<not> (32 \<le> ?n \<and> ?n \<le> 126)"
    by blast
  then show ?thesis
  proof cases
    case 1
    then have "c \<noteq> CHR ''u''" by (auto simp: code_def)
    with 1 bs show ?thesis by (auto simp: json_esc_def unescape_def Let_def)
  next
    case 7
    then show ?thesis by (auto simp: json_esc_def Let_def)
  next
    case 8
    then have "json_esc c = [backslash, CHR ''u'', CHR ''0'', CHR ''0'',
        hex_digit (?n div 16), hex_digit (?n mod 16)]" by (simp add: json_esc_def Let_def)
    with bs hex4_esc [of c] show ?thesis by simp
  qed (use bs eq in \<open>simp add: json_esc_def unescape_def code_def; metis\<close>)+
qed

lemma scan_dumps: "scanstring (concat (map json_esc s) @ dquote # r) = Some (s, r)"
proof (induction s)
  case Nil
  then show ?case by (simp add: dquote_def code_def)
next
  case (Cons c s)
  then show ?case using scan_esc [of c "concat (map json_esc s) @ dquote # r"]
    by (simp add: cons_fst_def)
qed

lemma load_items_dumps:
  "xs \<noteq> [] \<Longrightarrow> load_items (join '', '' (map dumps_str xs) @ '']'' @ r) = Some (xs, r)"
proof (induction xs rule: induct_list012)
  case (2 x)
  then show ?case
    using scan_dumps [of x "'']'' @ r"]
    by (subst load_items.simps) (simp add: dumps_str_def skip_ws_def json_ws_def dquote_def code_def)
next
  case (3 x y ys)
  let ?rest = "join '', '' (map dumps_str (y # ys)) @ '']'' @ r"
  have dq: "dumps_str z @ t = dquote # concat (map json_esc z) @ dquote # t" for z t
    by (simp add: dumps_str_def)
  have "skip_ws ('' '' @ ?rest) = ?rest"
    by (cases ys) (simp_all add: dumps_str_def skip_ws_def json_ws_def dquote_def code_def)
  moreover have "load_items ?rest = Some (y # ys, r)" using 3 by simp
  moreover have "join '', '' (map dumps_str (x # y # ys)) @ '']'' @ r = dumps_str x @ '', '' @ ?rest"
    by simp
  ultimately show ?case
    using scan_dumps [of x "'', '' @ ?rest"]
    by (simp only: dq, subst load_items.simps)
      (simp add: skip_ws_def json_ws_def dquote_def code_def cons_fst_def)
qed simp

theorem loads_dumps: "loads_strs (dumps_strs xs) = Some xs"
proof (cases xs)
  case Nil
  then show ?thesis by (simp add: loads_strs_def dumps_strs_def skip_ws_def json_ws_def code_def)
next
  case (Cons x ys)
  let ?body = "join '', '' (map dumps_str xs) @ '']''"
  obtain t where t: "?body = dquote # t"
    unfolding Cons by (cases ys) (simp_all add: dumps_str_def)
  have "skip_ws ?body = ?body" unfolding t by (simp add: skip_ws_def json_ws_def dquote_def code_def)
  moreover have "load_items ?body = Some (xs, [])" using load_items_dumps [of xs "[]"] Cons by simp
  moreover have "skip_ws (dumps_strs xs) = CHR ''['' # ?body"
    by (simp add: dumps_strs_def skip_ws_def json_ws_def code_def)
  moreover have "dquote \<noteq> CHR '']''" by code_simp
  ultimately show ?thesis by (simp add: loads_strs_def t) (simp add: skip_ws_def)
qed

lemma dumps_strs_ne [simp]: "dumps_strs xs \<noteq> []"
  by (simp add: dumps_strs_def)

end
