(* ===== verification/PgQueue.thy ===== *)
theory PgQueue
  imports QueuePort PyJson
begin

text \<open>
  The durable queue (\<open>queue/postgres.py\<close>): the rows of table \<open>dear_agent_task\<close> and, for
  each method, the statements of its one transaction. A statement becomes the list function
  with its meaning: \<open>WHERE\<close> a filter, \<open>ORDER BY\<close> a stable sort, \<open>LIMIT\<close> a prefix,
  \<open>ON CONFLICT DO NOTHING\<close> a test of the two unique columns, \<open>COALESCE\<close> a case split. The
  order of the list is the physical order, which no statement may rely on. The database
  compares ids by its collation, whose sort key is the parameter \<open>coll\<close>. The \<open>state\<close>
  column has the eight values its \<open>CHECK\<close> constraint admits. The backend is shown to meet the
  queue interface.
\<close>

section \<open>Rows\<close>

record pg_row =
  r_id :: string
  r_transport_id :: string
  r_thread_id :: "string option"
  r_sender :: "string option"
  r_subject :: "string option"
  r_state :: task_state
  r_attempts :: nat
  r_lease_until :: "time option"
  r_created_at :: time
  r_updated_at :: "time option"
  r_spec_repo_url :: "string option"
  r_spec_base_branch :: "string option"
  r_spec_instructions :: "string option"
  r_spec_model_request :: "string option"
  r_spec_verify :: "string option"
  r_spec_depends_on :: "string option"
  r_branch :: "string option"
  r_commit :: "string option"
  r_pr_url :: "string option"

type_synonym pg_table = "pg_row list"

text \<open>
  \<open>_task_from_row\<close>. The last branch of the \<open>depends_on\<close> column is where \<open>json.loads\<close>
  raises; the invariant \<open>row_ok\<close> excludes it.
\<close>

definition depends_of_text :: "string option \<Rightarrow> string list" where
  "depends_of_text c =
     (case c of None \<Rightarrow> []
      | Some s \<Rightarrow> if s = [] then [] else (case loads_strs s of Some xs \<Rightarrow> xs | None \<Rightarrow> []))"

definition spec_of_cols ::
  "string option \<Rightarrow> string option \<Rightarrow> string option \<Rightarrow> string option \<Rightarrow> string option \<Rightarrow> string option
    \<Rightarrow> task_spec option" where
  "spec_of_cols repo_url base_branch instructions model_request verify depends_on =
     (case repo_url of
        None \<Rightarrow> None
      | Some url \<Rightarrow>
          Some \<lparr>sp_repo_url = url, sp_base_branch = or_else base_branch ''main'',
                sp_instructions = or_else instructions [], sp_model_request = model_request,
                sp_verify = verify, sp_depends_on = depends_of_text depends_on\<rparr>)"

definition evidence_of_cols ::
  "string option \<Rightarrow> string option \<Rightarrow> string option \<Rightarrow> evidence option" where
  "evidence_of_cols branch commit pr_url =
     (if branch \<noteq> None \<or> commit \<noteq> None \<or> pr_url \<noteq> None
      then Some \<lparr>ev_branch = branch, ev_commit = commit, ev_pr_url = pr_url\<rparr>
      else None)"

definition task_from_row :: "pg_row \<Rightarrow> task" where
  "task_from_row r =
     \<lparr>t_id = r_id r, t_transport_id = r_transport_id r, t_thread_id = r_thread_id r,
      t_sender = r_sender r, t_subject = r_subject r, t_state = r_state r,
      t_attempts = r_attempts r, t_lease_until = r_lease_until r, t_created_at = r_created_at r,
      t_spec = spec_of_cols (r_spec_repo_url r) (r_spec_base_branch r) (r_spec_instructions r)
                 (r_spec_model_request r) (r_spec_verify r) (r_spec_depends_on r),
      t_evidence = evidence_of_cols (r_branch r) (r_commit r) (r_pr_url r)\<rparr>"

text \<open>The row \<open>enqueue\<close> inserts; \<open>updated_at\<close> is left to its column default.\<close>

definition row_of_task :: "task \<Rightarrow> task_state \<Rightarrow> time \<Rightarrow> pg_row" where
  "row_of_task t st now =
     \<lparr>r_id = t_id t, r_transport_id = t_transport_id t, r_thread_id = t_thread_id t,
      r_sender = t_sender t, r_subject = t_subject t, r_state = st, r_attempts = 0,
      r_lease_until = None, r_created_at = now, r_updated_at = None,
      r_spec_repo_url = map_option sp_repo_url (t_spec t),
      r_spec_base_branch = map_option sp_base_branch (t_spec t),
      r_spec_instructions = map_option sp_instructions (t_spec t),
      r_spec_model_request = Option.bind (t_spec t) sp_model_request,
      r_spec_verify = Option.bind (t_spec t) sp_verify,
      r_spec_depends_on = map_option (\<lambda>s. dumps_strs (sp_depends_on s)) (t_spec t),
      r_branch = None, r_commit = None, r_pr_url = None\<rparr>"

section \<open>The methods\<close>

text \<open>\<open>UPDATE ... WHERE p SET f RETURNING\<close>: the table after it and the rows it returns.\<close>

definition sql_update :: "(pg_row \<Rightarrow> bool) \<Rightarrow> (pg_row \<Rightarrow> pg_row) \<Rightarrow> pg_table \<Rightarrow> pg_row list \<times> pg_table" where
  "sql_update p f db = (map f (filter p db), map (\<lambda>r. if p r then f r else r) db)"

text \<open>\<open>cur.fetchone()\<close>.\<close>

definition fetchone :: "'a list \<Rightarrow> 'a option" where
  "fetchone xs = (case xs of [] \<Rightarrow> None | x # _ \<Rightarrow> Some x)"

definition row_order :: "(string \<Rightarrow> string) \<Rightarrow> pg_row \<Rightarrow> time \<times> string" where
  "row_order coll r = (r_created_at r, coll (r_id r))"

definition pg_enqueue :: "task \<Rightarrow> task_state \<Rightarrow> time \<Rightarrow> pg_table \<Rightarrow> task option \<times> pg_table" where
  "pg_enqueue t st now db =
     (let row = row_of_task t st now in
      if \<exists>r \<in> set db. r_id r = r_id row \<or> r_transport_id r = r_transport_id row
      then (None, db)
      else (Some (task_from_row row), db @ [row]))"

definition pg_get :: "string \<Rightarrow> pg_table \<Rightarrow> task option" where
  "pg_get i db = map_option task_from_row (fetchone (filter (\<lambda>r. r_id r = i) db))"

definition pg_list :: "(string \<Rightarrow> string) \<Rightarrow> task_state \<Rightarrow> int \<Rightarrow> pg_table \<Rightarrow> task list" where
  "pg_list coll st limit db =
     map task_from_row
       (take (nat limit) (sort_key (row_order coll) (filter (\<lambda>r. r_state r = st) db)))"

definition pg_claim :: "task \<Rightarrow> duration \<Rightarrow> time \<Rightarrow> pg_table \<Rightarrow> bool \<times> pg_table" where
  "pg_claim t lease now db =
     (case sql_update (\<lambda>r. r_id r = t_id t \<and> r_state r = QUEUED)
             (\<lambda>r. r\<lparr>r_state := RUNNING, r_lease_until := Some (now + lease), r_updated_at := Some now\<rparr>) db of
        (rows, db') \<Rightarrow> (fetchone rows \<noteq> None, db'))"

text \<open>
  \<open>locked\<close> are the ids of the rows other transactions hold locked when the subquery runs
  (\<open>FOR UPDATE SKIP LOCKED\<close> passes over them).
\<close>

definition pg_claim_next ::
  "(string \<Rightarrow> string) \<Rightarrow> string list \<Rightarrow> duration \<Rightarrow> time \<Rightarrow> pg_table \<Rightarrow> task option \<times> pg_table" where
  "pg_claim_next coll locked lease now db =
     (let sub = fetchone (sort_key (row_order coll)
                  (filter (\<lambda>r. r_state r = QUEUED \<and> r_id r \<notin> set locked) db))
      in case sql_update (\<lambda>r. Some (r_id r) = map_option r_id sub)
                (\<lambda>r. r\<lparr>r_state := RUNNING, r_lease_until := Some (now + lease), r_updated_at := Some now\<rparr>) db of
           (rows, db') \<Rightarrow> (map_option task_from_row (fetchone rows), db'))"

definition coalesce :: "'a option \<Rightarrow> 'a option \<Rightarrow> 'a option" where
  "coalesce a b = (case a of None \<Rightarrow> b | Some x \<Rightarrow> Some x)"

definition pg_transition ::
  "task \<Rightarrow> task_state \<Rightarrow> evidence option \<Rightarrow> time \<Rightarrow> pg_table \<Rightarrow> (exn + task) \<times> pg_table" where
  "pg_transition t to_state ev now db =
     (case sql_update (\<lambda>r. r_id r = t_id t \<and> r_state r = t_state t)
             (\<lambda>r. r\<lparr>r_state := to_state,
                    r_lease_until := (if to_state = RUNNING then r_lease_until r else None),
                    r_updated_at := Some now,
                    r_branch := coalesce (Option.bind ev ev_branch) (r_branch r),
                    r_commit := coalesce (Option.bind ev ev_commit) (r_commit r),
                    r_pr_url := coalesce (Option.bind ev ev_pr_url) (r_pr_url r)\<rparr>) db of
        (rows, db') \<Rightarrow>
          (case fetchone rows of
             Some row \<Rightarrow> (Inr (task_from_row row), db')
           | None \<Rightarrow>
               (case fetchone (map r_state (filter (\<lambda>r. r_id r = t_id t) db')) of
                  None \<Rightarrow> (Inl (TaskNotFoundError (t_id t)), db')
                | Some current \<Rightarrow> (Inl (StateConflictError (t_id t) (t_state t) current), db'))))"

definition pg_release_stale :: "time \<Rightarrow> pg_table \<Rightarrow> task list \<times> pg_table" where
  "pg_release_stale now db =
     (case sql_update
             (\<lambda>r. r_state r = RUNNING \<and> (case r_lease_until r of None \<Rightarrow> False | Some l \<Rightarrow> l < now))
             (\<lambda>r. r\<lparr>r_state := QUEUED, r_attempts := r_attempts r + 1, r_lease_until := None,
                    r_updated_at := Some now\<rparr>) db of
        (rows, db') \<Rightarrow> (sort_key (age (\<lambda>i. i)) (map task_from_row rows), db'))"

definition pg_ops :: "(string \<Rightarrow> string) \<Rightarrow> pg_table queue_ops" where
  "pg_ops coll =
     \<lparr>q_enqueue = pg_enqueue, q_get = pg_get, q_list = pg_list coll, q_claim = pg_claim,
      q_claim_next = pg_claim_next coll [], q_transition = pg_transition,
      q_release_stale = pg_release_stale\<rparr>"

lemma pg_ops_simps [simp]:
  "q_enqueue (pg_ops coll) = pg_enqueue" "q_get (pg_ops coll) = pg_get"
  "q_list (pg_ops coll) = pg_list coll" "q_claim (pg_ops coll) = pg_claim"
  "q_claim_next (pg_ops coll) = pg_claim_next coll []" "q_transition (pg_ops coll) = pg_transition"
  "q_release_stale (pg_ops coll) = pg_release_stale"
  by (simp_all add: pg_ops_def)

section \<open>Abstraction and invariant\<close>

definition pg_store :: "pg_table \<Rightarrow> store" where
  "pg_store db i = map_of (map (\<lambda>r. (r_id r, task_from_row r)) db) i"

definition row_ok :: "pg_row \<Rightarrow> bool" where
  "row_ok r \<longleftrightarrow>
     (case r_spec_depends_on r of None \<Rightarrow> True | Some s \<Rightarrow> s = [] \<or> loads_strs s \<noteq> None)"

text \<open>The primary key, the unique column and readable rows.\<close>

definition pg_inv :: "pg_table \<Rightarrow> bool" where
  "pg_inv db \<longleftrightarrow>
     distinct (map r_id db) \<and> distinct (map r_transport_id db) \<and> (\<forall>r \<in> set db. row_ok r)"

text \<open>What the table keeps of an enqueued task: no evidence, and no empty base branch.\<close>

definition pg_canon :: "task \<Rightarrow> task" where
  "pg_canon t =
     t\<lparr>t_spec := map_option (\<lambda>s. s\<lparr>sp_base_branch := or_else (Some (sp_base_branch s)) ''main''\<rparr>) (t_spec t),
       t_evidence := None\<rparr>"

definition coalesce_ev :: "evidence option \<Rightarrow> evidence option \<Rightarrow> evidence option" where
  "coalesce_ev new old =
     (let b = coalesce (Option.bind new ev_branch) (Option.bind old ev_branch);
          c = coalesce (Option.bind new ev_commit) (Option.bind old ev_commit);
          p = coalesce (Option.bind new ev_pr_url) (Option.bind old ev_pr_url)
      in evidence_of_cols b c p)"

lemma pg_inv_Nil [simp]: "pg_inv []"
  by (simp add: pg_inv_def)

lemma task_from_row_sels [simp]:
  "t_id (task_from_row r) = r_id r" "t_transport_id (task_from_row r) = r_transport_id r"
  "t_state (task_from_row r) = r_state r" "t_created_at (task_from_row r) = r_created_at r"
  "t_lease_until (task_from_row r) = r_lease_until r" "t_attempts (task_from_row r) = r_attempts r"
  by (simp_all add: task_from_row_def)

lemma pg_store_iff:
  assumes "distinct (map r_id db)"
  shows "pg_store db i = Some t \<longleftrightarrow> (\<exists>r \<in> set db. r_id r = i \<and> task_from_row r = t)"
  using assms by (induction db) (auto simp: pg_store_def image_iff)

lemma pg_store_None: "pg_store db i = None \<longleftrightarrow> i \<notin> r_id ` set db"
  by (simp add: pg_store_def map_of_eq_None_iff image_image)

lemma pg_store_row: "pg_inv db \<Longrightarrow> r \<in> set db \<Longrightarrow> pg_store db (r_id r) = Some (task_from_row r)"
  by (auto simp: pg_inv_def pg_store_iff)

lemma pg_inv_row_eq: "pg_inv db \<Longrightarrow> r \<in> set db \<Longrightarrow> r' \<in> set db \<Longrightarrow> r_id r = r_id r' \<Longrightarrow> r = r'"
  unfolding pg_inv_def by (meson distinct_map inj_onD)

lemma pg_inv_store_ok: "pg_inv db \<Longrightarrow> store_ok (pg_store db)"
proof -
  assume inv: "pg_inv db"
  then have d: "distinct (map r_id db)" and tr: "inj_on r_transport_id (set db)"
    by (auto simp: pg_inv_def distinct_map)
  have row: "\<exists>r \<in> set db. r_id r = i \<and> task_from_row r = t" if "pg_store db i = Some t" for i t
    using that pg_store_iff [OF d] by blast
  have "finite (dom (pg_store db))"
    unfolding pg_store_def by (rule finite_dom_map_of)
  moreover have "t_id t = i" if "pg_store db i = Some t" for i t
    using row [OF that] by auto
  moreover have "i = j" if ij: "pg_store db i = Some t" "pg_store db j = Some t'"
      "t_transport_id t = t_transport_id t'" for i j t t'
  proof -
    from row [OF ij(1)] row [OF ij(2)] ij(3) obtain r r' where "r \<in> set db" "r_id r = i"
        "r' \<in> set db" "r_id r' = j" "r_transport_id r = r_transport_id r'" by auto
    with inj_onD [OF tr] show ?thesis by metis
  qed
  ultimately show ?thesis unfolding store_ok_def by blast
qed

lemma pg_fresh_iff:
  "pg_inv db \<Longrightarrow> fresh (pg_store db) t \<longleftrightarrow>
     \<not> (\<exists>r \<in> set db. r_id r = t_id t \<or> r_transport_id r = t_transport_id t)"
  unfolding fresh_def pg_store_None by (auto simp: pg_store_iff pg_inv_def image_iff) force

text \<open>An update that keeps ids, transport ids and the stored JSON.\<close>

definition keeps_keys :: "(pg_row \<Rightarrow> pg_row) \<Rightarrow> bool" where
  "keeps_keys f \<longleftrightarrow>
     (\<forall>r. r_id (f r) = r_id r \<and> r_transport_id (f r) = r_transport_id r \<and>
          r_spec_depends_on (f r) = r_spec_depends_on r)"

lemma update_inv:
  assumes "pg_inv db" and "keeps_keys f"
  shows "pg_inv (snd (sql_update p f db))"
proof -
  let ?g = "\<lambda>r. if p r then f r else r"
  have "map r_id (map ?g db) = map r_id db" "map r_transport_id (map ?g db) = map r_transport_id db"
    "\<And>r. row_ok (f r) = row_ok r"
    using assms(2) by (auto simp: keeps_keys_def row_ok_def)
  with assms(1) show ?thesis by (auto simp: pg_inv_def sql_update_def simp del: map_map)
qed

lemma update_store:
  assumes "keeps_keys f"
  shows "pg_store (map (\<lambda>r. if p r then f r else r) db) i =
    (case fetchone (filter (\<lambda>r. r_id r = i) db) of None \<Rightarrow> None
     | Some r \<Rightarrow> Some (task_from_row (if p r then f r else r)))"
  using assms by (induction db) (auto simp: pg_store_def fetchone_def keeps_keys_def)

lemma pg_store_fetch:
  "pg_store db i = map_option task_from_row (fetchone (filter (\<lambda>r. r_id r = i) db))"
  by (induction db) (auto simp: pg_store_def fetchone_def)

lemma fetch_id:
  assumes "pg_inv db" and "r \<in> set db"
  shows "filter (\<lambda>x. r_id x = r_id r) db = [r]"
proof -
  have "distinct (map r_id db)" using assms(1) by (simp add: pg_inv_def)
  then show ?thesis using assms(2)
    by (induction db) (auto simp: filter_empty_conv image_iff)
qed

text \<open>A guarded \<open>UPDATE\<close> by id touches one row or none.\<close>

lemma update_by_id:
  assumes inv: "pg_inv db" and r: "r \<in> set db" and kk: "keeps_keys f"
  shows "p r \<Longrightarrow> filter (\<lambda>x. r_id x = r_id r \<and> p x) db = [r]"
    and "p r \<Longrightarrow> pg_store (snd (sql_update (\<lambda>x. r_id x = r_id r \<and> p x) f db)) =
           (pg_store db)(r_id r \<mapsto> task_from_row (f r))"
    and "\<not> p r \<Longrightarrow> sql_update (\<lambda>x. r_id x = r_id r \<and> p x) f db = ([], db)"
proof -
  have f: "filter (\<lambda>x. r_id x = r_id r \<and> p x) db = filter p (filter (\<lambda>x. r_id x = r_id r) db)"
    by (simp add: conj_commute)
  then show "p r \<Longrightarrow> filter (\<lambda>x. r_id x = r_id r \<and> p x) db = [r]"
    by (simp only: fetch_id [OF inv r]) simp
  show "\<not> p r \<Longrightarrow> sql_update (\<lambda>x. r_id x = r_id r \<and> p x) f db = ([], db)"
  proof -
    assume "\<not> p r"
    then have "\<forall>x \<in> set db. \<not> (r_id x = r_id r \<and> p x)" using pg_inv_row_eq [OF inv _ r] by blast
    then show ?thesis by (auto simp: sql_update_def filter_empty_conv intro!: map_idI)
  qed
  show "pg_store (snd (sql_update (\<lambda>x. r_id x = r_id r \<and> p x) f db)) =
      (pg_store db)(r_id r \<mapsto> task_from_row (f r))" if "p r"
  proof
    fix i
    show "pg_store (snd (sql_update (\<lambda>x. r_id x = r_id r \<and> p x) f db)) i =
        ((pg_store db)(r_id r \<mapsto> task_from_row (f r))) i"
    proof (cases "i = r_id r")
      case True
      then show ?thesis
        using that fetch_id [OF inv r] by (simp add: sql_update_def update_store [OF kk] fetchone_def)
    next
      case False
      show ?thesis
      proof (cases "filter (\<lambda>r. r_id r = i) db")
        case Nil
        then show ?thesis
          using False by (simp add: sql_update_def update_store [OF kk]) (simp add: pg_store_fetch fetchone_def)
      next
        case (Cons x xs)
        then have "x \<in> set (filter (\<lambda>r. r_id r = i) db)" by simp
        then have "r_id x = i" by simp
        with False Cons show ?thesis
          by (simp add: sql_update_def update_store [OF kk]) (simp add: pg_store_fetch fetchone_def)
      qed
    qed
  qed
qed

section \<open>The methods meet the interface\<close>

lemma task_from_new_row: "task_from_row (row_of_task t st now) = enqueued st now (pg_canon t)"
  by (cases "t_spec t")
    (auto simp: task_from_row_def row_of_task_def enqueued_def pg_canon_def spec_of_cols_def
      evidence_of_cols_def depends_of_text_def loads_dumps split: if_splits)

lemma row_ok_new: "row_ok (row_of_task t st now)"
  by (cases "t_spec t") (simp_all add: row_ok_def row_of_task_def loads_dumps)

lemma row_of_task_keys [simp]:
  "r_id (row_of_task t st now) = t_id t" "r_transport_id (row_of_task t st now) = t_transport_id t"
  by (simp_all add: row_of_task_def)

lemma pg_enqueue_new:
  assumes inv: "pg_inv db" and fr: "fresh (pg_store db) t"
  shows "pg_enqueue t st now db = (Some (enqueued st now (pg_canon t)), db @ [row_of_task t st now])"
    and "pg_inv (db @ [row_of_task t st now])"
    and "pg_store (db @ [row_of_task t st now]) = (pg_store db)(t_id t \<mapsto> enqueued st now (pg_canon t))"
proof -
  have new: "\<forall>r \<in> set db. r_id r \<noteq> t_id t \<and> r_transport_id r \<noteq> t_transport_id t"
    using fr pg_fresh_iff [OF inv, of t] by blast
  then show "pg_enqueue t st now db = (Some (enqueued st now (pg_canon t)), db @ [row_of_task t st now])"
    by (simp add: pg_enqueue_def Let_def task_from_new_row)
  show "pg_inv (db @ [row_of_task t st now])"
    using inv new by (auto simp: pg_inv_def row_ok_new)
  have "pg_store db (t_id t) = None" using fr by (simp add: fresh_def)
  then show "pg_store (db @ [row_of_task t st now]) = (pg_store db)(t_id t \<mapsto> enqueued st now (pg_canon t))"
    by (auto simp: pg_store_def [abs_def] fun_eq_iff task_from_new_row map_add_def split: option.split)
qed

lemma pg_enqueue_dup:
  "pg_inv db \<Longrightarrow> \<not> fresh (pg_store db) t \<Longrightarrow> pg_enqueue t st now db = (None, db)"
  by (auto simp: pg_enqueue_def pg_fresh_iff)

lemma row_order_age: "row_order coll r = age coll (task_from_row r)"
  by (simp add: row_order_def age_def)

lemma sort_rows_age:
  "map (age coll) (map task_from_row (sort_key (row_order coll) rows)) =
     map (row_order coll) (sort_key (row_order coll) rows)"
  by (simp add: row_order_age)

lemma pg_list_sound:
  assumes "pg_inv db" and "t \<in> set (pg_list coll st limit db)"
  shows "pg_store db (t_id t) = Some t \<and> t_state t = st"
proof -
  from assms(2) obtain r where "r \<in> set db" "r_state r = st" "t = task_from_row r"
    by (auto simp: pg_list_def dest!: in_set_takeD)
  with pg_store_row [OF assms(1)] show ?thesis by simp
qed

lemma pg_list_sorted: "sorted (map (age coll) (pg_list coll st limit db))"
  unfolding pg_list_def take_map [symmetric] sort_rows_age by (simp add: sorted_wrt_take)

lemma task_from_row_inj: "pg_inv db \<Longrightarrow> inj_on task_from_row (set db)"
  by (rule inj_onI) (metis pg_inv_row_eq task_from_row_sels(1))

lemma pg_list_distinct: "pg_inv db \<Longrightarrow> distinct (pg_list coll st limit db)"
proof -
  assume inv: "pg_inv db"
  let ?xs = "take (nat limit) (sort_key (row_order coll) (filter (\<lambda>r. r_state r = st) db))"
  have "set ?xs \<subseteq> set db" by (auto dest: in_set_takeD)
  then have "inj_on task_from_row (set ?xs)" by (rule inj_on_subset [OF task_from_row_inj [OF inv]])
  moreover have "distinct db" using inv by (auto simp: pg_inv_def distinct_map)
  ultimately show ?thesis by (simp add: pg_list_def distinct_map distinct_take)
qed

lemma pg_list_complete:
  assumes inv: "pg_inv db" and lim: "0 \<le> limit" and t: "pg_store db i = Some t" "t_state t = st"
    and out: "t \<notin> set (pg_list coll st limit db)"
  shows "int (length (pg_list coll st limit db)) = limit \<and>
    (\<forall>u \<in> set (pg_list coll st limit db). age coll u \<le> age coll t)"
proof -
  let ?all = "sort_key (row_order coll) (filter (\<lambda>r. r_state r = st) db)"
  let ?pre = "take (nat limit) ?all" and ?post = "drop (nat limit) ?all"
  from t inv obtain r where r: "r \<in> set db" "task_from_row r = t"
    by (auto simp: pg_store_iff pg_inv_def)
  with t(2) have "r \<in> set ?all" by auto
  moreover have "r \<notin> set ?pre" using out r by (auto simp: pg_list_def)
  ultimately have post: "r \<in> set ?post" by (metis Un_iff append_take_drop_id set_append)
  have "sorted (map (row_order coll) (?pre @ ?post))" by (simp only: append_take_drop_id) simp
  with post have "\<forall>x \<in> set ?pre. row_order coll x \<le> row_order coll r"
    by (metis sorted_split_le)
  moreover have "length ?pre = nat limit"
    using post by (metis drop_all empty_iff empty_set length_take min_def nat_le_linear)
  ultimately show ?thesis using lim r by (auto simp: pg_list_def row_order_age)
qed

lemma pg_claim_won:
  assumes inv: "pg_inv db" and s: "pg_store db (t_id t) = Some s" "t_state s = QUEUED"
  shows "fst (pg_claim t lease now db)"
    and "pg_store (snd (pg_claim t lease now db)) = (pg_store db)(t_id t \<mapsto> claimed lease now s)"
proof -
  let ?f = "\<lambda>r. r\<lparr>r_state := RUNNING, r_lease_until := Some (now + lease), r_updated_at := Some now\<rparr>"
  have kk: "keeps_keys ?f" by (simp add: keeps_keys_def)
  from s inv obtain r where r: "r \<in> set db" "r_id r = t_id t" "task_from_row r = s"
    by (auto simp: pg_store_iff pg_inv_def)
  then have q: "r_state r = QUEUED" using s(2) by auto
  have f: "task_from_row (?f r) = claimed lease now s"
    using r(3) by (auto simp: claimed_def task_from_row_def)
  note u = update_by_id [OF inv r(1) kk, of "\<lambda>x. r_state x = QUEUED", unfolded r(2)]
  show "fst (pg_claim t lease now db)"
    using u(1) q by (simp add: pg_claim_def sql_update_def fetchone_def)
  show "pg_store (snd (pg_claim t lease now db)) = (pg_store db)(t_id t \<mapsto> claimed lease now s)"
    using u(2) [OF q] f by (simp add: pg_claim_def split_beta)
qed

lemma update_none: "\<forall>r \<in> set db. \<not> p r \<Longrightarrow> sql_update p f db = ([], db)"
  by (auto simp: sql_update_def filter_empty_conv intro!: map_idI)

lemma pg_claim_lost:
  assumes inv: "pg_inv db" and no: "\<not> (\<exists>s. pg_store db (t_id t) = Some s \<and> t_state s = QUEUED)"
  shows "pg_claim t lease now db = (False, db)"
proof -
  have "\<forall>r \<in> set db. \<not> (r_id r = t_id t \<and> r_state r = QUEUED)"
    using no pg_store_row [OF inv] by fastforce
  from update_none [OF this] show ?thesis by (simp add: pg_claim_def fetchone_def)
qed

lemma pg_claim_next_cases:
  assumes inv: "pg_inv db"
  obtains (none) "pg_claim_next coll locked lease now db = (None, db)"
      "\<forall>i u. pg_store db i = Some u \<longrightarrow> i \<notin> set locked \<longrightarrow> t_state u \<noteq> QUEUED"
  | (some) s db' where "pg_claim_next coll locked lease now db = (Some (claimed lease now s), db')"
      "pg_inv db'" "pg_store db' = (pg_store db)(t_id s \<mapsto> claimed lease now s)"
      "pg_store db (t_id s) = Some s" "t_state s = QUEUED" "t_id s \<notin> set locked"
      "\<forall>i u. pg_store db i = Some u \<longrightarrow> i \<notin> set locked \<longrightarrow> t_state u = QUEUED \<longrightarrow> age coll s \<le> age coll u"
proof -
  let ?f = "\<lambda>r. r\<lparr>r_state := RUNNING, r_lease_until := Some (now + lease), r_updated_at := Some now\<rparr>"
  let ?q = "\<lambda>r. r_state r = QUEUED \<and> r_id r \<notin> set locked"
  let ?rows = "sort_key (row_order coll) (filter ?q db)"
  have kk: "keeps_keys ?f" by (simp add: keeps_keys_def)
  have row: "\<exists>r \<in> set db. r_id r = i \<and> task_from_row r = u" if "pg_store db i = Some u" for i u
    using that inv by (auto simp: pg_store_iff pg_inv_def)
  show thesis
  proof (cases ?rows)
    case Nil
    then have "set ?rows = {}" by simp
    then have no: "\<forall>r \<in> set db. \<not> ?q r" by (auto simp: filter_empty_conv)
    have "pg_claim_next coll locked lease now db = (None, db)"
      using Nil update_none [of db "\<lambda>r. False" ?f] by (simp add: pg_claim_next_def fetchone_def Let_def)
    moreover have "\<forall>i u. pg_store db i = Some u \<longrightarrow> i \<notin> set locked \<longrightarrow> t_state u \<noteq> QUEUED"
      using no row by fastforce
    ultimately show thesis by (rule none)
  next
    case (Cons r rs)
    then have "r \<in> set ?rows" by simp
    then have r: "r \<in> set db" "?q r" by auto
    have le: "row_order coll r \<le> row_order coll x" if "x \<in> set db" "?q x" for x
    proof -
      from that have "x \<in> set (filter ?q db)" by simp
      from hd_sort_key_le [OF this, of "row_order coll"] Cons show ?thesis by simp
    qed
    note u = update_by_id [OF inv r(1) kk, of "\<lambda>x. True", simplified]
    have f: "task_from_row (?f r) = claimed lease now (task_from_row r)"
      by (simp add: claimed_def task_from_row_def)
    have eq: "pg_claim_next coll locked lease now db =
        (Some (claimed lease now (task_from_row r)), snd (sql_update (\<lambda>x. r_id x = r_id r) ?f db))"
      using Cons u(1) f by (simp add: pg_claim_next_def fetchone_def sql_update_def Let_def)
    have "pg_store (snd (sql_update (\<lambda>x. r_id x = r_id r) ?f db)) =
        (pg_store db)(t_id (task_from_row r) \<mapsto> claimed lease now (task_from_row r))"
      using u(2) f by simp
    moreover have "\<forall>i u. pg_store db i = Some u \<longrightarrow> i \<notin> set locked \<longrightarrow> t_state u = QUEUED \<longrightarrow>
        age coll (task_from_row r) \<le> age coll u"
      using le row by (fastforce simp: row_order_age)
    ultimately show thesis
      using some [OF eq update_inv [OF inv kk]] r pg_store_row [OF inv r(1)] by simp
  qed
qed

lemma pg_transition_missing:
  assumes "pg_store db (t_id t) = None"
  shows "pg_transition t st ev now db = (Inl (TaskNotFoundError (t_id t)), db)"
proof -
  have no: "\<forall>r \<in> set db. \<not> (r_id r = t_id t)" using assms by (auto simp: pg_store_None image_iff)
  then have "\<forall>r \<in> set db. \<not> (r_id r = t_id t \<and> r_state r = t_state t)" by blast
  from update_none [OF this] no show ?thesis
    by (simp add: pg_transition_def fetchone_def)
qed

lemma pg_transition_conflict:
  assumes inv: "pg_inv db" and s: "pg_store db (t_id t) = Some s" "t_state s \<noteq> t_state t"
  shows "pg_transition t st ev now db = (Inl (StateConflictError (t_id t) (t_state t) (t_state s)), db)"
proof -
  from s inv obtain r where r: "r \<in> set db" "r_id r = t_id t" "task_from_row r = s"
    by (auto simp: pg_store_iff pg_inv_def)
  then have ne: "r_state r \<noteq> t_state t" "r_state r = t_state s" using s(2) by auto
  have "\<forall>x \<in> set db. \<not> (r_id x = t_id t \<and> r_state x = t_state t)"
    using pg_inv_row_eq [OF inv _ r(1)] r(2) ne(1) by metis
  from update_none [OF this] fetch_id [OF inv r(1), unfolded r(2)] ne show ?thesis
    by (simp add: pg_transition_def fetchone_def)
qed

definition row_moved :: "task_state \<Rightarrow> evidence option \<Rightarrow> time \<Rightarrow> pg_row \<Rightarrow> pg_row" where
  "row_moved to_state ev now r =
     r\<lparr>r_state := to_state,
       r_lease_until := (if to_state = RUNNING then r_lease_until r else None),
       r_updated_at := Some now,
       r_branch := coalesce (Option.bind ev ev_branch) (r_branch r),
       r_commit := coalesce (Option.bind ev ev_commit) (r_commit r),
       r_pr_url := coalesce (Option.bind ev ev_pr_url) (r_pr_url r)\<rparr>"

lemma bind_evidence_of_cols [simp]:
  "Option.bind (evidence_of_cols b c p) ev_branch = b"
  "Option.bind (evidence_of_cols b c p) ev_commit = c"
  "Option.bind (evidence_of_cols b c p) ev_pr_url = p"
  by (auto simp: evidence_of_cols_def)

lemma task_from_row_moved:
  "task_from_row (row_moved st ev now r) =
     moved st (coalesce_ev ev (t_evidence (task_from_row r))) (task_from_row r)"
  by (simp add: task_from_row_def row_moved_def moved_def coalesce_ev_def Let_def)

lemma pg_transition_ok:
  assumes inv: "pg_inv db" and s: "pg_store db (t_id t) = Some s" "t_state s = t_state t"
  shows "fst (pg_transition t st ev now db) = Inr (moved st (coalesce_ev ev (t_evidence s)) s)"
    and "pg_store (snd (pg_transition t st ev now db)) =
      (pg_store db)(t_id t \<mapsto> moved st (coalesce_ev ev (t_evidence s)) s)"
    and "pg_inv (snd (pg_transition t st ev now db))"
proof -
  let ?p = "\<lambda>r. r_id r = t_id t \<and> r_state r = t_state t"
  have kk: "keeps_keys (row_moved st ev now)" by (simp add: keeps_keys_def row_moved_def)
  from s inv obtain r where r: "r \<in> set db" "r_id r = t_id t" "task_from_row r = s"
    by (auto simp: pg_store_iff pg_inv_def)
  then have q: "r_state r = t_state t" using s(2) by auto
  note u = update_by_id [OF inv r(1) kk, of "\<lambda>x. r_state x = t_state t", unfolded r(2)]
  have eq: "pg_transition t st ev now db =
      (Inr (task_from_row (row_moved st ev now r)), snd (sql_update ?p (row_moved st ev now) db))"
    using u(1) [OF q] by (simp add: pg_transition_def sql_update_def fetchone_def row_moved_def)
  show "fst (pg_transition t st ev now db) = Inr (moved st (coalesce_ev ev (t_evidence s)) s)"
    and "pg_store (snd (pg_transition t st ev now db)) =
      (pg_store db)(t_id t \<mapsto> moved st (coalesce_ev ev (t_evidence s)) s)"
    using eq u(2) [OF q] by (simp_all add: task_from_row_moved r(3))
  show "pg_inv (snd (pg_transition t st ev now db))"
    using eq update_inv [OF inv kk] by simp
qed

definition row_stale :: "time \<Rightarrow> pg_row \<Rightarrow> bool" where
  "row_stale now r \<longleftrightarrow>
     r_state r = RUNNING \<and> (case r_lease_until r of None \<Rightarrow> False | Some l \<Rightarrow> l < now)"

definition row_released :: "time \<Rightarrow> pg_row \<Rightarrow> pg_row" where
  "row_released now r =
     r\<lparr>r_state := QUEUED, r_attempts := r_attempts r + 1, r_lease_until := None, r_updated_at := Some now\<rparr>"

lemma row_stale_iff: "row_stale now r \<longleftrightarrow> stale now (task_from_row r)"
  by (simp add: row_stale_def stale_def)

lemma task_from_row_released: "task_from_row (row_released now r) = released (task_from_row r)"
  by (simp add: task_from_row_def row_released_def released_def)

lemma pg_release_eq:
  "pg_release_stale now db =
     (sort_key (age (\<lambda>i. i)) (map task_from_row (fst (sql_update (row_stale now) (row_released now) db))),
      snd (sql_update (row_stale now) (row_released now) db))"
  by (simp add: pg_release_stale_def sql_update_def row_stale_def [abs_def] row_released_def [abs_def])

lemma pg_release_inv: "pg_inv db \<Longrightarrow> pg_inv (snd (pg_release_stale now db))"
  by (simp add: pg_release_eq update_inv keeps_keys_def row_released_def)

lemma pg_release_store:
  "pg_store (snd (pg_release_stale now db)) =
     (\<lambda>i. map_option (\<lambda>t. if stale now t then released t else t) (pg_store db i))"
proof
  fix i
  have kk: "keeps_keys (row_released now)" by (simp add: keeps_keys_def row_released_def)
  show "pg_store (snd (pg_release_stale now db)) i =
      map_option (\<lambda>t. if stale now t then released t else t) (pg_store db i)"
    unfolding pg_release_eq snd_conv sql_update_def update_store [OF kk] pg_store_fetch [of db]
    by (auto simp: row_stale_iff task_from_row_released split: option.split)
qed

lemma pg_release_result:
  assumes inv: "pg_inv db"
  shows "set (fst (pg_release_stale now db)) = {released t | t i. pg_store db i = Some t \<and> stale now t}"
proof -
  have "set (fst (pg_release_stale now db)) =
      released ` task_from_row ` {r \<in> set db. stale now (task_from_row r)}"
    by (auto simp: pg_release_eq sql_update_def row_stale_iff task_from_row_released image_iff)
  also have "\<dots> = {released t | t i. pg_store db i = Some t \<and> stale now t}"
    using inv by (auto simp: pg_store_iff pg_inv_def)
  finally show ?thesis .
qed

lemma pg_release_distinct: "pg_inv db \<Longrightarrow> distinct (map t_id (fst (pg_release_stale now db)))"
proof -
  assume "pg_inv db"
  then have "distinct (map r_id (filter (row_stale now) db))" by (simp add: pg_inv_def distinct_map_filter)
  moreover have "t_id (task_from_row (row_released now r)) = r_id r" for r by (simp add: row_released_def)
  ultimately have "distinct (map t_id (map task_from_row (fst (sql_update (row_stale now) (row_released now) db))))"
    by (simp add: sql_update_def comp_def)
  then show ?thesis unfolding pg_release_eq fst_conv distinct_map_sort_key .
qed

interpretation pgq: task_queue "pg_ops coll" pg_store pg_inv pg_canon coalesce_ev coll for coll
proof (unfold_locales, goal_cases)
  case (3 q) then show ?case by (rule pg_inv_store_ok)
next
  case (4 q i) show ?case by (simp add: pg_get_def pg_store_fetch)
next
  case (5 q limit t st) then show ?case using pg_list_sound by simp
next
  case (6 q limit st) show ?case by (simp add: pg_list_sorted)
next
  case (7 q limit st) then show ?case by (simp add: pg_list_distinct)
next
  case (8 q limit i t st) then show ?case using pg_list_complete by simp
next
  case (9 q limit st) then show ?case by (simp add: pg_list_def)
next
  case (10 q t st now) then show ?case
    by (cases "fresh (pg_store q) t") (simp_all add: pg_enqueue_new pg_enqueue_dup)
next
  case (11 q t st now) then show ?case by (simp add: pg_enqueue_new)
next
  case (12 q t st now) then show ?case by (simp add: pg_enqueue_dup)
next
  case (13 q t lease now) then show ?case
    by (simp add: pg_claim_def split_beta update_inv keeps_keys_def)
next
  case (14 q t s lease now) then show ?case by (simp add: pg_claim_won)
next
  case (15 q t lease now) then show ?case by (simp add: pg_claim_lost)
next
  case (16 q lease now)
  show ?case
    by (cases rule: pg_claim_next_cases [OF 16, of coll "[]" lease now]) (simp_all add: 16)
next
  case (17 q lease now t q')
  show ?case
  proof (cases rule: pg_claim_next_cases [OF 17(1), of coll "[]" lease now])
    case 1
    with 17 show ?thesis by simp
  next
    case (2 s db')
    with 17 have "t = claimed lease now s" "q' = db'" by simp_all
    with 2 show ?thesis by (intro exI [of _ s]) (simp add: claimed_def)
  qed
next
  case (18 q lease now q')
  show ?case
  proof (cases rule: pg_claim_next_cases [OF 18(1), of coll "[]" lease now])
    case 1
    with 18 show ?thesis by simp
  next
    case (2 s db')
    with 18 show ?thesis by simp
  qed
next
  case (19 q t st ev now)
  show ?case
  proof (cases "pg_store q (t_id t)")
    case None
    with 19 show ?thesis by (simp add: pg_transition_missing)
  next
    case (Some s)
    with 19 pg_transition_ok(3) [OF 19 Some] pg_transition_conflict [OF 19 Some] show ?thesis
      by (cases "t_state s = t_state t") simp_all
  qed
next
  case (20 q t st ev now) then show ?case by (simp add: pg_transition_missing)
next
  case (21 q t s st ev now) then show ?case by (simp add: pg_transition_conflict)
next
  case (22 q t s st ev now) then show ?case by (simp add: pg_transition_ok)
next
  case (23 q now) then show ?case by (simp add: pg_release_inv)
next
  case (24 q now) show ?case by (simp add: pg_release_store)
next
  case (25 q now) then show ?case by (simp add: pg_release_result)
next
  case (26 q now) then show ?case by (simp add: pg_release_distinct)
next
  case (27 q now) show ?case by (simp add: pg_release_eq)
qed (simp_all add: pg_canon_def)

section \<open>Properties of the durable queue\<close>

text \<open>
  C1. Over the database, in any interleaving of the clients' calls, two successful claims of one
  task are separated by a step that took it out of \<open>running\<close>.
\<close>

theorem pg_claims_exclusive:
  assumes "qrun (pg_ops coll) [] (pre @ Claimed i # mid @ Claimed i # post) q"
  shows "\<exists>l \<in> set mid. frees i l"
  using assms by (rule pgq.claims_exclusive) simp

theorem pg_claims_exclusive_witness:
  "\<exists>l \<in> set [ClaimLost, Moved ''a'' RUNNING QUEUED]. frees ''a'' l"
proof -
  let ?t = "new_task ''a'' ''m'' 0"
  have "fst (qexecs (pg_ops (\<lambda>i. i)) [CEnqueue ?t QUEUED 1, CClaim ?t 10 2, CClaimNext 10 3,
      CTransition (?t\<lparr>t_state := RUNNING\<rparr>) QUEUED None 4, CClaimNext 10 5] []) =
    [Enqueued ''a'' QUEUED] @ Claimed ''a'' # [ClaimLost, Moved ''a'' RUNNING QUEUED] @ Claimed ''a'' # []"
    by code_simp
  from pg_claims_exclusive [OF qexecs_labels [OF this]] show ?thesis .
qed

text \<open>
  C26. No call ever loses a task, rewrites what identifies it (id, transport id, thread, sender,
  subject, spec, creation time) or lowers its attempts, and only running tasks hold a lease.
\<close>

theorem pg_tasks_durable:
  assumes "qrun (pg_ops coll) [] ls q" and "qrun (pg_ops coll) q ls' q'" and "pg_store q i = Some t"
  shows "(\<exists>t'. pg_store q' i = Some t' \<and> same_task t t' \<and> t_attempts t \<le> t_attempts t') \<and>
    leases_ok (pg_store q')"
proof -
  have "leases_ok (pg_store [])" by (simp add: leases_ok_def pg_store_def)
  with pgq.qrun_keeps [OF assms(1)] have "pg_inv q" "leases_ok (pg_store q)" by simp_all
  with pgq.qrun_keeps [OF assms(2)] pgq.qrun_durable [OF assms(2) _ assms(3)] show ?thesis by blast
qed

theorem pg_tasks_durable_witness:
  "\<exists>q q'. qrun (pg_ops (\<lambda>i. i)) [] [Enqueued ''a'' QUEUED] q \<and> qrun (pg_ops (\<lambda>i. i)) q [Claimed ''a''] q' \<and>
    (\<exists>t'. pg_store q' ''a'' = Some t')"
proof -
  let ?q = "snd (qexecs (pg_ops (\<lambda>i. i)) [CEnqueue (new_task ''a'' ''m'' 0) QUEUED 1] [])"
  have 1: "qrun (pg_ops (\<lambda>i. i)) [] [Enqueued ''a'' QUEUED] ?q" by (rule qexecs_labels) code_simp
  have 2: "qrun (pg_ops (\<lambda>i. i)) ?q [Claimed ''a''] (snd (qexecs (pg_ops (\<lambda>i. i)) [CClaimNext 5 2] ?q))"
    by (rule qexecs_labels) code_simp
  have 3: "pg_store ?q ''a'' = Some (enqueued QUEUED 1 (new_task ''a'' ''m'' 0))" by code_simp
  from 1 2 pg_tasks_durable [OF 1 2 3] show ?thesis by blast
qed

text \<open>
  C15. A worker that dies does not strand its task: once the lease has passed, the next
  \<open>release_stale\<close> puts the task back in the queue with one more attempt and a claim then succeeds.
\<close>

theorem pg_crash_recovery:
  assumes "pg_inv q" and "pg_store q i = Some t" and "t_state t = RUNNING"
    and "t_lease_until t = Some l" and "l < now"
  shows "pg_store (snd (pg_release_stale now q)) i = Some (released t) \<and>
    fst (pg_claim t lease now' (snd (pg_release_stale now q)))"
proof -
  have inv: "pg_inv (snd (pg_release_stale now q))" by (rule pg_release_inv [OF assms(1)])
  have r: "pg_store (snd (pg_release_stale now q)) i = Some (released t)"
    using pgq.release_requeues [OF assms] by simp
  moreover have "t_id t = i" using store_okD [OF pg_inv_store_ok [OF assms(1)] assms(2)] .
  ultimately show ?thesis using pg_claim_won(1) [OF inv, of t "released t" lease now']
    by (simp add: released_def)
qed

theorem pg_crash_recovery_witness:
  "fst (pg_claim (new_task ''a'' ''m'' 0) 10 21 (snd (pg_release_stale 20
     (snd (qexecs (pg_ops (\<lambda>i. i)) [CEnqueue (new_task ''a'' ''m'' 0) QUEUED 1, CClaimNext 10 2] [])))))"
proof -
  let ?t = "new_task ''a'' ''m'' 0"
  let ?cs = "[CEnqueue ?t QUEUED 1, CClaimNext 10 2]"
  let ?q = "snd (qexecs (pg_ops (\<lambda>i. i)) ?cs [])"
  have "qrun (pg_ops (\<lambda>i. i)) [] (fst (qexecs (pg_ops (\<lambda>i. i)) ?cs [])) ?q" by (rule qexecs_labels) simp
  then have inv: "pg_inv ?q" using pgq.qrun_keeps [of "\<lambda>i. i"] by simp
  have s: "pg_store ?q ''a'' = Some (claimed 10 2 (enqueued QUEUED 1 ?t))" by code_simp
  from pg_crash_recovery [OF inv s, of 12 20 10 21]
  have "fst (pg_claim (claimed 10 2 (enqueued QUEUED 1 ?t)) 10 21 (snd (pg_release_stale 20 ?q)))"
    by (simp add: claimed_def)
  then show ?thesis by (simp add: pg_claim_def claimed_def enqueued_def)
qed

text \<open>
  \<open>claim_next\<close> with other transactions holding locks claims the oldest queued task that none
  of them holds (creation time, then id in the database's order), and finds none only when every queued task is locked.
\<close>

theorem pg_claim_next_oldest:
  assumes "pg_inv db"
  shows "case pg_claim_next coll locked lease now db of
     (None, db') \<Rightarrow> db' = db \<and> (\<forall>i u. pg_store db i = Some u \<longrightarrow> t_state u = QUEUED \<longrightarrow> i \<in> set locked)
   | (Some t, db') \<Rightarrow>
       \<exists>s. pg_store db (t_id t) = Some s \<and> t_state s = QUEUED \<and> t_id t \<notin> set locked \<and> t = claimed lease now s \<and>
           pg_store db' = (pg_store db)(t_id t \<mapsto> t) \<and>
           (\<forall>i u. pg_store db i = Some u \<longrightarrow> t_state u = QUEUED \<longrightarrow> i \<notin> set locked \<longrightarrow> age coll s \<le> age coll u)"
  by (cases rule: pg_claim_next_cases [OF assms, of coll locked lease now]) (auto simp: claimed_def)

theorem pg_claim_next_oldest_witness:
  "pg_inv [row_of_task (new_task ''a'' ''m'' 0) QUEUED 1, row_of_task (new_task ''b'' ''n'' 0) QUEUED 2] \<and>
   map_option t_id (fst (pg_claim_next (\<lambda>i. i) [''a''] 10 3
     [row_of_task (new_task ''a'' ''m'' 0) QUEUED 1, row_of_task (new_task ''b'' ''n'' 0) QUEUED 2])) = Some ''b'' \<and>
   pg_store [row_of_task (new_task ''a'' ''m'' 0) QUEUED 1, row_of_task (new_task ''b'' ''n'' 0) QUEUED 2] ''b'' \<noteq> None"
proof -
  let ?db = "[row_of_task (new_task ''a'' ''m'' 0) QUEUED 1, row_of_task (new_task ''b'' ''n'' 0) QUEUED 2]"
  have inv: "pg_inv ?db" by (simp add: pg_inv_def row_ok_new new_task_def)
  have b: "map_option t_id (fst (pg_claim_next (\<lambda>i. i) [''a''] 10 3 ?db)) = Some ''b''" by code_simp
  then obtain t db' where t: "pg_claim_next (\<lambda>i. i) [''a''] 10 3 ?db = (Some t, db')" "t_id t = ''b''"
    by (cases "pg_claim_next (\<lambda>i. i) [''a''] 10 3 ?db") auto
  from pg_claim_next_oldest [OF inv, where coll = "\<lambda>i. i" and locked = "[''a'']" and lease = 10 and now = 3] inv b t show ?thesis
    unfolding t(1) by auto
qed

end
