(* ===== verification/Backends.thy ===== *)
theory Backends
  imports MemQueue PgQueue
begin

text \<open>
  Two backends of the queue interface that order ids alike give every client the same answers:
  the same sequence of calls produces the same outcomes and leaves stores that agree on
  everything that decides scheduling. Evidence and the stored spec are outside the
  comparison, as the backends keep them differently.
\<close>

definition core :: "task \<Rightarrow> string \<times> string \<times> task_state \<times> nat \<times> time option \<times> time" where
  "core t = (t_id t, t_transport_id t, t_state t, t_attempts t, t_lease_until t, t_created_at t)"

definition agree :: "store \<Rightarrow> store \<Rightarrow> bool" where
  "agree m m' \<longleftrightarrow> (\<forall>i. map_option core (m i) = map_option core (m' i))"

lemma core_fields:
  assumes "core s = core t"
  shows "t_id s = t_id t" "t_transport_id s = t_transport_id t" "t_state s = t_state t"
    "t_attempts s = t_attempts t" "t_lease_until s = t_lease_until t" "t_created_at s = t_created_at t"
  using assms by (simp_all add: core_def)

lemma agree_sym: "agree m m' \<Longrightarrow> agree m' m"
  by (simp add: agree_def)

lemma agree_some:
  assumes "agree m m'" and "m i = Some s"
  obtains s' where "m' i = Some s'" "core s' = core s"
  using assms unfolding agree_def by (metis (mono_tags, lifting) map_option_eq_Some option.simps(9))

lemma agree_none: "agree m m' \<Longrightarrow> m i = None \<longleftrightarrow> m' i = None"
  unfolding agree_def by (metis map_option_is_None)

lemma agree_update: "agree m m' \<Longrightarrow> core s = core s' \<Longrightarrow> agree (m(i \<mapsto> s)) (m'(i \<mapsto> s'))"
  by (simp add: agree_def)

lemma agree_fresh: "agree m m' \<Longrightarrow> fresh m t \<Longrightarrow> fresh m' t"
  unfolding fresh_def by (metis agree_none agree_some agree_sym core_fields(2))

lemma core_claimed: "core s = core s' \<Longrightarrow> core (claimed l now s) = core (claimed l now s')"
  by (simp add: core_def claimed_def)

lemma core_moved: "core s = core s' \<Longrightarrow> core (moved st ev s) = core (moved st ev' s')"
  by (simp add: core_def moved_def)

lemma core_released: "core s = core s' \<Longrightarrow> core (released s) = core (released s')"
  by (simp add: core_def released_def)

lemma core_stale: "core s = core s' \<Longrightarrow> stale now s = stale now s'"
  by (simp add: core_def stale_def)

lemma core_age: "core s = core s' \<Longrightarrow> age k s = age k s'"
  by (simp add: core_def age_def)

lemma core_enqueued:
  "t_id s = t_id s' \<Longrightarrow> t_transport_id s = t_transport_id s' \<Longrightarrow>
     core (enqueued st now s) = core (enqueued st now s')"
  by (simp add: core_def enqueued_def)

text \<open>Two lists of tasks sorted by age, without repeated ids, are the same ids if their ages are.\<close>

lemma sorted_ids_unique:
  assumes s: "sorted (map (age (\<lambda>i. i)) xs)" "sorted (map (age (\<lambda>i. i)) ys)"
    and d: "distinct (map t_id xs)" "distinct (map t_id ys)"
    and eq: "age (\<lambda>i. i) ` set xs = age (\<lambda>i. i) ` set ys"
  shows "map t_id xs = map t_id ys"
proof -
  have snd: "map t_id zs = map snd (map (age (\<lambda>i. i)) zs)" for zs by (simp add: age_def)
  have "distinct (map (age (\<lambda>i. i)) zs)" if "distinct (map t_id zs)" for zs
    using that unfolding snd by (simp only: distinct_map)
  with s d eq have "map (age (\<lambda>i. i)) xs = map (age (\<lambda>i. i)) ys"
    by (intro sorted_distinct_set_unique) auto
  then show ?thesis by (simp only: snd)
qed

locale queue_pair =
  A: task_queue QA storeA invA canonA mergeA idkey +
  B: task_queue QB storeB invB canonB mergeB idkey
  for QA :: "'a queue_ops" and storeA invA canonA mergeA
    and QB :: "'b queue_ops" and storeB invB canonB mergeB and idkey +
  assumes idkey_inj: "inj idkey"
begin

definition related :: "'a \<Rightarrow> 'b \<Rightarrow> bool" where
  "related a b \<longleftrightarrow> invA a \<and> invB b \<and> agree (storeA a) (storeB b)"

lemma relatedI:
  assumes "qstep QA a l a'" "qstep QB b l' b'" "related a b" "agree (storeA a') (storeB b')"
  shows "related a' b'"
  using assms A.qstep_invar B.qstep_invar by (auto simp: related_def)

lemma enqueue_agree:
  assumes "related a b"
  shows "fst (qexec QA (CEnqueue t st now) a) = fst (qexec QB (CEnqueue t st now) b) \<and>
    agree (storeA (snd (qexec QA (CEnqueue t st now) a))) (storeB (snd (qexec QB (CEnqueue t st now) b)))"
proof (cases "fresh (storeA a) t")
  case True
  with assms have inv: "invA a" "invB b" and ag: "agree (storeA a) (storeB b)"
    and frb: "fresh (storeB b) t" by (auto simp: related_def intro: agree_fresh)
  have "core (enqueued st now (canonA t)) = core (enqueued st now (canonB t))"
    by (rule core_enqueued) (simp_all add: A.canon_keys B.canon_keys)
  with A.enqueue_fresh [OF inv(1) True, of st now] B.enqueue_fresh [OF inv(2) frb, of st now] ag
  show ?thesis by (auto simp: split_beta agree_update split: option.split)
next
  case False
  with assms have inv: "invA a" "invB b" and ag: "agree (storeA a) (storeB b)"
    and frb: "\<not> fresh (storeB b) t" by (auto simp: related_def dest: agree_fresh [OF agree_sym])
  with A.enqueue_dup [OF inv(1) False] B.enqueue_dup [OF inv(2) frb] show ?thesis by simp
qed

lemma claim_agree:
  assumes "related a b"
  shows "fst (qexec QA (CClaim t lease now) a) = fst (qexec QB (CClaim t lease now) b) \<and>
    agree (storeA (snd (qexec QA (CClaim t lease now) a))) (storeB (snd (qexec QB (CClaim t lease now) b)))"
proof (cases "\<exists>s. storeA a (t_id t) = Some s \<and> t_state s = QUEUED")
  case True
  then obtain s where s: "storeA a (t_id t) = Some s" "t_state s = QUEUED" by blast
  from assms have inv: "invA a" "invB b" and ag: "agree (storeA a) (storeB b)"
    by (auto simp: related_def)
  from agree_some [OF ag s(1)] obtain s' where s': "storeB b (t_id t) = Some s'" "core s' = core s" .
  then have "t_state s' = QUEUED" using s(2) core_fields(3) by metis
  with A.claim_ok [OF inv(1) s, of lease now] B.claim_ok [OF inv(2) s'(1), of lease now] s' ag
  show ?thesis by (auto simp: split_beta intro!: agree_update core_claimed)
next
  case False
  from assms have inv: "invA a" "invB b" and ag: "agree (storeA a) (storeB b)"
    by (auto simp: related_def)
  have "\<not> (\<exists>s. storeB b (t_id t) = Some s \<and> t_state s = QUEUED)"
    using False agree_some [OF agree_sym [OF ag]] core_fields(3) by metis
  with A.claim_lost [OF inv(1) False] B.claim_lost [OF inv(2)] ag show ?thesis by simp
qed

lemma claim_next_agree:
  assumes "related a b"
  shows "fst (qexec QA (CClaimNext lease now) a) = fst (qexec QB (CClaimNext lease now) b) \<and>
    agree (storeA (snd (qexec QA (CClaimNext lease now) a))) (storeB (snd (qexec QB (CClaimNext lease now) b)))"
proof -
  from assms have inv: "invA a" "invB b" and ag: "agree (storeA a) (storeB b)"
    by (auto simp: related_def)
  obtain ra a' where ca: "q_claim_next QA lease now a = (ra, a')" by fastforce
  obtain rb b' where cb: "q_claim_next QB lease now b = (rb, b')" by fastforce
  have queued: "\<exists>u'. storeB b i = Some u' \<and> t_state u' = QUEUED \<and> age idkey u' = age idkey u"
    if "storeA a i = Some u" "t_state u = QUEUED" for i u
    using agree_some [OF ag that(1)] that(2) core_fields(3) core_age by metis
  have queued': "\<exists>u'. storeA a i = Some u' \<and> t_state u' = QUEUED \<and> age idkey u' = age idkey u"
    if "storeB b i = Some u" "t_state u = QUEUED" for i u
    using agree_some [OF agree_sym [OF ag] that(1)] that(2) core_fields(3) core_age by metis
  show ?thesis
  proof (cases ra; cases rb)
    assume r: "ra = None" "rb = None"
    from A.claim_next_none [OF inv(1) ca [unfolded r(1)]]
      B.claim_next_none [OF inv(2) cb [unfolded r(2)]] ca cb r ag show ?thesis by simp
  next
    fix y assume r: "ra = None" "rb = Some y"
    from B.claim_next_some [OF inv(2) cb [unfolded r(2)]]
      A.claim_next_none [OF inv(1) ca [unfolded r(1)]] queued' show ?thesis by blast
  next
    fix x assume r: "ra = Some x" "rb = None"
    from A.claim_next_some [OF inv(1) ca [unfolded r(1)]]
      B.claim_next_none [OF inv(2) cb [unfolded r(2)]] queued show ?thesis by blast
  next
    fix x y assume r: "ra = Some x" "rb = Some y"
    from A.claim_next_some [OF inv(1) ca [unfolded r(1)]] obtain s where
      s: "storeA a (t_id x) = Some s" "t_state s = QUEUED" "x = claimed lease now s"
        "storeA a' = (storeA a)(t_id x \<mapsto> x)"
      and mins: "\<And>i u. storeA a i = Some u \<Longrightarrow> t_state u = QUEUED \<Longrightarrow> age idkey s \<le> age idkey u"
      by blast
    from B.claim_next_some [OF inv(2) cb [unfolded r(2)]] obtain s' where
      s': "storeB b (t_id y) = Some s'" "t_state s' = QUEUED" "y = claimed lease now s'"
        "storeB b' = (storeB b)(t_id y \<mapsto> y)"
      and mins': "\<And>i u. storeB b i = Some u \<Longrightarrow> t_state u = QUEUED \<Longrightarrow> age idkey s' \<le> age idkey u"
      by blast
    have "age idkey s \<le> age idkey s'" using mins queued' [OF s'(1,2)] by metis
    moreover have "age idkey s' \<le> age idkey s" using mins' queued [OF s(1,2)] by metis
    ultimately have "age idkey s = age idkey s'" by (rule order_antisym)
    then have "idkey (t_id s) = idkey (t_id s')" by (simp add: age_def)
    then have id: "t_id x = t_id y" using idkey_inj s(3) s'(3) by (simp add: claimed_def inj_eq)
    obtain u where "storeB b (t_id x) = Some u" "core u = core s" using agree_some [OF ag s(1)] .
    with s'(1) id have "core s = core s'" by simp
    then have "core x = core y" unfolding s(3) s'(3) by (rule core_claimed)
    then have "agree (storeA a') (storeB b')"
      unfolding s(4) s'(4) id by (rule agree_update [OF ag])
    with ca cb r id show ?thesis by simp
  qed
qed

lemma transition_agree:
  assumes "related a b"
  shows "fst (qexec QA (CTransition t st ev now) a) = fst (qexec QB (CTransition t st ev now) b) \<and>
    agree (storeA (snd (qexec QA (CTransition t st ev now) a)))
      (storeB (snd (qexec QB (CTransition t st ev now) b)))"
proof -
  from assms have inv: "invA a" "invB b" and ag: "agree (storeA a) (storeB b)"
    by (auto simp: related_def)
  show ?thesis
  proof (cases "storeA a (t_id t)")
    case None
    then have "storeB b (t_id t) = None" using agree_none [OF ag] by blast
    with A.transition_missing [OF inv(1) None] B.transition_missing [OF inv(2)] ag
    show ?thesis by simp
  next
    case (Some s)
    from agree_some [OF ag Some] obtain s' where s': "storeB b (t_id t) = Some s'" "core s' = core s" .
    from s'(2) have st': "t_state s' = t_state s" by (rule core_fields(3))
    show ?thesis
    proof (cases "t_state s = t_state t")
      case True
      with A.transition_ok [OF inv(1) Some True, of st ev now]
        B.transition_ok [OF inv(2) s'(1), of st ev now] s' st' ag
      show ?thesis by (auto simp: split_beta intro!: agree_update core_moved split: sum.split)
    next
      case False
      with A.transition_conflict [OF inv(1) Some False]
        B.transition_conflict [OF inv(2) s'(1)] st' ag
      show ?thesis by simp
    qed
  qed
qed

lemma release_agree:
  assumes "related a b"
  shows "fst (qexec QA (CRelease now) a) = fst (qexec QB (CRelease now) b) \<and>
    agree (storeA (snd (qexec QA (CRelease now) a))) (storeB (snd (qexec QB (CRelease now) b)))"
proof -
  from assms have inv: "invA a" "invB b" and ag: "agree (storeA a) (storeB b)"
    by (auto simp: related_def)
  have sub: "age (\<lambda>i. i) ` {released t | t i. m i = Some t \<and> stale now t} \<subseteq>
      age (\<lambda>i. i) ` {released t | t i. m' i = Some t \<and> stale now t}" if "agree m m'" for m m'
  proof
    fix x assume "x \<in> age (\<lambda>i. i) ` {released t | t i. m i = Some t \<and> stale now t}"
    then obtain t i where t: "m i = Some t" "stale now t" "x = age (\<lambda>i. i) (released t)" by blast
    from agree_some [OF that t(1)] obtain t' where "m' i = Some t'" "core t' = core t" .
    then have "m' i = Some t'" "stale now t'" "x = age (\<lambda>i. i) (released t')"
      using t core_stale [of t' t] core_age [OF core_released, of t' t] by simp_all
    then show "x \<in> age (\<lambda>i. i) ` {released t | t i. m' i = Some t \<and> stale now t}" by blast
  qed
  have "map t_id (fst (q_release_stale QA now a)) = map t_id (fst (q_release_stale QB now b))"
  proof (rule sorted_ids_unique)
    show "age (\<lambda>i. i) ` set (fst (q_release_stale QA now a)) = age (\<lambda>i. i) ` set (fst (q_release_stale QB now b))"
      unfolding A.release_result [OF inv(1)] B.release_result [OF inv(2)]
      using sub [OF ag] sub [OF agree_sym [OF ag]] by (rule subset_antisym)
  qed (simp_all add: A.release_sorted B.release_sorted A.release_distinct B.release_distinct inv)
  moreover have "agree (storeA (snd (q_release_stale QA now a))) (storeB (snd (q_release_stale QB now b)))"
    unfolding agree_def A.release_store [OF inv(1)] B.release_store [OF inv(2)]
  proof
    fix i
    show "map_option core (map_option (\<lambda>t. if stale now t then released t else t) (storeA a i)) =
        map_option core (map_option (\<lambda>t. if stale now t then released t else t) (storeB b i))"
    proof (cases "storeA a i")
      case None
      then show ?thesis using agree_none [OF ag] by simp
    next
      case (Some s)
      from agree_some [OF ag Some] obtain s' where "storeB b i = Some s'" "core s' = core s" .
      with Some core_stale [of s' s] core_released [of s' s] show ?thesis by simp
    qed
  qed
  ultimately show ?thesis by (simp add: split_beta)
qed

lemma qexec_agree:
  assumes "related a b"
  shows "fst (qexec QA c a) = fst (qexec QB c b) \<and> related (snd (qexec QA c a)) (snd (qexec QB c b))"
proof -
  have "fst (qexec QA c a) = fst (qexec QB c b) \<and> agree (storeA (snd (qexec QA c a))) (storeB (snd (qexec QB c b)))"
    using assms
    by (cases c) (simp_all only: enqueue_agree claim_agree claim_next_agree transition_agree release_agree simp_thms)
  moreover have "qstep QA a (fst (qexec QA c a)) (snd (qexec QA c a))"
    "qstep QB b (fst (qexec QB c b)) (snd (qexec QB c b))"
    by (simp_all add: qexec_step)
  ultimately show ?thesis using relatedI assms by blast
qed

lemma qexecs_agree:
  "related a b \<Longrightarrow> fst (qexecs QA cs a) = fst (qexecs QB cs b) \<and> related (snd (qexecs QA cs a)) (snd (qexecs QB cs b))"
proof (induction cs arbitrary: a b)
  case (Cons c cs)
  from qexec_agree [OF Cons.prems, of c] Cons.IH [of "snd (qexec QA c a)" "snd (qexec QB c b)"]
  show ?case by (simp add: split_beta Let_def)
qed simp

end

interpretation mem_pg: queue_pair mem_ops mem_store mem_inv "\<lambda>t. t" replace_ev
  "pg_ops (\<lambda>i. i)" pg_store pg_inv pg_canon coalesce_ev "\<lambda>i. i"
  by unfold_locales simp


end
