(* ===== verification/PyRegex.thy ===== *)
theory PyRegex
  imports PyText
begin

text \<open>
  The part of Python's \<open>re\<close> the source uses: a backtracking matcher over ordered choice,
  greedy repetition of a character class, word boundaries, anchors, groups and negative
  lookahead. A match state is the text already consumed (reversed), the text that remains,
  and the groups set so far; \<open>run\<close> lists every way a pattern can match from a state, in
  the order the engine tries them, so the first element is the match Python returns.
\<close>

datatype rx =
    Eps
  | Cls "char \<Rightarrow> bool"
  | Seq rx rx
  | Alt rx rx
  | Rep "char \<Rightarrow> bool" nat "nat option"
  | WordB
  | Bol
  | Eol
  | Grp nat rx
  | NotAhead rx

type_synonym mstate = "string \<times> string \<times> (nat \<times> string) list"

definition at_boundary :: "string \<Rightarrow> string \<Rightarrow> bool" where
  "at_boundary b r \<longleftrightarrow>
     (case b of [] \<Rightarrow> False | c # _ \<Rightarrow> isword c) \<noteq> (case r of [] \<Rightarrow> False | c # _ \<Rightarrow> isword c)"

definition rep_run :: "(char \<Rightarrow> bool) \<Rightarrow> nat \<Rightarrow> nat option \<Rightarrow> mstate \<Rightarrow> mstate list" where
  "rep_run p lo hi s =
     (case s of (b, r, cs) \<Rightarrow>
        let n = length (takeWhile p r); m = (case hi of None \<Rightarrow> n | Some h \<Rightarrow> min n h)
        in map (\<lambda>k. (rev (take k r) @ b, drop k r, cs)) (rev [lo..<Suc m]))"

primrec run :: "rx \<Rightarrow> mstate \<Rightarrow> mstate list" where
  "run Eps s = [s]"
| "run (Cls p) s =
     (case s of (b, r, cs) \<Rightarrow>
        (case r of [] \<Rightarrow> [] | c # r' \<Rightarrow> if p c then [(c # b, r', cs)] else []))"
| "run (Seq x y) s = concat (map (run y) (run x s))"
| "run (Alt x y) s = run x s @ run y s"
| "run (Rep p lo hi) s = rep_run p lo hi s"
| "run WordB s = (case s of (b, r, cs) \<Rightarrow> if at_boundary b r then [s] else [])"
| "run Bol s = (case s of (b, r, cs) \<Rightarrow> if b = [] then [s] else [])"
| "run Eol s = (case s of (b, r, cs) \<Rightarrow> if r = [] \<or> r = newline then [s] else [])"
| "run (Grp n x) s =
     map (\<lambda>(b', r', cs'). (b', r', (n, take (length (fst (snd s)) - length r') (fst (snd s))) # cs'))
       (run x s)"
| "run (NotAhead x) s = (if run x s = [] then [s] else [])"

text \<open>A match: its start, its text and its groups.\<close>

record rmatch =
  m_start :: nat
  m_text :: string
  m_groups :: "(nat \<times> string) list"

definition match_at :: "rx \<Rightarrow> string \<Rightarrow> string \<Rightarrow> rmatch option" where
  "match_at x b r =
     (case run x (b, r, []) of [] \<Rightarrow> None
      | (b', r', cs) # _ \<Rightarrow>
          Some \<lparr>m_start = length b, m_text = take (length r - length r') r, m_groups = cs\<rparr>)"

text \<open>\<open>pattern.match(s)\<close> and \<open>pattern.search(s)\<close>.\<close>

definition re_match :: "rx \<Rightarrow> string \<Rightarrow> rmatch option" where
  "re_match x s = match_at x [] s"

fun search_from :: "rx \<Rightarrow> string \<Rightarrow> string \<Rightarrow> rmatch option" where
  "search_from x b [] = match_at x b []"
| "search_from x b (c # cs) =
     (case match_at x b (c # cs) of Some m \<Rightarrow> Some m | None \<Rightarrow> search_from x (c # b) cs)"

definition re_search :: "rx \<Rightarrow> string \<Rightarrow> rmatch option" where
  "re_search x s = search_from x [] s"

definition group :: "rmatch \<Rightarrow> nat \<Rightarrow> string option" where
  "group m n = map_of (m_groups m) n"

text \<open>
  \<open>pattern.finditer(s)\<close>: the matches from left to right; after a non-empty match the scan
  goes on where it ended, after an empty one a character later.
\<close>

function finditer_from :: "rx \<Rightarrow> string \<Rightarrow> string \<Rightarrow> rmatch list" where
  "finditer_from x b r =
     (case match_at x b r of
        None \<Rightarrow> (case r of [] \<Rightarrow> [] | c # cs \<Rightarrow> finditer_from x (c # b) cs)
      | Some m \<Rightarrow>
          m # (let k = length (m_text m) in
               if k = 0 then (case r of [] \<Rightarrow> [] | c # cs \<Rightarrow> finditer_from x (c # b) cs)
               else if k \<le> length r then finditer_from x (rev (take k r) @ b) (drop k r)
               else []))"
  by pat_completeness auto
termination
  by (relation "measure (\<lambda>(x, b, r). length r)")
    (auto simp flip: length_greater_0_conv)

declare finditer_from.simps [simp del]

definition finditer :: "rx \<Rightarrow> string \<Rightarrow> rmatch list" where
  "finditer x s = finditer_from x [] s"

section \<open>Pattern abbreviations\<close>

fun lit :: "string \<Rightarrow> rx" where
  "lit [] = Eps"
| "lit [c] = Cls (\<lambda>x. x = c)"
| "lit (c # cs) = Seq (Cls (\<lambda>x. x = c)) (lit cs)"

text \<open>A literal under \<open>re.IGNORECASE\<close>.\<close>

fun lit_i :: "string \<Rightarrow> rx" where
  "lit_i [] = Eps"
| "lit_i [c] = Cls (\<lambda>x. lower_char x = lower_char c)"
| "lit_i (c # cs) = Seq (Cls (\<lambda>x. lower_char x = lower_char c)) (lit_i cs)"

fun alts :: "rx list \<Rightarrow> rx" where
  "alts [] = NotAhead Eps"
| "alts [x] = x"
| "alts (x # xs) = Alt x (alts xs)"

fun seqs :: "rx list \<Rightarrow> rx" where
  "seqs [] = Eps"
| "seqs [x] = x"
| "seqs (x # xs) = Seq x (seqs xs)"

definition words_i :: "string list \<Rightarrow> rx" where
  "words_i ws = alts (map lit_i ws)"

definition star :: "(char \<Rightarrow> bool) \<Rightarrow> rx" where
  "star p = Rep p 0 None"

definition plus :: "(char \<Rightarrow> bool) \<Rightarrow> rx" where
  "plus p = Rep p 1 None"

definition opt :: "rx \<Rightarrow> rx" where
  "opt x = Alt x Eps"

text \<open>The class \<open>.\<close> (anything but a newline).\<close>

definition dot :: "char \<Rightarrow> bool" where
  "dot c \<longleftrightarrow> c \<noteq> CHR 0x0A"

section \<open>A match is a factor of the text\<close>

lemma run_factor:
  "(b', r', cs') \<in> set (run x (b, r, cs)) \<Longrightarrow> \<exists>m. r = m @ r' \<and> b' = rev m @ b"
proof (induction x arbitrary: b r cs b' r' cs')
  case (Seq x y)
  then obtain b1 r1 cs1 where 1: "(b1, r1, cs1) \<in> set (run x (b, r, cs))"
      and 2: "(b', r', cs') \<in> set (run y (b1, r1, cs1))" by auto
  from Seq.IH(1) [OF 1] Seq.IH(2) [OF 2] show ?case by auto
next
  case (Rep p lo hi)
  then obtain k where "r' = drop k r" "b' = rev (take k r) @ b"
    by (auto simp: rep_run_def Let_def)
  then show ?case by (metis append_take_drop_id)
next
  case (Grp n x)
  then obtain cs1 where "(b', r', cs1) \<in> set (run x (b, r, cs))" by auto
  from Grp.IH [OF this] show ?case .
qed (auto split: list.splits if_splits)

lemma match_at_factor:
  assumes "match_at x b r = Some m"
  shows "\<exists>r'. r = m_text m @ r' \<and> m_start m = length b"
proof -
  from assms obtain b' r' cs rest where run: "run x (b, r, []) = (b', r', cs) # rest"
      and m: "m = \<lparr>m_start = length b, m_text = take (length r - length r') r, m_groups = cs\<rparr>"
    by (auto simp: match_at_def split: list.splits)
  from run have "(b', r', cs) \<in> set (run x (b, r, []))" by simp
  from run_factor [OF this] obtain t where "r = t @ r'" by blast
  with m show ?thesis by simp
qed

lemma search_from_factor:
  "search_from x b r = Some m \<Longrightarrow>
     \<exists>u v. r = u @ m_text m @ v \<and> m_start m = length b + length u"
proof (induction x b r rule: search_from.induct)
  case (1 x b)
  then show ?case by (fastforce dest: match_at_factor)
next
  case (2 x b c cs)
  show ?case
  proof (cases "match_at x b (c # cs)")
    case (Some m')
    with "2.prems" have "m' = m" by simp
    with Some match_at_factor [OF Some] show ?thesis by fastforce
  next
    case None
    with 2 obtain u v where "cs = u @ m_text m @ v" "m_start m = length (c # b) + length u"
      by auto
    then have "c # cs = (c # u) @ m_text m @ v" "m_start m = length b + length (c # u)"
      by auto
    then show ?thesis by blast
  qed
qed

lemma re_search_factor:
  "re_search x s = Some m \<Longrightarrow> \<exists>u v. s = u @ m_text m @ v \<and> m_start m = length u"
  using search_from_factor [of x "[]" s m] by (simp add: re_search_def)

text \<open>Searching finds the leftmost start at which the pattern matches.\<close>

lemma search_from_None:
  "search_from x b r = None \<longleftrightarrow>
     (\<forall>u v. r = u @ v \<longrightarrow> match_at x (rev u @ b) v = None)"
proof (induction x b r rule: search_from.induct)
  case (2 x b c cs)
  show ?case
  proof (cases "match_at x b (c # cs)")
    case None
    with 2 have "search_from x b (c # cs) = None \<longleftrightarrow>
        (\<forall>u v. cs = u @ v \<longrightarrow> match_at x (rev u @ c # b) v = None)" by simp
    also have "\<dots> \<longleftrightarrow> (\<forall>u v. c # cs = u @ v \<longrightarrow> match_at x (rev u @ b) v = None)"
      (is "?L \<longleftrightarrow> ?R")
    proof
      show "?L \<Longrightarrow> ?R" using None by (auto simp: Cons_eq_append_conv)
    next
      assume r: ?R
      show ?L
      proof (intro allI impI)
        fix u v assume "cs = u @ v"
        with r have "match_at x (rev (c # u) @ b) v = None" by (metis append_Cons)
        then show "match_at x (rev u @ c # b) v = None" by simp
      qed
    qed
    finally show ?thesis .
  next
    case (Some m)
    then show ?thesis by force
  qed
qed simp

section \<open>What the pattern pieces consume\<close>

lemma run_lit_i:
  "(b', r', cs') \<in> set (run (lit_i w) (b, r, cs)) \<Longrightarrow>
     cs' = cs \<and> (\<exists>x. r = x @ r' \<and> b' = rev x @ b \<and> lower x = lower w)"
proof (induction w arbitrary: b r rule: lit_i.induct)
  case (2 c)
  then show ?case by (auto simp: lower_def split: list.splits if_splits)
next
  case (3 c d w)
  from "3.prems" obtain e r1 where r: "r = e # r1" "lower_char e = lower_char c"
      and rest: "(b', r', cs') \<in> set (run (lit_i (d # w)) (e # b, r1, cs))"
    by (auto split: list.splits if_splits)
  from "3.IH" [OF rest] obtain x where "cs' = cs" "r1 = x @ r'" "b' = rev x @ e # b" "lower x = lower (d # w)"
    by blast
  with r show ?case by (intro conjI exI [of _ "e # x"]) (auto simp: lower_def)
qed (auto simp: lower_def)

lemma run_words_i:
  assumes "(b', r', cs') \<in> set (run (words_i ws) (b, r, cs))"
  shows "cs' = cs \<and> (\<exists>x w. w \<in> set ws \<and> r = x @ r' \<and> b' = rev x @ b \<and> lower x = lower w)"
  using assms unfolding words_i_def
proof (induction ws rule: induct_list012)
  case (2 w)
  then show ?case using run_lit_i by fastforce
next
  case (3 w w' ws)
  then consider "(b', r', cs') \<in> set (run (lit_i w) (b, r, cs))"
    | "(b', r', cs') \<in> set (run (alts (map lit_i (w' # ws))) (b, r, cs))" by auto
  then show ?case
  proof cases
    case 1
    then show ?thesis using run_lit_i by fastforce
  next
    case 2
    from "3.IH"(2) [OF this] show ?thesis by auto
  qed
qed simp

lemma run_SeqE:
  assumes "s' \<in> set (run (Seq x y) s)"
  obtains b r cs where "(b, r, cs) \<in> set (run x s)" "s' \<in> set (run y (b, r, cs))"
  using assms by auto

lemma run_GrpE:
  assumes "(b', r', cs') \<in> set (run (Grp n x) (b, r, cs))"
  obtains cs1 where "(b', r', cs1) \<in> set (run x (b, r, cs))" "cs' = (n, take (length r - length r') r) # cs1"
  using assms by auto

lemma run_WordB: "s' \<in> set (run WordB s) \<Longrightarrow> s' = s"
  by (cases s) (auto split: if_splits)

lemma run_Rep:
  assumes "(b', r', cs') \<in> set (run (Rep p lo hi) (b, r, cs))"
  shows "cs' = cs \<and> (\<exists>x. r = x @ r' \<and> b' = rev x @ b \<and> lo \<le> length x \<and> (\<forall>c \<in> set x. p c))"
proof -
  from assms obtain k where k: "r' = drop k r" "b' = rev (take k r) @ b" "cs' = cs" "lo \<le> k"
      "k \<le> length (takeWhile p r)"
    by (fastforce simp: rep_run_def Let_def split: option.splits)
  have "length (takeWhile p r) \<le> length r" by (simp add: length_takeWhile_le)
  with k(5) have len: "length (take k r) = k" by simp
  have "take k r = take k (takeWhile p r)" using k(5)
    by (metis append_eq_conv_conj take_append takeWhile_dropWhile_id diff_is_0_eq take0 append_Nil2)
  then have "\<forall>c \<in> set (take k r). p c" by (metis in_set_takeD set_takeWhileD)
  with k len show ?thesis by (metis append_take_drop_id)
qed

lemma match_atE:
  assumes "match_at x b r = Some m"
  obtains b' r' cs where "(b', r', cs) \<in> set (run x (b, r, []))" "r = m_text m @ r'" "m_groups m = cs"
proof -
  from assms obtain b' r' cs rest where run: "run x (b, r, []) = (b', r', cs) # rest"
      and m: "m = \<lparr>m_start = length b, m_text = take (length r - length r') r, m_groups = cs\<rparr>"
    by (auto simp: match_at_def split: list.splits)
  from run have 1: "(b', r', cs) \<in> set (run x (b, r, []))" by simp
  from run_factor [OF this] obtain t where "r = t @ r'" by blast
  with m that [OF 1] show ?thesis by simp
qed

text \<open>A search result is a match at some split of the text.\<close>

lemma search_from_at:
  "search_from x b r = Some m \<Longrightarrow> \<exists>u v. r = u @ v \<and> match_at x (rev u @ b) v = Some m"
proof (induction x b r rule: search_from.induct)
  case (2 x b c cs)
  show ?case
  proof (cases "match_at x b (c # cs)")
    case None
    with 2 obtain u v where "cs = u @ v" "match_at x (rev u @ c # b) v = Some m" by auto
    then show ?thesis by (intro exI [of _ "c # u"] exI [of _ v]) simp
  next
    case (Some m')
    with "2.prems" show ?thesis by (intro exI [of _ "[]"] exI [of _ "c # cs"]) simp
  qed
qed auto

lemma re_search_at:
  "re_search x s = Some m \<Longrightarrow> \<exists>u v. s = u @ v \<and> match_at x (rev u) v = Some m"
  using search_from_at [of x "[]" s m] by (simp add: re_search_def)

end
