(* ===== verification/Auth.thy ===== *)
theory Auth
  imports Models PyRegex
begin

text \<open>
  Inbound authentication (\<open>auth.py\<close>): the HMAC signature, the sliding-window rate limiter, the
  sender allowlist, the reading of \<open>Authentication-Results\<close> and the gates composed of them. HMAC
  with SHA-256 is the parameter \<open>hmac\<close> (key, message, hexadecimal digest); no property needs
  anything of it. A \<open>frozenset\<close> is a list of its elements in the order the interpreter
  iterates over them.
\<close>

section \<open>Signatures\<close>

definition SIGNATURE_HEADER :: string where
  "SIGNATURE_HEADER = ''X-Dear-Agent-Signature''"

definition sign :: "(string \<Rightarrow> string \<Rightarrow> string) \<Rightarrow> string \<Rightarrow> string \<Rightarrow> string option \<Rightarrow> string" where
  "sign hmac body secret sender =
     (let message = (case sender of None \<Rightarrow> body | Some s \<Rightarrow> s @ newline @ body)
      in ''sha256='' @ hmac secret message)"

text \<open>\<open>hmac.compare_digest\<close> on two strings raises \<open>TypeError\<close> unless both are ASCII.\<close>

definition is_ascii :: "string \<Rightarrow> bool" where
  "is_ascii s \<longleftrightarrow> (\<forall>c \<in> set s. code c < 128)"

definition compare_digest :: "string \<Rightarrow> string \<Rightarrow> exn + bool" where
  "compare_digest a b =
     (if is_ascii a \<and> is_ascii b then Inr (a = b) else Inl (TypeError ''comparing strings with non-ASCII characters is not supported''))"

record inbound_authorizer =
  au_secret :: string
  au_allowlist :: "string list"

definition authorize ::
  "(string \<Rightarrow> string \<Rightarrow> string) \<Rightarrow> inbound_authorizer \<Rightarrow> string \<Rightarrow> (string, string) dict \<Rightarrow> string option \<Rightarrow>
    exn + unit" where
  "authorize hmac au body headers sender =
     (if au_allowlist au \<noteq> [] \<and> sender \<notin> Some ` set (au_allowlist au)
      then Inl (UnauthorizedSenderError sender)
      else case dict_get headers SIGNATURE_HEADER of
             None \<Rightarrow> Inl MissingSignatureError
           | Some signature \<Rightarrow>
               if signature = [] then Inl MissingSignatureError
               else case compare_digest signature (sign hmac body (au_secret au) sender) of
                      Inl e \<Rightarrow> Inl e
                    | Inr same \<Rightarrow> if same then Inr () else Inl BadSignatureError)"

section \<open>Rate limiting\<close>

record rate_limiter =
  rl_limit :: int
  rl_window :: duration
  rl_seen :: "(string, time list) dict"

definition new_rate_limiter :: "int \<Rightarrow> duration \<Rightarrow> exn + rate_limiter" where
  "new_rate_limiter limit window =
     (if limit \<le> 0 then Inl (ValueError ''limit must be positive'')
      else Inr \<lparr>rl_limit = limit, rl_window = window, rl_seen = []\<rparr>)"

definition rl_key :: "string option \<Rightarrow> string" where
  "rl_key sender = or_else sender ''<unknown>''"

text \<open>\<open>check\<close>; the error carries the key, without the rest of its message.\<close>

definition rl_check :: "string option \<Rightarrow> time \<Rightarrow> rate_limiter \<Rightarrow> (exn + unit) \<times> rate_limiter" where
  "rl_check sender now rl =
     (let key = rl_key sender;
          cutoff = now - rl_window rl;
          recent = filter (\<lambda>moment. moment > cutoff)
                     (case dict_get (rl_seen rl) key of None \<Rightarrow> [] | Some ms \<Rightarrow> ms)
      in if int (length recent) \<ge> rl_limit rl
         then (Inl (RateLimitedError key), rl\<lparr>rl_seen := dict_set key recent (rl_seen rl)\<rparr>)
         else (Inr (), rl\<lparr>rl_seen := dict_set key (recent @ [now]) (rl_seen rl)\<rparr>))"

section \<open>The sender allowlist\<close>

text \<open>The comprehension \<open>part.strip().lower() for part in value.replace(";", ",").split(",") if part.strip()\<close>.\<close>

definition split_entries :: "string \<Rightarrow> string list" where
  "split_entries value =
     map (\<lambda>part. lower (strip part))
       (filter (\<lambda>part. strip part \<noteq> []) (split_on (CHR '','') (replace_char (CHR '';'') (CHR '','') value)))"

definition allowlist_from_env :: "string option \<Rightarrow> string list option" where
  "allowlist_from_env value =
     (if \<not> truthy value then None
      else let entries = remdups (split_entries (the value)) in if entries = [] then None else Some entries)"

definition sender_allowed :: "string list \<Rightarrow> string \<Rightarrow> bool" where
  "sender_allowed senders candidate \<longleftrightarrow>
     (\<exists>allowed \<in> set senders.
        candidate = allowed \<or> startswith allowed ''@'' \<and> endswith candidate allowed)"

definition allowlist_admit :: "string list \<Rightarrow> string option \<Rightarrow> exn + unit" where
  "allowlist_admit senders sender =
     (let candidate = lower (strip (or_else sender []))
      in if candidate \<noteq> [] \<and> sender_allowed senders candidate then Inr ()
         else Inl (UnauthorizedSenderError sender))"

section \<open>Authentication-Results\<close>

definition AUTH_MECHANISMS :: "string list" where
  "AUTH_MECHANISMS = [''dmarc'', ''dkim'', ''spf'', ''arc'']"

definition domain :: "string option \<Rightarrow> string" where
  "domain address = lower (strip (after_last (CHR ''@'') (or_else address [])))"

definition authentication_results :: "(string, string) dict \<Rightarrow> string option" where
  "authentication_results headers =
     (let values = map snd (filter (\<lambda>(name, value). lower name = ''authentication-results'' \<and> value \<noteq> []) headers)
      in if values = [] then None else Some (join newline values))"

definition authserv_char :: "char \<Rightarrow> bool" where
  "authserv_char c \<longleftrightarrow> is_ascii_alnum c \<or> c = CHR ''.'' \<or> c = CHR ''_'' \<or> c = CHR ''-''"

definition AUTHSERV_LINE_RE :: rx where
  "AUTHSERV_LINE_RE =
     seqs [Bol, star isspace, plus authserv_char,
           opt (seqs [plus isspace, lit ''('', star (\<lambda>c. c \<noteq> CHR '')''), lit '')'']),
           star isspace, lit '';'']"

text \<open>The loop of \<open>_auth_results_blocks\<close>, with \<open>current\<close> as its argument.\<close>

fun blocks_loop :: "string list \<Rightarrow> string list \<Rightarrow> string list" where
  "blocks_loop current [] = (if current \<noteq> [] then [join newline current] else [])"
| "blocks_loop current (line # lines) =
     (if re_match AUTHSERV_LINE_RE line \<noteq> None then
        (if current \<noteq> [] then [join newline current] else []) @ blocks_loop [line] lines
      else if current \<noteq> [] then blocks_loop (current @ [line]) lines
      else if strip line \<noteq> [] then blocks_loop [line] lines
      else blocks_loop current lines)"

definition auth_results_blocks :: "string \<Rightarrow> string list" where
  "auth_results_blocks raw = blocks_loop [] (splitlines raw)"

definition authserv_id :: "string \<Rightarrow> string" where
  "authserv_id block =
     (let head = strip (takeWhile (\<lambda>c. c \<noteq> CHR '';'') block)
      in if head \<noteq> [] then hd (split_ws head) else [])"

definition authserv_id_matches :: "string \<Rightarrow> string \<Rightarrow> bool" where
  "authserv_id_matches serv_id configured \<longleftrightarrow>
     (let s = rstrip_chars ''.'' (lower (strip serv_id));
          c = rstrip_chars ''.'' (lower (strip configured))
      in c \<noteq> [] \<and> (s = c \<or> endswith s (''.'' @ c)))"

definition trusted_authentication_results :: "string \<Rightarrow> string \<Rightarrow> string option" where
  "trusted_authentication_results raw auth_serv_id =
     (let blocks = auth_results_blocks raw in
      if auth_serv_id = [] then (if blocks \<noteq> [] then Some (join newline blocks) else None)
      else let trusted = filter (\<lambda>b. authserv_id_matches (authserv_id b) auth_serv_id) blocks
           in if trusted \<noteq> [] then Some (join newline trusted) else None)"

text \<open>\<open>re.split(r"[;\n]", raw)\<close>.\<close>

fun split_where :: "(char \<Rightarrow> bool) \<Rightarrow> string \<Rightarrow> string list" where
  "split_where p [] = [[]]"
| "split_where p (c # cs) =
     (if p c then [] # split_where p cs
      else case split_where p cs of [] \<Rightarrow> [[c]] | w # ws \<Rightarrow> (c # w) # ws)"

definition clause_sep :: "char \<Rightarrow> bool" where
  "clause_sep c \<longleftrightarrow> c = CHR '';'' \<or> c = CHR 0x0A"

definition verdict_char :: "char \<Rightarrow> bool" where
  "verdict_char c \<longleftrightarrow> is_ascii_alnum c \<or> c = CHR ''-''"

definition VERDICT_RE :: rx where
  "VERDICT_RE =
     seqs [Grp 1 (plus verdict_char), star isspace, lit ''='', star isspace, Grp 2 (plus verdict_char)]"

definition PROPERTY_RE :: rx where
  "PROPERTY_RE =
     seqs [Grp 1 (words_i [''header.from'', ''header.d'', ''smtp.mailfrom'']), star isspace, lit ''='',
           star isspace, Grp 2 (plus (\<lambda>c. \<not> isspace c \<and> c \<noteq> CHR '';'' \<and> c \<noteq> CHR '')''))]"

definition setdefault :: "'k \<Rightarrow> 'v \<Rightarrow> ('k, 'v) dict \<Rightarrow> ('k, 'v) dict" where
  "setdefault k v d = (if dict_has d k then d else dict_set k v d)"

definition add_property :: "rmatch \<Rightarrow> (string, string) dict \<Rightarrow> (string, string) dict" where
  "add_property m verdicts =
     (let key = lower (the (group m 1)); value = lower (strip_chars ''<>'' (the (group m 2)))
      in if key = ''header.from'' then setdefault ''dmarc_from'' (domain (Some value)) verdicts
         else if key = ''header.d'' then setdefault ''dkim_domain'' (lstrip_chars ''@'' value) verdicts
         else setdefault ''spf_domain'' (domain (Some value)) verdicts)"

definition add_clause :: "string \<Rightarrow> (string, string) dict \<Rightarrow> (string, string) dict" where
  "add_clause part verdicts =
     (let clause = strip part;
          v1 = (case re_match VERDICT_RE clause of
                  None \<Rightarrow> verdicts
                | Some m \<Rightarrow>
                    let mechanism = lower (the (group m 1)); verdict = lower (the (group m 2))
                    in if mechanism \<in> set AUTH_MECHANISMS then setdefault mechanism verdict verdicts
                       else verdicts)
      in fold add_property (finditer PROPERTY_RE clause) v1)"

definition parse_authentication_results :: "string \<Rightarrow> (string, string) dict" where
  "parse_authentication_results raw = fold add_clause (split_where clause_sep raw) []"

section \<open>Email authentication\<close>

record email_auth_gate =
  eg_required :: "string list"
  eg_allowed_domains :: "string list"
  eg_senders :: "string list option"
  eg_auth_serv_id :: string

definition DEFAULT_AUTH_SERV_ID :: string where
  "DEFAULT_AUTH_SERV_ID = ''messagingengine.com''"

definition split_env :: "string option \<Rightarrow> string list" where
  "split_env value = remdups (split_entries (or_else value []))"

definition email_gate_from_env :: "(string, string) dict \<Rightarrow> email_auth_gate option" where
  "email_gate_from_env env =
     (let domains = split_env (dict_get env ''DEAR_AGENT_AUTH_DOMAINS'') in
      if domains = [] then None
      else let mechanisms = split_env (dict_get env ''DEAR_AGENT_AUTH_MECHANISMS'');
               required = (if mechanisms = [] then [''dmarc''] else mechanisms)
           in Some \<lparr>eg_required = required, eg_allowed_domains = domains,
                    eg_senders = allowlist_from_env (dict_get env ''DEAR_AGENT_ALLOWED_SENDERS''),
                    eg_auth_serv_id =
                      (case dict_get env ''DEAR_AGENT_AUTH_SERV_ID'' of None \<Rightarrow> DEFAULT_AUTH_SERV_ID | Some s \<Rightarrow> s)\<rparr>)"

text \<open>The checks after the trusted fields are found, in the order of the code.\<close>

definition check_verdicts ::
  "email_auth_gate \<Rightarrow> (string, string) dict \<Rightarrow> string option \<Rightarrow> exn + unit" where
  "check_verdicts g verdicts sender =
     (case List.find (\<lambda>mechanism. dict_get verdicts mechanism \<noteq> Some ''pass'') (eg_required g) of
        Some mechanism \<Rightarrow> Inl (EmailAuthError (mechanism @ '' did not pass''))
      | None \<Rightarrow>
          let dom = (if truthy (dict_get verdicts ''dmarc_from'') then the (dict_get verdicts ''dmarc_from'')
                     else or_else (dict_get verdicts ''dkim_domain'') [])
          in if dom = [] then Inl (EmailAuthError ''no authenticated domain in Authentication-Results'')
             else if eg_allowed_domains g \<noteq> [] \<and> dom \<notin> set (eg_allowed_domains g)
             then Inl (UnauthorizedSenderError sender)
             else if truthy sender \<and> domain sender \<noteq> dom
             then Inl (EmailAuthError ''From domain does not match the authenticated domain'')
             else Inr ())"

definition email_admit :: "email_auth_gate \<Rightarrow> (string, string) dict \<Rightarrow> string option \<Rightarrow> exn + unit" where
  "email_admit g headers sender =
     (case (case eg_senders g of None \<Rightarrow> Inr () | Some senders \<Rightarrow> allowlist_admit senders sender) of
        Inl e \<Rightarrow> Inl e
      | Inr _ \<Rightarrow>
          (case authentication_results headers of
             None \<Rightarrow> Inl (EmailAuthError ''no Authentication-Results header'')
           | Some raw \<Rightarrow>
               (case trusted_authentication_results raw (eg_auth_serv_id g) of
                  None \<Rightarrow> Inl (EmailAuthError (''Authentication-Results is not from '' @ eg_auth_serv_id g))
                | Some trusted \<Rightarrow> check_verdicts g (parse_authentication_results trusted) sender)))"

section \<open>Gates\<close>

text \<open>The classes with an \<open>admit\<close> method.\<close>

datatype gate =
    InboundGate inbound_authorizer rate_limiter
  | RateLimitedGate rate_limiter "gate option"
  | SenderAllowlist "string list"
  | EmailAuthGate email_auth_gate

fun admit ::
  "(string \<Rightarrow> string \<Rightarrow> string) \<Rightarrow> string \<Rightarrow> (string, string) dict \<Rightarrow> string option \<Rightarrow> time \<Rightarrow> gate \<Rightarrow>
    (exn + unit) \<times> gate" where
  "admit hmac body headers sender now (InboundGate au rl) =
     (case authorize hmac au body headers sender of
        Inl e \<Rightarrow> (Inl e, InboundGate au rl)
      | Inr _ \<Rightarrow> (case rl_check sender now rl of (r, rl') \<Rightarrow> (r, InboundGate au rl')))"
| "admit hmac body headers sender now (RateLimitedGate rl inner) =
     (case (case inner of
              None \<Rightarrow> (Inr (), None)
            | Some g \<Rightarrow> (case admit hmac body headers sender now g of (r, g') \<Rightarrow> (r, Some g'))) of
        (Inl e, inner') \<Rightarrow> (Inl e, RateLimitedGate rl inner')
      | (Inr _, inner') \<Rightarrow>
          (case rl_check sender now rl of (r, rl') \<Rightarrow> (r, RateLimitedGate rl' inner')))"
| "admit hmac body headers sender now (SenderAllowlist senders) =
     (allowlist_admit senders sender, SenderAllowlist senders)"
| "admit hmac body headers sender now (EmailAuthGate g) =
     (email_admit g headers sender, EmailAuthGate g)"

section \<open>The rate limiter bounds every window\<close>

text \<open>A run of checks: the times at which messages of \<open>key\<close> were let through.\<close>

fun passed :: "string \<Rightarrow> rate_limiter \<Rightarrow> (string option \<times> time) list \<Rightarrow> time list" where
  "passed key rl [] = []"
| "passed key rl ((sender, now) # evs) =
     (case rl_check sender now rl of
        (Inl _, rl') \<Rightarrow> passed key rl' evs
      | (Inr _, rl') \<Rightarrow> (if rl_key sender = key then [now] else []) @ passed key rl' evs)"

definition in_window :: "duration \<Rightarrow> time \<Rightarrow> time list \<Rightarrow> nat" where
  "in_window w x ts = length (filter (\<lambda>t. x - w < t \<and> t \<le> x) ts)"

definition seen_of :: "rate_limiter \<Rightarrow> string \<Rightarrow> time list" where
  "seen_of rl key = (case dict_get (rl_seen rl) key of None \<Rightarrow> [] | Some ms \<Rightarrow> ms)"

text \<open>What the limiter remembers of \<open>key\<close> accounts for the history \<open>hist\<close> up to time \<open>n\<close>.\<close>

definition tracks :: "rate_limiter \<Rightarrow> string \<Rightarrow> time list \<Rightarrow> time \<Rightarrow> bool" where
  "tracks rl key hist n \<longleftrightarrow>
     filter (\<lambda>t. n - rl_window rl < t) (seen_of rl key) = filter (\<lambda>t. n - rl_window rl < t) hist \<and>
     (\<forall>t \<in> set hist. t \<le> n) \<and> (\<forall>x. int (in_window (rl_window rl) x hist) \<le> rl_limit rl)"

lemma filter_later:
  fixes n n' w :: int
  assumes "n \<le> n'" and "filter (\<lambda>t. n - w < t) xs = filter (\<lambda>t. n - w < t) ys"
  shows "filter (\<lambda>t. n' - w < t) xs = filter (\<lambda>t. n' - w < t) ys"
proof -
  have "filter (\<lambda>t. n' - w < t) zs = filter (\<lambda>t. n' - w < t) (filter (\<lambda>t. n - w < t) zs)" for zs :: "int list"
    using assms(1) by (induction zs) auto
  with assms(2) show ?thesis by metis
qed

lemma in_window_append: "in_window w x (ts @ us) = in_window w x ts + in_window w x us"
  by (simp add: in_window_def)

lemma in_window_le_recent:
  assumes "x - w < now" and "now \<le> x"
  shows "in_window w x ts \<le> length (filter (\<lambda>t. now - w < t) ts)"
  unfolding in_window_def using assms by (induction ts) auto

lemma rl_check_cases:
  obtains (limited) "rl_check sender now rl = (Inl (RateLimitedError (rl_key sender)),
        rl\<lparr>rl_seen := dict_set (rl_key sender) (filter (\<lambda>t. now - rl_window rl < t) (seen_of rl (rl_key sender))) (rl_seen rl)\<rparr>)"
      "int (length (filter (\<lambda>t. now - rl_window rl < t) (seen_of rl (rl_key sender)))) \<ge> rl_limit rl"
  | (allowed) "rl_check sender now rl = (Inr (),
        rl\<lparr>rl_seen := dict_set (rl_key sender) (filter (\<lambda>t. now - rl_window rl < t) (seen_of rl (rl_key sender)) @ [now]) (rl_seen rl)\<rparr>)"
      "int (length (filter (\<lambda>t. now - rl_window rl < t) (seen_of rl (rl_key sender)))) < rl_limit rl"
  by (cases "int (length (filter (\<lambda>t. now - rl_window rl < t) (seen_of rl (rl_key sender)))) \<ge> rl_limit rl")
    (auto simp: rl_check_def seen_of_def Let_def)

lemma seen_of_set: "seen_of (rl\<lparr>rl_seen := dict_set k ms (rl_seen rl)\<rparr>) key = (if key = k then ms else seen_of rl key)"
  by (simp add: seen_of_def)

lemma tracks_limited:
  assumes "tracks rl key hist n" and "n \<le> now" and "rl_check sender now rl = (Inl e, rl')"
  shows "tracks rl' key hist now \<and> rl_window rl' = rl_window rl \<and> rl_limit rl' = rl_limit rl"
proof (cases rule: rl_check_cases [of sender now rl])
  case limited
  with assms filter_later [OF assms(2), of "rl_window rl" "seen_of rl key" hist] show ?thesis
    by (auto simp: tracks_def seen_of_set)
next
  case allowed
  with assms(3) show ?thesis by simp
qed

lemma tracks_allowed:
  assumes tr: "tracks rl key hist n" and "n \<le> now" and ok: "rl_check sender now rl = (Inr u, rl')"
  shows "tracks rl' key (hist @ (if rl_key sender = key then [now] else [])) now \<and>
    rl_window rl' = rl_window rl \<and> rl_limit rl' = rl_limit rl"
proof (cases rule: rl_check_cases [of sender now rl])
  case limited
  with ok show ?thesis by simp
next
  case allowed
  let ?w = "rl_window rl"
  have later: "filter (\<lambda>t. now - ?w < t) (seen_of rl key) = filter (\<lambda>t. now - ?w < t) hist"
    by (rule filter_later [OF assms(2)]) (use tr in \<open>simp add: tracks_def\<close>)
  have le: "\<forall>t \<in> set hist. t \<le> now" using tr assms(2) by (auto simp: tracks_def)
  have rl': "rl' = rl\<lparr>rl_seen := dict_set (rl_key sender)
      (filter (\<lambda>t. now - ?w < t) (seen_of rl (rl_key sender)) @ [now]) (rl_seen rl)\<rparr>" using allowed ok by simp
  show ?thesis
  proof (cases "rl_key sender = key")
    case False
    have "tracks rl' key hist now"
      using False later le tr unfolding tracks_def rl' seen_of_set by simp
    with False show ?thesis by (simp add: rl')
  next
    case True
    have win: "int (in_window ?w x (hist @ [now])) \<le> rl_limit rl" for x
    proof (cases "x - ?w < now \<and> now \<le> x")
      case True
      then have "in_window ?w x hist \<le> length (filter (\<lambda>t. now - ?w < t) hist)"
        by (intro in_window_le_recent) auto
      also have "\<dots> = length (filter (\<lambda>t. now - ?w < t) (seen_of rl (rl_key sender)))"
        using later \<open>rl_key sender = key\<close> by simp
      finally have "int (in_window ?w x hist) < rl_limit rl" using allowed(2) by simp
      moreover have "in_window ?w x [now] \<le> 1" by (simp add: in_window_def)
      ultimately show ?thesis by (simp add: in_window_append)
    next
      case False
      then have "in_window ?w x [now] = 0" by (auto simp: in_window_def)
      with tr show ?thesis by (simp add: in_window_append tracks_def)
    qed
    have "filter (\<lambda>t. now - ?w < t) (seen_of rl' key) = filter (\<lambda>t. now - ?w < t) (hist @ [now])"
      using later unfolding rl' seen_of_set True by simp
    moreover have "rl_window rl' = ?w" "rl_limit rl' = rl_limit rl" by (simp_all add: rl')
    ultimately show ?thesis using win le True unfolding tracks_def by simp
  qed
qed

lemma passed_bounded:
  assumes "tracks rl key hist n" and "sorted (n # map snd evs)"
  shows "int (in_window (rl_window rl) x (hist @ passed key rl evs)) \<le> rl_limit rl"
  using assms
proof (induction evs arbitrary: rl hist n)
  case Nil
  then show ?case by (simp add: tracks_def)
next
  case (Cons ev evs)
  obtain sender now where ev: "ev = (sender, now)" by fastforce
  from Cons.prems(2) ev have n: "n \<le> now" and srt: "sorted (now # map snd evs)" by auto
  obtain r rl' where chk: "rl_check sender now rl = (r, rl')" by fastforce
  show ?case
  proof (cases r)
    case (Inl e)
    with tracks_limited [OF Cons.prems(1) n] chk Cons.IH [of rl' hist now] srt ev show ?thesis by simp
  next
    case (Inr u)
    with tracks_allowed [OF Cons.prems(1) n] chk srt ev
      Cons.IH [of rl' "hist @ (if rl_key sender = key then [now] else [])" now]
    show ?thesis by (simp split: if_splits)
  qed
qed

section \<open>Properties of inbound authentication\<close>

text \<open>
  C22. However a sender spreads messages over time (the clock does not run backwards), no window of the
  configured length holds more accepted messages of that sender than the limit.
\<close>

theorem rate_limit_bound:
  assumes "new_rate_limiter limit window = Inr rl" and "sorted (map snd evs)"
  shows "int (in_window window x (passed (rl_key sender) rl evs)) \<le> limit"
proof (cases evs)
  case Nil
  with assms(1) show ?thesis by (auto simp: new_rate_limiter_def in_window_def split: if_splits)
next
  case (Cons ev rest)
  from assms(1) have rl: "rl = \<lparr>rl_limit = limit, rl_window = window, rl_seen = []\<rparr>" "0 < limit"
    by (auto simp: new_rate_limiter_def split: if_splits)
  have "tracks rl (rl_key sender) [] (snd ev)"
    using rl by (simp add: tracks_def seen_of_def in_window_def)
  moreover have "sorted (snd ev # map snd evs)" using assms(2) Cons by simp
  ultimately have "int (in_window (rl_window rl) x ([] @ passed (rl_key sender) rl evs)) \<le> rl_limit rl"
    by (rule passed_bounded)
  with rl show ?thesis by simp
qed

theorem rate_limit_bound_witness:
  "int (in_window 10 9 (passed ''a'' \<lparr>rl_limit = 2, rl_window = 10, rl_seen = []\<rparr>
     [(Some ''a'', 1), (Some ''a'', 2), (Some ''a'', 3), (Some ''b'', 3)])) \<le> 2"
proof -
  have "new_rate_limiter 2 10 = Inr \<lparr>rl_limit = 2, rl_window = 10, rl_seen = []\<rparr>" by code_simp
  from rate_limit_bound [OF this, of "[(Some ''a'', 1), (Some ''a'', 2), (Some ''a'', 3), (Some ''b'', 3)]" 9 "Some ''a''"]
  show ?thesis by (simp add: rl_key_def)
qed

text \<open>
  The authorizer lets a message through exactly when its sender is on the allowlist (or there
  is none) and its signature header is the signature of this body under this sender; and a
  signature it accepts is never empty.
\<close>

theorem authorize_iff:
  "authorize hmac au body headers sender = Inr () \<longleftrightarrow>
     (au_allowlist au = [] \<or> (\<exists>s \<in> set (au_allowlist au). sender = Some s)) \<and>
     dict_get headers SIGNATURE_HEADER = Some (sign hmac body (au_secret au) sender) \<and>
     is_ascii (sign hmac body (au_secret au) sender)"
proof -
  have ne: "sign hmac body (au_secret au) sender \<noteq> []" by (simp add: sign_def)
  show ?thesis
  proof (cases "dict_get headers SIGNATURE_HEADER")
    case None
    then show ?thesis by (simp add: authorize_def)
  next
    case (Some sig)
    show ?thesis
    proof (cases "sig = sign hmac body (au_secret au) sender")
      case True
      with Some ne show ?thesis by (auto simp: authorize_def compare_digest_def)
    next
      case False
      with Some show ?thesis by (auto simp: authorize_def compare_digest_def)
    qed
  qed
qed

section \<open>The first verdict wins\<close>

text \<open>A step that only adds entries for keys that have none.\<close>

definition adds_defaults :: "((string, string) dict \<Rightarrow> (string, string) dict) \<Rightarrow> bool" where
  "adds_defaults f \<longleftrightarrow>
     (\<forall>d k. dict_get (f d) k = (case dict_get d k of Some v \<Rightarrow> Some v | None \<Rightarrow> dict_get (f []) k))"

lemma adds_defaults_id: "adds_defaults (\<lambda>d. d)"
  by (simp add: adds_defaults_def split: option.split)

lemma adds_defaults_setdefault: "adds_defaults (setdefault k v)"
  by (auto simp: adds_defaults_def setdefault_def split: option.split)

lemma adds_defaults_comp:
  assumes "adds_defaults f" and "adds_defaults g"
  shows "adds_defaults (\<lambda>d. g (f d))"
  unfolding adds_defaults_def
proof (intro allI)
  fix d k
  have g: "dict_get (g e) k = (case dict_get e k of Some v \<Rightarrow> Some v | None \<Rightarrow> dict_get (g []) k)" for e
    using assms(2) by (simp add: adds_defaults_def)
  have f: "dict_get (f d) k = (case dict_get d k of Some v \<Rightarrow> Some v | None \<Rightarrow> dict_get (f []) k)"
    using assms(1) by (simp add: adds_defaults_def)
  show "dict_get (g (f d)) k = (case dict_get d k of Some v \<Rightarrow> Some v | None \<Rightarrow> dict_get (g (f [])) k)"
    unfolding g [of "f d"] g [of "f []"] f by (simp split: option.split)
qed

lemma adds_defaults_fold:
  assumes "\<And>x. adds_defaults (h x)"
  shows "adds_defaults (fold h xs)"
proof (induction xs)
  case Nil
  then show ?case using adds_defaults_id by (simp add: id_def)
next
  case (Cons x xs)
  then show ?case using adds_defaults_comp [OF assms Cons.IH, of x] by (simp add: comp_def)
qed

lemma adds_defaults_property: "adds_defaults (add_property m)"
proof -
  have "adds_defaults (\<lambda>d. if a then setdefault k1 v1 d else if b then setdefault k2 v2 d else setdefault k3 v3 d)"
    for a b k1 v1 k2 v2 k3 v3
    by (cases a; cases b) (simp_all add: adds_defaults_setdefault)
  then show ?thesis by (simp add: add_property_def [abs_def] Let_def)
qed

lemma adds_defaults_clause: "adds_defaults (add_clause c)"
proof -
  let ?v = "\<lambda>d. case re_match VERDICT_RE (strip c) of None \<Rightarrow> d
      | Some m \<Rightarrow> let mechanism = lower (the (group m 1)); verdict = lower (the (group m 2))
                 in if mechanism \<in> set AUTH_MECHANISMS then setdefault mechanism verdict d else d"
  have "adds_defaults ?v"
  proof (cases "re_match VERDICT_RE (strip c)")
    case None
    then show ?thesis by (simp add: adds_defaults_id)
  next
    case (Some m)
    then show ?thesis
      by (cases "lower (the (group m 1)) \<in> set AUTH_MECHANISMS")
        (simp_all add: adds_defaults_id adds_defaults_setdefault Let_def)
  qed
  from adds_defaults_comp [OF this adds_defaults_fold [OF adds_defaults_property]]
  show ?thesis by (simp add: add_clause_def [abs_def] Let_def)
qed

lemma split_where_append:
  "p c \<Longrightarrow> split_where p (a @ c # b) = split_where p a @ split_where p b"
proof (induction a)
  case (Cons d a)
  moreover have "split_where p a \<noteq> []" by (induction a) (auto split: list.split)
  ultimately show ?case by (auto split: list.split)
qed simp

lemma parse_two:
  "dict_get (parse_authentication_results (a @ newline @ b)) k =
     (case dict_get (parse_authentication_results a) k of
        Some v \<Rightarrow> Some v | None \<Rightarrow> dict_get (parse_authentication_results b) k)"
proof -
  let ?f = "fold add_clause (split_where clause_sep b)"
  have "clause_sep (CHR 0x0A)" by (simp add: clause_sep_def)
  then have "parse_authentication_results (a @ newline @ b) = ?f (parse_authentication_results a)"
    by (simp add: parse_authentication_results_def newline_def split_where_append)
  moreover have "adds_defaults ?f" by (rule adds_defaults_fold [OF adds_defaults_clause])
  moreover have "parse_authentication_results b = ?f []" by (simp add: parse_authentication_results_def)
  ultimately show ?thesis unfolding adds_defaults_def by metis
qed

text \<open>
  Reading two \<open>Authentication-Results\<close> texts one after the other, a verdict (or an
  authenticated domain) of the first is kept whatever the second says; the second only fills in
  what the first leaves open. A later field can never turn a \<open>fail\<close> into a \<open>pass\<close>.
\<close>

theorem first_verdict_wins:
  "dict_get (parse_authentication_results (a @ newline @ b)) k =
     (case dict_get (parse_authentication_results a) k of
        Some v \<Rightarrow> Some v | None \<Rightarrow> dict_get (parse_authentication_results b) k)"
  by (rule parse_two)

section \<open>What the email gate admits\<close>

text \<open>The first block that names a mechanism, among blocks read in order.\<close>

definition first_verdict :: "string list \<Rightarrow> string \<Rightarrow> string option" where
  "first_verdict blocks k =
     (case filter (\<lambda>b. dict_has (parse_authentication_results b) k) blocks of
        [] \<Rightarrow> None | b # _ \<Rightarrow> dict_get (parse_authentication_results b) k)"

lemma parse_join:
  "bs \<noteq> [] \<Longrightarrow> dict_get (parse_authentication_results (join newline bs)) k = first_verdict bs k"
proof (induction bs rule: induct_list012)
  case (2 b)
  then show ?case by (auto simp: first_verdict_def)
next
  case (3 b c bs)
  have "join newline (b # c # bs) = b @ newline @ join newline (c # bs)" by simp
  then have "dict_get (parse_authentication_results (join newline (b # c # bs))) k =
      (case dict_get (parse_authentication_results b) k of Some v \<Rightarrow> Some v | None \<Rightarrow> first_verdict (c # bs) k)"
    using parse_two 3(2) by (simp split: option.split)
  also have "\<dots> = first_verdict (b # c # bs) k"
    by (simp add: first_verdict_def split: option.split)
  finally show ?case .
qed simp

lemma check_verdicts_ok:
  assumes "check_verdicts g v sender = Inr ()"
  shows "(\<forall>m \<in> set (eg_required g). dict_get v m = Some ''pass'') \<and>
    (\<exists>dom. dom \<noteq> [] \<and> (dict_get v ''dmarc_from'' = Some dom \<or> dict_get v ''dkim_domain'' = Some dom) \<and>
       (eg_allowed_domains g = [] \<or> dom \<in> set (eg_allowed_domains g)) \<and>
       (truthy sender \<longrightarrow> domain sender = dom))"
proof -
  let ?dom = "if truthy (dict_get v ''dmarc_from'') then the (dict_get v ''dmarc_from'')
      else or_else (dict_get v ''dkim_domain'') []"
  have none: "List.find (\<lambda>m. dict_get v m \<noteq> Some ''pass'') (eg_required g) = None"
    using assms by (simp add: check_verdicts_def split: option.splits)
  then have "\<forall>m \<in> set (eg_required g). dict_get v m = Some ''pass''"
    by (auto simp: find_None_iff)
  moreover have "?dom \<noteq> []" "eg_allowed_domains g = [] \<or> ?dom \<in> set (eg_allowed_domains g)"
      "truthy sender \<longrightarrow> domain sender = ?dom"
    using assms none by (auto simp: check_verdicts_def Let_def split: if_splits)
  moreover have "dict_get v ''dmarc_from'' = Some ?dom \<or> dict_get v ''dkim_domain'' = Some ?dom"
    using \<open>?dom \<noteq> []\<close> by (auto simp: truthy_def or_else_def split: option.splits if_splits)
  ultimately show ?thesis by blast
qed


definition ex_gate :: email_auth_gate where
  "ex_gate = \<lparr>eg_required = [''dmarc''], eg_allowed_domains = [''bank.com''], eg_senders = None,
     eg_auth_serv_id = DEFAULT_AUTH_SERV_ID\<rparr>"

definition ex_header :: "string \<Rightarrow> (string, string) dict" where
  "ex_header v = [(''Authentication-Results'', v)]"


text \<open>
  A field that does not begin with an authserv-id is read as a continuation of the field before
  it: a second \<open>Authentication-Results\<close> header written by the author of the message is taken for the
  receiving server's word on any mechanism that server left open.
\<close>

theorem injected_field_trusted:
  "email_admit ex_gate
     (ex_header (''mx1.messagingengine.com; spf=pass smtp.mailfrom=evil.org'' @ newline @
       ''dmarc=pass header.from=bank.com'')) (Some ''ceo@bank.com'') = Inr ()"
  by code_simp

text \<open>
  The signed material does not separate the sender from the body: the signature of an unsigned-sender
  message whose body starts with an address and a newline is a valid signature of the rest of
  that body under that address.
\<close>

theorem signature_shared_across_senders:
  "sign hmac (s @ newline @ body) secret None = sign hmac body secret (Some s)"
  by (simp add: sign_def)

end
