(* ===== verification/Normalizer.thy ===== *)
theory Normalizer
  imports Models PyRegex
begin

text \<open>
  From a message to a task (\<open>refs.py\<close>, \<open>normalizer.py\<close>): the test of a git ref, the metadata lines
  of a body, the routing address, and \<open>normalize\<close> with its four rejections.
\<close>

section \<open>Git refs (refs.py)\<close>

definition REF_FORBIDDEN :: "char list" where
  "REF_FORBIDDEN = '' ~^:?*['' @ [CHR 0x5C]"

definition is_valid_ref :: "string \<Rightarrow> bool" where
  "is_valid_ref name =
     (if name = [] \<or> startswith name ''-'' \<or> startswith name ''/'' \<or> endswith name ''/'' then False
      else if endswith name ''.'' \<or> contains name ''..'' \<or> contains name [CHR 0x40, CHR 0x7B] then False
      else \<not> (\<exists>c \<in> set name. c \<in> set REF_FORBIDDEN))"

section \<open>The message body (normalizer.py)\<close>

definition METADATA_RE :: rx where
  "METADATA_RE =
     seqs [Bol, star isspace,
           Grp 1 (words_i [''repo'', ''base'', ''branch'', ''model'', ''verify'', ''depends-on'']),
           star isspace, lit '':'', star isspace,
           Grp 2 (Seq (Cls (\<lambda>c. \<not> isspace c)) (star dot)), Eol]"

definition slug_char :: "char \<Rightarrow> bool" where
  "slug_char c \<longleftrightarrow> is_ascii_alnum c \<or> c = CHR ''.'' \<or> c = CHR ''_'' \<or> c = CHR ''-''"

definition REPO_URL_RE :: rx where
  "REPO_URL_RE =
     Alt (seqs [Bol, Alt (seqs [lit ''http'', opt (lit ''s''), lit ''://'']) (lit ''git@''),
                plus (\<lambda>c. \<not> isspace c), Eol])
         (seqs [Bol, plus slug_char, lit ''/'', plus slug_char, Eol])"

definition ROUTING_RE :: rx where
  "ROUTING_RE = seqs [Bol, Grp 1 (plus slug_char), lit ''-'', Grp 2 (plus slug_char), lit ''@'']"

datatype reject_reason = ATTACHMENTS | NO_REPO | EMPTY | NOT_ALLOWED

datatype normalization_result =
    NormalizedTask task task_spec
  | Rejected string reject_reason string

text \<open>The loop of \<open>_parse_body\<close>: the fields so far and the instruction lines.\<close>

fun parse_lines :: "string list \<Rightarrow> (string, string) dict \<Rightarrow> (string, string) dict \<times> string list" where
  "parse_lines [] flds = (flds, [])"
| "parse_lines (line # lines) flds =
     (case re_match METADATA_RE line of
        Some m \<Rightarrow>
          parse_lines lines (dict_set (lower (the (group m 1))) (strip (the (group m 2))) flds)
      | None \<Rightarrow> (case parse_lines lines flds of (fs, ins) \<Rightarrow> (fs, line # ins)))"

definition parse_body :: "string \<Rightarrow> (string, string) dict \<times> string" where
  "parse_body body =
     (case parse_lines (splitlines body) [] of (flds, ins) \<Rightarrow> (flds, join newline ins))"

definition repo_from_recipient :: "string option \<Rightarrow> string option" where
  "repo_from_recipient recipient =
     (if \<not> truthy recipient then None
      else case re_match ROUTING_RE (the recipient) of
             None \<Rightarrow> None
           | Some m \<Rightarrow>
               let slug = the (group m 1) @ ''/'' @ the (group m 2)
               in if re_match REPO_URL_RE slug \<noteq> None then Some slug else None)"

definition DEFAULT_BASE_BRANCH :: string where
  "DEFAULT_BASE_BRANCH = ''main''"

definition split_depends :: "string option \<Rightarrow> string list" where
  "split_depends depends_on =
     (if truthy depends_on
      then map strip (filter (\<lambda>part. strip part \<noteq> []) (split_on (CHR '','') (the depends_on)))
      else [])"

text \<open>\<open>normalize\<close>; \<open>now\<close> is the creation time the \<open>Task\<close> constructor reads.\<close>

definition normalize :: "raw_message \<Rightarrow> string option \<Rightarrow> time \<Rightarrow> normalization_result" where
  "normalize message recipient now =
     (if rm_attachments message \<noteq> [] then
        Rejected (rm_transport_id message) ATTACHMENTS
          ''code travels over Git only; resend without attachments or patches''
      else
        let (flds, instructions) = parse_body (rm_body message);
            repo_url = (if truthy (dict_get flds ''repo'') then dict_get flds ''repo''
                        else repo_from_recipient recipient)
        in
        if \<not> truthy repo_url then
          Rejected (rm_transport_id message) NO_REPO
            (''no repo found; add a '' @ [CHR 0x27] @ ''repo: <url>'' @ [CHR 0x27] @
             '' line or use an owner-repo@ routing address'')
        else if strip instructions = [] then
          Rejected (rm_transport_id message) EMPTY
            ''no instructions found; describe the task in the message body''
        else
          let base = (case dict_get flds ''base'' of None \<Rightarrow> DEFAULT_BASE_BRANCH | Some b \<Rightarrow> b);
              base_branch = (if is_valid_ref base then base else DEFAULT_BASE_BRANCH);
              spec = \<lparr>sp_repo_url = the repo_url, sp_base_branch = base_branch,
                      sp_instructions = strip instructions,
                      sp_model_request = dict_get flds ''model'',
                      sp_verify = dict_get flds ''verify'',
                      sp_depends_on = split_depends (dict_get flds ''depends-on'')\<rparr>;
              task = (new_task (rm_transport_id message) (rm_transport_id message) now)
                       \<lparr>t_thread_id := rm_thread_id message, t_sender := rm_sender message,
                        t_subject := rm_subject message, t_spec := Some spec\<rparr>
          in NormalizedTask task spec)"

section \<open>Facts\<close>

lemma valid_main: "is_valid_ref DEFAULT_BASE_BRANCH"
  by code_simp

lemma normalize_cases:
  assumes "normalize m r now = NormalizedTask t s"
  obtains flds ins repo where "rm_attachments m = []" "parse_body (rm_body m) = (flds, ins)"
    "truthy repo" "repo = (if truthy (dict_get flds ''repo'') then dict_get flds ''repo'' else repo_from_recipient r)"
    "sp_repo_url s = the repo" "strip ins \<noteq> []" "sp_instructions s = strip ins"
    "is_valid_ref (sp_base_branch s)" "sp_depends_on s = split_depends (dict_get flds ''depends-on'')"
    "sp_verify s = dict_get flds ''verify''"
    "t = (new_task (rm_transport_id m) (rm_transport_id m) now)
           \<lparr>t_thread_id := rm_thread_id m, t_sender := rm_sender m, t_subject := rm_subject m, t_spec := Some s\<rparr>"
proof -
  obtain flds ins where body: "parse_body (rm_body m) = (flds, ins)" by fastforce
  let ?repo = "if truthy (dict_get flds ''repo'') then dict_get flds ''repo'' else repo_from_recipient r"
  let ?base = "case dict_get flds ''base'' of None \<Rightarrow> DEFAULT_BASE_BRANCH | Some b \<Rightarrow> b"
  have att: "rm_attachments m = []" and repo: "truthy ?repo" and ins: "strip ins \<noteq> []"
    using assms body by (auto simp: normalize_def Let_def split: if_splits)
  let ?s = "\<lparr>sp_repo_url = the ?repo,
      sp_base_branch = (if is_valid_ref ?base then ?base else DEFAULT_BASE_BRANCH),
      sp_instructions = strip ins, sp_model_request = dict_get flds ''model'',
      sp_verify = dict_get flds ''verify'', sp_depends_on = split_depends (dict_get flds ''depends-on'')\<rparr>"
  have "normalize m r now = NormalizedTask ((new_task (rm_transport_id m) (rm_transport_id m) now)
      \<lparr>t_thread_id := rm_thread_id m, t_sender := rm_sender m, t_subject := rm_subject m, t_spec := Some ?s\<rparr>) ?s"
    using att repo ins unfolding normalize_def body
    by (simp only: Let_def split_conv simp_thms if_True if_False not_True_eq_False not_False_eq_True)
  with assms have s: "s = ?s" and t: "t = (new_task (rm_transport_id m) (rm_transport_id m) now)
           \<lparr>t_thread_id := rm_thread_id m, t_sender := rm_sender m, t_subject := rm_subject m, t_spec := Some s\<rparr>"
    by (metis normalization_result.inject(1))+
  show ?thesis
  proof (rule that [OF att body repo refl _ ins _ _ _ _ t])
    show "is_valid_ref (sp_base_branch s)" using valid_main by (simp add: s)
  qed (simp_all add: s)
qed

lemma valid_ref_plain:
  assumes "is_valid_ref r"
  shows "r \<noteq> []" "hd r \<noteq> CHR ''-''" "\<nexists>a b. r = a @ ''..'' @ b" "set r \<inter> set REF_FORBIDDEN = {}"
proof -
  from assms show ne: "r \<noteq> []" and "\<nexists>a b. r = a @ ''..'' @ b" and "set r \<inter> set REF_FORBIDDEN = {}"
    by (auto simp: is_valid_ref_def contains_iff split: if_splits)
  from assms have "\<not> startswith r ''-''" by (simp add: is_valid_ref_def split: if_splits)
  with ne show "hd r \<noteq> CHR ''-''" by (cases r) (auto simp: startswith_def)
qed

lemma split_depends_plain:
  "d \<in> set (split_depends x) \<Longrightarrow> d \<noteq> [] \<and> strip d = d \<and> CHR '','' \<notin> set d"
  using strip_sub split_on_no_sep by (fastforce simp: split_depends_def split: if_splits)

text \<open>
  C21. A message becomes a task only without attachments, with a repository and with instructions;
  the task is keyed by the transport id in both fields (so a redelivery is a duplicate), carries
  its spec, has a base branch that is a plain ref (never option-like, no range, none of the characters
  git forbids) and depends only on non-empty ids.
\<close>

theorem normalize_sound:
  assumes "normalize m r now = NormalizedTask t s"
  shows "rm_attachments m = [] \<and> sp_repo_url s \<noteq> [] \<and> sp_instructions s \<noteq> [] \<and>
    strip (sp_instructions s) = sp_instructions s \<and>
    t_id t = rm_transport_id m \<and> t_transport_id t = rm_transport_id m \<and> t_sender t = rm_sender m \<and>
    t_thread_id t = rm_thread_id m \<and> t_spec t = Some s \<and> t_evidence t = None \<and>
    hd (sp_base_branch s) \<noteq> CHR ''-'' \<and> sp_base_branch s \<noteq> [] \<and>
    (\<nexists>a b. sp_base_branch s = a @ ''..'' @ b) \<and> set (sp_base_branch s) \<inter> set REF_FORBIDDEN = {} \<and>
    (\<forall>d \<in> set (sp_depends_on s). d \<noteq> [] \<and> strip d = d \<and> CHR '','' \<notin> set d)"
proof -
  from assms obtain flds ins repo where
    n: "rm_attachments m = []" "truthy repo" "sp_repo_url s = the repo" "strip ins \<noteq> []"
      "sp_instructions s = strip ins" "is_valid_ref (sp_base_branch s)"
      "sp_depends_on s = split_depends (dict_get flds ''depends-on'')"
    and t: "t = (new_task (rm_transport_id m) (rm_transport_id m) now)
           \<lparr>t_thread_id := rm_thread_id m, t_sender := rm_sender m, t_subject := rm_subject m, t_spec := Some s\<rparr>"
    by (rule normalize_cases)
  have "sp_repo_url s \<noteq> []" using n(2,3) by (cases repo) auto
  moreover have "\<forall>d \<in> set (sp_depends_on s). d \<noteq> [] \<and> strip d = d \<and> CHR '','' \<notin> set d"
    unfolding n(7) using split_depends_plain by blast
  ultimately show ?thesis using n valid_ref_plain [OF n(6)] by (simp add: t new_task_def)
qed

definition ex_message :: raw_message where
  "ex_message =
     \<lparr>rm_transport_id = ''m1'', rm_thread_id = None, rm_sender = Some ''a@x.io'', rm_subject = None,
      rm_body = ''Repo: o/r'' @ newline @ ''base: --upload-pack=x'' @ newline @ ''depends-on: t1, ,t2'' @
        newline @ ''Fix the build'',
      rm_attachments = [], rm_headers = [], rm_received_at = 0\<rparr>"

theorem normalize_sound_witness:
  "\<exists>t s. normalize ex_message None 0 = NormalizedTask t s \<and> sp_base_branch s = ''main'' \<and>
    sp_depends_on s = [''t1'', ''t2''] \<and> hd (sp_base_branch s) \<noteq> CHR ''-''"
proof -
  let ?s = "\<lparr>sp_repo_url = ''o/r'', sp_base_branch = ''main'', sp_instructions = ''Fix the build'',
      sp_model_request = None, sp_verify = None, sp_depends_on = [''t1'', ''t2'']\<rparr>"
  have "normalize ex_message None 0 = NormalizedTask ((new_task ''m1'' ''m1'' 0)
      \<lparr>t_sender := Some ''a@x.io'', t_spec := Some ?s\<rparr>) ?s" by code_simp
  from this normalize_sound [OF this] show ?thesis by auto
qed

text \<open>
  The ref test looks only for the space among the white space characters: a name with a tab in
  it is accepted, though the function says it rejects white space.
\<close>

theorem valid_ref_allows_tab: "is_valid_ref (''a'' @ [CHR 0x09] @ ''b'')"
  by code_simp

end
