(* ===== verification/Policy.thy ===== *)
theory Policy
  imports Models
begin

text \<open>
  Project policies (\<open>policy.py\<close>): the reduction of a repository reference to a slug, the shell
  patterns of \<open>fnmatch\<close>, the choice of a policy for a repository, and the memory and PostgreSQL stores
  with the contract of the \<open>PolicyStore\<close> protocol. Policies written as files are in
  PolicyFiles.
\<close>

section \<open>Shell patterns (the standard library's fnmatch)\<close>

text \<open>The characters of a bracket expression: ranges and single characters; a reversed range is empty.\<close>

fun class_items :: "string \<Rightarrow> char \<Rightarrow> bool" where
  "class_items [] c = False"
| "class_items (x # d # y # rest) c =
     (if d = CHR ''-'' then (x \<le> c \<and> c \<le> y) \<or> class_items rest c
      else c = x \<or> class_items (d # y # rest) c)"
| "class_items (x # rest) c = (c = x \<or> class_items rest c)"

text \<open>
  What follows a \<open>[\<close>: whether it is negated, the characters up to the closing bracket and the rest,
  or \<open>None\<close> without a closing bracket (the \<open>[\<close> is then literal). A \<open>]\<close> right after the
  opening does not close.
\<close>

definition bracket :: "string \<Rightarrow> (bool \<times> string \<times> string) option" where
  "bracket p =
     (let neg = startswith p ''!'';
          p1 = (if neg then tl p else p);
          pre = (if startswith p1 '']'' then '']'' else []);
          p2 = (if startswith p1 '']'' then tl p1 else p1)
      in case cut_at '']'' p2 of None \<Rightarrow> None | Some (a, b) \<Rightarrow> Some (neg, pre @ a, b))"

lemma bracket_shorter:
  assumes "bracket p = Some (neg, content, rest)"
  shows "length rest < length p"
proof -
  let ?p1 = "if startswith p ''!'' then tl p else p"
  let ?p2 = "if startswith ?p1 '']'' then tl ?p1 else ?p1"
  obtain a where "cut_at '']'' ?p2 = Some (a, rest)"
    using assms unfolding bracket_def Let_def by (cases "cut_at '']'' ?p2") auto
  then have "?p2 = a @ '']'' @ rest" by (rule cut_Some)
  then have "length ?p2 > length rest" by (simp del: length_tl)
  moreover have "length ?p1 \<le> length p" by simp
  moreover have "length ?p2 \<le> length ?p1" by (cases "startswith ?p1 '']''") simp_all
  ultimately show ?thesis by linarith
qed

function fnmatch :: "string \<Rightarrow> string \<Rightarrow> bool" where
  "fnmatch name pat =
     (case pat of
        [] \<Rightarrow> name = []
      | p # ps \<Rightarrow>
          if p = CHR ''*'' then
            (if fnmatch name ps then True else case name of [] \<Rightarrow> False | _ # cs \<Rightarrow> fnmatch cs pat)
          else (case name of
             [] \<Rightarrow> False
           | c # cs \<Rightarrow>
               if p = CHR ''?'' then fnmatch cs ps
               else if p = CHR ''['' then
                 (case bracket ps of
                    None \<Rightarrow> if c = p then fnmatch cs ps else False
                  | Some (neg, content, rest) \<Rightarrow>
                      if class_items content c \<noteq> neg then fnmatch cs rest else False)
               else if c = p then fnmatch cs ps else False))"
  by pat_completeness auto
termination
  by (relation "measure (\<lambda>(name, pat). length name + length pat)") (auto dest!: bracket_shorter)

declare fnmatch.simps [simp del]

section \<open>Policies\<close>

record project_policy =
  pp_project :: string
  pp_enabled :: bool
  pp_repos :: "string list"
  pp_base_branch :: "string option"
  pp_harness :: "string option"
  pp_model :: "string option"
  pp_verify_allow :: "string list"
  pp_source :: "string option"

definition normalize_repo :: "string \<Rightarrow> string" where
  "normalize_repo repo =
     (let v0 = rstrip_chars ''/'' (lower (strip repo));
          v1 = (if endswith v0 ''.git'' then take (length v0 - 4) v0 else v0)
      in case cut_at ''github.com/'' v1 of
           Some (_, rest) \<Rightarrow> rest
         | None \<Rightarrow>
             if startswith v1 ''git@'' \<and> contains v1 '':''
             then snd (the (cut_at '':'' v1)) else v1)"

definition policy_matches :: "project_policy \<Rightarrow> string \<Rightarrow> bool" where
  "policy_matches p repo =
     (let slug = normalize_repo repo
      in \<exists>pattern \<in> set (pp_repos p). fnmatch slug (normalize_repo pattern))"

definition for_repo :: "project_policy list \<Rightarrow> string \<Rightarrow> project_policy option" where
  "for_repo policies repo = List.find (\<lambda>p. policy_matches p repo) policies"

section \<open>The stores\<close>

record 'p policy_ops =
  p_list :: "'p \<Rightarrow> project_policy list"
  p_get :: "string \<Rightarrow> 'p \<Rightarrow> project_policy option"
  p_replace_all :: "project_policy list \<Rightarrow> 'p \<Rightarrow> (exn + unit) \<times> 'p"
  p_for_repo :: "string \<Rightarrow> 'p \<Rightarrow> project_policy option"

definition mem_policy_ops :: "project_policy list policy_ops" where
  "mem_policy_ops =
     \<lparr>p_list = (\<lambda>s. s), p_get = (\<lambda>project s. List.find (\<lambda>p. pp_project p = project) s),
      p_replace_all = (\<lambda>ps s. (Inr (), ps)), p_for_repo = (\<lambda>repo s. for_repo s repo)\<rparr>"

text \<open>
  The rows of \<open>dear_agent_policy\<close> have a policy's fields (\<open>_policy_from_row\<close> is the identity on the
  rows \<open>replace_all\<close> writes). The transaction of \<open>replace_all\<close> fails as a whole on a repeated
  project, the primary key. \<open>coll\<close> is the sort key of the database's collation.
\<close>

fun insert_rows :: "project_policy list \<Rightarrow> project_policy list \<Rightarrow> project_policy list option" where
  "insert_rows [] rows = Some rows"
| "insert_rows (p # ps) rows =
     (if pp_project p \<in> set (map pp_project rows) then None else insert_rows ps (rows @ [p]))"

definition pgp_list :: "(string \<Rightarrow> string) \<Rightarrow> project_policy list \<Rightarrow> project_policy list" where
  "pgp_list coll rows = sort_key (\<lambda>p. coll (pp_project p)) rows"

definition pgp_get :: "string \<Rightarrow> project_policy list \<Rightarrow> project_policy option" where
  "pgp_get project rows =
     (case filter (\<lambda>p. pp_project p = project) rows of [] \<Rightarrow> None | r # _ \<Rightarrow> Some r)"

definition pgp_replace_all ::
  "project_policy list \<Rightarrow> project_policy list \<Rightarrow> (exn + unit) \<times> project_policy list" where
  "pgp_replace_all ps rows =
     (case insert_rows ps [] of
        None \<Rightarrow> (Inl (OtherError ''UniqueViolation''), rows)
      | Some rows' \<Rightarrow> (Inr (), rows'))"

definition pg_policy_ops :: "(string \<Rightarrow> string) \<Rightarrow> project_policy list policy_ops" where
  "pg_policy_ops coll =
     \<lparr>p_list = pgp_list coll, p_get = pgp_get, p_replace_all = pgp_replace_all,
      p_for_repo = (\<lambda>repo s. for_repo (pgp_list coll s) repo)\<rparr>"

section \<open>The contract\<close>

locale policy_store =
  fixes P :: "'p policy_ops" and pinv :: "'p \<Rightarrow> bool"
  assumes for_repo_law: "pinv s \<Longrightarrow> p_for_repo P repo s = for_repo (p_list P s) repo"
    and get_law: "pinv s \<Longrightarrow> distinct (map pp_project (p_list P s)) \<Longrightarrow>
          p_get P project s = Some p \<longleftrightarrow> p \<in> set (p_list P s) \<and> pp_project p = project"
    and replace_pinv: "pinv s \<Longrightarrow> pinv (snd (p_replace_all P ps s))"
    and replace_ok: "pinv s \<Longrightarrow> distinct (map pp_project ps) \<Longrightarrow>
          fst (p_replace_all P ps s) = Inr () \<and> set (p_list P (snd (p_replace_all P ps s))) = set ps"
begin

lemma for_repo_some:
  assumes "pinv s" and "p_for_repo P repo s = Some p"
  shows "p \<in> set (p_list P s)" "policy_matches p repo"
  using assms by (auto simp: for_repo_law for_repo_def find_Some_iff)

lemma for_repo_none:
  assumes "pinv s"
  shows "p_for_repo P repo s = None \<longleftrightarrow> (\<forall>p \<in> set (p_list P s). \<not> policy_matches p repo)"
  using assms by (auto simp: for_repo_law for_repo_def find_None_iff)

end

lemma find_key_iff:
  "distinct (map f xs) \<Longrightarrow> List.find (\<lambda>x. f x = k) xs = Some x \<longleftrightarrow> x \<in> set xs \<and> f x = k"
  by (induction xs) (auto simp: image_iff)

interpretation mpol: policy_store mem_policy_ops "\<lambda>s. True"
  by unfold_locales (auto simp: mem_policy_ops_def find_key_iff)

lemma insert_rows_distinct:
  "distinct (map pp_project (rows @ ps)) \<Longrightarrow> insert_rows ps rows = Some (rows @ ps)"
  by (induction ps arbitrary: rows) auto

lemma insert_rows_keys:
  "insert_rows ps rows = Some rows' \<Longrightarrow> distinct (map pp_project rows) \<Longrightarrow> distinct (map pp_project rows')"
  by (induction ps arbitrary: rows) (auto split: if_splits)

lemma filter_key_iff:
  "distinct (map f xs) \<Longrightarrow> (case filter (\<lambda>x. f x = k) xs of [] \<Rightarrow> None | r # _ \<Rightarrow> Some r) = Some x \<longleftrightarrow>
     x \<in> set xs \<and> f x = k"
  by (induction xs) (auto simp: image_iff split: list.splits)

interpretation pgpol: policy_store "pg_policy_ops coll" "\<lambda>rows. distinct (map pp_project rows)" for coll
proof (unfold_locales, goal_cases)
  case (1 s repo) show ?case by (simp add: pg_policy_ops_def)
next
  case (2 s project p) then show ?case
    by (simp add: pg_policy_ops_def pgp_get_def pgp_list_def filter_key_iff)
next
  case (3 s ps) then show ?case
    by (auto simp: pg_policy_ops_def pgp_replace_all_def dest: insert_rows_keys split: option.split)
next
  case (4 s ps) then show ?case
    using insert_rows_distinct [of "[]" ps] by (simp add: pg_policy_ops_def pgp_replace_all_def pgp_list_def)
qed

section \<open>The host of a repository\<close>

definition ex_policy :: project_policy where
  "ex_policy =
     \<lparr>pp_project = ''p'', pp_enabled = True, pp_repos = [''acme/*''], pp_base_branch = None, pp_harness = None,
      pp_model = None, pp_verify_allow = [], pp_source = None\<rparr>"

text \<open>
  A policy written for an owner on GitHub also covers that owner's name on any host whose name ends
  in \<open>github.com\<close>, or that merely has \<open>github.com/\<close> somewhere in the path: matching looks only at what
  follows the first such text.
\<close>

theorem policy_ignores_host:
  "policy_matches ex_policy ''https://github.com/Acme/app.git'' \<and>
   policy_matches ex_policy ''https://notgithub.com/acme/app'' \<and>
   policy_matches ex_policy ''https://evil.example/github.com/acme/app'' \<and>
   \<not> policy_matches ex_policy ''https://evil.example/acme/app''"
  by code_simp

end
