(* ===== verification/Events.thy ===== *)
theory Events
  imports Models
begin

text \<open>
  The task event log (\<open>events.py\<close>), in memory and in PostgreSQL, and the error budget that reads it.
  Event data are keyword arguments; their values are kept as text. The contract of the
  \<open>EventLog\<close> protocol is the locale \<open>event_log\<close>.
\<close>

record task_event =
  te_task_id :: string
  te_kind :: string
  te_at :: time
  te_data :: "(string, string) dict"

record 'e event_ops =
  e_record :: "string \<Rightarrow> string \<Rightarrow> (string, string) dict \<Rightarrow> time \<Rightarrow> 'e \<Rightarrow> 'e"
  e_read :: "string \<Rightarrow> 'e \<Rightarrow> task_event list"
  e_recent :: "int \<Rightarrow> 'e \<Rightarrow> task_event list"
  e_count :: "string \<Rightarrow> time \<Rightarrow> 'e \<Rightarrow> nat"

section \<open>In memory\<close>

type_synonym memory_log = "task_event list"

definition mlog_record ::
  "string \<Rightarrow> string \<Rightarrow> (string, string) dict \<Rightarrow> time \<Rightarrow> memory_log \<Rightarrow> memory_log" where
  "mlog_record task_id kind data now evs =
     evs @ [\<lparr>te_task_id = task_id, te_kind = kind, te_at = now, te_data = data\<rparr>]"

definition mlog_read :: "string \<Rightarrow> memory_log \<Rightarrow> task_event list" where
  "mlog_read task_id evs = filter (\<lambda>e. te_task_id e = task_id) evs"

definition mlog_recent :: "int \<Rightarrow> memory_log \<Rightarrow> task_event list" where
  "mlog_recent limit evs = slice_last limit evs"

definition mlog_count :: "string \<Rightarrow> time \<Rightarrow> memory_log \<Rightarrow> nat" where
  "mlog_count kind since evs = length (filter (\<lambda>e. te_kind e = kind \<and> te_at e \<ge> since) evs)"

definition mlog_ops :: "memory_log event_ops" where
  "mlog_ops = \<lparr>e_record = mlog_record, e_read = mlog_read, e_recent = mlog_recent, e_count = mlog_count\<rparr>"

section \<open>In PostgreSQL\<close>

text \<open>Rows with the serial id the table assigns; a row is read back by \<open>_event_from_row\<close>.\<close>

record pg_log =
  el_next :: nat
  el_rows :: "(nat \<times> task_event) list"

definition plog_record ::
  "string \<Rightarrow> string \<Rightarrow> (string, string) dict \<Rightarrow> time \<Rightarrow> pg_log \<Rightarrow> pg_log" where
  "plog_record task_id kind data now l =
     l\<lparr>el_next := Suc (el_next l),
       el_rows := el_rows l @ [(el_next l, \<lparr>te_task_id = task_id, te_kind = kind, te_at = now, te_data = data\<rparr>)]\<rparr>"

definition plog_read :: "string \<Rightarrow> pg_log \<Rightarrow> task_event list" where
  "plog_read task_id l = map snd (sort_key fst (filter (\<lambda>(i, e). te_task_id e = task_id) (el_rows l)))"

definition plog_recent :: "int \<Rightarrow> pg_log \<Rightarrow> task_event list" where
  "plog_recent limit l =
     map snd (rev (take (nat limit) (sort_key (\<lambda>(i, e). - int i) (el_rows l))))"

definition plog_count :: "string \<Rightarrow> time \<Rightarrow> pg_log \<Rightarrow> nat" where
  "plog_count kind since l =
     length (filter (\<lambda>(i, e). te_kind e = kind \<and> te_at e \<ge> since) (el_rows l))"

definition plog_ops :: "pg_log event_ops" where
  "plog_ops = \<lparr>e_record = plog_record, e_read = plog_read, e_recent = plog_recent, e_count = plog_count\<rparr>"

section \<open>The error budget\<close>

record error_budget =
  eb_max_failures :: int
  eb_window_seconds :: int

definition error_budget_from_env :: "(string, string) dict \<Rightarrow> error_budget option" where
  "error_budget_from_env env =
     (case (py_int (or_else (dict_get env ''DEAR_AGENT_ERROR_BUDGET_FAILURES'') ''0''),
            py_int (or_else (dict_get env ''DEAR_AGENT_ERROR_BUDGET_WINDOW'') ''3600'')) of
        (Some f, Some w) \<Rightarrow> Some \<lparr>eb_max_failures = f, eb_window_seconds = w\<rparr>
      | _ \<Rightarrow> None)"

definition exhausted :: "error_budget \<Rightarrow> 'e event_ops \<Rightarrow> time \<Rightarrow> 'e \<Rightarrow> bool" where
  "exhausted b E now l =
     (if eb_max_failures b \<le> 0 then False
      else let since = now - eb_window_seconds b * 1000000
           in int (e_count E ''task.failed'' since l) \<ge> eb_max_failures b)"

section \<open>The contract\<close>

locale event_log =
  fixes E :: "'e event_ops" and history :: "'e \<Rightarrow> task_event list" and einv :: "'e \<Rightarrow> bool"
  assumes record_einv: "einv l \<Longrightarrow> einv (e_record E i k d now l)"
    and record_law: "einv l \<Longrightarrow> history (e_record E i k d now l) =
          history l @ [\<lparr>te_task_id = i, te_kind = k, te_at = now, te_data = d\<rparr>]"
    and read_law: "einv l \<Longrightarrow> e_read E i l = filter (\<lambda>e. te_task_id e = i) (history l)"
    and recent_law: "einv l \<Longrightarrow> 0 < limit \<Longrightarrow> e_recent E limit l = slice_last limit (history l)"
    and count_law: "einv l \<Longrightarrow> e_count E k since l = length (filter (\<lambda>e. te_kind e = k \<and> since \<le> te_at e) (history l))"
begin

lemma exhausted_iff:
  assumes "einv l"
  shows "exhausted b E now l \<longleftrightarrow>
    0 < eb_max_failures b \<and>
    eb_max_failures b \<le>
      int (length (filter (\<lambda>e. te_kind e = ''task.failed'' \<and> now - eb_window_seconds b * 1000000 \<le> te_at e) (history l)))"
  using assms by (simp add: exhausted_def count_law Let_def)

end

interpretation mlog: event_log mlog_ops "\<lambda>l. l" "\<lambda>l. True"
  by unfold_locales (simp_all add: mlog_ops_def mlog_record_def mlog_read_def mlog_recent_def mlog_count_def)

definition plog_inv :: "pg_log \<Rightarrow> bool" where
  "plog_inv l \<longleftrightarrow> sorted_wrt (<) (map fst (el_rows l)) \<and> (\<forall>i \<in> set (map fst (el_rows l)). i < el_next l)"

lemma sort_sorted_rows:
  "sorted_wrt (<) (map fst rows) \<Longrightarrow> sort_key fst (rows :: (nat \<times> 'a) list) = rows"
  by (intro sort_key_id_if_sorted strict_sorted_imp_sorted)

lemma sort_rows_desc:
  fixes rows :: "(nat \<times> 'a) list"
  assumes "sorted_wrt (<) (map fst rows)"
  shows "sort_key (\<lambda>(i, e). - int i) rows = rev rows"
proof -
  have "sort_key (\<lambda>p. - int (fst p)) rows = rev rows"
  proof (rule sort_key_inj_key_eq)
    have "distinct (map fst rows)" using assms by (simp add: strict_sorted_iff)
    then show "inj_on (\<lambda>p. - int (fst p)) (set rows)" by (auto simp: distinct_map inj_on_def)
    show "sorted (map (\<lambda>p. - int (fst p)) (rev rows))"
      using assms by (induction rows) (auto simp: sorted_append less_imp_le)
  qed simp
  then show ?thesis by (simp add: case_prod_unfold)
qed

interpretation plog: event_log plog_ops "\<lambda>l. map snd (el_rows l)" plog_inv
proof (unfold_locales, goal_cases)
  case (1 l i k d now) then show ?case
    by (auto simp: plog_ops_def plog_record_def plog_inv_def sorted_wrt_append less_SucI)
next
  case (2 l i k d now) show ?case by (simp add: plog_ops_def plog_record_def)
next
  case (3 l i)
  then have "sorted_wrt (<) (map fst (filter (\<lambda>(j, e). te_task_id e = i) (el_rows l)))"
    by (simp add: plog_inv_def sorted_wrt_map sorted_wrt_filter)
  then show ?case
    by (simp add: plog_ops_def plog_read_def sort_sorted_rows filter_map comp_def case_prod_unfold)
next
  case (4 l limit)
  then have "sorted_wrt (<) (map fst (el_rows l))" by (simp add: plog_inv_def)
  with 4 show ?case
    by (simp add: plog_ops_def plog_recent_def sort_rows_desc slice_last_def rev_take drop_map)
next
  case (5 l k since) show ?case
    by (simp add: plog_ops_def plog_count_def filter_map comp_def case_prod_unfold)
qed

section \<open>Properties of the event log\<close>

text \<open>
  Over the durable log the error budget is exhausted exactly when it is enabled and at least the
  configured number of failures were recorded within the window; recording anything else never
  exhausts it.
\<close>

theorem error_budget_trips:
  assumes "plog_inv l"
  shows "exhausted b plog_ops now l \<longleftrightarrow>
    0 < eb_max_failures b \<and>
    eb_max_failures b \<le> int (length (filter (\<lambda>e. te_kind e = ''task.failed'' \<and>
      now - eb_window_seconds b * 1000000 \<le> te_at e) (map snd (el_rows l))))"
  using assms by (rule plog.exhausted_iff)

theorem error_budget_trips_witness:
  "exhausted \<lparr>eb_max_failures = 1, eb_window_seconds = 1\<rparr> plog_ops 5
     (plog_record ''t'' ''task.failed'' [] 4 \<lparr>el_next = 0, el_rows = []\<rparr>)"
proof -
  have "plog_inv (plog_record ''t'' ''task.failed'' [] 4 \<lparr>el_next = 0, el_rows = []\<rparr>)"
    by (simp add: plog_inv_def plog_record_def)
  from error_budget_trips [OF this, of "\<lparr>eb_max_failures = 1, eb_window_seconds = 1\<rparr>" 5] show ?thesis
    by (simp add: plog_record_def)
qed

text \<open>
  The two logs disagree on a limit of zero: the database returns nothing, the memory log, whose
  slice \<open>[-0:]\<close> is the whole list, returns everything.
\<close>

theorem recent_zero_differs:
  "mlog_recent 0 evs = evs \<and> plog_recent 0 l = []"
  by (simp add: mlog_recent_def slice_last_def plog_recent_def)

end
