(* ===== verification/Deps.thy ===== *)
theory Deps
  imports Backends
begin

text \<open>
  Declared dependencies (\<open>deps.py\<close>): whether the tasks a task depends on allow it to run now.
\<close>

record dependency_status =
  ds_state :: string
  ds_blocked_on :: "string list"
  ds_failed_on :: "string list"

definition ds_ready :: "dependency_status \<Rightarrow> bool" where
  "ds_ready d \<longleftrightarrow> ds_state d = ''ready''"

text \<open>The loop over \<open>depends_on\<close>: the ids it collects as blocked and as failed.\<close>

fun deps_loop :: "'q queue_ops \<Rightarrow> 'q \<Rightarrow> string list \<Rightarrow> string list \<times> string list" where
  "deps_loop Q q [] = ([], [])"
| "deps_loop Q q (d # ds) =
     (case deps_loop Q q ds of
        (blocked, failed) \<Rightarrow>
          (case q_get Q d q of
             None \<Rightarrow> (d # blocked, failed)
           | Some dependency \<Rightarrow>
               if t_state dependency = DONE then (blocked, failed)
               else if t_state dependency \<in> {FAILED, REJECTED} then (blocked, d # failed)
               else (d # blocked, failed)))"

definition depends_of :: "task \<Rightarrow> string list" where
  "depends_of t = (case t_spec t of None \<Rightarrow> [] | Some s \<Rightarrow> sp_depends_on s)"

definition dependency_status_of :: "'q queue_ops \<Rightarrow> 'q \<Rightarrow> task \<Rightarrow> dependency_status" where
  "dependency_status_of Q q t =
     (if depends_of t = [] then \<lparr>ds_state = ''ready'', ds_blocked_on = [], ds_failed_on = []\<rparr>
      else case deps_loop Q q (depends_of t) of
             (blocked, failed) \<Rightarrow>
               if failed \<noteq> []
               then \<lparr>ds_state = ''failed'', ds_blocked_on = blocked, ds_failed_on = failed\<rparr>
               else if blocked \<noteq> []
               then \<lparr>ds_state = ''blocked'', ds_blocked_on = blocked, ds_failed_on = []\<rparr>
               else \<lparr>ds_state = ''ready'', ds_blocked_on = [], ds_failed_on = []\<rparr>)"

context task_queue
begin

definition dep_done :: "'q \<Rightarrow> string \<Rightarrow> bool" where
  "dep_done q d \<longleftrightarrow> (\<exists>s. store q d = Some s \<and> t_state s = DONE)"

definition dep_failed :: "'q \<Rightarrow> string \<Rightarrow> bool" where
  "dep_failed q d \<longleftrightarrow> (\<exists>s. store q d = Some s \<and> t_state s \<in> {FAILED, REJECTED})"

lemma deps_loop_eq:
  "invar q \<Longrightarrow> deps_loop Q q ds =
     (filter (\<lambda>d. \<not> dep_done q d \<and> \<not> dep_failed q d) ds, filter (dep_failed q) ds)"
  by (induction ds) (auto simp: get_law dep_done_def dep_failed_def split: option.splits)

lemma dependency_cases:
  assumes "invar q"
  shows "ds_state (dependency_status_of Q q t) =
    (if \<exists>d \<in> set (depends_of t). dep_failed q d then ''failed''
     else if \<forall>d \<in> set (depends_of t). dep_done q d then ''ready'' else ''blocked'')"
proof -
  have excl: "\<not> (dep_done q d \<and> dep_failed q d)" for d by (auto simp: dep_done_def dep_failed_def)
  have f: "filter (dep_failed q) ds = [] \<longleftrightarrow> \<not> (\<exists>d \<in> set ds. dep_failed q d)" for ds
    by (auto simp: filter_empty_conv)
  have b: "filter (\<lambda>d. \<not> dep_done q d \<and> \<not> dep_failed q d) ds = [] \<longleftrightarrow> (\<forall>d \<in> set ds. dep_done q d)"
    if "\<not> (\<exists>d \<in> set ds. dep_failed q d)" for ds
    using that by (auto simp: filter_empty_conv)
  show ?thesis
    unfolding dependency_status_of_def deps_loop_eq [OF assms]
    using f [of "depends_of t"] b [of "depends_of t"] by (cases "depends_of t = []") auto
qed

end

text \<open>
  Over the durable queue a task is ready exactly when every task it depends on is \<open>done\<close>,
  failed exactly when one of them is \<open>failed\<close> or \<open>rejected\<close>, and blocked otherwise; an id
  the queue does not know blocks.
\<close>

theorem dependency_status_correct:
  assumes "pg_inv q"
  shows "ds_state (dependency_status_of (pg_ops coll) q t) =
    (if \<exists>d \<in> set (depends_of t). \<exists>s. pg_store q d = Some s \<and> t_state s \<in> {FAILED, REJECTED} then ''failed''
     else if \<forall>d \<in> set (depends_of t). \<exists>s. pg_store q d = Some s \<and> t_state s = DONE then ''ready''
     else ''blocked'')"
  using pgq.dependency_cases [OF assms, of coll t] unfolding pgq.dep_failed_def pgq.dep_done_def .

theorem dependency_status_correct_witness:
  "ds_state (dependency_status_of (pg_ops (\<lambda>i. i)) []
     ((new_task ''a'' ''m'' 0)\<lparr>t_spec := Some ((new_spec ''o/r'')\<lparr>sp_depends_on := [''b'']\<rparr>)\<rparr>)) = ''blocked''"
  using dependency_status_correct [OF pg_inv_Nil, of "\<lambda>i. i"
      "(new_task ''a'' ''m'' 0)\<lparr>t_spec := Some ((new_spec ''o/r'')\<lparr>sp_depends_on := [''b'']\<rparr>)\<rparr>"]
  by (simp add: depends_of_def pg_store_def)

end
