(* ===== verification/Scanner.thy ===== *)
theory Scanner
  imports Models PyRegex
begin

text \<open>
  The prompt-injection scanner (\<open>security.py\<close>): its five patterns, the scan with its bound on
  findings, and the test that gates a task.
\<close>

datatype injection_kind =
  INSTRUCTION_OVERRIDE | ROLE_IMPERSONATION | CREDENTIAL_PROBE | SHELL_COMMAND | EXFILTRATION

definition gap :: "nat \<Rightarrow> rx" where
  "gap n = Rep (\<lambda>c. c \<noteq> CHR ''.'' \<and> c \<noteq> CHR 0x0A) 0 (Some n)"

definition probe_verbs :: rx where
  "probe_verbs =
     seqs [WordB, Grp 1 (words_i [''reveal'', ''show'', ''print'', ''send'', ''exfiltrate'', ''dump'', ''leak'']), WordB]"

definition probe_nouns :: rx where
  "probe_nouns =
     seqs [WordB,
           Grp 2 (alts [seqs [lit_i ''api'', opt (Cls (\<lambda>c. c = CHR ''_'' \<or> c = CHR ''-'')), lit_i ''key''],
                        lit_i ''secret'', lit_i ''token'', lit_i ''password'', lit_i ''credential'']),
           opt (lit_i ''s''), WordB]"

definition PATTERNS :: "(injection_kind \<times> rx) list" where
  "PATTERNS =
     [(INSTRUCTION_OVERRIDE,
       seqs [WordB, Grp 1 (words_i [''ignore'', ''disregard'', ''forget'']), WordB, gap 40,
             WordB, Grp 2 (words_i [''previous'', ''prior'', ''above'', ''earlier'']), WordB, gap 40,
             WordB, Grp 3 (words_i [''instruction'', ''prompt'', ''rule'']), opt (lit_i ''s''), WordB]),
      (ROLE_IMPERSONATION,
       seqs [Grp 1 (Alt Bol (lit [CHR 0x0A])), star isspace,
             Grp 2 (words_i [''system'', ''assistant'', ''developer'']), star isspace, lit '':'']),
      (CREDENTIAL_PROBE,
       Alt (seqs [probe_verbs, gap 40, probe_nouns]) (seqs [probe_nouns, gap 30, probe_verbs])),
      (SHELL_COMMAND,
       Grp 1 (alts [lit_i ''curl'', lit_i ''wget'', lit_i ''nc'', lit_i ''ncat'',
                    seqs [lit_i ''base64'', plus isspace, lit_i ''-d''], lit_i ''/bin/sh'', lit ''$('',
                    seqs [lit [CHR 0x60], plus (\<lambda>c. c \<noteq> CHR 0x60), lit [CHR 0x60]]])),
      (EXFILTRATION,
       seqs [lit_i ''http'', opt (lit_i ''s''), lit ''://'',
             NotAhead (Alt (lit_i ''github.com'') (lit_i ''example.com'')), plus (\<lambda>c. \<not> isspace c)])]"

record finding =
  fi_kind :: injection_kind
  fi_excerpt :: string

definition excerpt :: "string \<Rightarrow> rmatch \<Rightarrow> string" where
  "excerpt t m =
     (let start = m_start m - 20; stop = min (m_start m + length (m_text m) + 20) (length t)
      in take 160 (join '' '' (split_ws (take (stop - start) (drop start t)))))"

text \<open>The two loops of \<open>scan\<close>; \<open>Inl\<close> is the early return from inside the inner one.\<close>

fun scan_matches ::
  "int \<Rightarrow> string \<Rightarrow> injection_kind \<Rightarrow> rmatch list \<Rightarrow> finding list \<Rightarrow> finding list + finding list" where
  "scan_matches max_findings t kind [] findings = Inr findings"
| "scan_matches max_findings t kind (m # ms) findings =
     (let findings' = findings @ [\<lparr>fi_kind = kind, fi_excerpt = excerpt t m\<rparr>]
      in if int (length findings') \<ge> max_findings then Inl findings'
         else scan_matches max_findings t kind ms findings')"

fun scan_patterns ::
  "int \<Rightarrow> string \<Rightarrow> (injection_kind \<times> rx) list \<Rightarrow> finding list \<Rightarrow> finding list" where
  "scan_patterns max_findings t [] findings = findings"
| "scan_patterns max_findings t ((kind, pattern) # ps) findings =
     (case scan_matches max_findings t kind (finditer pattern t) findings of
        Inl fs \<Rightarrow> fs
      | Inr fs \<Rightarrow> scan_patterns max_findings t ps fs)"

definition scan :: "int \<Rightarrow> string \<Rightarrow> finding list" where
  "scan max_findings t = scan_patterns max_findings t PATTERNS []"

definition suspicious :: "finding list \<Rightarrow> bool" where
  "suspicious findings \<longleftrightarrow> findings \<noteq> []"

definition should_require_approval :: "int \<Rightarrow> string \<Rightarrow> bool" where
  "should_require_approval max_findings t \<longleftrightarrow>
     (\<exists>f \<in> set (scan max_findings t).
        fi_kind f \<in> {INSTRUCTION_OVERRIDE, CREDENTIAL_PROBE, EXFILTRATION})"

section \<open>Facts\<close>

lemma finditer_from_empty: "finditer_from x b r = [] \<longleftrightarrow> search_from x b r = None"
proof (induction r arbitrary: b)
  case Nil
  then show ?case by (subst finditer_from.simps) (auto split: option.split)
next
  case (Cons c r)
  then show ?case by (subst finditer_from.simps) (auto split: option.split)
qed

lemma finditer_empty: "finditer x s = [] \<longleftrightarrow> re_search x s = None"
  by (simp add: finditer_def re_search_def finditer_from_empty)

lemma scan_matches_grows:
  "scan_matches n t k ms fs = r \<Longrightarrow>
     (case r of Inl gs \<Rightarrow> length gs \<ge> 1 | Inr gs \<Rightarrow> length gs = length fs + length ms)"
  by (induction ms arbitrary: fs) (auto simp: Let_def split: if_splits sum.splits)

lemma scan_patterns_empty:
  "scan_patterns n t ps fs = [] \<longleftrightarrow> fs = [] \<and> (\<forall>(k, x) \<in> set ps. re_search x t = None)"
proof (induction ps arbitrary: fs)
  case (Cons p ps)
  obtain k x where p: "p = (k, x)" by fastforce
  show ?case
  proof (cases "scan_matches n t k (finditer x t) fs")
    case (Inl gs)
    with scan_matches_grows [OF Inl] have ne: "gs \<noteq> []" by auto
    have "finditer x t \<noteq> []" using Inl by (cases "finditer x t") auto
    with Inl ne show ?thesis by (auto simp: p finditer_empty)
  next
    case (Inr gs)
    from scan_matches_grows [OF Inr] have "gs = [] \<longleftrightarrow> fs = [] \<and> finditer x t = []" by auto
    with Inr Cons.IH [of gs] show ?thesis by (auto simp: p finditer_empty)
  qed
qed simp

lemma scan_matches_bound:
  "int (length fs) < max 1 n \<Longrightarrow>
     (case scan_matches n t k ms fs of Inl gs \<Rightarrow> int (length gs) \<le> max 1 n | Inr gs \<Rightarrow> int (length gs) < max 1 n)"
  by (induction ms arbitrary: fs) (auto simp: Let_def split: sum.splits)

lemma scan_patterns_bound:
  "int (length fs) < max 1 n \<Longrightarrow> int (length (scan_patterns n t ps fs)) \<le> max 1 n"
proof (induction ps arbitrary: fs)
  case (Cons p ps)
  obtain k x where p: "p = (k, x)" by fastforce
  from scan_matches_bound [OF Cons.prems, of t k "finditer x t"] Cons.IH show ?case
    by (auto simp: p split: sum.splits)
qed simp

text \<open>
  A text is flagged exactly when one of the patterns occurs in it, whatever the bound on findings
  (the bound never hides that something was found), and the number of findings stays within the
  bound, or one for a bound below one.
\<close>

theorem scan_complete:
  "(suspicious (scan n t) \<longleftrightarrow> (\<exists>(k, x) \<in> set PATTERNS. re_search x t \<noteq> None)) \<and>
   int (length (scan n t)) \<le> max 1 n"
proof -
  have "scan n t = [] \<longleftrightarrow> (\<forall>(k, x) \<in> set PATTERNS. re_search x t = None)"
    unfolding scan_def using scan_patterns_empty [of n t PATTERNS "[]"] by simp
  moreover have "int (length (scan n t)) \<le> max 1 n"
    unfolding scan_def by (rule scan_patterns_bound) simp
  ultimately show ?thesis by (auto simp: suspicious_def case_prod_unfold)
qed

end
