(* ===== verification/Approvals.thy ===== *)
theory Approvals
  imports QueuePort
begin

text \<open>
  Approval tokens (\<open>approvals.py\<close>): the registry behind the memory and file stores, the file
  the latter writes through, and the PostgreSQL table. The random token a call of \<open>issue\<close> draws
  and the clock readings of a call are its arguments. The locale \<open>approval_store\<close> is the contract
  of the \<open>ApprovalStore\<close> protocol; all three stores are shown to meet it.
\<close>

section \<open>Approvals and the store protocol\<close>

record approval =
  ap_token :: string
  ap_task_id :: string
  ap_action :: string
  ap_created_at :: time
  ap_expires_at :: time
  ap_used_at :: "time option"

definition ap_used :: "approval \<Rightarrow> bool" where
  "ap_used a \<longleftrightarrow> ap_used_at a \<noteq> None"

definition ap_expired :: "approval \<Rightarrow> time \<Rightarrow> bool" where
  "ap_expired a now \<longleftrightarrow> now \<ge> ap_expires_at a"

text \<open>\<open>a_issue task_id action token now\<close>; \<open>a_redeem token now now'\<close> with two clock readings.\<close>

record 'a approval_ops =
  a_issue :: "string \<Rightarrow> string \<Rightarrow> string \<Rightarrow> time \<Rightarrow> 'a \<Rightarrow> (exn + approval) \<times> 'a"
  a_get :: "string \<Rightarrow> 'a \<Rightarrow> approval option"
  a_redeem :: "string \<Rightarrow> time \<Rightarrow> time \<Rightarrow> 'a \<Rightarrow> (exn + approval) \<times> 'a"
  a_pending :: "'a \<Rightarrow> approval list"

definition new_approval :: "duration \<Rightarrow> string \<Rightarrow> string \<Rightarrow> string \<Rightarrow> time \<Rightarrow> approval" where
  "new_approval ttl task_id action token now =
     \<lparr>ap_token = token, ap_task_id = task_id, ap_action = action, ap_created_at = now,
      ap_expires_at = now + ttl, ap_used_at = None\<rparr>"

section \<open>The registry, in memory and written through to a file\<close>

record approval_registry =
  reg_ttl :: duration
  reg_by_token :: "(string, approval) dict"

text \<open>\<open>DEFAULT_TTL\<close>, one day in microseconds.\<close>

definition default_ttl :: duration where
  "default_ttl = 86400000000"

definition reg_empty :: approval_registry where
  "reg_empty = \<lparr>reg_ttl = default_ttl, reg_by_token = []\<rparr>"

definition reg_issue ::
  "string \<Rightarrow> string \<Rightarrow> string \<Rightarrow> time \<Rightarrow> approval_registry \<Rightarrow> (exn + approval) \<times> approval_registry" where
  "reg_issue task_id action token now r =
     (let a = new_approval (reg_ttl r) task_id action token now
      in (Inr a, r\<lparr>reg_by_token := dict_set (ap_token a) a (reg_by_token r)\<rparr>))"

definition reg_get :: "string \<Rightarrow> approval_registry \<Rightarrow> approval option" where
  "reg_get token r = dict_get (reg_by_token r) token"

definition reg_redeem ::
  "string \<Rightarrow> time \<Rightarrow> time \<Rightarrow> approval_registry \<Rightarrow> (exn + approval) \<times> approval_registry" where
  "reg_redeem token now now' r =
     (case dict_get (reg_by_token r) token of
        None \<Rightarrow> (Inl (UnknownTokenError token), r)
      | Some a \<Rightarrow>
          if ap_used a then (Inl (TokenAlreadyUsedError token), r)
          else if ap_expired a now then (Inl (ExpiredTokenError token), r)
          else let a' = a\<lparr>ap_used_at := Some now'\<rparr>
               in (Inr a', r\<lparr>reg_by_token := dict_set token a' (reg_by_token r)\<rparr>))"

definition reg_pending :: "approval_registry \<Rightarrow> approval list" where
  "reg_pending r = filter (\<lambda>a. \<not> ap_used a) (dict_values (reg_by_token r))"

definition reg_ops :: "approval_registry approval_ops" where
  "reg_ops = \<lparr>a_issue = reg_issue, a_get = reg_get, a_redeem = reg_redeem, a_pending = reg_pending\<rparr>"

text \<open>
  The file store: the registry and the value whose JSON text (sorted keys) the last write left in
  the file, \<open>None\<close> while there is no file. The token is the key of an entry, not a field of it.
\<close>

record file_entry =
  fe_task_id :: string
  fe_action :: string
  fe_created_at :: time
  fe_expires_at :: time
  fe_used_at :: "time option"

record file_store =
  fs_registry :: approval_registry
  fs_file :: "(string, file_entry) dict option"

definition file_payload :: "approval_registry \<Rightarrow> (string, file_entry) dict" where
  "file_payload r =
     sort_key fst
       (map (\<lambda>(token, a). (token, \<lparr>fe_task_id = ap_task_id a, fe_action = ap_action a,
             fe_created_at = ap_created_at a, fe_expires_at = ap_expires_at a,
             fe_used_at = ap_used_at a\<rparr>)) (reg_by_token r))"

definition file_persist :: "file_store \<Rightarrow> file_store" where
  "file_persist s = s\<lparr>fs_file := Some (file_payload (fs_registry s))\<rparr>"

fun load_entries :: "(string, file_entry) dict \<Rightarrow> (string, approval) dict \<Rightarrow> (string, approval) dict" where
  "load_entries [] d = d"
| "load_entries ((token, e) # es) d =
     load_entries es (dict_set token
       \<lparr>ap_token = token, ap_task_id = fe_task_id e, ap_action = fe_action e,
        ap_created_at = fe_created_at e, ap_expires_at = fe_expires_at e, ap_used_at = fe_used_at e\<rparr> d)"

text \<open>\<open>FileApprovalStore(path, ttl=ttl)\<close> on a path that holds \<open>file\<close>.\<close>

definition file_open :: "duration \<Rightarrow> (string, file_entry) dict option \<Rightarrow> file_store" where
  "file_open ttl file =
     \<lparr>fs_registry = \<lparr>reg_ttl = ttl,
        reg_by_token = (case file of None \<Rightarrow> [] | Some es \<Rightarrow> load_entries es [])\<rparr>,
      fs_file = file\<rparr>"

definition file_issue :: "string \<Rightarrow> string \<Rightarrow> string \<Rightarrow> time \<Rightarrow> file_store \<Rightarrow> (exn + approval) \<times> file_store" where
  "file_issue task_id action token now s =
     (case reg_issue task_id action token now (fs_registry s) of
        (r, reg) \<Rightarrow> (r, file_persist (s\<lparr>fs_registry := reg\<rparr>)))"

definition file_redeem :: "string \<Rightarrow> time \<Rightarrow> time \<Rightarrow> file_store \<Rightarrow> (exn + approval) \<times> file_store" where
  "file_redeem token now now' s =
     (case reg_redeem token now now' (fs_registry s) of
        (Inl e, reg) \<Rightarrow> (Inl e, s\<lparr>fs_registry := reg\<rparr>)
      | (Inr a, reg) \<Rightarrow> (Inr a, file_persist (s\<lparr>fs_registry := reg\<rparr>)))"

definition file_ops :: "file_store approval_ops" where
  "file_ops =
     \<lparr>a_issue = file_issue, a_get = (\<lambda>token s. reg_get token (fs_registry s)), a_redeem = file_redeem,
      a_pending = (\<lambda>s. reg_pending (fs_registry s))\<rparr>"

section \<open>The PostgreSQL store\<close>

text \<open>The rows of \<open>dear_agent_approval\<close> have an approval's fields; \<open>_approval_from_row\<close> is the identity.\<close>

record pg_approvals =
  pa_ttl :: duration
  pa_rows :: "approval list"

definition pa_issue ::
  "string \<Rightarrow> string \<Rightarrow> string \<Rightarrow> time \<Rightarrow> pg_approvals \<Rightarrow> (exn + approval) \<times> pg_approvals" where
  "pa_issue task_id action token now s =
     (let a = new_approval (pa_ttl s) task_id action token now in
      if token \<in> set (map ap_token (pa_rows s)) then (Inl (OtherError ''UniqueViolation''), s)
      else (Inr a, s\<lparr>pa_rows := pa_rows s @ [a]\<rparr>))"

definition pa_get :: "string \<Rightarrow> pg_approvals \<Rightarrow> approval option" where
  "pa_get token s = List.find (\<lambda>a. ap_token a = token) (pa_rows s)"

definition pa_redeem ::
  "string \<Rightarrow> time \<Rightarrow> time \<Rightarrow> pg_approvals \<Rightarrow> (exn + approval) \<times> pg_approvals" where
  "pa_redeem token now now' s =
     (let p = (\<lambda>a. ap_token a = token \<and> ap_used_at a = None \<and> ap_expires_at a > now);
          f = (\<lambda>a. a\<lparr>ap_used_at := Some now\<rparr>);
          s' = s\<lparr>pa_rows := map (\<lambda>a. if p a then f a else a) (pa_rows s)\<rparr>
      in case map f (filter p (pa_rows s)) of
           a # _ \<Rightarrow> (Inr a, s')
         | [] \<Rightarrow>
             (case List.find (\<lambda>a. ap_token a = token) (pa_rows s') of
                None \<Rightarrow> (Inl (UnknownTokenError token), s')
              | Some a \<Rightarrow>
                  if ap_used a then (Inl (TokenAlreadyUsedError token), s')
                  else (Inl (ExpiredTokenError token), s')))"

definition pa_pending :: "pg_approvals \<Rightarrow> approval list" where
  "pa_pending s = sort_key ap_created_at (filter (\<lambda>a. ap_used_at a = None) (pa_rows s))"

definition pa_ops :: "pg_approvals approval_ops" where
  "pa_ops = \<lparr>a_issue = pa_issue, a_get = pa_get, a_redeem = pa_redeem, a_pending = pa_pending\<rparr>"

section \<open>The contract\<close>

locale approval_store =
  fixes A :: "'a approval_ops"
    and view :: "'a \<Rightarrow> string \<rightharpoonup> approval"
    and ainv :: "'a \<Rightarrow> bool"
    and ttl :: "'a \<Rightarrow> duration"
    and stamp :: "time \<Rightarrow> time \<Rightarrow> time"
  assumes view_token: "ainv s \<Longrightarrow> view s k = Some a \<Longrightarrow> ap_token a = k"
    and aget: "ainv s \<Longrightarrow> a_get A k s = view s k"
    and apending: "ainv s \<Longrightarrow> set (a_pending A s) = {a. \<exists>k. view s k = Some a \<and> \<not> ap_used a}"
    and issue_ainv: "ainv s \<Longrightarrow> ainv (snd (a_issue A i act k now s))"
    and issue_ok: "ainv s \<Longrightarrow> view s k = None \<Longrightarrow>
          fst (a_issue A i act k now s) = Inr (new_approval (ttl s) i act k now) \<and>
          view (snd (a_issue A i act k now s)) = (view s)(k \<mapsto> new_approval (ttl s) i act k now)"
    and issue_other: "ainv s \<Longrightarrow> k' \<noteq> k \<Longrightarrow> view (snd (a_issue A i act k now s)) k' = view s k'"
    and issue_failed: "ainv s \<Longrightarrow> fst (a_issue A i act k now s) = Inl e \<Longrightarrow> snd (a_issue A i act k now s) = s"
    and redeem_ainv: "ainv s \<Longrightarrow> ainv (snd (a_redeem A k now now' s))"
    and redeem_unknown: "ainv s \<Longrightarrow> view s k = None \<Longrightarrow> a_redeem A k now now' s = (Inl (UnknownTokenError k), s)"
    and redeem_used: "ainv s \<Longrightarrow> view s k = Some a \<Longrightarrow> ap_used a \<Longrightarrow>
          a_redeem A k now now' s = (Inl (TokenAlreadyUsedError k), s)"
    and redeem_expired: "ainv s \<Longrightarrow> view s k = Some a \<Longrightarrow> \<not> ap_used a \<Longrightarrow> ap_expired a now \<Longrightarrow>
          a_redeem A k now now' s = (Inl (ExpiredTokenError k), s)"
    and redeem_ok: "ainv s \<Longrightarrow> view s k = Some a \<Longrightarrow> \<not> ap_used a \<Longrightarrow> \<not> ap_expired a now \<Longrightarrow>
          fst (a_redeem A k now now' s) = Inr (a\<lparr>ap_used_at := Some (stamp now now')\<rparr>) \<and>
          view (snd (a_redeem A k now now' s)) = (view s)(k \<mapsto> a\<lparr>ap_used_at := Some (stamp now now')\<rparr>)"

text \<open>Steps of any number of clients on one store.\<close>

datatype alabel = Issued string | IssueFailed | Redeemed string | RedeemFailed exn

inductive astep :: "'a approval_ops \<Rightarrow> 'a \<Rightarrow> alabel \<Rightarrow> 'a \<Rightarrow> bool" for A where
  issue: "a_issue A i act k now s = (Inr a, s') \<Longrightarrow> astep A s (Issued k) s'"
| issue_err: "a_issue A i act k now s = (Inl e, s') \<Longrightarrow> astep A s IssueFailed s'"
| redeem: "a_redeem A k now now' s = (Inr a, s') \<Longrightarrow> astep A s (Redeemed k) s'"
| redeem_err: "a_redeem A k now now' s = (Inl e, s') \<Longrightarrow> astep A s (RedeemFailed e) s'"

inductive arun :: "'a approval_ops \<Rightarrow> 'a \<Rightarrow> alabel list \<Rightarrow> 'a \<Rightarrow> bool" for A where
  arun_nil: "arun A s [] s"
| arun_cons: "astep A s l s1 \<Longrightarrow> arun A s1 ls s' \<Longrightarrow> arun A s (l # ls) s'"

inductive_simps arun_nil_simp [simp]: "arun A s [] s'"
inductive_simps arun_cons_simp: "arun A s (l # ls) s'"
inductive_cases astep_redeemedE: "astep A s (Redeemed k) s'"

lemma arun_append: "arun A s (xs @ ys) s' \<longleftrightarrow> (\<exists>s1. arun A s xs s1 \<and> arun A s1 ys s')"
  by (induction xs arbitrary: s) (auto simp: arun_cons_simp)

context approval_store
begin

lemma redeem_cases:
  assumes "ainv s" and "a_redeem A k now now' s = (r, s')"
  obtains (failed) e where "r = Inl e" "s' = s" "is_ApprovalError e"
      "\<not> (\<exists>a. view s k = Some a \<and> \<not> ap_used a \<and> \<not> ap_expired a now)"
  | (redeemed) a where "view s k = Some a" "\<not> ap_used a" "\<not> ap_expired a now"
      "r = Inr (a\<lparr>ap_used_at := Some (stamp now now')\<rparr>)"
      "view s' = (view s)(k \<mapsto> a\<lparr>ap_used_at := Some (stamp now now')\<rparr>)"
proof (cases "view s k")
  case None
  with redeem_unknown [OF assms(1) None, of now now'] assms(2) show ?thesis by (auto intro!: failed)
next
  case (Some a)
  show ?thesis
  proof (cases "ap_used a \<or> ap_expired a now")
    case True
    with redeem_used [OF assms(1) Some, of now now'] redeem_expired [OF assms(1) Some, of now now'] assms(2) Some
    show ?thesis by (cases "ap_used a") (auto intro!: failed)
  next
    case False
    with redeem_ok [OF assms(1) Some, of now now'] assms(2) Some show ?thesis by (auto intro!: redeemed)
  qed
qed

lemma astep_ainv: "astep A s l s' \<Longrightarrow> ainv s \<Longrightarrow> ainv s'"
  by (induction rule: astep.induct) (metis snd_conv issue_ainv redeem_ainv)+

lemma arun_ainv: "arun A s ls s' \<Longrightarrow> ainv s \<Longrightarrow> ainv s'"
  by (induction rule: arun.induct) (auto dest: astep_ainv)

lemma astep_used:
  assumes st: "astep A s l s'" and inv: "ainv s" and a: "view s k = Some a" "ap_used a" and l: "l \<noteq> Issued k"
  shows "\<exists>a'. view s' k = Some a' \<and> ap_used a'"
  using st
proof cases
  case (issue i act k1 now b)
  with l issue_other [OF inv, of k k1 i act now] a show ?thesis by auto
next
  case (issue_err i act k1 now e)
  with issue_failed [OF inv, of i act k1 now e] a show ?thesis by simp
next
  case (redeem k1 now now' b)
  with inv a show ?thesis by (auto elim!: redeem_cases simp: ap_used_def)
next
  case (redeem_err k1 now now' e)
  with inv a show ?thesis by (auto elim!: redeem_cases)
qed

lemma arun_used:
  "arun A s ls s' \<Longrightarrow> ainv s \<Longrightarrow> view s k = Some a \<Longrightarrow> ap_used a \<Longrightarrow> Issued k \<notin> set ls \<Longrightarrow>
     \<exists>a'. view s' k = Some a' \<and> ap_used a'"
proof (induction arbitrary: a rule: arun.induct)
  case (arun_cons s l s1 ls s')
  from astep_used [OF arun_cons.hyps(1) arun_cons.prems(1-3)] arun_cons.prems(4)
  obtain a1 where "view s1 k = Some a1" "ap_used a1" by auto
  with arun_cons.IH astep_ainv [OF arun_cons.hyps(1) arun_cons.prems(1)] arun_cons.prems(4)
  show ?case by auto
qed blast

lemma redeem_single_use:
  assumes run: "arun A s (pre @ Redeemed k # mid @ Redeemed k # post) s'" and inv: "ainv s"
  shows "Issued k \<in> set mid"
proof (rule ccontr)
  assume no: "Issued k \<notin> set mid"
  from run obtain s1 s2 s3 s4 where r: "arun A s pre s1" "astep A s1 (Redeemed k) s2" "arun A s2 mid s3"
      "astep A s3 (Redeemed k) s4"
    by (auto simp: arun_append arun_cons_simp)
  have inv1: "ainv s1" using arun_ainv [OF r(1) inv] .
  have inv2: "ainv s2" using astep_ainv [OF r(2) inv1] .
  have inv3: "ainv s3" using arun_ainv [OF r(3) inv2] .
  from r(2) inv1 obtain a where "view s2 k = Some a" "ap_used a"
    by (elim astep_redeemedE) (auto elim!: redeem_cases simp: ap_used_def)
  from arun_used [OF r(3) inv2 this no] obtain a' where a': "view s3 k = Some a'" "ap_used a'" by blast
  from r(4) inv3 a' show False by (elim astep_redeemedE) (auto elim!: redeem_cases)
qed

end

section \<open>The stores meet the contract\<close>

definition reg_view :: "approval_registry \<Rightarrow> string \<rightharpoonup> approval" where
  "reg_view r = map_of (reg_by_token r)"

definition reg_inv :: "approval_registry \<Rightarrow> bool" where
  "reg_inv r \<longleftrightarrow> distinct (dict_keys (reg_by_token r)) \<and> (\<forall>k a. reg_view r k = Some a \<longrightarrow> ap_token a = k)"

lemma reg_inv_empty [simp]: "reg_inv reg_empty"
  by (simp add: reg_inv_def reg_empty_def reg_view_def)

lemma reg_put:
  assumes "reg_inv r" and "ap_token a = k"
  shows "reg_inv (r\<lparr>reg_by_token := dict_set k a (reg_by_token r)\<rparr>)"
    and "reg_view (r\<lparr>reg_by_token := dict_set k a (reg_by_token r)\<rparr>) = (reg_view r)(k \<mapsto> a)"
proof -
  show v: "reg_view (r\<lparr>reg_by_token := dict_set k a (reg_by_token r)\<rparr>) = (reg_view r)(k \<mapsto> a)"
    by (simp add: reg_view_def)
  show "reg_inv (r\<lparr>reg_by_token := dict_set k a (reg_by_token r)\<rparr>)"
    using assms unfolding reg_inv_def v by simp
qed

lemma reg_issue_eq:
  "reg_issue i act k now r =
     (Inr (new_approval (reg_ttl r) i act k now),
      r\<lparr>reg_by_token := dict_set k (new_approval (reg_ttl r) i act k now) (reg_by_token r)\<rparr>)"
  by (simp add: reg_issue_def new_approval_def Let_def)

lemma reg_issue_laws:
  assumes "reg_inv r"
  shows "reg_inv (snd (reg_issue i act k now r))"
    and "fst (reg_issue i act k now r) = Inr (new_approval (reg_ttl r) i act k now)"
    and "reg_view (snd (reg_issue i act k now r)) = (reg_view r)(k \<mapsto> new_approval (reg_ttl r) i act k now)"
  using reg_put [OF assms, of "new_approval (reg_ttl r) i act k now" k]
  by (simp_all add: reg_issue_eq new_approval_def)

lemma reg_redeem_fails:
  assumes "\<not> (\<exists>a. reg_view r k = Some a \<and> \<not> ap_used a \<and> \<not> ap_expired a now)"
  shows "snd (reg_redeem k now now' r) = r"
  using assms by (auto simp: reg_redeem_def reg_view_def split: option.split)

lemma reg_redeem_ok:
  assumes "reg_inv r" and "reg_view r k = Some a" "\<not> ap_used a" "\<not> ap_expired a now"
  shows "reg_redeem k now now' r =
      (Inr (a\<lparr>ap_used_at := Some now'\<rparr>), r\<lparr>reg_by_token := dict_set k (a\<lparr>ap_used_at := Some now'\<rparr>) (reg_by_token r)\<rparr>)"
    and "reg_inv (snd (reg_redeem k now now' r))"
    and "reg_view (snd (reg_redeem k now now' r)) = (reg_view r)(k \<mapsto> a\<lparr>ap_used_at := Some now'\<rparr>)"
proof -
  show eq: "reg_redeem k now now' r =
      (Inr (a\<lparr>ap_used_at := Some now'\<rparr>), r\<lparr>reg_by_token := dict_set k (a\<lparr>ap_used_at := Some now'\<rparr>) (reg_by_token r)\<rparr>)"
    using assms(2-4) by (simp add: reg_redeem_def reg_view_def Let_def)
  have "ap_token (a\<lparr>ap_used_at := Some now'\<rparr>) = k" using assms(1,2) by (simp add: reg_inv_def)
  from reg_put [OF assms(1) this] eq
  show "reg_inv (snd (reg_redeem k now now' r))"
    and "reg_view (snd (reg_redeem k now now' r)) = (reg_view r)(k \<mapsto> a\<lparr>ap_used_at := Some now'\<rparr>)"
    by simp_all
qed

lemma reg_redeem_inv: "reg_inv r \<Longrightarrow> reg_inv (snd (reg_redeem k now now' r))"
  by (cases "\<exists>a. reg_view r k = Some a \<and> \<not> ap_used a \<and> \<not> ap_expired a now")
    (auto dest: reg_redeem_ok(2) simp: reg_redeem_fails)

lemma reg_pending_set:
  assumes "reg_inv r"
  shows "set (reg_pending r) = {a. \<exists>k. reg_view r k = Some a \<and> \<not> ap_used a}"
proof -
  have "a \<in> set (dict_values (reg_by_token r)) \<longleftrightarrow> (\<exists>k. reg_view r k = Some a)" for a
    unfolding reg_view_def by (rule dict_values_iff) (use assms in \<open>simp add: reg_inv_def\<close>)
  then show ?thesis by (auto simp: reg_pending_def simp del: set_map)
qed

lemma reg_redeem_errors:
  "reg_view r k = None \<Longrightarrow> reg_redeem k now now' r = (Inl (UnknownTokenError k), r)"
  "reg_view r k = Some a \<Longrightarrow> ap_used a \<Longrightarrow> reg_redeem k now now' r = (Inl (TokenAlreadyUsedError k), r)"
  "reg_view r k = Some a \<Longrightarrow> \<not> ap_used a \<Longrightarrow> ap_expired a now \<Longrightarrow>
     reg_redeem k now now' r = (Inl (ExpiredTokenError k), r)"
  by (simp_all add: reg_redeem_def reg_view_def)

interpretation mreg: approval_store reg_ops reg_view reg_inv reg_ttl "\<lambda>now now'. now'"
proof (unfold_locales, goal_cases)
  case (1 s k a) then show ?case by (simp add: reg_inv_def)
next
  case (2 s k) show ?case by (simp add: reg_ops_def reg_get_def reg_view_def)
next
  case (3 s) then show ?case by (simp add: reg_ops_def reg_pending_set)
next
  case (4 s i act k now) then show ?case by (simp add: reg_ops_def reg_issue_laws)
next
  case (5 s k i act now) then show ?case by (simp add: reg_ops_def reg_issue_laws)
next
  case (6 s k' k i act now) then show ?case by (simp add: reg_ops_def reg_issue_laws)
next
  case (7 s i act k now e) then show ?case by (simp add: reg_ops_def reg_issue_eq)
next
  case (8 s k now now') then show ?case by (simp add: reg_ops_def reg_redeem_inv)
next
  case (9 s k now now') then show ?case by (simp add: reg_ops_def reg_redeem_errors)
next
  case (10 s k a now now') then show ?case by (simp add: reg_ops_def reg_redeem_errors)
next
  case (11 s k a now now') then show ?case by (simp add: reg_ops_def reg_redeem_errors)
next
  case (12 s k a now now')
  from reg_redeem_ok [OF 12] show ?case by (simp add: reg_ops_def)
qed

definition file_inv :: "file_store \<Rightarrow> bool" where
  "file_inv s \<longleftrightarrow> reg_inv (fs_registry s)"

definition file_view :: "file_store \<Rightarrow> string \<rightharpoonup> approval" where
  "file_view s = reg_view (fs_registry s)"

lemma file_redeem_registry:
  "fst (file_redeem k now now' s) = fst (reg_redeem k now now' (fs_registry s))"
  "fs_registry (snd (file_redeem k now now' s)) = snd (reg_redeem k now now' (fs_registry s))"
  by (auto simp: file_redeem_def file_persist_def split: prod.split sum.split)

lemma file_issue_registry:
  "fst (file_issue i act k now s) = fst (reg_issue i act k now (fs_registry s))"
  "fs_registry (snd (file_issue i act k now s)) = snd (reg_issue i act k now (fs_registry s))"
  by (auto simp: file_issue_def file_persist_def split: prod.split)

lemma file_redeem_failed:
  assumes "reg_redeem k now now' (fs_registry s) = (Inl e, fs_registry s)"
  shows "file_redeem k now now' s = (Inl e, s)"
  using assms by (simp add: file_redeem_def)

interpretation freg: approval_store file_ops file_view file_inv "\<lambda>s. reg_ttl (fs_registry s)" "\<lambda>now now'. now'"
proof (unfold_locales, goal_cases)
  case (1 s k a) then show ?case by (simp add: file_inv_def file_view_def reg_inv_def)
next
  case (2 s k) show ?case by (simp add: file_ops_def file_view_def reg_get_def reg_view_def)
next
  case (3 s) then show ?case by (simp add: file_ops_def file_inv_def file_view_def reg_pending_set)
next
  case (4 s i act k now) then show ?case
    by (simp add: file_ops_def file_inv_def file_issue_registry reg_issue_laws)
next
  case (5 s k i act now) then show ?case
    by (simp add: file_ops_def file_inv_def file_view_def file_issue_registry reg_issue_laws)
next
  case (6 s k' k i act now) then show ?case
    by (simp add: file_ops_def file_inv_def file_view_def file_issue_registry reg_issue_laws)
next
  case (7 s i act k now e) then show ?case by (simp add: file_ops_def file_issue_def reg_issue_eq)
next
  case (8 s k now now') then show ?case
    by (simp add: file_ops_def file_inv_def file_redeem_registry reg_redeem_inv)
next
  case (9 s k now now') then show ?case
    by (simp add: file_ops_def file_view_def file_redeem_failed reg_redeem_errors)
next
  case (10 s k a now now') then show ?case
    by (simp add: file_ops_def file_view_def file_redeem_failed reg_redeem_errors)
next
  case (11 s k a now now') then show ?case
    by (simp add: file_ops_def file_view_def file_redeem_failed reg_redeem_errors)
next
  case (12 s k a now now')
  then have "reg_inv (fs_registry s)" "reg_view (fs_registry s) k = Some a"
    by (simp_all add: file_inv_def file_view_def)
  from reg_redeem_ok [OF this 12(3,4)] show ?case
    by (simp add: file_ops_def file_view_def file_redeem_registry)
qed

text \<open>What the file holds is what a process that opens it next will know.\<close>

definition file_synced :: "file_store \<Rightarrow> bool" where
  "file_synced s \<longleftrightarrow>
     (case fs_file s of None \<Rightarrow> reg_by_token (fs_registry s) = [] | Some es \<Rightarrow> es = file_payload (fs_registry s))"

lemma load_entries_view:
  "map_of (load_entries es d) k =
     (case map_of (rev es) k of
        Some e \<Rightarrow> Some \<lparr>ap_token = k, ap_task_id = fe_task_id e, ap_action = fe_action e,
          ap_created_at = fe_created_at e, ap_expires_at = fe_expires_at e, ap_used_at = fe_used_at e\<rparr>
      | None \<Rightarrow> map_of d k)"
  by (induction es d rule: load_entries.induct) (auto simp: map_add_def split: option.splits)

lemma map_of_sorted_payload:
  assumes "distinct (dict_keys d)"
  shows "map_of (rev (sort_key fst d)) = map_of d"
proof (rule iffD2 [OF map_of_inject_set])
  have "distinct (dict_keys (sort_key fst d))" using assms by (simp only: distinct_map_sort_key)
  then show "distinct (dict_keys (rev (sort_key fst d)))" by (simp only: rev_map [symmetric] distinct_rev)
qed (simp_all add: assms)

lemma reopen_view:
  assumes "file_inv s" and "file_synced s"
  shows "file_view (file_open ttl (fs_file s)) = file_view s"
proof (cases "fs_file s")
  case None
  with assms show ?thesis by (simp add: file_synced_def file_open_def file_view_def reg_view_def)
next
  case (Some es)
  let ?r = "fs_registry s"
  let ?g = "\<lambda>a. \<lparr>fe_task_id = ap_task_id a, fe_action = ap_action a, fe_created_at = ap_created_at a,
      fe_expires_at = ap_expires_at a, fe_used_at = ap_used_at a\<rparr>"
  let ?d = "map (\<lambda>(k, a). (k, ?g a)) (reg_by_token ?r)"
  have keys: "dict_keys ?d = dict_keys (reg_by_token ?r)" by (rule dict_keys_map_values)
  have dis: "distinct (dict_keys ?d)" using assms(1) unfolding keys by (simp add: file_inv_def reg_inv_def)
  have es: "es = sort_key fst ?d" using assms(2) Some by (simp add: file_synced_def file_payload_def)
  have look: "map_of (rev es) k = map_option ?g (reg_view ?r k)" for k
    unfolding es map_of_sorted_payload [OF dis] reg_view_def by (rule dict_get_map_values)
  have tok: "ap_token a = k" if "reg_view ?r k = Some a" for k a
    using that assms(1) by (simp add: file_inv_def reg_inv_def)
  have "file_view (file_open ttl (fs_file s)) k = file_view s k" for k
  proof (cases "reg_view ?r k")
    case None
    then show ?thesis
      using look [of k] by (simp add: Some file_open_def file_view_def reg_view_def load_entries_view)
  next
    case (Some a)
    with tok [OF Some] look [of k] \<open>fs_file s = Some es\<close> show ?thesis
      by (simp add: file_open_def file_view_def reg_view_def load_entries_view)
  qed
  then show ?thesis ..
qed

lemma file_step_synced: "astep file_ops s l s' \<Longrightarrow> file_synced s \<Longrightarrow> file_synced s'"
  by (induction rule: astep.induct)
    (auto simp: file_ops_def file_synced_def file_issue_def file_redeem_def file_persist_def reg_redeem_def
      Let_def split: prod.splits sum.splits option.splits if_splits)

text \<open>The table.\<close>

definition pa_view :: "pg_approvals \<Rightarrow> string \<rightharpoonup> approval" where
  "pa_view s k = List.find (\<lambda>a. ap_token a = k) (pa_rows s)"

definition pa_inv :: "pg_approvals \<Rightarrow> bool" where
  "pa_inv s \<longleftrightarrow> distinct (map ap_token (pa_rows s))"

lemma find_token_iff:
  "distinct (map ap_token xs) \<Longrightarrow>
     List.find (\<lambda>a. ap_token a = k) xs = Some a \<longleftrightarrow> a \<in> set xs \<and> ap_token a = k"
  by (induction xs) (auto simp: image_iff)

lemma find_token_None: "List.find (\<lambda>a. ap_token a = k) xs = None \<longleftrightarrow> k \<notin> ap_token ` set xs"
  by (auto simp: find_None_iff image_iff)

lemma find_token_map:
  "(\<And>a. ap_token (f a) = ap_token a) \<Longrightarrow>
     List.find (\<lambda>a. ap_token a = k) (map f xs) = map_option f (List.find (\<lambda>a. ap_token a = k) xs)"
  by (induction xs) auto

lemma pa_unique: "pa_inv s \<Longrightarrow> a \<in> set (pa_rows s) \<Longrightarrow> b \<in> set (pa_rows s) \<Longrightarrow> ap_token a = ap_token b \<Longrightarrow> a = b"
  unfolding pa_inv_def by (meson distinct_map inj_onD)

lemma pa_redeem_fails:
  assumes no: "\<forall>a \<in> set (pa_rows s). \<not> (ap_token a = k \<and> ap_used_at a = None \<and> ap_expires_at a > now)"
  shows "pa_redeem k now now' s =
    (case pa_view s k of
       None \<Rightarrow> (Inl (UnknownTokenError k), s)
     | Some a \<Rightarrow> if ap_used a then (Inl (TokenAlreadyUsedError k), s) else (Inl (ExpiredTokenError k), s))"
proof -
  let ?p = "\<lambda>a. ap_token a = k \<and> ap_used_at a = None \<and> ap_expires_at a > now"
  have "filter ?p (pa_rows s) = []" using no by (simp add: filter_empty_conv)
  moreover have "map (\<lambda>a. if ?p a then a\<lparr>ap_used_at := Some now\<rparr> else a) (pa_rows s) = pa_rows s"
    using no by (intro map_idI) auto
  ultimately show ?thesis by (simp add: pa_redeem_def pa_view_def Let_def split: option.split)
qed

lemma pa_redeem_ok:
  assumes inv: "pa_inv s" and a: "pa_view s k = Some a" "\<not> ap_used a" "\<not> ap_expired a now"
  shows "fst (pa_redeem k now now' s) = Inr (a\<lparr>ap_used_at := Some now\<rparr>)"
    and "pa_view (snd (pa_redeem k now now' s)) = (pa_view s)(k \<mapsto> a\<lparr>ap_used_at := Some now\<rparr>)"
proof -
  let ?p = "\<lambda>a. ap_token a = k \<and> ap_used_at a = None \<and> ap_expires_at a > now"
  let ?f = "\<lambda>a. if ?p a then a\<lparr>ap_used_at := Some now\<rparr> else a"
  have mem: "a \<in> set (pa_rows s)" "ap_token a = k"
    using a(1) inv by (auto simp: pa_view_def pa_inv_def find_token_iff)
  with a(2,3) have p: "?p a" by (auto simp: ap_used_def ap_expired_def)
  have only: "x = a" if "x \<in> set (pa_rows s)" "ap_token x = k" for x
    using pa_unique [OF inv that(1) mem(1)] that(2) mem(2) by simp
  obtain x xs where f: "filter ?p (pa_rows s) = x # xs"
    using mem p by (metis (mono_tags, lifting) filter_empty_conv list.exhaust)
  then have "x \<in> set (filter ?p (pa_rows s))" by simp
  then have x: "x = a" using only by simp
  have eq: "pa_redeem k now now' s = (Inr (a\<lparr>ap_used_at := Some now\<rparr>), s\<lparr>pa_rows := map ?f (pa_rows s)\<rparr>)"
    using f x by (simp add: pa_redeem_def Let_def)
  then show "fst (pa_redeem k now now' s) = Inr (a\<lparr>ap_used_at := Some now\<rparr>)" by simp
  have "List.find (\<lambda>a. ap_token a = i) (map ?f (pa_rows s)) = map_option ?f (pa_view s i)" for i
    unfolding pa_view_def by (rule find_token_map) simp
  then have "pa_view (s\<lparr>pa_rows := map ?f (pa_rows s)\<rparr>) i = map_option ?f (pa_view s i)" for i
    by (simp add: pa_view_def)
  moreover have "map_option ?f (pa_view s i) = ((pa_view s)(k \<mapsto> a\<lparr>ap_used_at := Some now\<rparr>)) i" for i
  proof (cases "i = k")
    case True
    with a(1) p show ?thesis by simp
  next
    case False
    then have "\<not> ?p b" if "pa_view s i = Some b" for b
      using that inv by (auto simp: pa_view_def pa_inv_def find_token_iff)
    with False show ?thesis by (cases "pa_view s i") auto
  qed
  ultimately show "pa_view (snd (pa_redeem k now now' s)) = (pa_view s)(k \<mapsto> a\<lparr>ap_used_at := Some now\<rparr>)"
    unfolding eq by (simp add: fun_eq_iff)
qed

lemma tokens_map:
  fixes xs :: "approval list"
  shows "map ap_token (map (\<lambda>a. if p a then a\<lparr>ap_used_at := u\<rparr> else a) xs) = map ap_token xs"
  by simp

lemma pa_redeem_rows:
  "\<exists>p. pa_rows (snd (pa_redeem k now now' s)) = map (\<lambda>a. if p a then a\<lparr>ap_used_at := Some now\<rparr> else a) (pa_rows s)"
  by (rule exI [of _ "\<lambda>a. ap_token a = k \<and> ap_used_at a = None \<and> ap_expires_at a > now"])
    (simp add: pa_redeem_def Let_def split: list.split option.split)

lemma pa_redeem_inv: "pa_inv s \<Longrightarrow> pa_inv (snd (pa_redeem k now now' s))"
  using pa_redeem_rows [of k now now' s] tokens_map unfolding pa_inv_def by metis

lemma pa_fails_cond:
  assumes "pa_inv s" and "\<not> (\<exists>a. pa_view s k = Some a \<and> \<not> ap_used a \<and> \<not> ap_expired a now)"
  shows "\<forall>a \<in> set (pa_rows s). \<not> (ap_token a = k \<and> ap_used_at a = None \<and> ap_expires_at a > now)"
  using assms by (auto simp: pa_view_def pa_inv_def find_token_iff ap_used_def ap_expired_def)

lemma find_snoc:
  "List.find P (xs @ [x]) =
     (case List.find P xs of Some a \<Rightarrow> Some a | None \<Rightarrow> if P x then Some x else None)"
  by (induction xs) auto

lemma pa_issue_new:
  "k \<notin> set (map ap_token (pa_rows s)) \<Longrightarrow>
     pa_issue i act k now s =
       (Inr (new_approval (pa_ttl s) i act k now), s\<lparr>pa_rows := pa_rows s @ [new_approval (pa_ttl s) i act k now]\<rparr>)"
  by (simp add: pa_issue_def Let_def)

lemma pa_issue_view:
  assumes new: "k \<notin> set (map ap_token (pa_rows s))"
  shows "pa_view (snd (pa_issue i act k now s)) = (pa_view s)(k \<mapsto> new_approval (pa_ttl s) i act k now)"
proof
  fix j
  have "ap_token (new_approval (pa_ttl s) i act k now) = k" by (simp add: new_approval_def)
  moreover have "pa_view s k = None" using new by (simp add: pa_view_def find_token_None)
  ultimately show "pa_view (snd (pa_issue i act k now s)) j =
      ((pa_view s)(k \<mapsto> new_approval (pa_ttl s) i act k now)) j"
    by (auto simp: pa_issue_new [OF new] pa_view_def find_snoc split: option.split)
qed

interpretation pga: approval_store pa_ops pa_view pa_inv pa_ttl "\<lambda>now now'. now"
proof (unfold_locales, goal_cases)
  case (1 s k a) then show ?case by (simp add: pa_inv_def pa_view_def find_token_iff)
next
  case (2 s k) show ?case by (simp add: pa_ops_def pa_get_def pa_view_def)
next
  case (3 s) then show ?case
    by (auto simp: pa_ops_def pa_pending_def pa_view_def pa_inv_def find_token_iff ap_used_def)
next
  case (4 s i act k now) then show ?case
    by (auto simp: pa_ops_def pa_issue_def pa_inv_def Let_def new_approval_def)
next
  case (5 s k i act now)
  then have "k \<notin> set (map ap_token (pa_rows s))" by (simp add: pa_view_def find_token_None)
  with pa_issue_view [OF this, of i act now] show ?case
    by (simp add: pa_ops_def pa_issue_new)
next
  case (6 s k' k i act now) then show ?case
    using pa_issue_view [of k s i act now]
    by (cases "k \<in> set (map ap_token (pa_rows s))") (simp_all add: pa_ops_def pa_issue_def)
next
  case (7 s i act k now e) then show ?case
    by (simp add: pa_ops_def pa_issue_def Let_def split: if_splits)
next
  case (8 s k now now') then show ?case by (simp add: pa_ops_def pa_redeem_inv)
next
  case (9 s k now now') then show ?case
    using pa_redeem_fails [OF pa_fails_cond [of s k now]] by (simp add: pa_ops_def)
next
  case (10 s k a now now') then show ?case
    using pa_redeem_fails [OF pa_fails_cond [of s k now]] by (simp add: pa_ops_def)
next
  case (11 s k a now now') then show ?case
    using pa_redeem_fails [OF pa_fails_cond [of s k now]] by (simp add: pa_ops_def)
next
  case (12 s k a now now') then show ?case by (simp add: pa_ops_def pa_redeem_ok)
qed

section \<open>Tokens that are never issued twice\<close>

text \<open>A store whose key constraint refuses a second issue of a token redeems it at most once, ever.\<close>

locale unique_approval_store = approval_store +
  assumes issue_unique: "ainv s \<Longrightarrow> view s k \<noteq> None \<Longrightarrow> \<exists>e. fst (a_issue A i act k now s) = Inl e"
begin

lemma astep_used_unique:
  assumes st: "astep A s l s'" and inv: "ainv s" and a: "view s k = Some a" "ap_used a"
  shows "l \<noteq> Redeemed k \<and> (\<exists>a'. view s' k = Some a' \<and> ap_used a')"
proof -
  have "l \<noteq> Issued k"
  proof
    assume "l = Issued k"
    with st obtain i act now b where "a_issue A i act k now s = (Inr b, s')" by (auto elim: astep.cases)
    with issue_unique [OF inv, of k i act now] a show False by auto
  qed
  from astep_used [OF st inv a this] have "\<exists>a'. view s' k = Some a' \<and> ap_used a'" .
  moreover have "l \<noteq> Redeemed k"
  proof
    assume "l = Redeemed k"
    with st inv a show False by (auto elim!: astep_redeemedE redeem_cases)
  qed
  ultimately show ?thesis by blast
qed

lemma arun_used_unique:
  "arun A s ls s' \<Longrightarrow> ainv s \<Longrightarrow> view s k = Some a \<Longrightarrow> ap_used a \<Longrightarrow> filter (\<lambda>l. l = Redeemed k) ls = []"
proof (induction arbitrary: a rule: arun.induct)
  case (arun_cons s l s1 ls s')
  from astep_used_unique [OF arun_cons.hyps(1) arun_cons.prems]
  obtain a1 where "l \<noteq> Redeemed k" "view s1 k = Some a1" "ap_used a1" by auto
  with arun_cons.IH astep_ainv [OF arun_cons.hyps(1) arun_cons.prems(1)] show ?case by simp
qed simp

lemma redeem_at_most_once:
  "arun A s ls s' \<Longrightarrow> ainv s \<Longrightarrow> length (filter (\<lambda>l. l = Redeemed k) ls) \<le> 1"
proof (induction rule: arun.induct)
  case (arun_cons s l s1 ls s')
  have inv1: "ainv s1" using astep_ainv [OF arun_cons.hyps(1) arun_cons.prems] .
  show ?case
  proof (cases "l = Redeemed k")
    case True
    with arun_cons.hyps(1) arun_cons.prems obtain a where "view s1 k = Some a" "ap_used a"
      by (auto elim!: astep_redeemedE redeem_cases simp: ap_used_def)
    from arun_used_unique [OF arun_cons.hyps(2) inv1 this] show ?thesis by simp
  qed (use arun_cons.IH [OF inv1] in simp)
qed simp

end

interpretation pgu: unique_approval_store pa_ops pa_view pa_inv pa_ttl "\<lambda>now now'. now"
  by unfold_locales (auto simp: pa_ops_def pa_issue_def pa_view_def Let_def find_None_iff image_iff split: if_splits)

section \<open>Properties of the stores\<close>

text \<open>
  C9. In any interleaving of calls on the database store, a token is redeemed at most once.
\<close>

theorem token_single_use:
  assumes "arun pa_ops \<lparr>pa_ttl = ttl, pa_rows = []\<rparr> ls s"
  shows "length (filter (\<lambda>l. l = Redeemed k) ls) \<le> 1"
  using assms by (rule pgu.redeem_at_most_once) (simp add: pa_inv_def)

lemma pa_two_redeems:
  "\<exists>s. arun pa_ops \<lparr>pa_ttl = 10, pa_rows = []\<rparr>
     [Issued ''k'', Redeemed ''k'', RedeemFailed (TokenAlreadyUsedError ''k'')] s"
proof -
  define s0 where "s0 = \<lparr>pa_ttl = 10, pa_rows = []\<rparr>"
  define s1 where "s1 = \<lparr>pa_ttl = 10, pa_rows = [new_approval 10 ''t'' ''run'' ''k'' 0]\<rparr>"
  define s2 where "s2 = \<lparr>pa_ttl = 10, pa_rows = [(new_approval 10 ''t'' ''run'' ''k'' 0)\<lparr>ap_used_at := Some 1\<rparr>]\<rparr>"
  have "astep pa_ops s0 (Issued ''k'') s1"
    by (rule astep.issue [where i = "''t''" and act = "''run''" and now = 0])
      (simp add: pa_ops_def pa_issue_def s0_def s1_def Let_def)
  moreover have "astep pa_ops s1 (Redeemed ''k'') s2"
    by (rule astep.redeem [where now = 1 and now' = 1])
      (simp add: pa_ops_def pa_redeem_def s1_def s2_def new_approval_def Let_def)
  moreover have "astep pa_ops s2 (RedeemFailed (TokenAlreadyUsedError ''k'')) s2"
    by (rule astep.redeem_err [where k = "''k''" and now = 2 and now' = 2])
      (simp add: pa_ops_def pa_redeem_def s2_def new_approval_def ap_used_def Let_def)
  ultimately show ?thesis unfolding s0_def [symmetric] by (auto simp: arun_cons_simp intro: arun.intros)
qed

theorem token_single_use_witness:
  "length (filter (\<lambda>l. l = Redeemed ''k'')
     [Issued ''k'', Redeemed ''k'', RedeemFailed (TokenAlreadyUsedError ''k'')]) \<le> 1"
  using pa_two_redeems token_single_use by blast

text \<open>
  Whatever was issued and redeemed through the file store, a process that opens its file next
  finds exactly the same approvals: no token is lost and none becomes usable again.
\<close>

theorem file_store_reload:
  assumes "arun file_ops (file_open ttl None) ls s"
  shows "file_view (file_open ttl (fs_file s)) = file_view s"
proof -
  have "file_synced s' \<and> file_inv s'" if "arun file_ops s0 ls s'" "file_synced s0 \<and> file_inv s0" for s0 s'
    using that by (induction rule: arun.induct) (auto dest: file_step_synced freg.astep_ainv)
  from this [OF assms] have "file_synced s" "file_inv s"
    by (simp_all add: file_synced_def file_open_def file_inv_def reg_inv_def reg_view_def)
  then show ?thesis by (intro reopen_view)
qed

theorem file_store_reload_witness:
  "file_view (file_open 10 (fs_file (snd (file_issue ''t'' ''run'' ''k'' 0 (file_open 10 None))))) =
     file_view (snd (file_issue ''t'' ''run'' ''k'' 0 (file_open 10 None)))"
proof -
  have "astep file_ops (file_open 10 None) (Issued ''k'') (snd (file_issue ''t'' ''run'' ''k'' 0 (file_open 10 None)))"
    by (rule astep.issue [where i = "''t''" and act = "''run''" and now = 0])
      (simp add: file_ops_def file_issue_def reg_issue_eq)
  then have "arun file_ops (file_open 10 None) [Issued ''k''] (snd (file_issue ''t'' ''run'' ''k'' 0 (file_open 10 None)))"
    by (auto simp: arun_cons_simp)
  from file_store_reload [OF this] show ?thesis .
qed

end
