(* ===== verification/ApprovalService.thy ===== *)
theory ApprovalService
  imports Approvals PyRegex Backends
begin

text \<open>
  Reading a reply and applying it (\<open>approvals_service.py\<close>). The service works over any
  \<open>ApprovalStore\<close> and any \<open>Queue\<close>, so its definitions take both as records of operations and its
  lemmas are proved in a locale over the two contracts.
\<close>

section \<open>Replies\<close>

record approval_reply =
  rp_token :: string
  rp_decision :: string

definition token_char :: "char \<Rightarrow> bool" where
  "token_char c \<longleftrightarrow> is_ascii_alnum c \<or> c = CHR ''_'' \<or> c = CHR ''-''"

definition TOKEN_PATTERN :: rx where
  "TOKEN_PATTERN =
     seqs [WordB, words_i [''approve'', ''reject'', ''dear-agent''], plus isspace,
           Grp 1 (Rep token_char 16 None), WordB]"

definition parse_reply :: "string \<Rightarrow> approval_reply option" where
  "parse_reply text =
     (case re_search TOKEN_PATTERN text of
        None \<Rightarrow> None
      | Some m \<Rightarrow>
          let word = lower (hd (split_ws (m_text m)));
              decision = (if word = ''approve'' then ''approved'' else ''rejected'')
          in Some \<lparr>rp_token = the (group m 1), rp_decision = decision\<rparr>)"

section \<open>The service\<close>

text \<open>\<open>request\<close>: the token of a new approval.\<close>

definition service_request ::
  "'a approval_ops \<Rightarrow> string \<Rightarrow> string \<Rightarrow> string \<Rightarrow> time \<Rightarrow> 'a \<Rightarrow> (exn + string) \<times> 'a" where
  "service_request A task_id action token now s =
     (case a_issue A task_id action token now s of
        (Inl e, s') \<Rightarrow> (Inl e, s') | (Inr a, s') \<Rightarrow> (Inr (ap_token a), s'))"

text \<open>\<open>apply\<close>; \<open>n1\<close> and \<open>n2\<close> are the clock readings of \<open>redeem\<close>, \<open>n3\<close> that of the transition.\<close>

definition service_apply ::
  "'a approval_ops \<Rightarrow> 'q queue_ops \<Rightarrow> approval_reply \<Rightarrow> string option \<Rightarrow> string option \<Rightarrow>
    time \<Rightarrow> time \<Rightarrow> time \<Rightarrow> 'a \<Rightarrow> 'q \<Rightarrow> (exn + task) \<times> 'a \<times> 'q" where
  "service_apply A Q reply sender thread n1 n2 n3 a q =
     (case a_get A (rp_token reply) a of
        None \<Rightarrow> (Inl (UnknownTokenError (rp_token reply)), a, q)
      | Some ap \<Rightarrow>
          (case q_get Q (ap_task_id ap) q of
             None \<Rightarrow> (Inl (UnknownTokenError (rp_token reply)), a, q)
           | Some t \<Rightarrow>
               if t_state t \<noteq> ACTION
               then (Inl (ApprovalNotApplicableError (ap_task_id ap) (t_state t)), a, q)
               else if sender \<noteq> None \<and> t_sender t \<noteq> None \<and> lower (the sender) \<noteq> lower (the (t_sender t))
               then (Inl (ApprovalMismatchError (ap_task_id ap) ''sender''), a, q)
               else if thread \<noteq> None \<and> t_thread_id t \<noteq> None \<and> thread \<noteq> t_thread_id t
               then (Inl (ApprovalMismatchError (ap_task_id ap) ''thread''), a, q)
               else (case a_redeem A (rp_token reply) n1 n2 a of
                       (Inl e, a') \<Rightarrow> (Inl e, a', q)
                     | (Inr ap', a') \<Rightarrow>
                         let target = (if rp_decision reply \<noteq> ''approved'' then REJECTED
                                       else if ap_action ap' = ''run'' then QUEUED else APPROVED)
                         in (case q_transition Q t target None n3 q of (r, q') \<Rightarrow> (r, a', q')))))"

section \<open>What a reply decides\<close>

definition reply_words :: "string list" where
  "reply_words = [''approve'', ''reject'', ''dear-agent'']"

lemma reply_words_plain: "list_all (\<lambda>k. lower k = k \<and> k \<noteq> [] \<and> list_all (\<lambda>c. \<not> isspace c) k) reply_words"
  by code_simp

lemma token_run:
  assumes "(b', r', cs) \<in> set (run TOKEN_PATTERN (b, v, []))"
  obtains w sp tk where "v = w @ sp @ tk @ r'" "lower w \<in> set reply_words" "sp \<noteq> []"
    "\<forall>c \<in> set sp. isspace c" "16 \<le> length tk" "\<forall>c \<in> set tk. token_char c" "map_of cs 1 = Some tk"
proof -
  let ?tail = "Seq (Grp 1 (Rep token_char 16 None)) WordB"
  from assms have "(b', r', cs) \<in> set (run (Seq WordB (Seq (words_i reply_words)
      (Seq (Rep isspace 1 None) ?tail))) (b, v, []))"
    by (simp only: TOKEN_PATTERN_def plus_def seqs.simps reply_words_def)
  then obtain s1 where "s1 \<in> set (run WordB (b, v, []))"
      and rest0: "(b', r', cs) \<in> set (run (Seq (words_i reply_words) (Seq (Rep isspace 1 None) ?tail)) s1)"
    by (rule run_SeqE)
  then have "s1 = (b, v, [])" using run_WordB by blast
  with rest0 have "(b', r', cs) \<in> set (run (Seq (words_i reply_words) (Seq (Rep isspace 1 None) ?tail)) (b, v, []))"
    by (simp only:)
  then obtain b2 r2 cs2 where
      1: "(b2, r2, cs2) \<in> set (run (words_i reply_words) (b, v, []))"
      and rest1: "(b', r', cs) \<in> set (run (Seq (Rep isspace 1 None) ?tail) (b2, r2, cs2))"
    by (rule run_SeqE)
  from rest1 obtain b3 r3 cs3 where
      2: "(b3, r3, cs3) \<in> set (run (Rep isspace 1 None) (b2, r2, cs2))"
      and rest2: "(b', r', cs) \<in> set (run ?tail (b3, r3, cs3))"
    by (rule run_SeqE)
  from rest2 obtain s4 where g: "s4 \<in> set (run (Grp 1 (Rep token_char 16 None)) (b3, r3, cs3))"
      and last: "(b', r', cs) \<in> set (run WordB s4)" by (rule run_SeqE)
  have "(b', r', cs) = s4" using last by (rule run_WordB)
  with g have "(b', r', cs) \<in> set (run (Grp 1 (Rep token_char 16 None)) (b3, r3, cs3))" by (simp only:)
  then obtain cs5 where 3: "(b', r', cs5) \<in> set (run (Rep token_char 16 None) (b3, r3, cs3))"
      and 4: "cs = (1, take (length r3 - length r') r3) # cs5" by (rule run_GrpE)
  from run_words_i [OF 1] obtain w k where w: "v = w @ r2" "lower w = lower k" "k \<in> set reply_words" by blast
  from run_Rep [OF 2] obtain sp where sp: "r2 = sp @ r3" "1 \<le> length sp" "\<forall>c \<in> set sp. isspace c" by blast
  from run_Rep [OF 3] obtain tk where tk: "r3 = tk @ r'" "16 \<le> length tk" "\<forall>c \<in> set tk. token_char c" by blast
  have "lower w \<in> set reply_words" using w reply_words_plain by (simp add: list_all_iff)
  moreover have "map_of cs 1 = Some tk" using 4 tk(1) by simp
  moreover have "v = w @ sp @ tk @ r'" using w(1) sp(1) tk(1) by simp
  moreover have "sp \<noteq> []" using sp(2) by auto
  ultimately show ?thesis using that sp(3) tk(2,3) by blast
qed

lemma reply_first_word:
  assumes "lower w \<in> set reply_words" and "sp \<noteq> []" and "\<forall>c \<in> set sp. isspace c"
  shows "hd (split_ws (w @ sp @ tk)) = w"
proof -
  have "lower w \<noteq> []" "list_all (\<lambda>c. \<not> isspace c) (lower w)"
    using assms(1) reply_words_plain unfolding list_all_iff [of _ reply_words] by blast+
  then have "w \<noteq> []" "\<forall>c \<in> set w. \<not> isspace c"
    using lower_no_space [of w] unfolding list_all_iff by (fastforce simp only: lower_def list.map, blast)
  moreover from assms obtain d sp' where "sp = d # sp'" "isspace d" by (cases sp) auto
  ultimately show ?thesis using split_ws_word [of w d] by simp
qed

lemma parse_reply_match:
  assumes "parse_reply text = Some r"
  obtains u w sp v where "text = u @ w @ sp @ rp_token r @ v" "lower w \<in> set reply_words"
    "sp \<noteq> []" "\<forall>c \<in> set sp. isspace c" "16 \<le> length (rp_token r)" "\<forall>c \<in> set (rp_token r). token_char c"
    "rp_decision r = (if lower w = ''approve'' then ''approved'' else ''rejected'')"
proof -
  obtain m where m: "re_search TOKEN_PATTERN text = Some m"
    using assms by (cases "re_search TOKEN_PATTERN text") (simp_all add: parse_reply_def)
  then have r: "r = \<lparr>rp_token = the (group m 1), rp_decision =
      (if lower (hd (split_ws (m_text m))) = ''approve'' then ''approved'' else ''rejected'')\<rparr>"
    using assms by (simp only: parse_reply_def option.case Let_def option.inject)
  from re_search_at [OF m] obtain u v where split: "text = u @ v" and here: "match_at TOKEN_PATTERN (rev u) v = Some m"
    by blast
  from here obtain b' r' cs where run: "(b', r', cs) \<in> set (run TOKEN_PATTERN (rev u, v, []))"
      and mt: "v = m_text m @ r'" "m_groups m = cs" by (rule match_atE)
  from run obtain w sp tk where w: "v = w @ sp @ tk @ r'" "lower w \<in> set reply_words" "sp \<noteq> []"
    "\<forall>c \<in> set sp. isspace c" "16 \<le> length tk" "\<forall>c \<in> set tk. token_char c" "map_of cs 1 = Some tk"
    by (rule token_run)
  have "m_text m = w @ sp @ tk" using w(1) mt(1) by simp
  with reply_first_word [OF w(2-4)] have word: "hd (split_ws (m_text m)) = w" by (simp only:)
  have tok: "rp_token r = tk" by (simp only: r approval_reply.select_convs group_def mt(2) w(7) option.sel)
  have "rp_decision r = (if lower w = ''approve'' then ''approved'' else ''rejected'')"
    by (simp only: r approval_reply.select_convs word)
  moreover have "text = u @ w @ sp @ rp_token r @ r'" using split w(1) tok by (simp only: append_assoc)
  ultimately show ?thesis using that [of u w sp r'] w(2-6) unfolding tok by blast
qed

section \<open>Applying a reply\<close>

definition sender_ok :: "string option \<Rightarrow> task \<Rightarrow> bool" where
  "sender_ok sender t \<longleftrightarrow> sender = None \<or> t_sender t = None \<or> lower (the sender) = lower (the (t_sender t))"

definition thread_ok :: "string option \<Rightarrow> task \<Rightarrow> bool" where
  "thread_ok thread t \<longleftrightarrow> thread = None \<or> t_thread_id t = None \<or> thread = t_thread_id t"

definition decided_state :: "approval_reply \<Rightarrow> approval \<Rightarrow> task_state" where
  "decided_state reply ap =
     (if rp_decision reply \<noteq> ''approved'' then REJECTED
      else if ap_action ap = ''run'' then QUEUED else APPROVED)"

text \<open>The token is live at \<open>now\<close> and its task awaits a decision that this sender and thread may give.\<close>

definition may_decide ::
  "(string \<rightharpoonup> approval) \<Rightarrow> store \<Rightarrow> approval_reply \<Rightarrow> string option \<Rightarrow> string option \<Rightarrow> time \<Rightarrow>
    approval \<Rightarrow> task \<Rightarrow> bool" where
  "may_decide view m reply sender thread now ap t \<longleftrightarrow>
     view (rp_token reply) = Some ap \<and> \<not> ap_used ap \<and> \<not> ap_expired ap now \<and>
     m (ap_task_id ap) = Some t \<and> t_state t = ACTION \<and> sender_ok sender t \<and> thread_ok thread t"

locale approval_flow =
  T: task_queue Q store invar canon merge_ev idkey + S: approval_store A view ainv ttl stamp
  for Q :: "'q queue_ops" and store invar canon merge_ev idkey
    and A :: "'a approval_ops" and view ainv ttl stamp
begin

lemma apply_allowed:
  assumes inv: "invar q" "ainv a" and may: "may_decide (view a) (store q) reply sender thread n1 ap t"
  shows "\<exists>a' q' t'. service_apply A Q reply sender thread n1 n2 n3 a q = (Inr t', a', q') \<and>
    invar q' \<and> ainv a' \<and> t' = moved (decided_state reply ap) (merge_ev None (t_evidence t)) t \<and>
    store q' = (store q)(t_id t \<mapsto> t') \<and>
    view a' = (view a)(rp_token reply \<mapsto> ap\<lparr>ap_used_at := Some (stamp n1 n2)\<rparr>)"
proof -
  let ?ap = "ap\<lparr>ap_used_at := Some (stamp n1 n2)\<rparr>"
  from may have ap: "view a (rp_token reply) = Some ap" "\<not> ap_used ap" "\<not> ap_expired ap n1"
    and t: "store q (ap_task_id ap) = Some t" "t_state t = ACTION" and ok: "sender_ok sender t" "thread_ok thread t"
    by (simp_all add: may_decide_def)
  have id: "t_id t = ap_task_id ap" using store_okD [OF T.invar_store [OF inv(1)] t(1)] .
  obtain a' where red: "a_redeem A (rp_token reply) n1 n2 a = (Inr ?ap, a')"
      and va: "view a' = (view a)(rp_token reply \<mapsto> ?ap)" and ia: "ainv a'"
    using S.redeem_ok [OF inv(2) ap] S.redeem_ainv [OF inv(2)] by (metis prod.collapse)
  let ?st = "decided_state reply ap"
  obtain q' where tr: "q_transition Q t ?st None n3 q = (Inr (moved ?st (merge_ev None (t_evidence t)) t), q')"
      and sq: "store q' = (store q)(t_id t \<mapsto> moved ?st (merge_ev None (t_evidence t)) t)" and iq: "invar q'"
    using T.transition_ok [OF inv(1), of t t ?st None n3] T.transition_invar [OF inv(1), of t ?st None n3] t(1) id
    by (metis prod.collapse)
  have "ap_action ?ap = ap_action ap" by simp
  then have "service_apply A Q reply sender thread n1 n2 n3 a q =
      (Inr (moved ?st (merge_ev None (t_evidence t)) t), a', q')"
    using ap(1) t ok red tr
    by (simp add: service_apply_def S.aget [OF inv(2)] T.get_law [OF inv(1)] sender_ok_def thread_ok_def
        decided_state_def Let_def split del: if_split) auto
  with iq ia sq va show ?thesis by blast
qed

lemma apply_refused:
  assumes inv: "invar q" "ainv a" and no: "\<And>ap t. \<not> may_decide (view a) (store q) reply sender thread n1 ap t"
  shows "\<exists>e. service_apply A Q reply sender thread n1 n2 n3 a q = (Inl e, a, q) \<and> is_ApprovalError e"
proof (cases "view a (rp_token reply)")
  case None
  then show ?thesis by (simp add: service_apply_def S.aget [OF inv(2)])
next
  case (Some ap)
  show ?thesis
  proof (cases "store q (ap_task_id ap)")
    case None
    with Some show ?thesis by (simp add: service_apply_def S.aget [OF inv(2)] T.get_law [OF inv(1)])
  next
    case (Some t)
    note ap = \<open>view a (rp_token reply) = Some ap\<close>
    show ?thesis
    proof (cases "t_state t = ACTION \<and> sender_ok sender t \<and> thread_ok thread t")
      case False
      with ap Some show ?thesis
        by (auto simp: service_apply_def S.aget [OF inv(2)] T.get_law [OF inv(1)] sender_ok_def thread_ok_def)
    next
      case True
      with no [of ap t] ap Some have dead: "ap_used ap \<or> ap_expired ap n1" by (auto simp: may_decide_def)
      obtain e where "a_redeem A (rp_token reply) n1 n2 a = (Inl e, a)" "is_ApprovalError e"
        using S.redeem_cases [OF inv(2), of "rp_token reply" n1 n2] dead ap
        by (metis option.inject prod.collapse)
      with True ap Some show ?thesis
        by (auto simp: service_apply_def S.aget [OF inv(2)] T.get_law [OF inv(1)] sender_ok_def thread_ok_def)
    qed
  qed
qed

end

interpretation pgflow: approval_flow "pg_ops coll" pg_store pg_inv pg_canon coalesce_ev coll
    pa_ops pa_view pa_inv pa_ttl "\<lambda>now now'. now" for coll
  by unfold_locales

interpretation memflow: approval_flow mem_ops mem_store mem_inv "\<lambda>t. t" replace_ev "\<lambda>i. i"
    reg_ops reg_view reg_inv reg_ttl "\<lambda>now now'. now'"
  by unfold_locales

section \<open>Properties of approvals\<close>

text \<open>
  C7. A reply whose token is live, whose task is waiting in \<open>action\<close> and whose sender and thread
  fit takes effect over the durable stores: the task moves to \<open>rejected\<close> unless the decision
  is \<open>approved\<close>, to \<open>queued\<close> for a \<open>run\<close> gate and to \<open>approved\<close> otherwise, nothing
  else in the queue changes, and the token is used.
\<close>

theorem approval_takes_effect:
  assumes "pg_inv q" and "pa_inv a"
    and "may_decide (pa_view a) (pg_store q) reply sender thread n1 ap t"
  shows "\<exists>a' q' t'. service_apply pa_ops (pg_ops coll) reply sender thread n1 n2 n3 a q = (Inr t', a', q') \<and>
    t_state t' = decided_state reply ap \<and> same_task t t' \<and> pg_store q' = (pg_store q)(t_id t \<mapsto> t') \<and>
    pa_view a' = (pa_view a)(rp_token reply \<mapsto> ap\<lparr>ap_used_at := Some n1\<rparr>)"
  using pgflow.apply_allowed [OF assms, of coll n2 n3]
  by (auto simp: moved_def same_task_def)

text \<open>
  C8. Any other reply is refused with an approval error and leaves queue and tokens as they were:
  in particular a reply from another sender or thread does not burn the token.
\<close>

theorem approval_refusal_harmless:
  assumes "pg_inv q" and "pa_inv a"
    and "\<nexists>ap t. may_decide (pa_view a) (pg_store q) reply sender thread n1 ap t"
  shows "\<exists>e. service_apply pa_ops (pg_ops coll) reply sender thread n1 n2 n3 a q = (Inl e, a, q) \<and> is_ApprovalError e"
  using assms by (intro pgflow.apply_refused) auto

text \<open>
  A waiting task, its token, and replies to it.
\<close>

definition ex_q :: pg_table where
  "ex_q = snd (pg_enqueue ((new_task ''a'' ''m'' 0)\<lparr>t_sender := Some ''Ann@x.io''\<rparr>) ACTION 1 [])"

definition ex_a :: pg_approvals where
  "ex_a = snd (pa_issue ''a'' ''run'' ''k'' 1 \<lparr>pa_ttl = 10, pa_rows = []\<rparr>)"

definition ex_reply :: approval_reply where
  "ex_reply = \<lparr>rp_token = ''k'', rp_decision = ''approved''\<rparr>"

lemma ex_inv: "pg_inv ex_q" "pa_inv ex_a"
proof -
  have "pg_inv (snd (q_enqueue (pg_ops (\<lambda>i. i)) t st now []))" for t st now
    by (rule pgq.enqueue_invar) simp
  then show "pg_inv ex_q" by (simp add: ex_q_def)
  have "pa_inv (snd (a_issue pa_ops i act k now \<lparr>pa_ttl = 10, pa_rows = []\<rparr>))" for i act k now
    by (rule pga.issue_ainv) (simp add: pa_inv_def)
  then show "pa_inv ex_a" by (simp add: ex_a_def pa_ops_def)
qed

theorem approval_takes_effect_witness:
  "\<exists>a' q' t'. service_apply pa_ops (pg_ops (\<lambda>i. i)) ex_reply (Some ''ann@X.io'') None 2 2 2 ex_a ex_q = (Inr t', a', q') \<and>
    t_state t' = QUEUED"
proof -
  have "may_decide (pa_view ex_a) (pg_store ex_q) ex_reply (Some ''ann@X.io'') None 2
      (the (pa_view ex_a ''k'')) (the (pg_store ex_q ''a''))" by code_simp
  from approval_takes_effect [OF ex_inv this, of "\<lambda>i. i" 2 2]
  obtain a' q' t' where "service_apply pa_ops (pg_ops (\<lambda>i. i)) ex_reply (Some ''ann@X.io'') None 2 2 2 ex_a ex_q = (Inr t', a', q')"
      "t_state t' = decided_state ex_reply (the (pa_view ex_a ''k''))" by blast
  moreover have "decided_state ex_reply (the (pa_view ex_a ''k'')) = QUEUED" by code_simp
  ultimately show ?thesis by auto
qed

theorem approval_refusal_harmless_witness:
  "\<exists>e. service_apply pa_ops (pg_ops (\<lambda>i. i)) ex_reply (Some ''eve@x.io'') None 2 2 2 ex_a ex_q = (Inl e, ex_a, ex_q) \<and>
    is_ApprovalError e"
proof (rule approval_refusal_harmless [OF ex_inv])
  have "sender_ok (Some ''eve@x.io'') (the (pg_store ex_q ''a'')) = False" by code_simp
  moreover have "map_option ap_task_id (pa_view ex_a ''k'') = Some ''a''" by code_simp
  ultimately show "\<nexists>ap t. may_decide (pa_view ex_a) (pg_store ex_q) ex_reply (Some ''eve@x.io'') None 2 ap t"
    by (auto simp: may_decide_def ex_reply_def)
qed

text \<open>
  A reply is read as a decision only if it holds one of the words \<open>approve\<close>, \<open>reject\<close>,
  \<open>dear-agent\<close> (in any case), white space and a token of at least sixteen token characters, in this
  order and adjacent; it approves exactly when the word is \<open>approve\<close>.
\<close>

theorem parse_reply_sound:
  assumes "parse_reply text = Some r"
  shows "\<exists>u w sp v. text = u @ w @ sp @ rp_token r @ v \<and> lower w \<in> set reply_words \<and> sp \<noteq> [] \<and>
    (\<forall>c \<in> set sp. isspace c) \<and> 16 \<le> length (rp_token r) \<and> (\<forall>c \<in> set (rp_token r). token_char c) \<and>
    rp_decision r = (if lower w = ''approve'' then ''approved'' else ''rejected'')"
  using assms by (elim parse_reply_match) blast

theorem parse_reply_sound_witness:
  "\<exists>u w sp v. ''Yes, Approve 0123456789abcdef please'' = u @ w @ sp @ ''0123456789abcdef'' @ v \<and>
    lower w \<in> set reply_words \<and> (if lower w = ''approve'' then ''approved'' else ''rejected'') = ''approved''"
proof -
  have "parse_reply ''Yes, Approve 0123456789abcdef please'' =
      Some \<lparr>rp_token = ''0123456789abcdef'', rp_decision = ''approved''\<rparr>" by code_simp
  from parse_reply_sound [OF this] show ?thesis by (metis approval_reply.select_convs)
qed

end
