(* ===== verification/Notify.thy ===== *)
theory Notify
  imports ApprovalService
begin

text \<open>
  Outbound messages (\<open>transports/port.py\<close>, \<open>transports/memory.py\<close>, \<open>notify/notifier.py\<close>,
  \<open>notify/escalate.py\<close>): what a transport can do, the in-memory one, status and approval messages and the
  escalations of a failed run.
\<close>

section \<open>Transports\<close>

record 't transport_ops =
  tr_poll :: "'t \<Rightarrow> (exn + raw_message list) \<times> 't"
  tr_receive :: "raw_message \<Rightarrow> 't \<Rightarrow> 't"
  tr_send :: "outbound \<Rightarrow> 't \<Rightarrow> (exn + unit) \<times> 't"
  tr_ack :: "raw_message list \<Rightarrow> 't \<Rightarrow> (exn + unit) \<times> 't"

record memory_transport =
  mt_pending :: "(string, raw_message) dict"
  mt_outbox :: "outbound list"

definition mt_empty :: memory_transport where
  "mt_empty = \<lparr>mt_pending = [], mt_outbox = []\<rparr>"

definition mt_receive :: "raw_message \<Rightarrow> memory_transport \<Rightarrow> memory_transport" where
  "mt_receive m t = t\<lparr>mt_pending := dict_set (rm_transport_id m) m (mt_pending t)\<rparr>"

definition mt_poll :: "memory_transport \<Rightarrow> (exn + raw_message list) \<times> memory_transport" where
  "mt_poll t = (Inr (sort_key rm_received_at (dict_values (mt_pending t))), t\<lparr>mt_pending := []\<rparr>)"

definition mt_send :: "outbound \<Rightarrow> memory_transport \<Rightarrow> (exn + unit) \<times> memory_transport" where
  "mt_send m t = (Inr (), t\<lparr>mt_outbox := mt_outbox t @ [m]\<rparr>)"

definition mt_ops :: "memory_transport transport_ops" where
  "mt_ops = \<lparr>tr_poll = mt_poll, tr_receive = mt_receive, tr_send = mt_send, tr_ack = (\<lambda>ms t. (Inr (), t))\<rparr>"

section \<open>Status and approval messages\<close>

record task_links =
  li_branch :: "string option"
  li_commit :: "string option"
  li_pr_url :: "string option"

fun status_subject :: "task_state \<Rightarrow> string" where
  "status_subject QUEUED = ''queued''"
| "status_subject RUNNING = ''running''"
| "status_subject ACTION = ''needs your approval''"
| "status_subject DONE = ''done''"
| "status_subject FAILED = ''failed''"
| "status_subject REJECTED = ''rejected''"
| "status_subject APPROVED = ''approved''"
| "status_subject RECEIVED = state_value RECEIVED"

definition opt_line :: "string \<Rightarrow> string option \<Rightarrow> string list" where
  "opt_line label x = (if truthy x then [label @ the x] else [])"

definition render_status :: "task \<Rightarrow> string \<Rightarrow> task_links option \<Rightarrow> string" where
  "render_status t summary links =
     join newline
       ([''task: '' @ t_id t, ''state: '' @ state_value (t_state t)] @
        (if summary \<noteq> [] then [''summary: '' @ summary] else []) @
        (case links of
           None \<Rightarrow> []
         | Some l \<Rightarrow> opt_line ''branch: '' (li_branch l) @ opt_line ''commit: '' (li_commit l) @
                     opt_line ''PR: '' (li_pr_url l)))"

definition notify_headers :: "task \<Rightarrow> string \<Rightarrow> (string, string) dict" where
  "notify_headers t recipient =
     [(''to'', recipient), (''X-Dear Agent-Task'', t_id t)] @
     (if t_thread_id t \<noteq> None then [(''in-reply-to'', t_transport_id t)] else [])"

definition status_message :: "task \<Rightarrow> string \<Rightarrow> string \<Rightarrow> task_links option \<Rightarrow> outbound" where
  "status_message t recipient summary links =
     \<lparr>ob_thread_id = t_thread_id t,
      ob_subject = ''[dear-agent] '' @ status_subject (t_state t) @ '': '' @ or_else (t_subject t) (t_id t),
      ob_body = render_status t summary links, ob_headers = notify_headers t recipient\<rparr>"

definition notifier_status ::
  "'t transport_ops \<Rightarrow> task \<Rightarrow> string \<Rightarrow> string \<Rightarrow> task_links option \<Rightarrow> 't \<Rightarrow> (exn + outbound) \<times> 't" where
  "notifier_status T t recipient summary links tr =
     (let m = status_message t recipient summary links in
      case tr_send T m tr of (Inl e, tr') \<Rightarrow> (Inl e, tr') | (Inr _, tr') \<Rightarrow> (Inr m, tr'))"

definition approval_footer :: "string \<Rightarrow> string" where
  "approval_footer token =
     newline @ newline @ ''Reply '' @ [CHR 0x27] @ ''approve '' @ token @ [CHR 0x27] @ '' or '' @ [CHR 0x27] @
     ''reject '' @ token @ [CHR 0x27] @ '' to decide.'' @ newline"

text \<open>
  \<open>request_approval\<close>: \<open>has_service\<close> is whether the notifier was built with an approval
  service, \<open>token\<close> the random token the service draws.
\<close>

definition notifier_request_approval ::
  "'a approval_ops \<Rightarrow> 't transport_ops \<Rightarrow> bool \<Rightarrow> task \<Rightarrow> string \<Rightarrow> string \<Rightarrow> string \<Rightarrow> task_links option \<Rightarrow>
    string \<Rightarrow> time \<Rightarrow> 'a \<Rightarrow> 't \<Rightarrow> (exn + outbound) \<times> 'a \<times> 't" where
  "notifier_request_approval A T has_service t recipient action summary links token now a tr =
     (if \<not> has_service then (Inl (RuntimeError ''approval requests require an ApprovalService''), a, tr)
      else case service_request A (t_id t) action token now a of
             (Inl e, a') \<Rightarrow> (Inl e, a', tr)
           | (Inr tok, a') \<Rightarrow>
               let m = \<lparr>ob_thread_id = t_thread_id t,
                        ob_subject = ''[dear-agent] approval needed: '' @ or_else (t_subject t) (t_id t),
                        ob_body = render_status t summary links @ approval_footer tok,
                        ob_headers = notify_headers t recipient\<rparr>
               in case tr_send T m tr of
                    (Inl e, tr') \<Rightarrow> (Inl e, a', tr') | (Inr _, tr') \<Rightarrow> (Inr m, a', tr'))"

section \<open>Escalation\<close>

datatype failure_kind =
  HARNESS_MISSING | TIMEOUT | HARNESS_FAILED | NO_CHANGES | PUBLISH_FAILED | VERIFY_FAILED | VERIFY_BLOCKED

fun failure_value :: "failure_kind \<Rightarrow> string" where
  "failure_value HARNESS_MISSING = ''harness_missing''"
| "failure_value TIMEOUT = ''timeout''"
| "failure_value HARNESS_FAILED = ''harness_failed''"
| "failure_value NO_CHANGES = ''no_changes''"
| "failure_value PUBLISH_FAILED = ''publish_failed''"
| "failure_value VERIFY_FAILED = ''verify_failed''"
| "failure_value VERIFY_BLOCKED = ''verify_blocked''"

fun failure_summary :: "failure_kind \<Rightarrow> string" where
  "failure_summary HARNESS_MISSING = ''the harness binary is not available on this host''"
| "failure_summary TIMEOUT = ''the run exceeded its time budget''"
| "failure_summary HARNESS_FAILED = ''the harness exited with an error''"
| "failure_summary NO_CHANGES = ''the harness finished but produced no changes''"
| "failure_summary PUBLISH_FAILED = ''the change could not be pushed or the draft PR opened''"
| "failure_summary VERIFY_FAILED = ''the change did not pass the task'' @ [CHR 0x27] @ ''s verify command''"
| "failure_summary VERIFY_BLOCKED = ''the task'' @ [CHR 0x27] @ ''s verify command is not on the allowlist''"

text \<open>A run's result (\<open>runners/worktree.py\<close>).\<close>

record run_result =
  rr_exit_code :: int
  rr_stdout :: string
  rr_stderr :: string
  rr_branch :: "string option"
  rr_commit :: "string option"
  rr_pr_url :: "string option"
  rr_extra :: "(string, string) dict"

definition rr_ok :: "run_result \<Rightarrow> bool" where
  "rr_ok r \<longleftrightarrow> rr_exit_code r = 0"

definition classify_failure :: "run_result \<Rightarrow> failure_kind" where
  "classify_failure r =
     (if rr_exit_code r = 127 then HARNESS_MISSING
      else if rr_exit_code r = 124 then TIMEOUT else HARNESS_FAILED)"

record escalation =
  es_task_id :: string
  es_kind :: failure_kind
  es_message :: string

definition escalation_body ::
  "task \<Rightarrow> run_result \<Rightarrow> string option \<Rightarrow> failure_kind \<Rightarrow> string option \<Rightarrow> string" where
  "escalation_body t r branch kind detail =
     join newline
       ([''task: '' @ t_id t, ''state: needs attention'',
         (if kind \<in> {HARNESS_MISSING, TIMEOUT, HARNESS_FAILED}
          then ''reason: '' @ failure_summary kind @ '' (exit '' @ show_int (rr_exit_code r) @ '')''
          else ''reason: '' @ failure_summary kind)] @
        opt_line ''detail: '' detail @ opt_line ''branch: '' branch @
        [''A human should review this run before it is retried or closed.''])"

definition escalate ::
  "'t transport_ops \<Rightarrow> task \<Rightarrow> run_result \<Rightarrow> string \<Rightarrow> string option \<Rightarrow> failure_kind option \<Rightarrow> string option \<Rightarrow>
    't \<Rightarrow> (exn + escalation) \<times> 't" where
  "escalate T t r recipient branch kind0 detail tr =
     (let kind = (case kind0 of Some k \<Rightarrow> k | None \<Rightarrow> classify_failure r);
          m = \<lparr>ob_thread_id = t_thread_id t,
               ob_subject = ''[dear-agent] needs attention: '' @ or_else (t_subject t) (t_id t),
               ob_body = escalation_body t r branch kind detail,
               ob_headers = [(''to'', recipient), (''X-Dear Agent-Task'', t_id t)]\<rparr>
      in case tr_send T m tr of
           (Inl e, tr') \<Rightarrow> (Inl e, tr')
         | (Inr _, tr') \<Rightarrow>
             (Inr \<lparr>es_task_id = t_id t, es_kind = kind, es_message = failure_summary kind\<rparr>, tr'))"

text \<open>
  A reply that quotes the approval message above its own words decides by the quotation: whatever
  the author writes below, the first match is the offered \<open>approve\<close>, so a rejection sent that
  way is read as an approval.
\<close>

theorem quoted_request_reads_as_approval:
  "parse_reply (''> '' @ approval_footer ''0123456789abcdef'' @ newline @ ''reject 0123456789abcdef'') =
     Some \<lparr>rp_token = ''0123456789abcdef'', rp_decision = ''approved''\<rparr>"
  by code_simp

end
