(* ===== verification/PyEffect.thy ===== *)
theory PyEffect
  imports Models
begin

text \<open>
  Python code that changes state and may raise: a program takes the state and gives a result, an
  exception (\<open>Inl\<close>) or a value, and the state it leaves behind, which keeps what was done
  before an exception.
\<close>

type_synonym ('s, 'a) prog = "'s \<Rightarrow> (exn + 'a) \<times> 's"

definition ret :: "'a \<Rightarrow> ('s, 'a) prog" where
  "ret x s = (Inr x, s)"

definition raise :: "exn \<Rightarrow> ('s, 'a) prog" where
  "raise e s = (Inl e, s)"

definition bindE :: "('s, 'a) prog \<Rightarrow> ('a \<Rightarrow> ('s, 'b) prog) \<Rightarrow> ('s, 'b) prog" where
  "bindE p f s = (case p s of (Inl e, s') \<Rightarrow> (Inl e, s') | (Inr x, s') \<Rightarrow> f x s')"

definition seqE :: "('s, 'a) prog \<Rightarrow> ('s, 'b) prog \<Rightarrow> ('s, 'b) prog" where
  "seqE p r = bindE p (\<lambda>_. r)"

text \<open>\<open>try\<close>: the exception becomes a value, for the handler to look at.\<close>

definition attempt :: "('s, 'a) prog \<Rightarrow> ('s, exn + 'a) prog" where
  "attempt p s = (case p s of (r, s') \<Rightarrow> (Inr r, s'))"

text \<open>\<open>try ... finally\<close>: the cleanup runs on every path and its own exception wins.\<close>

definition finallyE :: "('s, 'a) prog \<Rightarrow> ('s, unit) prog \<Rightarrow> ('s, 'a) prog" where
  "finallyE p c = bindE (attempt p) (\<lambda>r. seqE c (case r of Inl e \<Rightarrow> raise e | Inr x \<Rightarrow> ret x))"

definition asks :: "('s \<Rightarrow> 'a) \<Rightarrow> ('s, 'a) prog" where
  "asks f s = (Inr (f s), s)"

definition modify :: "('s \<Rightarrow> 's) \<Rightarrow> ('s, unit) prog" where
  "modify f s = (Inr (), f s)"

text \<open>A call that acts on one part of the state.\<close>

definition on_part :: "('s \<Rightarrow> 'c) \<Rightarrow> ('c \<Rightarrow> 's \<Rightarrow> 's) \<Rightarrow> ('c \<Rightarrow> (exn + 'a) \<times> 'c) \<Rightarrow> ('s, 'a) prog" where
  "on_part rd wr f s = (case f (rd s) of (r, c) \<Rightarrow> (r, wr c s))"

fun for_each :: "('x \<Rightarrow> 'a \<Rightarrow> ('s, 'a) prog) \<Rightarrow> 'x list \<Rightarrow> 'a \<Rightarrow> ('s, 'a) prog" where
  "for_each f [] acc = ret acc"
| "for_each f (x # xs) acc = bindE (f x acc) (for_each f xs)"

section \<open>Rules\<close>

lemma ret_simp [simp]: "ret x s = (Inr x, s)" by (simp add: ret_def)

lemma raise_simp [simp]: "raise e s = (Inl e, s)" by (simp add: raise_def)

lemma asks_simp [simp]: "asks f s = (Inr (f s), s)" by (simp add: asks_def)

lemma modify_simp [simp]: "modify f s = (Inr (), f s)" by (simp add: modify_def)

lemma bindE_Inl: "p s = (Inl e, s') \<Longrightarrow> bindE p f s = (Inl e, s')"
  by (simp add: bindE_def)

lemma bindE_Inr: "p s = (Inr x, s') \<Longrightarrow> bindE p f s = f x s'"
  by (simp add: bindE_def)

lemma seqE_Inr: "p s = (Inr x, s') \<Longrightarrow> seqE p q s = q s'"
  by (simp add: seqE_def bindE_def)

lemma seqE_Inl: "p s = (Inl e, s') \<Longrightarrow> seqE p q s = (Inl e, s')"
  by (simp add: seqE_def bindE_def)

lemma bindE_ret [simp]: "bindE (ret x) f s = f x s" by (simp add: bindE_def)

lemma bindE_raise [simp]: "bindE (raise e) f s = (Inl e, s)" by (simp add: bindE_def)

lemma bindE_asks [simp]: "bindE (asks g) f s = f (g s) s" by (simp add: bindE_def)

lemma bindE_modify [simp]: "bindE (modify g) f s = f () (g s)" by (simp add: bindE_def)

lemma seqE_modify [simp]: "seqE (modify g) p s = p (g s)" by (simp add: seqE_def)

lemma bindE_attempt [simp]: "bindE (attempt p) f s = f (fst (p s)) (snd (p s))"
  by (simp add: bindE_def attempt_def split: prod.split)

lemma bindE_cases:
  assumes "bindE p f s = (r, s')"
  obtains (raised) e where "p s = (Inl e, s')" "r = Inl e"
  | (went_on) x s1 where "p s = (Inr x, s1)" "f x s1 = (r, s')"
  using assms by (cases "p s"; cases "fst (p s)") (auto simp: bindE_def)

text \<open>An invariant relation that every step keeps, composed along a program.\<close>

definition keeps :: "('s \<Rightarrow> 's \<Rightarrow> bool) \<Rightarrow> ('s, 'a) prog \<Rightarrow> bool" where
  "keeps R p \<longleftrightarrow> (\<forall>s. R s (snd (p s)))"

lemma keepsD: "keeps R p \<Longrightarrow> p s = (r, s') \<Longrightarrow> R s s'"
  unfolding keeps_def by (metis snd_conv)

lemma keeps_bind:
  assumes "transp R" and "keeps R p" and "\<And>x. keeps R (f x)"
  shows "keeps R (bindE p f)"
  unfolding keeps_def
proof
  fix s
  obtain r s' where b: "bindE p f s = (r, s')" by fastforce
  then have "R s s'"
  proof (cases rule: bindE_cases)
    case (raised e) then show ?thesis using assms(2) by (blast dest: keepsD)
  next
    case (went_on x s1)
    then have "R s s1" "R s1 s'" using assms(2,3) by (blast dest: keepsD)+
    then show ?thesis using assms(1) by (rule transpD [rotated])
  qed
  with b show "R s (snd (bindE p f s))" by simp
qed

lemma keeps_attempt [simp]: "keeps R (attempt p) \<longleftrightarrow> keeps R p"
  by (simp add: keeps_def attempt_def case_prod_unfold)

lemma keeps_ret: "reflp R \<Longrightarrow> keeps R (ret x)" "reflp R \<Longrightarrow> keeps R (raise e)" "reflp R \<Longrightarrow> keeps R (asks f)"
  by (simp_all add: keeps_def reflpD)

lemma keeps_seq:
  assumes "transp R" and "keeps R p" and "keeps R r" shows "keeps R (seqE p r)"
  unfolding seqE_def using assms by (intro keeps_bind)

lemma keeps_finally:
  assumes "transp R" "reflp R" and "keeps R p" and "keeps R c" shows "keeps R (finallyE p c)"
  unfolding finallyE_def using assms by (intro keeps_bind keeps_seq) (auto intro: keeps_ret split: sum.split)

lemma keeps_for_each:
  assumes "transp R" "reflp R" and "\<And>x acc. keeps R (f x acc)" shows "keeps R (for_each f xs acc)"
proof (induction xs arbitrary: acc)
  case Nil show ?case unfolding for_each.simps by (rule keeps_ret(1) [OF assms(2)])
next
  case (Cons x xs) show ?case
    unfolding for_each.simps by (rule keeps_bind [OF assms(1,3) Cons.IH])
qed

end
