(* ===== verification/Machine.thy ===== *)
theory Machine
  imports PyEffect
begin

text \<open>
  The machine the runner side works on. Its state (files, repositories, processes) is a type
  variable \<open>'w\<close>; what the code asks of it, the process and file calls of the Python standard library, is a
  record of operations on it. The sandbox objects (\<open>sandbox.py\<close>, the \<open>Sandbox\<close>
  protocol) are records of operations as well.
\<close>

text \<open>\<open>subprocess.CompletedProcess\<close> of a captured text-mode run.\<close>

record completed =
  cm_returncode :: int
  cm_stdout :: string
  cm_stderr :: string

text \<open>
  \<open>m_run argv cwd env\<close>: \<open>subprocess.run\<close> with captured output (\<open>None\<close>: the inherited
  environment; an empty \<open>cwd\<close>: the directory of the process itself); \<open>m_timed_run argv cwd env seconds\<close>:
  the same with a timeout; \<open>m_which\<close>: \<open>shutil.which\<close>; \<open>m_uuid\<close>: \<open>uuid4().hex\<close>; the path operations are \<open>Path.resolve\<close>, \<open>exists\<close>,
  \<open>mkdir(parents=True, exist_ok=True)\<close>, \<open>shutil.rmtree(ignore_errors=True)\<close>, \<open>expanduser\<close>,
  \<open>iterdir\<close>, \<open>read_text\<close> and \<open>write_text\<close>.
\<close>

record 'w machine =
  m_run :: "string list \<Rightarrow> string \<Rightarrow> (string, string) dict option \<Rightarrow> 'w \<Rightarrow> (exn + completed) \<times> 'w"
  m_resolve :: "string \<Rightarrow> 'w \<Rightarrow> string"
  m_exists :: "string \<Rightarrow> 'w \<Rightarrow> bool"
  m_mkdir :: "string \<Rightarrow> 'w \<Rightarrow> (exn + unit) \<times> 'w"
  m_rmtree :: "string \<Rightarrow> 'w \<Rightarrow> 'w"
  m_environ :: "(string, string) dict"
  m_timed_run :: "string list \<Rightarrow> string \<Rightarrow> (string, string) dict \<Rightarrow> int \<Rightarrow> 'w \<Rightarrow> (exn + completed) \<times> 'w"
  m_which :: "string \<Rightarrow> 'w \<Rightarrow> string option"
  m_expanduser :: "string \<Rightarrow> string"
  m_listdir :: "string \<Rightarrow> 'w \<Rightarrow> string list"
  m_read_text :: "string \<Rightarrow> 'w \<Rightarrow> exn + string"
  m_write_text :: "string \<Rightarrow> string \<Rightarrow> 'w \<Rightarrow> (exn + unit) \<times> 'w"
  m_uuid :: "'w \<Rightarrow> string \<times> 'w"

text \<open>\<open>Path(a) / b\<close> for an absolute normal path \<open>a\<close> and a plain name or absolute path \<open>b\<close>.\<close>

definition path_join :: "string \<Rightarrow> string \<Rightarrow> string" where
  "path_join a b =
     (if startswith b ''/'' then b else if endswith a ''/'' then a @ b else a @ ''/'' @ b)"

text \<open>A \<open>Sandbox\<close>; \<open>sb_ident\<close> is the identity of the object (\<open>is\<close>).\<close>

record 'w sandbox =
  sb_ident :: nat
  sb_wrap :: "string list \<Rightarrow> string \<Rightarrow> 'w \<Rightarrow> (exn + string list) \<times> 'w"
  sb_available :: "'w \<Rightarrow> bool"
  sb_close :: "'w \<Rightarrow> (exn + unit) \<times> 'w"

text \<open>\<open>NoSandbox\<close>.\<close>

definition no_sandbox :: "nat \<Rightarrow> 'w sandbox" where
  "no_sandbox n =
     \<lparr>sb_ident = n, sb_wrap = (\<lambda>argv wt w. (Inr argv, w)), sb_available = (\<lambda>w. False),
      sb_close = (\<lambda>w. (Inr (), w))\<rparr>"

end
