(* ===== verification/Verify.thy ===== *)
theory Verify
  imports Machine
begin

text \<open>
  The verify gate (\<open>verify.py\<close>): splitting a command the way \<open>shlex.split\<close> does, the
  allowlist, and running an allowed command in the worktree.
\<close>

section \<open>shlex.split\<close>

text \<open>
  The states of the POSIX lexer of the standard library with \<open>whitespace_split\<close> and no comments: between
  words, in a word, inside a quotation, and after a backslash (with the state to return to).
\<close>

datatype sh_state = ShSpace | ShWord | ShQuote char | ShEscape "char option"

definition sh_white :: "char \<Rightarrow> bool" where
  "sh_white c \<longleftrightarrow> c = CHR '' '' \<or> c = CHR 0x09 \<or> c = CHR 0x0D \<or> c = CHR 0x0A"

definition sh_quote :: "char \<Rightarrow> bool" where
  "sh_quote c \<longleftrightarrow> c = CHR 0x27 \<or> c = CHR 0x22"

fun sh_cons :: "string \<Rightarrow> exn + string list \<Rightarrow> exn + string list" where
  "sh_cons w (Inl e) = Inl e"
| "sh_cons w (Inr ws) = Inr (w # ws)"

fun shlex :: "sh_state \<Rightarrow> string \<Rightarrow> bool \<Rightarrow> string \<Rightarrow> exn + string list" where
  "shlex ShSpace tok quoted [] = Inr []"
| "shlex ShSpace tok quoted (c # cs) =
     (if sh_white c then shlex ShSpace [] False cs
      else if c = CHR 0x5C then shlex (ShEscape None) [] False cs
      else if sh_quote c then shlex (ShQuote c) [] False cs
      else shlex ShWord [c] False cs)"
| "shlex ShWord tok quoted [] = (if tok \<noteq> [] \<or> quoted then Inr [tok] else Inr [])"
| "shlex ShWord tok quoted (c # cs) =
     (if sh_white c
      then (if tok \<noteq> [] \<or> quoted then sh_cons tok (shlex ShSpace [] False cs) else shlex ShSpace [] False cs)
      else if sh_quote c then shlex (ShQuote c) tok quoted cs
      else if c = CHR 0x5C then shlex (ShEscape None) tok quoted cs
      else shlex ShWord (tok @ [c]) quoted cs)"
| "shlex (ShQuote q) tok quoted [] = Inl (ValueError ''No closing quotation'')"
| "shlex (ShQuote q) tok quoted (c # cs) =
     (if c = q then shlex ShWord tok True cs
      else if c = CHR 0x5C \<and> q = CHR 0x22 then shlex (ShEscape (Some q)) tok True cs
      else shlex (ShQuote q) (tok @ [c]) True cs)"
| "shlex (ShEscape back) tok quoted [] = Inl (ValueError ''No escaped character'')"
| "shlex (ShEscape None) tok quoted (c # cs) = shlex ShWord (tok @ [c]) quoted cs"
| "shlex (ShEscape (Some q)) tok quoted (c # cs) =
     shlex (ShQuote q) (tok @ (if c \<noteq> CHR 0x5C \<and> c \<noteq> q then [CHR 0x5C] else []) @ [c]) quoted cs"

definition shlex_split :: "string \<Rightarrow> exn + string list" where
  "shlex_split s = shlex ShSpace [] False s"

section \<open>The verifier\<close>

record verify_result =
  vr_ok :: bool
  vr_exit_code :: int
  vr_output :: string
  vr_blocked :: bool

record 'w verifier =
  vf_allowed :: "string list list"
  vf_timeout_seconds :: int
  vf_sandbox :: "'w sandbox"
  vf_execute :: "string list \<Rightarrow> string \<Rightarrow> int \<Rightarrow> 'w \<Rightarrow> (exn + completed) \<times> 'w"

definition verify_argv :: "string \<Rightarrow> string list option" where
  "verify_argv command =
     (case shlex_split command of Inl _ \<Rightarrow> None | Inr [] \<Rightarrow> None | Inr argv \<Rightarrow> Some argv)"

text \<open>The allowlist of \<open>CommandVerifier.from_env\<close>.\<close>

definition allowed_from_env :: "string option \<Rightarrow> string list list" where
  "allowed_from_env value =
     List.map_filter verify_argv
       (split_on (CHR '','') (replace_char (CHR '';'') (CHR '','') (or_else value [])))"

definition verifier_allows :: "'w verifier \<Rightarrow> string \<Rightarrow> bool" where
  "verifier_allows v command =
     (case verify_argv command of None \<Rightarrow> False | Some argv \<Rightarrow> argv \<in> set (vf_allowed v))"

definition verifier_run :: "'w verifier \<Rightarrow> string \<Rightarrow> string \<Rightarrow> ('w, verify_result) prog" where
  "verifier_run v command worktree_path =
     (case verify_argv command of
        None \<Rightarrow> ret \<lparr>vr_ok = False, vr_exit_code = 126, vr_output = ''verify command is not allowed'', vr_blocked = True\<rparr>
      | Some argv \<Rightarrow>
          if argv \<notin> set (vf_allowed v)
          then ret \<lparr>vr_ok = False, vr_exit_code = 126, vr_output = ''verify command is not allowed'', vr_blocked = True\<rparr>
          else bindE (sb_wrap (vf_sandbox v) argv worktree_path) (\<lambda>wrapped.
            bindE (attempt (vf_execute v wrapped worktree_path (vf_timeout_seconds v))) (\<lambda>r.
              case r of
                Inl (FileNotFoundError _) \<Rightarrow>
                  ret \<lparr>vr_ok = False, vr_exit_code = 127, vr_output = py_repr (hd argv) @ '' not found'', vr_blocked = False\<rparr>
              | Inl (TimeoutExpired _ _ _) \<Rightarrow>
                  ret \<lparr>vr_ok = False, vr_exit_code = 124, vr_output = ''verify timed out'', vr_blocked = False\<rparr>
              | Inl (OSError s) \<Rightarrow> ret \<lparr>vr_ok = False, vr_exit_code = 126, vr_output = s, vr_blocked = False\<rparr>
              | Inl e \<Rightarrow> raise e
              | Inr done \<Rightarrow>
                  ret \<lparr>vr_ok = (cm_returncode done = 0), vr_exit_code = cm_returncode done,
                       vr_output = slice_last 2000 (cm_stdout done @ cm_stderr done), vr_blocked = False\<rparr>)))"

section \<open>Properties\<close>

text \<open>A word \<open>shlex\<close> leaves as it is.\<close>

definition plain_word :: "string \<Rightarrow> bool" where
  "plain_word w \<longleftrightarrow> w \<noteq> [] \<and> (\<forall>c \<in> set w. \<not> sh_white c \<and> \<not> sh_quote c \<and> c \<noteq> CHR 0x5C)"

lemma shlex_word:
  "\<forall>c \<in> set w. \<not> sh_white c \<and> \<not> sh_quote c \<and> c \<noteq> CHR 0x5C \<Longrightarrow>
    shlex ShWord tok quoted (w @ rest) = shlex ShWord (tok @ w) quoted rest"
  by (induction w arbitrary: tok) auto

lemma shlex_plain_word:
  assumes "plain_word w"
  shows "shlex ShSpace tok quoted (w @ rest) = shlex ShWord w False rest"
proof (cases w)
  case (Cons c cs)
  with assms show ?thesis
    using shlex_word [of cs "[c]" False rest] by (auto simp: plain_word_def)
qed (use assms in \<open>simp add: plain_word_def\<close>)

lemma shlex_words:
  assumes "\<forall>w \<in> set ws. plain_word w"
  shows "shlex ShSpace tok quoted (join '' '' ws) = Inr ws"
  using assms
proof (induction ws arbitrary: tok quoted rule: induct_list012)
  case (2 w)
  then show ?case using shlex_plain_word [of w tok quoted "[]"] by (simp add: plain_word_def)
next
  case (3 w v ws)
  then have "shlex ShSpace [] False (join '' '' (v # ws)) = Inr (v # ws)" by simp
  with 3(3) show ?case
    using shlex_plain_word [of w tok quoted "'' '' @ join '' '' (v # ws)"]
    by (simp add: plain_word_def sh_white_def)
qed simp

lemma verify_argv_Some: "verify_argv command = Some argv \<longleftrightarrow> shlex_split command = Inr argv \<and> argv \<noteq> []"
  by (auto simp: verify_argv_def split: sum.split list.split)

lemma verifier_allows_iff:
  "verifier_allows v command \<longleftrightarrow> (\<exists>argv \<in> set (vf_allowed v). argv \<noteq> [] \<and> shlex_split command = Inr argv)"
proof (cases "verify_argv command")
  case None
  then have "shlex_split command = Inr argv \<Longrightarrow> argv = []" for argv
    using verify_argv_Some [of command argv] by auto
  with None show ?thesis by (auto simp: verifier_allows_def)
next
  case (Some argv)
  then have "shlex_split command = Inr argv" "argv \<noteq> []" using verify_argv_Some by blast+
  with Some show ?thesis by (auto simp: verifier_allows_def)
qed

text \<open>
  C13. The verify command of a message runs only when it splits to exactly an argument vector of the
  allowlist. Otherwise the result is \<open>blocked\<close>, nothing is executed and the worktree is untouched;
  the gate passes only when that vector, wrapped by the sandbox, was executed and exited with zero.
\<close>

theorem verify_only_allowed:
  "case verifier_run v command path w of
     (Inl e, w') \<Rightarrow> verifier_allows v command
   | (Inr r, w') \<Rightarrow>
       (vr_blocked r \<longleftrightarrow> \<not> verifier_allows v command) \<and> (vr_blocked r \<longrightarrow> w' = w \<and> \<not> vr_ok r) \<and>
       (vr_ok r \<longrightarrow> (\<exists>argv wrapped w1 done. shlex_split command = Inr argv \<and> argv \<in> set (vf_allowed v) \<and>
          sb_wrap (vf_sandbox v) argv path w = (Inr wrapped, w1) \<and>
          vf_execute v wrapped path (vf_timeout_seconds v) w1 = (Inr done, w') \<and> cm_returncode done = 0))"
proof (cases "verify_argv command")
  case None
  then show ?thesis by (simp add: verifier_run_def verifier_allows_def)
next
  case (Some argv)
  show ?thesis
  proof (cases "argv \<in> set (vf_allowed v)")
    case False
    with Some show ?thesis by (simp add: verifier_run_def verifier_allows_def)
  next
    case True
    obtain x w1 where wrap: "sb_wrap (vf_sandbox v) argv path w = (x, w1)" by fastforce
    from True Some have ok: "verifier_allows v command" by (simp add: verifier_allows_def)
    from Some have split: "shlex_split command = Inr argv" by (simp add: verify_argv_Some)
    show ?thesis
    proof (cases x)
      case (Inl e)
      with Some True wrap ok show ?thesis by (simp add: verifier_run_def bindE_Inl)
    next
      case (Inr wrapped)
      obtain y w2 where ex: "vf_execute v wrapped path (vf_timeout_seconds v) w1 = (y, w2)" by fastforce
      from Some True wrap Inr ok split ex show ?thesis
        by (cases y) (auto simp: verifier_run_def bindE_Inr split: exn.split)
    qed
  qed
qed

definition ex_verifier :: "nat verifier" where
  "ex_verifier =
     \<lparr>vf_allowed = [[''make'', ''test'']], vf_timeout_seconds = 900, vf_sandbox = no_sandbox 0,
      vf_execute = (\<lambda>argv cwd timeout w. (Inr \<lparr>cm_returncode = 0, cm_stdout = [], cm_stderr = []\<rparr>, Suc w))\<rparr>"

theorem verify_only_allowed_witness:
  "fst (verifier_run ex_verifier ''make  test'' [] 0) =
      Inr \<lparr>vr_ok = True, vr_exit_code = 0, vr_output = [], vr_blocked = False\<rparr> \<and>
   verifier_allows ex_verifier ''make  test'' \<and>
   snd (verifier_run ex_verifier ''make test; rm -rf /'' [] 0) = 0"
proof -
  let ?r = "\<lparr>vr_ok = True, vr_exit_code = 0, vr_output = [], vr_blocked = False\<rparr>"
  have one: "verifier_run ex_verifier ''make  test'' [] 0 = (Inr ?r, 1)" by code_simp
  have two: "vr_blocked (projr (fst (verifier_run ex_verifier ''make test; rm -rf /'' [] 0)))"
    "\<not> verifier_allows ex_verifier ''make test; rm -rf /''" by code_simp+
  from verify_only_allowed [where v = ex_verifier and command = "''make  test''" and path = "[]" and w = 0] one have "verifier_allows ex_verifier ''make  test''"
    by simp
  moreover from verify_only_allowed [where v = ex_verifier and command = "''make test; rm -rf /''" and path = "[]" and w = 0] two
  have "snd (verifier_run ex_verifier ''make test; rm -rf /'' [] 0) = 0"
    by (cases "verifier_run ex_verifier ''make test; rm -rf /'' [] 0"; cases "fst (verifier_run ex_verifier ''make test; rm -rf /'' [] 0)")
      auto
  ultimately show ?thesis using one by simp
qed

lemma split_on_single: "sep \<notin> set s \<Longrightarrow> split_on sep s = [s]"
  by (induction s) auto

lemma set_join: "set (join sep ws) \<subseteq> set sep \<union> \<Union> (set ` set ws)"
  by (induction sep ws rule: join.induct) auto

text \<open>
  An operator who lists a command of plain words (no quotes, backslashes, commas or semicolons) in the
  environment allows exactly the messages whose verify command splits to those words; listing
  nothing allows nothing.
\<close>

theorem allowlist_roundtrip:
  assumes "ws \<noteq> []" and "\<forall>w \<in> set ws. plain_word w \<and> CHR '','' \<notin> set w \<and> CHR '';'' \<notin> set w"
    and "vf_allowed v = allowed_from_env (Some (join '' '' ws))"
  shows "verifier_allows v command \<longleftrightarrow> shlex_split command = Inr ws"
proof -
  let ?s = "join '' '' ws"
  have "set ?s \<subseteq> {CHR '' ''} \<union> \<Union> (set ` set ws)" using set_join [of "'' ''" ws] by simp
  with assms(2) have no: "CHR '','' \<notin> set ?s" "CHR '';'' \<notin> set ?s" by fastforce+
  then have "replace_char (CHR '';'') (CHR '','') ?s = ?s"
    by (auto simp: replace_char_def intro: map_idI)
  moreover have "shlex_split ?s = Inr ws" using shlex_words [of ws] assms(2) by (simp add: shlex_split_def)
  then have "verify_argv ?s = Some ws" using assms(1) by (simp add: verify_argv_Some)
  moreover have "?s \<noteq> []" using \<open>verify_argv ?s = Some ws\<close> by (auto simp: verify_argv_def shlex_split_def)
  ultimately have "vf_allowed v = [ws]"
    using no(1) assms(3) by (simp add: allowed_from_env_def split_on_single List.map_filter_simps)
  then show ?thesis
    using assms(1) by (simp add: verifier_allows_iff)
qed

theorem allowlist_roundtrip_witness:
  "verifier_allows (ex_verifier\<lparr>vf_allowed := allowed_from_env (Some ''make test'')\<rparr>) ''make '' \<longleftrightarrow>
     shlex_split ''make '' = Inr [''make'', ''test'']"
proof -
  have "join '' '' [''make'', ''test''] = ''make test''" by simp
  then show ?thesis
    using allowlist_roundtrip [of "[''make'', ''test'']" "ex_verifier\<lparr>vf_allowed := allowed_from_env (Some ''make test'')\<rparr>" "''make ''"]
    by (simp add: plain_word_def sh_white_def sh_quote_def)
qed

end
