(* ===== verification/GitPlane.thy ===== *)
theory GitPlane
  imports Machine Normalizer
begin

text \<open>
  Worktrees (\<open>runners/worktree.py\<close>) and the git plane (\<open>gitplane/plane.py\<close>): every git
  command they run, as calls of the machine, with the guards around them. A forge is the
  function that opens a draft pull request.
\<close>

section \<open>Worktrees\<close>

record worktree =
  wt_repo_path :: string
  wt_path :: string
  wt_branch :: string

definition git_failure :: "string list \<Rightarrow> completed \<Rightarrow> string" where
  "git_failure args r =
     (let err = strip (cm_stderr r) in if err \<noteq> [] then err else ''git '' @ join '' '' args @ '' failed'')"

definition worktree_git :: "'w machine \<Rightarrow> string \<Rightarrow> string list \<Rightarrow> ('w, completed) prog" where
  "worktree_git M repo args =
     bindE (m_run M (''git'' # args) repo None) (\<lambda>r.
       if cm_returncode r \<noteq> 0 then raise (WorktreeError (git_failure args r)) else ret r)"

definition branch_of_slug :: "string \<Rightarrow> string" where
  "branch_of_slug slug = (if startswith slug ''dear-agent/'' then slug else ''dear-agent/'' @ slug)"

definition worktree_create :: "'w machine \<Rightarrow> string \<Rightarrow> string \<Rightarrow> string \<Rightarrow> string \<Rightarrow> ('w, worktree) prog" where
  "worktree_create M repo_path worktrees_root slug base_branch =
     (if \<not> is_valid_ref base_branch
      then raise (WorktreeError (''invalid base branch '' @ py_repr base_branch))
      else bindE (asks (m_resolve M repo_path)) (\<lambda>repo.
        bindE (asks (m_exists M (path_join repo ''.git''))) (\<lambda>is_repo.
          if \<not> is_repo then raise (WorktreeError (repo @ '' is not a git repository''))
          else bindE (asks (m_resolve M worktrees_root)) (\<lambda>root.
            (let branch = branch_of_slug slug; path = path_join root slug in
             seqE (m_mkdir M root)
               (seqE (worktree_git M repo [''worktree'', ''add'', ''-B'', branch, path, base_branch])
                 (ret \<lparr>wt_repo_path = repo, wt_path = path, wt_branch = branch\<rparr>)))))))"

definition worktree_remove :: "'w machine \<Rightarrow> worktree \<Rightarrow> ('w, unit) prog" where
  "worktree_remove M wt =
     bindE (asks (m_exists M (wt_path wt))) (\<lambda>there.
       if \<not> there then ret ()
       else seqE (worktree_git M (wt_repo_path wt) [''worktree'', ''remove'', ''--force'', wt_path wt])
              (modify (m_rmtree M (wt_path wt))))"

section \<open>The git plane\<close>

definition COMMITTER_NAME :: string where "COMMITTER_NAME = ''Dear Agent''"

definition COMMITTER_EMAIL :: string where "COMMITTER_EMAIL = ''dear-agent@localhost''"

record pull_request =
  pr_url :: string
  pr_number :: "int option"
  pr_is_draft :: bool

text \<open>\<open>gp_forge repo_path branch base_branch title body\<close>.\<close>

record 'w git_plane =
  gp_forge :: "string \<Rightarrow> string \<Rightarrow> string \<Rightarrow> string \<Rightarrow> string \<Rightarrow> ('w, pull_request) prog"
  gp_protected_branches :: "string list"
  gp_push_key :: "string option"

definition plane_git ::
  "'w machine \<Rightarrow> string \<Rightarrow> string list \<Rightarrow> (string, string) dict option \<Rightarrow> ('w, completed) prog" where
  "plane_git M path args env =
     bindE (m_run M (''git'' # args) path env) (\<lambda>r.
       if cm_returncode r \<noteq> 0 then raise (GitError (git_failure args r)) else ret r)"

definition assert_not_protected :: "'w git_plane \<Rightarrow> string \<Rightarrow> ('w, unit) prog" where
  "assert_not_protected G branch =
     (if branch \<in> set (gp_protected_branches G)
      then raise (ProtectedBranchError (py_repr branch @ '' is a protected branch'')) else ret ())"

definition commit_all :: "'w machine \<Rightarrow> 'w git_plane \<Rightarrow> worktree \<Rightarrow> string \<Rightarrow> ('w, string) prog" where
  "commit_all M G wt message =
     seqE (assert_not_protected G (wt_branch wt))
       (seqE (plane_git M (wt_path wt) [''add'', ''-A''] None)
         (bindE (plane_git M (wt_path wt) [''status'', ''--porcelain''] None) (\<lambda>status.
           seqE (if strip (cm_stdout status) \<noteq> []
                 then seqE (plane_git M (wt_path wt)
                        [''-c'', ''user.name='' @ COMMITTER_NAME, ''-c'', ''user.email='' @ COMMITTER_EMAIL,
                         ''commit'', ''-m'', message] None) (ret ())
                 else ret ())
             (bindE (plane_git M (wt_path wt) [''rev-parse'', ''HEAD''] None) (\<lambda>head.
                ret (strip (cm_stdout head)))))))"

definition push_env :: "'w machine \<Rightarrow> 'w git_plane \<Rightarrow> (string, string) dict option" where
  "push_env M G =
     (if \<not> truthy (gp_push_key G) then None
      else Some (dict_set ''GIT_SSH_COMMAND''
             (''ssh -i '' @ the (gp_push_key G) @ '' -o StrictHostKeyChecking=yes -o IdentitiesOnly=yes'')
             (m_environ M)))"

definition git_push :: "'w machine \<Rightarrow> 'w git_plane \<Rightarrow> worktree \<Rightarrow> string \<Rightarrow> ('w, unit) prog" where
  "git_push M G wt remote =
     seqE (assert_not_protected G (wt_branch wt))
       (seqE (plane_git M (wt_path wt) [''push'', ''--set-upstream'', remote, wt_branch wt] (push_env M G)) (ret ()))"

definition has_changes_since :: "'w machine \<Rightarrow> 'w git_plane \<Rightarrow> worktree \<Rightarrow> string \<Rightarrow> ('w, bool) prog" where
  "has_changes_since M G wt base_branch =
     seqE (assert_not_protected G (wt_branch wt))
       (bindE (m_run M [''git'', ''diff'', ''--quiet'', base_branch, ''--''] (wt_path wt) None) (\<lambda>r.
          ret (cm_returncode r = 1)))"

definition git_diff :: "'w machine \<Rightarrow> 'w git_plane \<Rightarrow> worktree \<Rightarrow> string \<Rightarrow> int \<Rightarrow> ('w, string) prog" where
  "git_diff M G wt base_branch limit =
     seqE (assert_not_protected G (wt_branch wt))
       (seqE (m_run M [''git'', ''add'', ''-A''] (wt_path wt) None)
         (bindE (m_run M [''git'', ''diff'', ''--cached'', base_branch, ''--''] (wt_path wt) None) (\<lambda>r.
            ret (slice_to limit (cm_stdout r)))))"

definition plane_open_draft_pr ::
  "'w git_plane \<Rightarrow> worktree \<Rightarrow> string \<Rightarrow> string \<Rightarrow> string \<Rightarrow> ('w, pull_request) prog" where
  "plane_open_draft_pr G wt base_branch title body =
     seqE (assert_not_protected G (wt_branch wt))
       (gp_forge G (wt_repo_path wt) (wt_branch wt) base_branch title body)"

section \<open>Facts\<close>

lemma worktree_branch:
  assumes "worktree_create M repo root slug base w = (Inr wt, w')"
  shows "startswith (wt_branch wt) ''dear-agent/''" "is_valid_ref base"
proof -
  have "startswith (branch_of_slug slug) ''dear-agent/''" by (simp add: branch_of_slug_def startswith_def)
  with assms show "startswith (wt_branch wt) ''dear-agent/''" "is_valid_ref base"
    by (auto simp: worktree_create_def Let_def seqE_def elim!: bindE_cases split: if_splits)
qed

text \<open>A protected branch stops every operation before git is run.\<close>

lemma protected_stops:
  assumes "wt_branch wt \<in> set (gp_protected_branches G)"
  shows "\<exists>e. commit_all M G wt msg w = (Inl (ProtectedBranchError e), w)"
    and "\<exists>e. git_push M G wt remote w = (Inl (ProtectedBranchError e), w)"
    and "\<exists>e. has_changes_since M G wt base w = (Inl (ProtectedBranchError e), w)"
    and "\<exists>e. git_diff M G wt base limit w = (Inl (ProtectedBranchError e), w)"
    and "\<exists>e. plane_open_draft_pr G wt base title body w = (Inl (ProtectedBranchError e), w)"
  using assms
  by (simp_all add: commit_all_def git_push_def has_changes_since_def git_diff_def plane_open_draft_pr_def
      assert_not_protected_def seqE_def)

end
