(* ===== verification/Executor.thy ===== *)
theory Executor
  imports Notify Events Verify GitPlane Backends
begin

text \<open>
  The task executor (\<open>executor.py\<close>): claim, worktree, harness, verify gate, bounded review, commit, push,
  draft pull request, and the final transition and report.

  The runner, the reviewer and the sessions act on the machine; the notifier and the escalator, when present, send
  through one transport. Event values that are \<open>None\<close> are recorded as the text \<open>None\<close>.
  \<open>xc_sha256\<close> is the hexadecimal SHA-256 digest of a text.
\<close>

section \<open>State\<close>

text \<open>A \<open>Runner\<close>; \<open>rn_session_for\<close> is present when it also is a \<open>SessionProvider\<close>.\<close>

record 'w runner =
  rn_run :: "task \<Rightarrow> task_spec \<Rightarrow> worktree \<Rightarrow> ('w, run_result) prog"
  rn_session_for :: "(task \<Rightarrow> task_spec \<Rightarrow> ('w, 'w sandbox option) prog) option"

record review_verdict =
  rv_approved :: bool
  rv_summary :: string
  rv_notes :: string

record executed_task =
  xt_task_id :: string
  xt_branch :: string
  xt_commit :: "string option"
  xt_pr_url :: "string option"
  xt_run :: run_result
  xt_failure :: "failure_kind option"
  xt_detail :: "string option"
  xt_review :: "review_verdict option"

definition xt_ok :: "executed_task \<Rightarrow> bool" where
  "xt_ok x \<longleftrightarrow> xt_failure x = None"

record ('q, 'e, 't, 'w) executor =
  xc_queue :: "'q queue_ops"
  xc_runner :: "'w runner"
  xc_git :: "'w git_plane"
  xc_machine :: "'w machine"
  xc_repo_path :: string
  xc_worktrees_root :: string
  xc_transport :: "'t transport_ops"
  xc_notifier :: bool
  xc_escalator :: bool
  xc_verifier :: "'w verifier option"
  xc_events :: "'e event_ops option"
  xc_lease :: duration
  xc_session :: "'w sandbox option"
  xc_reviewer :: "(string \<Rightarrow> string \<Rightarrow> ('w, review_verdict) prog) option"
  xc_debate_rounds :: int
  xc_clock :: "nat \<Rightarrow> time"
  xc_sha256 :: "string \<Rightarrow> string"

record ('q, 'e, 't, 'w) exec_state =
  xs_queue :: 'q
  xs_events :: 'e
  xs_transport :: 't
  xs_world :: 'w
  xs_tick :: nat

section \<open>Texts\<close>

definition alnum_or_dash :: "char \<Rightarrow> char" where
  "alnum_or_dash c = (if isalnum c then c else CHR ''-'')"

definition task_slug :: "(string \<Rightarrow> string) \<Rightarrow> task \<Rightarrow> string" where
  "task_slug sha256 t =
     (let raw = or_else (t_subject t) (t_id t);
          slug = strip_chars ''-'' (map alnum_or_dash (lower raw));
          short = take 40 (join ''-'' (filter (\<lambda>w. w \<noteq> []) (split_on (CHR ''-'') slug)))
      in (if short \<noteq> [] then short else ''task'') @ ''-'' @ take 8 (sha256 (t_id t)))"

definition commit_message :: "task \<Rightarrow> task_spec \<Rightarrow> string" where
  "commit_message t sp =
     or_else (t_subject t)
       (''dear-agent: '' @ (if sp_instructions sp \<noteq> [] then hd (splitlines (sp_instructions sp)) else t_id t))"

definition pr_title :: "task \<Rightarrow> string" where
  "pr_title t = or_else (t_subject t) (''dear-agent: '' @ t_id t)"

definition pr_body :: "task \<Rightarrow> review_verdict option \<Rightarrow> string" where
  "pr_body t review =
     join newline
       ([''Task: `'' @ t_id t @ ''`'', [],
         ''Opened by an agent. A human reviews and lands it; agents never write `main`.''] @
        (case review of
           None \<Rightarrow> []
         | Some v \<Rightarrow>
             [[], ''Reviewer: '' @ (if rv_approved v then ''approved'' else ''requested a revision'') @ ''.''] @
             (if rv_summary v \<noteq> [] then [''_'' @ rv_summary v @ ''_''] else [])))"

definition revise_instructions :: "string \<Rightarrow> string \<Rightarrow> string" where
  "revise_instructions instructions notes =
     (if strip notes = [] then instructions
      else instructions @ newline @ newline @ ''---'' @ newline @
           ''A reviewer asked for a revision. Address these points:'' @ newline @ strip notes)"

section \<open>Steps\<close>

definition on_world :: "('w, 'r) prog \<Rightarrow> (('q, 'e, 't, 'w) exec_state, 'r) prog" where
  "on_world p = on_part xs_world (\<lambda>w s. s\<lparr>xs_world := w\<rparr>) p"

definition xc_now :: "('q, 'e, 't, 'w) executor \<Rightarrow> (('q, 'e, 't, 'w) exec_state, time) prog" where
  "xc_now X s = (Inr (xc_clock X (xs_tick s)), s\<lparr>xs_tick := Suc (xs_tick s)\<rparr>)"

definition xc_emit ::
  "('q, 'e, 't, 'w) executor \<Rightarrow> string \<Rightarrow> string \<Rightarrow> (string, string) dict \<Rightarrow>
    (('q, 'e, 't, 'w) exec_state, unit) prog" where
  "xc_emit X task_id kind data =
     (case xc_events X of
        None \<Rightarrow> ret ()
      | Some E \<Rightarrow> bindE (xc_now X) (\<lambda>now.
          modify (\<lambda>s. s\<lparr>xs_events := e_record E task_id kind data now (xs_events s)\<rparr>)))"

definition xc_transition ::
  "('q, 'e, 't, 'w) executor \<Rightarrow> task \<Rightarrow> task_state \<Rightarrow> evidence option \<Rightarrow> (('q, 'e, 't, 'w) exec_state, task) prog" where
  "xc_transition X t st ev = bindE (xc_now X) (\<lambda>now.
     on_part xs_queue (\<lambda>q s. s\<lparr>xs_queue := q\<rparr>) (q_transition (xc_queue X) t st ev now))"

definition xc_claim :: "('q, 'e, 't, 'w) executor \<Rightarrow> task \<Rightarrow> (('q, 'e, 't, 'w) exec_state, bool) prog" where
  "xc_claim X t = bindE (xc_now X) (\<lambda>now.
     on_part xs_queue (\<lambda>q s. s\<lparr>xs_queue := q\<rparr>)
       (\<lambda>q. case q_claim (xc_queue X) t (xc_lease X) now q of (b, q') \<Rightarrow> (Inr b, q')))"

text \<open>\<open>_run_harness\<close>: a runner that raises counts as a failed run.\<close>

definition run_harness ::
  "('q, 'e, 't, 'w) executor \<Rightarrow> task \<Rightarrow> task_spec \<Rightarrow> worktree \<Rightarrow> (('q, 'e, 't, 'w) exec_state, run_result) prog" where
  "run_harness X t sp wt =
     bindE (attempt (on_world (rn_run (xc_runner X) t sp wt))) (\<lambda>r.
       case r of
         Inr res \<Rightarrow> ret res
       | Inl e \<Rightarrow> ret \<lparr>rr_exit_code = 1, rr_stdout = [], rr_stderr = ''runner raised '' @ exn_name e,
                       rr_branch = Some (wt_branch wt), rr_commit = None, rr_pr_url = None, rr_extra = []\<rparr>)"

text \<open>\<open>_verify\<close>.\<close>

definition xc_verify ::
  "('q, 'e, 't, 'w) executor \<Rightarrow> task \<Rightarrow> task_spec \<Rightarrow> worktree \<Rightarrow> 'w verifier option \<Rightarrow>
    (('q, 'e, 't, 'w) exec_state, failure_kind option) prog" where
  "xc_verify X t sp wt verifier =
     (if \<not> truthy (sp_verify sp) then ret None
      else
        let cmd = the (sp_verify sp); active = (if verifier \<noteq> None then verifier else xc_verifier X) in
        case active of
          None \<Rightarrow> seqE (xc_emit X (t_id t) ''verify.blocked'' [(''command'', cmd)]) (ret (Some VERIFY_BLOCKED))
        | Some v \<Rightarrow>
            bindE (attempt (on_world (verifier_run v cmd (wt_path wt)))) (\<lambda>r.
              case r of
                Inl _ \<Rightarrow> seqE (xc_emit X (t_id t) ''verify.failed'' [(''command'', cmd), (''error'', ''verifier raised'')])
                           (ret (Some VERIFY_FAILED))
              | Inr res \<Rightarrow>
                  if vr_blocked res
                  then seqE (xc_emit X (t_id t) ''verify.blocked'' [(''command'', cmd)]) (ret (Some VERIFY_BLOCKED))
                  else if \<not> vr_ok res
                  then seqE (xc_emit X (t_id t) ''verify.failed''
                              [(''command'', cmd), (''exit_code'', show_int (vr_exit_code res))])
                         (ret (Some VERIFY_FAILED))
                  else seqE (xc_emit X (t_id t) ''verify.passed'' [(''command'', cmd)]) (ret None)))"

text \<open>One review of the debate: \<open>None\<close> when the diff or the review raised.\<close>

definition debate_ask ::
  "('q, 'e, 't, 'w) executor \<Rightarrow> (string \<Rightarrow> string \<Rightarrow> ('w, review_verdict) prog) \<Rightarrow> task \<Rightarrow> task_spec \<Rightarrow> worktree \<Rightarrow>
    (('q, 'e, 't, 'w) exec_state, review_verdict option) prog" where
  "debate_ask X reviewer t sp wt =
     bindE (attempt (on_world
         (bindE (git_diff (xc_machine X) (xc_git X) wt (sp_base_branch sp) 20000)
            (\<lambda>diff. reviewer diff (sp_instructions sp))))) (\<lambda>r.
       case r of
         Inl _ \<Rightarrow> seqE (xc_emit X (t_id t) ''review.skipped'' []) (ret None)
       | Inr v \<Rightarrow> seqE (xc_emit X (t_id t) (if rv_approved v then ''review.approved'' else ''review.revise'') [])
                    (ret (Some v)))"

text \<open>The loop of \<open>_debate\<close>, by the revisions that remain.\<close>

type_synonym debate_result = "run_result \<times> task_spec \<times> failure_kind option \<times> review_verdict option"

fun debate_loop ::
  "('q, 'e, 't, 'w) executor \<Rightarrow> (string \<Rightarrow> string \<Rightarrow> ('w, review_verdict) prog) \<Rightarrow> task \<Rightarrow> worktree \<Rightarrow>
    'w verifier option \<Rightarrow> nat \<Rightarrow> run_result \<Rightarrow> task_spec \<Rightarrow> failure_kind option \<Rightarrow> review_verdict option \<Rightarrow>
    (('q, 'e, 't, 'w) exec_state, debate_result) prog" where
  "debate_loop X rvw t wt vf 0 hrun sp failure review =
     bindE (debate_ask X rvw t sp wt) (\<lambda>v.
       ret (hrun, sp, failure, if v \<noteq> None then v else review))"
| "debate_loop X rvw t wt vf (Suc remaining) hrun sp failure review =
     bindE (debate_ask X rvw t sp wt) (\<lambda>v.
       case v of
         None \<Rightarrow> ret (hrun, sp, failure, review)
       | Some verdict \<Rightarrow>
           if rv_approved verdict then ret (hrun, sp, failure, Some verdict)
           else
             let revised = sp\<lparr>sp_instructions := revise_instructions (sp_instructions sp) (rv_notes verdict)\<rparr> in
             bindE (run_harness X t revised wt) (\<lambda>next_run.
               if \<not> rr_ok next_run then ret (hrun, sp, failure, Some verdict)
               else bindE (xc_verify X t revised wt vf) (\<lambda>next_failure.
                 if next_failure \<noteq> None then ret (next_run, revised, next_failure, Some verdict)
                 else debate_loop X rvw t wt vf remaining next_run revised next_failure (Some verdict))))"

definition debate ::
  "('q, 'e, 't, 'w) executor \<Rightarrow> task \<Rightarrow> task_spec \<Rightarrow> worktree \<Rightarrow> run_result \<Rightarrow> failure_kind option \<Rightarrow> 'w verifier option \<Rightarrow>
    (('q, 'e, 't, 'w) exec_state, debate_result) prog" where
  "debate X t sp wt hrun failure vf =
     (case xc_reviewer X of
        None \<Rightarrow> ret (hrun, sp, failure, None)
      | Some rvw \<Rightarrow>
          if xc_debate_rounds X \<le> 0 then ret (hrun, sp, failure, None)
          else debate_loop X rvw t wt vf (nat (xc_debate_rounds X)) hrun sp failure None)"

text \<open>The publish step of \<open>execute\<close>: failure, commit and pull request.\<close>

type_synonym publish_result = "failure_kind option \<times> string option \<times> string option"

definition publish ::
  "('q, 'e, 't, 'w) executor \<Rightarrow> task \<Rightarrow> task_spec \<Rightarrow> worktree \<Rightarrow> review_verdict option \<Rightarrow>
    (('q, 'e, 't, 'w) exec_state, publish_result) prog" where
  "publish X t sp wt review =
     (let M = xc_machine X; G = xc_git X;
          failed = (\<lambda>e c. if is_GitError e
                          then seqE (xc_emit X (t_id t) ''publish.failed'' []) (ret (Some PUBLISH_FAILED, c, None))
                          else raise e)
      in bindE (attempt (on_world (commit_all M G wt (commit_message t sp)))) (\<lambda>r.
           case r of
             Inl e \<Rightarrow> failed e None
           | Inr commit \<Rightarrow>
               bindE (attempt (on_world
                   (bindE (has_changes_since M G wt (sp_base_branch sp)) (\<lambda>changed.
                      if \<not> changed then ret (Some NO_CHANGES, Some commit, None)
                      else seqE (git_push M G wt ''origin'')
                             (bindE (plane_open_draft_pr G wt (sp_base_branch sp) (pr_title t) (pr_body t review))
                               (\<lambda>pr. ret (None, Some commit, Some (pr_url pr))))))))
                 (\<lambda>r2. case r2 of Inl e \<Rightarrow> failed e (Some commit) | Inr out \<Rightarrow> ret out)))"

text \<open>\<open>_report\<close>.\<close>

definition xc_report ::
  "('q, 'e, 't, 'w) executor \<Rightarrow> executed_task \<Rightarrow> string option \<Rightarrow> (('q, 'e, 't, 'w) exec_state, unit) prog" where
  "xc_report X ev recipient =
     (if \<not> truthy recipient then ret ()
      else bindE (asks (\<lambda>s. q_get (xc_queue X) (xt_task_id ev) (xs_queue s))) (\<lambda>found.
        case found of
          None \<Rightarrow> ret ()
        | Some t \<Rightarrow>
            if xt_failure ev \<noteq> None \<and> xc_escalator X
            then seqE (on_part xs_transport (\<lambda>tr s. s\<lparr>xs_transport := tr\<rparr>)
                        (escalate (xc_transport X) t (xt_run ev) (the recipient) (Some (xt_branch ev))
                           (xt_failure ev) (xt_detail ev)))
                   (ret ())
            else if \<not> xc_notifier X then ret ()
            else seqE (on_part xs_transport (\<lambda>tr s. s\<lparr>xs_transport := tr\<rparr>)
                        (notifier_status (xc_transport X) t (the recipient)
                           (if xt_ok ev then ''completed'' else ''harness failed'')
                           (Some \<lparr>li_branch = Some (xt_branch ev), li_commit = xt_commit ev, li_pr_url = xt_pr_url ev\<rparr>)))
                   (ret ())))"

section \<open>Execute\<close>

definition harness_failure :: "run_result \<Rightarrow> failure_kind" where
  "harness_failure hrun =
     (if rr_exit_code hrun = 127 then HARNESS_MISSING
      else if rr_exit_code hrun = 124 then TIMEOUT else HARNESS_FAILED)"

text \<open>Harness, verify, debate and publish: everything until the evidence is known.\<close>

definition produce ::
  "('q, 'e, 't, 'w) executor \<Rightarrow> task \<Rightarrow> task_spec \<Rightarrow> worktree \<Rightarrow> 'w verifier option \<Rightarrow>
    (('q, 'e, 't, 'w) exec_state, run_result \<times> task_spec \<times> review_verdict option \<times> publish_result) prog" where
  "produce X t sp wt vf =
     bindE (run_harness X t sp wt) (\<lambda>hrun.
       if \<not> rr_ok hrun then ret (hrun, sp, None, Some (harness_failure hrun), None, None)
       else bindE (xc_verify X t sp wt vf) (\<lambda>failure.
         bindE (if failure = None then debate X t sp wt hrun failure vf else ret (hrun, sp, failure, None))
           (\<lambda>(hrun', sp', failure', review).
             if failure' \<noteq> None then ret (hrun', sp', review, failure', None, None)
             else bindE (publish X t sp' wt review) (\<lambda>out. ret (hrun', sp', review, out)))))"

definition conclude ::
  "('q, 'e, 't, 'w) executor \<Rightarrow> task \<Rightarrow> worktree \<Rightarrow> string option \<Rightarrow>
    run_result \<times> task_spec \<times> review_verdict option \<times> publish_result \<Rightarrow>
    (('q, 'e, 't, 'w) exec_state, executed_task) prog" where
  "conclude X running wt recipient =
     (\<lambda>(hrun, sp, review, failure, commit, url).
       let ev = \<lparr>xt_task_id = t_id running, xt_branch = wt_branch wt, xt_commit = commit, xt_pr_url = url,
                 xt_run = hrun, xt_failure = failure,
                 xt_detail = (if failure \<in> {Some VERIFY_FAILED, Some VERIFY_BLOCKED} then sp_verify sp else None),
                 xt_review = review\<rparr>
       in bindE (xc_transition X running (if xt_ok ev then DONE else FAILED)
                   (Some \<lparr>ev_branch = Some (xt_branch ev), ev_commit = xt_commit ev, ev_pr_url = xt_pr_url ev\<rparr>))
            (\<lambda>final.
              let ev' = ev\<lparr>xt_task_id := t_id final\<rparr> in
              seqE (xc_emit X (t_id final) (if xt_ok ev' then ''task.done'' else ''task.failed'')
                      [(''failure'', case xt_failure ev' of None \<Rightarrow> ''None'' | Some k \<Rightarrow> failure_value k),
                       (''pr_url'', case xt_pr_url ev' of None \<Rightarrow> ''None'' | Some u \<Rightarrow> u)])
                (seqE (xc_report X ev' recipient) (ret ev'))))"

definition cleanup ::
  "('q, 'e, 't, 'w) executor \<Rightarrow> 'w sandbox option \<Rightarrow> worktree \<Rightarrow> (('q, 'e, 't, 'w) exec_state, unit) prog" where
  "cleanup X run_session wt =
     seqE (case run_session of
             None \<Rightarrow> ret ()
           | Some r \<Rightarrow> if (case xc_session X of None \<Rightarrow> False | Some s \<Rightarrow> sb_ident s = sb_ident r) then ret ()
                       else on_world (sb_close r))
       (seqE (case xc_session X of None \<Rightarrow> ret () | Some s \<Rightarrow> on_world (sb_close s))
         (on_world (worktree_remove (xc_machine X) wt)))"

definition open_session ::
  "('q, 'e, 't, 'w) executor \<Rightarrow> task \<Rightarrow> task_spec \<Rightarrow> (('q, 'e, 't, 'w) exec_state, 'w sandbox option) prog" where
  "open_session X t sp =
     (case rn_session_for (xc_runner X) of None \<Rightarrow> ret None | Some f \<Rightarrow> on_world (f t sp))"

text \<open>The verifier a run uses, in the session the runner names.\<close>

definition active_verifier ::
  "('q, 'e, 't, 'w) executor \<Rightarrow> 'w verifier option \<Rightarrow> 'w sandbox option \<Rightarrow> 'w verifier option" where
  "active_verifier X verifier run_session =
     (let active = (if verifier \<noteq> None then verifier else xc_verifier X)
      in case (run_session, active) of (Some sb, Some v) \<Rightarrow> Some (v\<lparr>vf_sandbox := sb\<rparr>) | _ \<Rightarrow> active)"

definition in_worktree ::
  "('q, 'e, 't, 'w) executor \<Rightarrow> task \<Rightarrow> task_spec \<Rightarrow> task \<Rightarrow> worktree \<Rightarrow> string option \<Rightarrow> 'w verifier option \<Rightarrow>
    (('q, 'e, 't, 'w) exec_state, executed_task) prog" where
  "in_worktree X t sp running wt recipient verifier =
     bindE (attempt (open_session X t sp)) (\<lambda>r.
       case r of
         Inl e \<Rightarrow> seqE (cleanup X None wt) (raise e)
       | Inr run_session \<Rightarrow>
           finallyE
             (bindE (produce X t sp wt (active_verifier X verifier run_session)) (conclude X running wt recipient))
             (cleanup X run_session wt))"

definition run_running ::
  "('q, 'e, 't, 'w) executor \<Rightarrow> task \<Rightarrow> task_spec \<Rightarrow> task \<Rightarrow> string option \<Rightarrow> 'w verifier option \<Rightarrow>
    (('q, 'e, 't, 'w) exec_state, executed_task) prog" where
  "run_running X t sp running recipient verifier =
     bindE (attempt (on_world (worktree_create (xc_machine X) (xc_repo_path X) (xc_worktrees_root X)
              (task_slug (xc_sha256 X) t) (sp_base_branch sp)))) (\<lambda>r.
       case r of
         Inl e \<Rightarrow> seqE (xc_transition X running FAILED None) (raise e)
       | Inr wt \<Rightarrow> in_worktree X t sp running wt recipient verifier)"

definition execute ::
  "('q, 'e, 't, 'w) executor \<Rightarrow> task \<Rightarrow> task_spec \<Rightarrow> string option \<Rightarrow> bool \<Rightarrow> 'w verifier option \<Rightarrow>
    (('q, 'e, 't, 'w) exec_state, executed_task) prog" where
  "execute X t sp recipient held verifier =
     seqE (if held then ret ()
           else bindE (xc_claim X t) (\<lambda>won.
             if won then ret () else raise (RuntimeError (''task '' @ t_id t @ '' is not claimable''))))
       (bindE (asks (\<lambda>s. q_get (xc_queue X) (t_id t) (xs_queue s))) (\<lambda>found.
          case found of
            None \<Rightarrow> raise AssertionError
          | Some running \<Rightarrow>
              seqE (xc_emit X (t_id t) ''task.claimed'' [])
                (run_running X t sp running recipient verifier)))"

section \<open>What the steps leave alone\<close>

definition same_queue :: "('q, 'e, 't, 'w) exec_state \<Rightarrow> ('q, 'e, 't, 'w) exec_state \<Rightarrow> bool" where
  "same_queue s s' \<longleftrightarrow> xs_queue s' = xs_queue s"

lemma same_queue_order: "reflp same_queue" "transp same_queue"
  by (auto simp: same_queue_def intro: reflpI transpI)

lemmas keeps_queue_intros =
  keeps_bind [OF same_queue_order(2)] keeps_seq [OF same_queue_order(2)]
  keeps_ret [OF same_queue_order(1)] keeps_finally [OF same_queue_order(2,1)]

lemma keeps_queue_on_world [simp]: "keeps same_queue (on_world p)"
  by (simp add: keeps_def on_world_def on_part_def same_queue_def case_prod_unfold)

lemma keeps_queue_emit [simp]: "keeps same_queue (xc_emit X i k d)"
  unfolding xc_emit_def
  by (auto split: option.split intro!: keeps_queue_intros
      simp: keeps_def [of _ "xc_now X"] xc_now_def keeps_def [of _ "modify _"] same_queue_def)

lemma keeps_queue_harness [simp]: "keeps same_queue (run_harness X t sp wt)"
  unfolding run_harness_def by (auto intro!: keeps_queue_intros split: sum.split)

lemma keeps_queue_verify [simp]: "keeps same_queue (xc_verify X t sp wt vf)"
  unfolding xc_verify_def Let_def
  by (auto intro!: keeps_queue_intros split: sum.split option.split)

lemma keeps_queue_ask [simp]: "keeps same_queue (debate_ask X rvw t sp wt)"
  unfolding debate_ask_def by (auto intro!: keeps_queue_intros split: sum.split)

lemma keeps_queue_loop [simp]: "keeps same_queue (debate_loop X rvw t wt vf n hrun sp failure review)"
  by (induction n arbitrary: hrun sp failure review)
    (auto intro!: keeps_queue_intros split: option.split simp: Let_def)

lemma keeps_queue_debate [simp]: "keeps same_queue (debate X t sp wt hrun failure vf)"
  unfolding debate_def by (auto intro!: keeps_queue_intros split: option.split)

lemma keeps_queue_publish [simp]: "keeps same_queue (publish X t sp wt review)"
  unfolding publish_def Let_def by (auto intro!: keeps_queue_intros split: sum.split)

lemma keeps_queue_produce [simp]: "keeps same_queue (produce X t sp wt vf)"
  unfolding produce_def by (auto intro!: keeps_queue_intros)

lemma keeps_queue_session [simp]: "keeps same_queue (open_session X t sp)"
  unfolding open_session_def by (auto intro!: keeps_queue_intros split: option.split)

lemma keeps_queue_cleanup [simp]: "keeps same_queue (cleanup X rs wt)"
  unfolding cleanup_def by (auto intro!: keeps_queue_intros split: option.split)

lemma keeps_queue_report [simp]: "keeps same_queue (xc_report X ev recipient)"
  unfolding xc_report_def
  by (auto intro!: keeps_queue_intros split: option.split
      simp: keeps_def [of _ "on_part _ _ _"] on_part_def same_queue_def case_prod_unfold)

lemma emit_returns: "\<exists>s'. xc_emit X i k d s = (Inr (), s') \<and> xs_queue s' = xs_queue s \<and> xs_world s' = xs_world s"
  by (cases "xc_events X") (auto simp: xc_emit_def bindE_def xc_now_def)

section \<open>The outcome of a run\<close>

definition evidence_of :: "executed_task \<Rightarrow> evidence" where
  "evidence_of ev = \<lparr>ev_branch = Some (xt_branch ev), ev_commit = xt_commit ev, ev_pr_url = xt_pr_url ev\<rparr>"

lemma moved_id [simp]: "t_id (moved st ev t) = t_id t"
  by (simp add: moved_def)

locale executing = task_queue Q store invar canon merge_ev idkey
  for Q :: "'q queue_ops" and store invar canon merge_ev idkey +
  fixes X :: "('q, 'e, 't, 'w) executor"
  assumes executor_queue: "xc_queue X = Q"
begin

lemma transition_settles:
  assumes inv: "invar (xs_queue s)" and t: "store (xs_queue s) (t_id t) = Some t"
  shows "\<exists>s'. xc_transition X t st ev s = (Inr (moved st (merge_ev ev (t_evidence t)) t), s') \<and>
    invar (xs_queue s') \<and> xs_world s' = xs_world s \<and>
    store (xs_queue s') = (store (xs_queue s))(t_id t \<mapsto> moved st (merge_ev ev (t_evidence t)) t)"
proof -
  let ?now = "xc_clock X (xs_tick s)"
  obtain q' where q': "q_transition Q t st ev ?now (xs_queue s) = (Inr (moved st (merge_ev ev (t_evidence t)) t), q')"
      "store q' = (store (xs_queue s))(t_id t \<mapsto> moved st (merge_ev ev (t_evidence t)) t)"
    using transition_ok [OF inv t refl, of st ev ?now] by (metis prod.collapse)
  moreover have "invar q'" using transition_invar [OF inv, of t st ev ?now] q'(1) by simp
  ultimately show ?thesis
    by (simp add: xc_transition_def bindE_def xc_now_def on_part_def executor_queue)
qed

text \<open>The two ways a run can leave the queue, and what it returns then.\<close>

definition outcome :: "task \<Rightarrow> 'q \<Rightarrow> (exn + executed_task) \<Rightarrow> 'q \<Rightarrow> bool" where
  "outcome running q r q' \<longleftrightarrow>
     invar q' \<and>
     (q' = q \<and> (\<exists>e. r = Inl e) \<or>
      (\<exists>ev. (\<forall>ev'. r = Inr ev' \<longrightarrow> ev' = ev) \<and> xt_task_id ev = t_id running \<and>
        store q' = (store q)(t_id running \<mapsto>
          moved (if xt_ok ev then DONE else FAILED) (merge_ev (Some (evidence_of ev)) (t_evidence running)) running)))"

lemma conclude_outcome:
  assumes run: "conclude X running wt recipient out s = (r, s')"
    and inv: "invar (xs_queue s)" and t: "store (xs_queue s) (t_id running) = Some running"
  shows "outcome running (xs_queue s) r (xs_queue s')"
proof -
  obtain hr sp review failure commit url where out: "out = (hr, sp, review, failure, commit, url)"
    by (cases out) auto
  let ?ev = "\<lparr>xt_task_id = t_id running, xt_branch = wt_branch wt, xt_commit = commit, xt_pr_url = url,
                 xt_run = hr, xt_failure = failure,
                 xt_detail = (if failure \<in> {Some VERIFY_FAILED, Some VERIFY_BLOCKED} then sp_verify sp else None),
                 xt_review = review\<rparr>"
  let ?st = "if xt_ok ?ev then DONE else FAILED" and ?e = "evidence_of ?ev"
  let ?t = "moved ?st (merge_ev (Some ?e) (t_evidence running)) running"
  obtain s1 where s1: "xc_transition X running ?st (Some ?e) s = (Inr ?t, s1)" "invar (xs_queue s1)"
      "store (xs_queue s1) = (store (xs_queue s))(t_id running \<mapsto> ?t)"
    using transition_settles [OF inv t] by blast
  let ?rest = "seqE (xc_emit X (t_id running) (if xt_ok ?ev then ''task.done'' else ''task.failed'')
      [(''failure'', case xt_failure ?ev of None \<Rightarrow> ''None'' | Some k \<Rightarrow> failure_value k),
       (''pr_url'', case xt_pr_url ?ev of None \<Rightarrow> ''None'' | Some u \<Rightarrow> u)])
      (seqE (xc_report X ?ev recipient) (ret ?ev))"
  have rest: "?rest s1 = (r, s')"
    using run s1(1) unfolding out conclude_def evidence_of_def by (simp add: bindE_Inr Let_def xt_ok_def)
  have "keeps same_queue ?rest" by (intro keeps_queue_intros) simp_all
  then have "same_queue s1 s'" using rest by (rule keepsD)
  then have "xs_queue s' = xs_queue s1" by (simp add: same_queue_def)
  moreover have "r = Inr ev' \<Longrightarrow> ev' = ?ev" for ev'
    using rest by (auto simp: seqE_def elim!: bindE_cases)
  ultimately show ?thesis using s1(2,3) unfolding outcome_def by (intro conjI disjI2 exI [of _ ?ev]) auto
qed

lemma in_worktree_outcome:
  assumes run: "in_worktree X t sp running wt recipient verifier s = (r, s')"
    and inv: "invar (xs_queue s)" and t: "store (xs_queue s) (t_id running) = Some running"
  shows "outcome running (xs_queue s) r (xs_queue s')"
proof -
  obtain x s1 where o: "open_session X t sp s = (x, s1)" by fastforce
  then have q1: "xs_queue s1 = xs_queue s" using keepsD [OF keeps_queue_session] by (fastforce simp: same_queue_def)
  show ?thesis
  proof (cases x)
    case (Inl e)
    let ?p = "seqE (cleanup X None wt) (raise e)"
    have p: "?p s1 = (r, s')" using run o Inl by (simp add: in_worktree_def)
    have "keeps same_queue ?p" by (intro keeps_queue_intros) simp
    then have "same_queue s1 s'" using p by (rule keepsD)
    then have "xs_queue s' = xs_queue s1" by (simp add: same_queue_def)
    moreover have "\<exists>e. r = Inl e" using p by (auto simp: seqE_def elim!: bindE_cases)
    ultimately show ?thesis using q1 inv by (simp add: outcome_def)
  next
    case (Inr rs)
    then obtain vf where fin: "finallyE (bindE (produce X t sp wt vf) (conclude X running wt recipient))
        (cleanup X rs wt) s1 = (r, s')"
      using run o by (simp add: in_worktree_def)
    obtain y s2 where body: "bindE (produce X t sp wt vf) (conclude X running wt recipient) s1 = (y, s2)" by fastforce
    obtain z s3 where clean: "cleanup X rs wt s2 = (z, s3)" by fastforce
    then have q3: "xs_queue s3 = xs_queue s2" using keepsD [OF keeps_queue_cleanup] by (fastforce simp: same_queue_def)
    have res: "s' = s3" "r = Inr ev \<Longrightarrow> y = Inr ev" "y = Inl e \<Longrightarrow> \<exists>e'. r = Inl e'" for ev e
      using fin body clean
      by (cases z; cases y; auto simp: finallyE_def seqE_def bindE_Inl bindE_Inr)+
    from body have "outcome running (xs_queue s) y (xs_queue s2)"
    proof (cases rule: bindE_cases)
      case (raised e)
      then have "xs_queue s2 = xs_queue s1" using keepsD [OF keeps_queue_produce] by (fastforce simp: same_queue_def)
      then show ?thesis using raised q1 inv by (simp add: outcome_def)
    next
      case (went_on out s1')
      then have "xs_queue s1' = xs_queue s1" using keepsD [OF keeps_queue_produce] by (fastforce simp: same_queue_def)
      with conclude_outcome [OF went_on(2)] inv t q1 show ?thesis by simp
    qed
    then show ?thesis using res q3 unfolding outcome_def by (cases y; cases r) auto
  qed
qed

definition settled :: "task \<Rightarrow> (exn + executed_task) \<Rightarrow> task \<Rightarrow> bool" where
  "settled running r t' \<longleftrightarrow>
     same_task running t' \<and>
     (case r of
        Inr ev \<Rightarrow> xt_task_id ev = t_id running \<and> t_state t' = (if xt_ok ev then DONE else FAILED) \<and>
          t_evidence t' = merge_ev (Some (evidence_of ev)) (t_evidence running) \<and> t_lease_until t' = None
      | Inl e \<Rightarrow> t' = running \<or> t_state t' \<in> {DONE, FAILED})"

lemma outcome_settled:
  assumes o: "outcome running q r q'" and t: "store q (t_id running) = Some running"
  shows "invar q' \<and> (\<exists>t'. store q' = (store q)(t_id running \<mapsto> t') \<and> settled running r t')"
  using o [unfolded outcome_def]
proof (elim conjE disjE exE)
  fix e assume "invar q'" "q' = q" "r = Inl e"
  then show ?thesis using t by (auto simp: settled_def intro!: exI [of _ running])
next
  fix ev assume "invar q'" "\<forall>ev'. r = Inr ev' \<longrightarrow> ev' = ev" "xt_task_id ev = t_id running"
    "store q' = (store q)(t_id running \<mapsto>
       moved (if xt_ok ev then DONE else FAILED) (merge_ev (Some (evidence_of ev)) (t_evidence running)) running)"
  then show ?thesis by (cases r) (auto simp: settled_def moved_def same_task_def intro!: exI)
qed

lemma running_settles:
  assumes run: "run_running X t sp running recipient verifier s = (r, s')"
    and inv: "invar (xs_queue s)" and t: "store (xs_queue s) (t_id running) = Some running"
  shows "invar (xs_queue s') \<and>
    (\<exists>t'. store (xs_queue s') = (store (xs_queue s))(t_id running \<mapsto> t') \<and> settled running r t')"
proof -
  let ?wc = "on_world (worktree_create (xc_machine X) (xc_repo_path X) (xc_worktrees_root X)
                           (task_slug (xc_sha256 X) t) (sp_base_branch sp)) :: (('q, 'e, 't, 'w) exec_state, worktree) prog"
  obtain x s1 where wc: "?wc s = (x, s1)" by fastforce
  have "same_queue s s1" using keeps_queue_on_world wc by (rule keepsD)
  then have q1: "xs_queue s1 = xs_queue s" by (simp add: same_queue_def)
  show ?thesis
  proof (cases x)
    case (Inl e)
    obtain s2 where s2: "xc_transition X running FAILED None s1 =
          (Inr (moved FAILED (merge_ev None (t_evidence running)) running), s2)" "invar (xs_queue s2)"
        "store (xs_queue s2) = (store (xs_queue s1))(t_id running \<mapsto> moved FAILED (merge_ev None (t_evidence running)) running)"
      using transition_settles [of s1] inv t q1 by metis
    have "s' = s2" "r = Inl e" using run wc Inl s2(1) by (simp_all add: run_running_def seqE_Inr)
    then show ?thesis using s2(2,3) q1 by (auto simp: settled_def moved_def same_task_def intro!: exI)
  next
    case (Inr wt)
    with run wc have "in_worktree X t sp running wt recipient verifier s1 = (r, s')"
      by (simp add: run_running_def)
    from in_worktree_outcome [OF this] inv t q1 have "outcome running (xs_queue s) r (xs_queue s')" by simp
    from outcome_settled [OF this t] show ?thesis .
  qed
qed

lemma execute_unclaimable:
  assumes "\<not> (\<exists>u. store (xs_queue s) (t_id t) = Some u \<and> t_state u = QUEUED)" and "invar (xs_queue s)"
  shows "\<exists>s'. execute X t sp recipient False vf s = (Inl (RuntimeError (''task '' @ t_id t @ '' is not claimable'')), s') \<and>
    xs_queue s' = xs_queue s \<and> xs_world s' = xs_world s \<and> xs_transport s' = xs_transport s"
  using claim_lost [OF assms(2,1), of "xc_lease X" "xc_clock X (xs_tick s)"]
  by (simp add: execute_def seqE_def bindE_def xc_claim_def xc_now_def on_part_def executor_queue)

lemma execute_held:
  assumes run: "execute X t sp recipient True vf s = (r, s')"
    and inv: "invar (xs_queue s)" and u: "store (xs_queue s) (t_id t) = Some u"
  shows "invar (xs_queue s') \<and> (\<exists>t'. store (xs_queue s') = (store (xs_queue s))(t_id t \<mapsto> t') \<and> settled u r t')"
proof -
  have id: "t_id u = t_id t" using store_okD [OF invar_store [OF inv] u] .
  obtain s1 where s1: "xc_emit X (t_id t) ''task.claimed'' [] s = (Inr (), s1)" "xs_queue s1 = xs_queue s"
    using emit_returns by blast
  have "q_get (xc_queue X) (t_id t) (xs_queue s) = Some u" using u by (simp add: executor_queue get_law [OF inv])
  then show ?thesis
    using run s1 running_settles [of t sp u recipient vf s1 r s'] inv u id
    by (simp add: execute_def seqE_Inr)
qed

lemma execute_claims:
  assumes run: "execute X t sp recipient False vf s = (r, s')"
    and inv: "invar (xs_queue s)" and u: "store (xs_queue s) (t_id t) = Some u" "t_state u = QUEUED"
  shows "invar (xs_queue s') \<and>
    (\<exists>now t'. store (xs_queue s') = (store (xs_queue s))(t_id t \<mapsto> t') \<and> settled (claimed (xc_lease X) now u) r t')"
proof -
  let ?now = "xc_clock X (xs_tick s)"
  obtain q1 where q1: "q_claim Q t (xc_lease X) ?now (xs_queue s) = (True, q1)"
      "store q1 = (store (xs_queue s))(t_id t \<mapsto> claimed (xc_lease X) ?now u)"
    using claim_ok [OF inv u, of "xc_lease X" ?now] by (metis prod.collapse)
  have i1: "invar q1" using claim_invar [OF inv, of t "xc_lease X" ?now] q1(1) by simp
  let ?s1 = "s\<lparr>xs_tick := Suc (xs_tick s), xs_queue := q1\<rparr>"
  have "xc_claim X t s = (Inr True, ?s1)"
    using q1(1) by (simp add: xc_claim_def bindE_def xc_now_def on_part_def executor_queue)
  then have "execute X t sp recipient True vf ?s1 = (r, s')"
    using run by (simp add: execute_def seqE_def [of "bindE _ _"] seqE_def [of "ret _"] bindE_def)
  from execute_held [OF this, of "claimed (xc_lease X) ?now u"] i1 q1(2) show ?thesis by auto
qed

end

section \<open>The durable executor\<close>

definition pg_executor ::
  "(string \<Rightarrow> string) \<Rightarrow> (pg_table, 'e, 't, 'w) executor \<Rightarrow> (pg_table, 'e, 't, 'w) executor" where
  "pg_executor coll X = X\<lparr>xc_queue := pg_ops coll\<rparr>"

interpretation pgexec: executing "pg_ops coll" pg_store pg_inv pg_canon coalesce_ev coll "pg_executor coll X" for coll X
  by unfold_locales (simp add: pg_executor_def)

text \<open>
  C2. Executing a task that is not queued (or not there) raises and touches nothing. Executing a queued
  task claims it and, whatever the harness, the verifier, the reviewer and git do, changes no other
  task; when it returns, the task is \<open>done\<close> exactly when the evidence has no failure and \<open>failed\<close>
  otherwise, holds no lease and carries the evidence; when it raises, the task is running still
  (its lease will expire), \<open>done\<close> or \<open>failed\<close>.
\<close>

theorem execute_settles_task:
  assumes "pg_inv (xs_queue s)" and "execute (pg_executor coll X) t sp recipient False vf s = (r, s')"
  shows "case pg_store (xs_queue s) (t_id t) of
     Some u \<Rightarrow>
       if t_state u = QUEUED
       then \<exists>t'. pg_store (xs_queue s') = (pg_store (xs_queue s))(t_id t \<mapsto> t') \<and> same_task u t' \<and>
         (case r of
            Inr ev \<Rightarrow> t_state t' = (if xt_ok ev then DONE else FAILED) \<and> t_lease_until t' = None \<and>
              t_evidence t' = coalesce_ev (Some (evidence_of ev)) (t_evidence u)
          | Inl e \<Rightarrow> t_state t' \<in> {RUNNING, DONE, FAILED})
       else (\<exists>e. r = Inl (RuntimeError e)) \<and> xs_queue s' = xs_queue s \<and> xs_world s' = xs_world s
   | None \<Rightarrow> (\<exists>e. r = Inl (RuntimeError e)) \<and> xs_queue s' = xs_queue s \<and> xs_world s' = xs_world s"
proof (cases "\<exists>u. pg_store (xs_queue s) (t_id t) = Some u \<and> t_state u = QUEUED")
  case True
  then obtain u where u: "pg_store (xs_queue s) (t_id t) = Some u" "t_state u = QUEUED" by blast
  from pgexec.execute_claims [OF assms(2,1) u] obtain now t' where
    eff: "pg_store (xs_queue s') = (pg_store (xs_queue s))(t_id t \<mapsto> t')"
      "pgexec.settled (claimed (xc_lease (pg_executor coll X)) now u) r t'" by blast
  then show ?thesis using u
    by (cases r) (auto simp: pgexec.settled_def claimed_def same_task_def intro!: exI [of _ t'])
next
  case False
  with pgexec.execute_unclaimable [OF False assms(1), of coll X sp recipient vf] assms(2) show ?thesis
    by (auto split: option.split)
qed

end
