(* ===== verification/ExecutorTrace.thy ===== *)
theory ExecutorTrace
  imports Executor
begin

text \<open>
  What a run does outside the queue. The machine is instrumented: it records every git
  command and every harness run, so that safety (what is pushed) and bounds (how often the harness
  runs) are statements about the recorded trace. The other collaborators (verifier, sandboxes, reviewer, forge)
  may do anything to the machine but record nothing.
\<close>

section \<open>An instrumented machine\<close>

datatype trace_event = Harness | Command "string list"

type_synonym 'w tracing = "'w \<times> trace_event list"

definition logged :: "'w machine \<Rightarrow> 'w tracing machine" where
  "logged M =
     \<lparr>m_run = (\<lambda>argv cwd env (w, l). case m_run M argv cwd env w of (r, w') \<Rightarrow> (r, w', l @ [Command argv])),
      m_resolve = (\<lambda>p (w, l). m_resolve M p w), m_exists = (\<lambda>p (w, l). m_exists M p w),
      m_mkdir = (\<lambda>p (w, l). case m_mkdir M p w of (r, w') \<Rightarrow> (r, w', l)),
      m_rmtree = (\<lambda>p (w, l). (m_rmtree M p w, l)), m_environ = m_environ M,
      m_timed_run = (\<lambda>argv cwd env n (w, l). case m_timed_run M argv cwd env n w of (r, w') \<Rightarrow> (r, w', l)),
      m_which = (\<lambda>b (w, l). m_which M b w), m_expanduser = m_expanduser M,
      m_listdir = (\<lambda>p (w, l). m_listdir M p w), m_read_text = (\<lambda>p (w, l). m_read_text M p w),
      m_write_text = (\<lambda>p x (w, l). case m_write_text M p x w of (r, w') \<Rightarrow> (r, w', l)),
      m_uuid = (\<lambda>(w, l). case m_uuid M w of (r, w') \<Rightarrow> (r, w', l))\<rparr>"

definition quiet :: "('w tracing, 'a) prog \<Rightarrow> bool" where
  "quiet p \<longleftrightarrow> (\<forall>s. snd (snd (p s)) = snd s)"

definition quiet_sandbox :: "'w tracing sandbox \<Rightarrow> bool" where
  "quiet_sandbox sb \<longleftrightarrow> (\<forall>argv p. quiet (sb_wrap sb argv p)) \<and> quiet (sb_close sb)"

definition quiet_verifier :: "'w tracing verifier \<Rightarrow> bool" where
  "quiet_verifier v \<longleftrightarrow> quiet_sandbox (vf_sandbox v) \<and> (\<forall>argv cwd n. quiet (vf_execute v argv cwd n))"

definition instrumented :: "'w machine \<Rightarrow> ('q, 'e, 't, 'w tracing) executor \<Rightarrow> bool" where
  "instrumented M X \<longleftrightarrow>
     xc_machine X = logged M \<and>
     (\<forall>t sp wt s. snd (snd (rn_run (xc_runner X) t sp wt s)) = snd s @ [Harness]) \<and>
     (\<forall>f t sp. rn_session_for (xc_runner X) = Some f \<longrightarrow>
        quiet (f t sp) \<and> (\<forall>s sb s'. f t sp s = (Inr (Some sb), s') \<longrightarrow> quiet_sandbox sb)) \<and>
     (\<forall>v. xc_verifier X = Some v \<longrightarrow> quiet_verifier v) \<and>
     (\<forall>sb. xc_session X = Some sb \<longrightarrow> quiet_sandbox sb) \<and>
     (\<forall>rvw d i. xc_reviewer X = Some rvw \<longrightarrow> quiet (rvw d i)) \<and>
     (\<forall>r b base title body. quiet (gp_forge (xc_git X) r b base title body))"

section \<open>Bounds on the trace\<close>

text \<open>Only agent branches that are not protected are pushed, and only to \<open>origin\<close>.\<close>

definition push_ok :: "string list \<Rightarrow> string list \<Rightarrow> bool" where
  "push_ok protected argv \<longleftrightarrow>
     take 2 argv = [''git'', ''push''] \<longrightarrow>
     (\<exists>b. argv = [''git'', ''push'', ''--set-upstream'', ''origin'', b] \<and>
        startswith b ''dear-agent/'' \<and> b \<notin> set protected)"

definition trace_ok :: "string list \<Rightarrow> nat \<Rightarrow> trace_event list \<Rightarrow> bool" where
  "trace_ok protected k l \<longleftrightarrow>
     (\<forall>argv. Command argv \<in> set l \<longrightarrow> push_ok protected argv) \<and> length (filter (\<lambda>e. e = Harness) l) \<le> k"

definition extends :: "string list \<Rightarrow> nat \<Rightarrow> 'w tracing \<Rightarrow> 'w tracing \<Rightarrow> bool" where
  "extends protected k s s' \<longleftrightarrow> (\<exists>l. snd s' = snd s @ l \<and> trace_ok protected k l)"

lemma extends_trans: "extends P a s s1 \<Longrightarrow> extends P b s1 s2 \<Longrightarrow> extends P (a + b) s s2"
  unfolding extends_def trace_ok_def by (force simp: add_mono)

lemma extends_same: "snd s' = snd s \<Longrightarrow> extends P k s s'"
  unfolding extends_def trace_ok_def by (intro exI [of _ "[]"]) auto

lemma extends_mono: "extends P a s s' \<Longrightarrow> a \<le> b \<Longrightarrow> extends P b s s'"
  unfolding extends_def trace_ok_def by fastforce

definition bounded :: "string list \<Rightarrow> nat \<Rightarrow> ('w tracing, 'a) prog \<Rightarrow> bool" where
  "bounded P k p \<longleftrightarrow> (\<forall>s. extends P k s (snd (p s)))"

lemma bounded_bind:
  assumes "bounded P a p" and "\<And>s x s1. p s = (Inr x, s1) \<Longrightarrow> bounded P b (f x)" and "a + b \<le> k"
  shows "bounded P k (bindE p f)"
  unfolding bounded_def
proof
  fix s
  obtain r s' where run: "bindE p f s = (r, s')" by (meson surj_pair)
  then have "extends P (a + b) s s'"
  proof (cases rule: bindE_cases)
    case (raised e)
    then show ?thesis using assms(1) extends_mono [of P a s s' "a + b"] unfolding bounded_def by (metis le_add1 snd_conv)
  next
    case (went_on x s1)
    with assms(1,2) have "extends P a s s1" "extends P b s1 s'" unfolding bounded_def by (metis snd_conv)+
    then show ?thesis by (rule extends_trans)
  qed
  with run assms(3) show "extends P k s (snd (bindE p f s))" by (auto intro: extends_mono)
qed

lemma bounded_quiet: "quiet p \<Longrightarrow> bounded P k p"
  by (simp add: quiet_def bounded_def extends_same)

lemma bounded_pure [simp]: "bounded P k (ret x)" "bounded P k (raise e)" "bounded P k (asks f)"
  by (simp_all only: bounded_def ret_simp raise_simp asks_simp snd_conv extends_same simp_thms)

lemma bounded_seq0: "bounded P 0 p \<Longrightarrow> bounded P 0 q \<Longrightarrow> bounded P 0 (seqE p q)"
  unfolding seqE_def by (rule bounded_bind) auto

lemma bounded_bind0: "bounded P 0 p \<Longrightarrow> (\<And>x. bounded P 0 (f x)) \<Longrightarrow> bounded P 0 (bindE p f)"
  by (rule bounded_bind) auto

lemma bounded_command:
  "push_ok P argv \<Longrightarrow> bounded P 0 (m_run (logged M) argv cwd env)"
  unfolding bounded_def extends_def logged_def
  by (auto simp: trace_ok_def split: prod.split)

lemma push_ok_other: "length argv < 2 \<or> argv ! 1 \<noteq> ''push'' \<Longrightarrow> push_ok P argv"
  by (cases argv; cases "tl argv") (auto simp: push_ok_def)

lemma bounded_plane_git:
  "push_ok P (''git'' # args) \<Longrightarrow> bounded P 0 (plane_git (logged M) path args env)"
  "push_ok P (''git'' # args) \<Longrightarrow> bounded P 0 (worktree_git (logged M) path args)"
  unfolding plane_git_def worktree_git_def by (auto intro!: bounded_bind0 bounded_command)

lemmas bounded_intros = bounded_bind0 bounded_seq0 bounded_plane_git bounded_command push_ok_other

lemma bounded_git:
  "bounded P 0 (assert_not_protected G b)"
  "bounded P 0 (commit_all (logged M) G wt msg)"
  "bounded P 0 (has_changes_since (logged M) G wt base)"
  "bounded P 0 (git_diff (logged M) G wt base limit)"
  "bounded P 0 (worktree_create (logged M) repo root slug base)"
  "bounded P 0 (worktree_remove (logged M) wt)"
proof -
  show a: "bounded P 0 (assert_not_protected G b)" for b by (simp add: assert_not_protected_def)
  show "bounded P 0 (commit_all (logged M) G wt msg)"
    unfolding commit_all_def by (auto intro!: bounded_intros a)
  show "bounded P 0 (has_changes_since (logged M) G wt base)"
    unfolding has_changes_since_def by (auto intro!: bounded_intros a)
  show "bounded P 0 (git_diff (logged M) G wt base limit)"
    unfolding git_diff_def by (auto intro!: bounded_intros a)
  have "quiet (m_mkdir (logged M) p)" "quiet (modify (m_rmtree (logged M) p))" for p
    by (auto simp: quiet_def logged_def split: prod.split)
  then have q: "bounded P 0 (m_mkdir (logged M) p)" "bounded P 0 (modify (m_rmtree (logged M) p))" for p
    by (simp_all only: bounded_quiet)
  show "bounded P 0 (worktree_create (logged M) repo root slug base)"
    unfolding worktree_create_def Let_def by (auto intro!: bounded_intros q)
  show "bounded P 0 (worktree_remove (logged M) wt)"
    unfolding worktree_remove_def by (auto intro!: bounded_intros q)
qed

lemma bounded_push:
  assumes "startswith (wt_branch wt) ''dear-agent/''"
  shows "bounded (gp_protected_branches G) 0 (git_push (logged M) G wt ''origin'')"
proof (cases "wt_branch wt \<in> set (gp_protected_branches G)")
  case True
  then have "quiet (git_push (logged M) G wt ''origin'')"
    by (simp add: quiet_def git_push_def assert_not_protected_def seqE_def)
  then show ?thesis by (rule bounded_quiet)
next
  case False
  with assms show ?thesis
    unfolding git_push_def by (auto intro!: bounded_seq0 bounded_plane_git bounded_git simp: push_ok_def)
qed

section \<open>Bounds on the executor\<close>

definition trace_of :: "('q, 'e, 't, 'w tracing) exec_state \<Rightarrow> trace_event list" where
  "trace_of s = snd (xs_world s)"

text \<open>As \<open>bounded\<close>, over the executor's state.\<close>

definition xbounded :: "string list \<Rightarrow> nat \<Rightarrow> (('q, 'e, 't, 'w tracing) exec_state, 'a) prog \<Rightarrow> bool" where
  "xbounded P k p \<longleftrightarrow> (\<forall>s. extends P k (xs_world s) (xs_world (snd (p s))))"

lemma xbounded_world: "bounded P k p \<Longrightarrow> xbounded P k (on_world p)"
  by (simp add: bounded_def xbounded_def on_world_def on_part_def case_prod_unfold del: split_paired_All)

lemma xbounded_same: "(\<And>s. xs_world (snd (p s)) = xs_world s) \<Longrightarrow> xbounded P k p"
  by (simp add: xbounded_def extends_same)

lemma xbounded_pure [simp]: "xbounded P k (ret x)" "xbounded P k (raise e)" "xbounded P k (asks f)"
  by (rule xbounded_same, simp)+

lemma xbounded_emit [simp]: "xbounded P k (xc_emit X i kd d)"
  by (rule xbounded_same) (metis emit_returns snd_conv)

lemma xbounded_attempt [simp]: "xbounded P k (attempt p) \<longleftrightarrow> xbounded P k p"
  by (simp add: xbounded_def attempt_def case_prod_unfold)

lemma xbounded_bind:
  assumes "xbounded P a p" and "\<And>s x s1. p s = (Inr x, s1) \<Longrightarrow> xbounded P b (f x)" and "a + b \<le> k"
  shows "xbounded P k (bindE p f)"
  unfolding xbounded_def
proof
  fix s
  obtain r s' where run: "bindE p f s = (r, s')" by (meson surj_pair)
  then have "extends P (a + b) (xs_world s) (xs_world s')"
  proof (cases rule: bindE_cases)
    case (raised e)
    then have "extends P a (xs_world s) (xs_world s')" using assms(1) unfolding xbounded_def by (metis snd_conv)
    then show ?thesis by (rule extends_mono) simp
  next
    case (went_on x s1)
    with assms(1,2) have "extends P a (xs_world s) (xs_world s1)" "extends P b (xs_world s1) (xs_world s')"
      unfolding xbounded_def by (metis snd_conv)+
    then show ?thesis by (rule extends_trans)
  qed
  with run assms(3) show "extends P k (xs_world s) (xs_world (snd (bindE p f s)))" by (auto intro: extends_mono)
qed

lemma xbounded_bind0: "xbounded P k p \<Longrightarrow> (\<And>x. xbounded P 0 (f x)) \<Longrightarrow> xbounded P k (bindE p f)"
  by (rule xbounded_bind) auto

lemma xbounded_seq0: "xbounded P k p \<Longrightarrow> xbounded P 0 q \<Longrightarrow> xbounded P k (seqE p q)"
  unfolding seqE_def by (rule xbounded_bind0) auto

lemma xbounded_finally: "xbounded P k p \<Longrightarrow> xbounded P 0 c \<Longrightarrow> xbounded P k (finallyE p c)"
  unfolding finallyE_def by (rule xbounded_bind0) (auto intro!: xbounded_seq0 split: sum.split)

lemma xbounded_mono: "xbounded P a p \<Longrightarrow> a \<le> b \<Longrightarrow> xbounded P b p"
  unfolding xbounded_def using extends_mono by blast

lemmas xbounded_intros = xbounded_bind0 xbounded_seq0 xbounded_finally xbounded_world bounded_git bounded_quiet

lemma quiet_bind: "quiet p \<Longrightarrow> (\<And>x. quiet (f x)) \<Longrightarrow> quiet (bindE p f)"
  unfolding quiet_def bindE_def by (simp add: case_prod_unfold del: split_paired_All split: sum.split)

lemma quiet_attempt [simp]: "quiet (attempt p) \<longleftrightarrow> quiet p"
  by (simp add: quiet_def attempt_def case_prod_unfold)

lemma quiet_pure [simp]: "quiet (ret x)" "quiet (raise e)"
  by (simp_all only: quiet_def ret_simp raise_simp snd_conv simp_thms)

lemma quiet_verify: "quiet_verifier v \<Longrightarrow> quiet (verifier_run v cmd path)"
  unfolding verifier_run_def quiet_verifier_def quiet_sandbox_def
  by (auto intro!: quiet_bind split: option.split sum.split exn.split)

lemma xbounded_harness:
  assumes "instrumented M X"
  shows "xbounded P 1 (run_harness X t sp wt)"
proof -
  have "bounded P 1 (rn_run (xc_runner X) t sp wt)"
    using assms by (auto simp: bounded_def extends_def instrumented_def trace_ok_def)
  from xbounded_world [OF this] show ?thesis
    unfolding run_harness_def by (intro xbounded_bind0) (auto split: sum.split)
qed

lemma xbounded_verify:
  assumes "instrumented M X" and "\<forall>v. vf = Some v \<longrightarrow> quiet_verifier v"
  shows "xbounded P 0 (xc_verify X t sp wt vf)"
  using assms unfolding xc_verify_def Let_def
  by (auto intro!: xbounded_intros quiet_verify split: sum.split option.split simp: instrumented_def)

lemma xbounded_ask:
  assumes "instrumented M X" and "xc_reviewer X = Some rvw"
  shows "xbounded P 0 (debate_ask X rvw t sp wt)"
proof -
  from assms have q: "quiet (rvw d i)" and M: "xc_machine X = logged M" for d i by (auto simp: instrumented_def)
  have "bounded P 0 (bindE (git_diff (xc_machine X) (xc_git X) wt b n) (\<lambda>diff. rvw diff i))" for b n i
    unfolding M by (intro bounded_bind0 bounded_git bounded_quiet q)
  then show ?thesis unfolding debate_ask_def by (intro xbounded_bind0) (auto intro!: xbounded_seq0 xbounded_world split: sum.split)
qed

lemma xbounded_loop:
  assumes instr: "instrumented M X" and rvw: "xc_reviewer X = Some rvw" and vf: "\<forall>v. vf = Some v \<longrightarrow> quiet_verifier v"
  shows "xbounded P n (debate_loop X rvw t wt vf n hrun sp failure review)"
proof (induction n arbitrary: hrun sp failure review)
  case 0 show ?case by (auto intro!: xbounded_bind0 xbounded_ask [OF instr rvw])
next
  case (Suc n)
  have again: "xbounded P (Suc n) (bindE (run_harness X t sp' wt) (\<lambda>next_run.
      if \<not> rr_ok next_run then ret (hrun, sp, failure, Some verdict)
      else bindE (xc_verify X t sp' wt vf) (\<lambda>next_failure.
        if next_failure \<noteq> None then ret (next_run, sp', next_failure, Some verdict)
        else debate_loop X rvw t wt vf n next_run sp' next_failure (Some verdict))))" for sp' verdict
  proof (rule xbounded_bind [where a = 1 and b = n, OF xbounded_harness [OF instr]])
    show "xbounded P n (if \<not> rr_ok x then ret (hrun, sp, failure, Some verdict)
      else bindE (xc_verify X t sp' wt vf) (\<lambda>next_failure.
        if next_failure \<noteq> None then ret (x, sp', next_failure, Some verdict)
        else debate_loop X rvw t wt vf n x sp' next_failure (Some verdict)))" for x
      by (auto intro!: xbounded_bind [where a = 0 and b = n] xbounded_verify [OF instr vf] Suc.IH)
  qed simp
  show ?case
    unfolding debate_loop.simps Let_def
    by (rule xbounded_bind [where a = 0 and b = "Suc n", OF xbounded_ask [OF instr rvw]])
      (auto intro!: again split: option.split)
qed

lemma xbounded_debate:
  assumes "instrumented M X" and "\<forall>v. vf = Some v \<longrightarrow> quiet_verifier v"
  shows "xbounded P (nat (xc_debate_rounds X)) (debate X t sp wt hrun failure vf)"
  unfolding debate_def using assms by (auto intro!: xbounded_loop split: option.split)

lemma xbounded_publish:
  assumes instr: "instrumented M X" and b: "startswith (wt_branch wt) ''dear-agent/''"
  shows "xbounded (gp_protected_branches (xc_git X)) 0 (publish X t sp wt review)"
proof -
  let ?P = "gp_protected_branches (xc_git X)"
  have M: "xc_machine X = logged M" using instr by (simp add: instrumented_def)
  have q: "quiet (gp_forge (xc_git X) r b base title body)" for r b base title body
    using instr by (simp add: instrumented_def)
  have forge: "bounded ?P 0 (plane_open_draft_pr (xc_git X) wt base title body)" for base title body
    unfolding plane_open_draft_pr_def by (intro bounded_seq0 bounded_git bounded_quiet q)
  have steps: "bounded ?P 0 (bindE (has_changes_since (logged M) (xc_git X) wt base) (\<lambda>changed.
       if \<not> changed then ret (Some NO_CHANGES, Some commit, None)
       else seqE (git_push (logged M) (xc_git X) wt ''origin'')
              (bindE (plane_open_draft_pr (xc_git X) wt base title body)
                (\<lambda>pr. ret (None, Some commit, Some (pr_url pr))))))" for base title body commit
  proof (rule bounded_bind0)
    show "bounded ?P 0 (if \<not> changed then ret (Some NO_CHANGES, Some commit, None)
       else seqE (git_push (logged M) (xc_git X) wt ''origin'')
              (bindE (plane_open_draft_pr (xc_git X) wt base title body)
                (\<lambda>pr. ret (None, Some commit, Some (pr_url pr)))))" for changed
      by (simp, intro impI bounded_seq0 bounded_bind0 bounded_push [OF b] forge bounded_pure)
  qed (rule bounded_git)
  show ?thesis
    unfolding publish_def Let_def M
    by (auto intro!: xbounded_bind0 xbounded_seq0 xbounded_world bounded_git steps split: sum.split)
qed

lemma xbounded_produce:
  assumes instr: "instrumented M X" and vf: "\<forall>v. vf = Some v \<longrightarrow> quiet_verifier v"
    and b: "startswith (wt_branch wt) ''dear-agent/''"
  shows "xbounded (gp_protected_branches (xc_git X)) (1 + nat (xc_debate_rounds X)) (produce X t sp wt vf)"
proof -
  let ?P = "gp_protected_branches (xc_git X)" and ?n = "nat (xc_debate_rounds X)"
  have tail: "xbounded ?P 0 (case res of (hrun', sp', failure', review) \<Rightarrow>
      if failure' \<noteq> None then ret (hrun', sp', review, failure', None, None)
      else bindE (publish X t sp' wt review) (\<lambda>out. ret (hrun', sp', review, out)))" for res
    by (auto intro!: xbounded_bind0 xbounded_publish [OF instr b] split: prod.split)
  have mid: "xbounded ?P ?n (if failure = None then debate X t sp wt hr failure vf else ret (hr, sp, failure, None))"
    for failure hr using xbounded_debate [OF instr vf] by simp
  have after: "xbounded ?P ?n (bindE (xc_verify X t sp wt vf) (\<lambda>failure.
         bindE (if failure = None then debate X t sp wt hr failure vf else ret (hr, sp, failure, None))
           (\<lambda>(hrun', sp', failure', review).
             if failure' \<noteq> None then ret (hrun', sp', review, failure', None, None)
             else bindE (publish X t sp' wt review) (\<lambda>out. ret (hrun', sp', review, out)))))" for hr
    by (rule xbounded_bind [where a = 0 and b = ?n, OF xbounded_verify [OF instr vf] xbounded_bind0 [OF mid tail]]) simp
  show ?thesis
    unfolding produce_def
  proof (rule xbounded_bind [where a = 1 and b = ?n, OF xbounded_harness [OF instr]])
    show "xbounded ?P ?n (if \<not> rr_ok hr then ret (hr, sp, None, Some (harness_failure hr), None, None)
       else bindE (xc_verify X t sp wt vf) (\<lambda>failure.
         bindE (if failure = None then debate X t sp wt hr failure vf else ret (hr, sp, failure, None))
           (\<lambda>(hrun', sp', failure', review).
             if failure' \<noteq> None then ret (hrun', sp', review, failure', None, None)
             else bindE (publish X t sp' wt review) (\<lambda>out. ret (hrun', sp', review, out)))))" for hr
      using after [of hr] by (cases "rr_ok hr") simp_all
  qed simp
qed

lemma xbounded_transition: "xbounded P k (xc_transition X t st ev)"
  by (rule xbounded_same) (simp add: xc_transition_def bindE_def xc_now_def on_part_def case_prod_unfold)

lemma xbounded_report: "xbounded P k (xc_report X ev recipient)"
proof (rule xbounded_same)
  fix s show "xs_world (snd (xc_report X ev recipient s)) = xs_world s"
    by (auto simp: xc_report_def seqE_def bindE_def on_part_def split: prod.split sum.split option.split)
qed

lemma xbounded_conclude: "xbounded P 0 (conclude X running wt recipient out)"
proof -
  obtain hr sp review failure commit url where "out = (hr, sp, review, failure, commit, url)" by (cases out) auto
  then show ?thesis
    unfolding conclude_def Let_def
    by (simp only: split_conv) (intro xbounded_bind0 xbounded_seq0 xbounded_transition xbounded_emit xbounded_report xbounded_pure)
qed

lemma xbounded_cleanup:
  assumes "instrumented M X" and "\<forall>sb. rs = Some sb \<longrightarrow> quiet_sandbox sb"
  shows "xbounded P 0 (cleanup X rs wt)"
proof -
  have M: "xc_machine X = logged M" and s: "\<forall>sb. xc_session X = Some sb \<longrightarrow> quiet (sb_close sb)"
    using assms(1) by (auto simp: instrumented_def quiet_sandbox_def)
  have r: "\<forall>sb. rs = Some sb \<longrightarrow> quiet (sb_close sb)" using assms(2) by (simp add: quiet_sandbox_def)
  show ?thesis
    unfolding cleanup_def M using s r
    by (intro xbounded_seq0 xbounded_world bounded_git) (auto intro!: xbounded_world bounded_quiet split: option.split)
qed

lemma xbounded_in_worktree:
  assumes instr: "instrumented M X" and vf: "\<forall>v. vf = Some v \<longrightarrow> quiet_verifier v"
    and b: "startswith (wt_branch wt) ''dear-agent/''"
  shows "xbounded (gp_protected_branches (xc_git X)) (1 + nat (xc_debate_rounds X))
    (in_worktree X t sp running wt recipient vf)"
proof -
  let ?P = "gp_protected_branches (xc_git X)" and ?n = "1 + nat (xc_debate_rounds X)"
  have q: "quiet_verifier v" if "xc_verifier X = Some v" for v using instr that by (simp add: instrumented_def)
  have ses: "xbounded ?P 0 (open_session X t sp)"
    using instr unfolding open_session_def
    by (auto intro!: xbounded_world bounded_quiet simp: instrumented_def split: option.split)
  have sb: "quiet_sandbox sb" if "open_session X t sp s = (Inr (Some sb), s1)" for s sb s1
  proof -
    from that obtain f w' where "rn_session_for (xc_runner X) = Some f" "f t sp (xs_world s) = (Inr (Some sb), w')"
      by (cases "rn_session_for (xc_runner X)") (auto simp: open_session_def on_world_def on_part_def split: prod.splits)
    with instr show ?thesis unfolding instrumented_def by blast
  qed
  show ?thesis
    unfolding in_worktree_def
  proof (rule xbounded_bind [where a = 0 and b = ?n])
    fix s x s1 assume "attempt (open_session X t sp) s = (Inr x, s1)"
    then have x: "open_session X t sp s = (x, s1)" by (auto simp: attempt_def split: prod.splits)
    show "xbounded ?P ?n (case x of
         Inl e \<Rightarrow> seqE (cleanup X None wt) (raise e)
       | Inr run_session \<Rightarrow>
           finallyE
             (bindE (produce X t sp wt (active_verifier X vf run_session)) (conclude X running wt recipient))
             (cleanup X run_session wt))"
    proof (cases x)
      case (Inl e)
      have "xbounded ?P ?n (seqE (cleanup X None wt) (raise e) :: (('b, 'c, 'd, 'a tracing) exec_state, executed_task) prog)"
        by (rule xbounded_mono [of _ 0]) (auto intro!: xbounded_seq0 xbounded_cleanup [OF instr])
      with Inl show ?thesis by simp
    next
      case (Inr rs)
      with x sb have rs: "\<forall>sb. rs = Some sb \<longrightarrow> quiet_sandbox sb" by auto
      let ?active = "if vf \<noteq> None then vf else xc_verifier X"
      have act: "\<forall>v. ?active = Some v \<longrightarrow> quiet_verifier v" using vf q by auto
      have "\<forall>v. active_verifier X vf rs = Some v \<longrightarrow> quiet_verifier v"
        using act rs unfolding active_verifier_def Let_def
        by (cases rs; cases ?active) (auto simp: quiet_verifier_def split: if_splits)
      then show ?thesis
        unfolding Inr sum.case
        by (intro xbounded_finally xbounded_bind0 xbounded_produce [OF instr _ b] xbounded_conclude xbounded_cleanup [OF instr rs])
    qed
  qed (simp_all add: ses)
qed

lemma xbounded_execute:
  assumes instr: "instrumented M X" and vf: "\<forall>v. vf = Some v \<longrightarrow> quiet_verifier v"
  shows "xbounded (gp_protected_branches (xc_git X)) (1 + nat (xc_debate_rounds X))
    (execute X t sp recipient held vf)"
proof -
  let ?P = "gp_protected_branches (xc_git X)" and ?n = "1 + nat (xc_debate_rounds X)"
  have M: "xc_machine X = logged M" using instr by (simp add: instrumented_def)
  have running: "xbounded ?P ?n (run_running X t sp running recipient vf)" for running
    unfolding run_running_def
  proof (rule xbounded_bind [where a = 0 and b = ?n])
    show "xbounded ?P 0 (attempt (on_world (worktree_create (xc_machine X) (xc_repo_path X) (xc_worktrees_root X)
        (task_slug (xc_sha256 X) t) (sp_base_branch sp))))"
      by (simp add: M xbounded_world bounded_git)
    fix s x s1
    assume "attempt (on_world (worktree_create (xc_machine X) (xc_repo_path X) (xc_worktrees_root X)
        (task_slug (xc_sha256 X) t) (sp_base_branch sp))) s = (Inr x, s1)"
    then have x: "x = Inr wt \<Longrightarrow> startswith (wt_branch wt) ''dear-agent/''" for wt
      by (auto simp: attempt_def on_world_def on_part_def split: prod.splits dest: worktree_branch)
    show "xbounded ?P ?n (case x of Inl e \<Rightarrow> seqE (xc_transition X running FAILED None) (raise e)
         | Inr wt \<Rightarrow> in_worktree X t sp running wt recipient vf)"
    proof (cases x)
      case (Inl e)
      have "xbounded ?P ?n (seqE (xc_transition X running FAILED None) (raise e) :: (('b, 'c, 'd, 'a tracing) exec_state, executed_task) prog)"
        by (intro xbounded_seq0 xbounded_transition xbounded_pure)
      with Inl show ?thesis by simp
    next
      case (Inr wt)
      then show ?thesis using xbounded_in_worktree [OF instr vf x [OF Inr]] by simp
    qed
  qed simp
  have claim: "xbounded ?P 0 (xc_claim X t)"
    by (rule xbounded_same) (simp add: xc_claim_def bindE_def xc_now_def on_part_def case_prod_unfold)
  show ?thesis
    unfolding execute_def seqE_def [of "if held then ret () else _"]
  proof (rule xbounded_bind [where a = 0 and b = ?n])
    show "xbounded ?P ?n (bindE (asks (\<lambda>s. q_get (xc_queue X) (t_id t) (xs_queue s))) (\<lambda>found.
          case found of None \<Rightarrow> raise AssertionError
          | Some running \<Rightarrow> seqE (xc_emit X (t_id t) ''task.claimed'' []) (run_running X t sp running recipient vf)))"
      unfolding seqE_def
      by (rule xbounded_bind [where a = 0 and b = ?n])
        (auto intro!: xbounded_bind [where a = 0 and b = ?n] running split: option.split)
  qed (auto intro!: xbounded_bind0 claim)
qed

section \<open>What was verified\<close>

lemma verify_passed:
  assumes "xc_verify X t sp wt vf s = (Inr None, s')" and "truthy (sp_verify sp)"
  shows "\<exists>v res. (if vf \<noteq> None then vf else xc_verifier X) = Some v \<and> vr_ok res \<and>
    verifier_run v (the (sp_verify sp)) (wt_path wt) (xs_world s) = (Inr res, xs_world s')"
proof -
  let ?active = "if vf \<noteq> None then vf else xc_verifier X" and ?cmd = "the (sp_verify sp)"
  have emit: "seqE (xc_emit X i k d) (ret x) s1 = (Inr y, s2) \<Longrightarrow> y = x \<and> xs_world s2 = xs_world s1" for i k d x y s1 s2
    using emit_returns [of X i k d s1] by (auto simp: seqE_Inr)
  from assms obtain v where v: "?active = Some v"
    by (cases ?active) (auto simp: xc_verify_def Let_def dest!: emit)
  obtain x w1 where run: "verifier_run v ?cmd (wt_path wt) (xs_world s) = (x, w1)" by (meson surj_pair)
  let ?s1 = "s\<lparr>xs_world := w1\<rparr>"
  have step: "xc_verify X t sp wt vf s =
      (case x of
         Inl _ \<Rightarrow> seqE (xc_emit X (t_id t) ''verify.failed'' [(''command'', ?cmd), (''error'', ''verifier raised'')])
                    (ret (Some VERIFY_FAILED))
       | Inr res \<Rightarrow>
           if vr_blocked res
           then seqE (xc_emit X (t_id t) ''verify.blocked'' [(''command'', ?cmd)]) (ret (Some VERIFY_BLOCKED))
           else if \<not> vr_ok res
           then seqE (xc_emit X (t_id t) ''verify.failed''
                       [(''command'', ?cmd), (''exit_code'', show_int (vr_exit_code res))])
                  (ret (Some VERIFY_FAILED))
           else seqE (xc_emit X (t_id t) ''verify.passed'' [(''command'', ?cmd)]) (ret None)) ?s1"
    using assms(2) v run unfolding xc_verify_def Let_def v by (simp add: on_world_def on_part_def)
  with assms(1) obtain res where "x = Inr res" "vr_ok res" "xs_world s' = w1"
    by (auto split: sum.splits if_splits dest!: emit)
  with v run show ?thesis by blast
qed

lemma publish_committed:
  assumes "publish X t sp wt review s = (Inr (None, c, u), s')"
  shows "\<exists>commit w2. c = Some commit \<and>
    commit_all (xc_machine X) (xc_git X) wt (commit_message t sp) (xs_world s) = (Inr commit, w2)"
proof -
  obtain x w2 where run: "commit_all (xc_machine X) (xc_git X) wt (commit_message t sp) (xs_world s) = (x, w2)"
    by (meson surj_pair)
  with assms show ?thesis
    by (cases x) (auto simp: publish_def Let_def on_world_def on_part_def seqE_def elim!: bindE_cases
        split: if_splits sum.splits prod.splits)
qed

lemma produce_verified:
  assumes run: "produce X t sp wt vf s = (Inr (hr, sp', review, None, c, u), s')"
    and "xc_reviewer X = None \<or> xc_debate_rounds X \<le> 0" and "truthy (sp_verify sp)"
  shows "\<exists>v w0 res w1 commit w2. (if vf \<noteq> None then vf else xc_verifier X) = Some v \<and> vr_ok res \<and>
    verifier_run v (the (sp_verify sp)) (wt_path wt) w0 = (Inr res, w1) \<and>
    commit_all (xc_machine X) (xc_git X) wt (commit_message t sp) w1 = (Inr commit, w2) \<and> c = Some commit"
proof -
  have nd: "debate X t sp wt h None vf = ret (h, sp, None, None)" for h
    using assms(2) by (auto simp: debate_def split: option.split)
  from run obtain h s1 s2 where h: "rr_ok h" and ver: "xc_verify X t sp wt vf s1 = (Inr None, s2)"
    and pub: "publish X t sp wt None s2 = (Inr (None, c, u), s')"
    unfolding produce_def
    by (auto elim!: bindE_cases simp: nd split: if_splits)
  from verify_passed [OF ver assms(3)] publish_committed [OF pub] show ?thesis by metis
qed

lemma finally_Inr:
  assumes "finallyE p c s = (Inr x, s')"
  obtains s1 where "p s = (Inr x, s1)"
proof -
  obtain y s1 where y: "p s = (y, s1)" by (meson surj_pair)
  with assms show ?thesis
    by (cases y) (auto simp: finallyE_def seqE_def elim!: bindE_cases intro: that)
qed

lemma in_worktree_produces:
  assumes run: "in_worktree X t sp running wt recipient vf s = (Inr ev, s')"
  shows "\<exists>vf' s1 hr sp' review c u s2. produce X t sp wt vf' s1 = (Inr (hr, sp', review, xt_failure ev, c, u), s2) \<and>
    xt_commit ev = c \<and> wt_branch wt = xt_branch ev \<and>
    map_option vf_allowed (if vf' \<noteq> None then vf' else xc_verifier X) =
      map_option vf_allowed (if vf \<noteq> None then vf else xc_verifier X)"
proof -
  let ?vf = "active_verifier X vf"
  obtain x s1 where o: "open_session X t sp s = (x, s1)" by (meson surj_pair)
  obtain rs where rs: "x = Inr rs"
  proof (cases x)
    case (Inl e)
    with run o have "seqE (cleanup X None wt) (raise e) s1 = (Inr ev, s')" by (simp add: in_worktree_def)
    then show ?thesis by (auto simp: seqE_def elim!: bindE_cases)
  qed (rule that)
  have "finallyE (bindE (produce X t sp wt (?vf rs)) (conclude X running wt recipient)) (cleanup X rs wt) s1 = (Inr ev, s')"
    using run o rs by (simp add: in_worktree_def)
  then obtain s2 where "bindE (produce X t sp wt (?vf rs)) (conclude X running wt recipient) s1 = (Inr ev, s2)"
    by (rule finally_Inr)
  then obtain out s3 where out: "produce X t sp wt (?vf rs) s1 = (Inr out, s3)"
    and con: "conclude X running wt recipient out s3 = (Inr ev, s2)" by (auto elim: bindE_cases)
  obtain hr sp' review f c u where o: "out = (hr, sp', review, f, c, u)" by (cases out) auto
  from con have "xt_failure ev = f" "xt_commit ev = c" "wt_branch wt = xt_branch ev"
    unfolding o conclude_def Let_def by (auto simp: seqE_def elim!: bindE_cases)
  moreover have "map_option vf_allowed (if ?vf rs \<noteq> None then ?vf rs else xc_verifier X) =
      map_option vf_allowed (if vf \<noteq> None then vf else xc_verifier X)"
    by (cases rs; cases vf; cases "xc_verifier X") (auto simp: active_verifier_def)
  ultimately show ?thesis using out o by blast
qed

lemma execute_produces:
  assumes run: "execute X t sp recipient held vf s = (Inr ev, s')"
  shows "\<exists>wt vf' s1 hr sp' review c u s2. produce X t sp wt vf' s1 = (Inr (hr, sp', review, xt_failure ev, c, u), s2) \<and>
    xt_commit ev = c \<and> wt_branch wt = xt_branch ev \<and>
    map_option vf_allowed (if vf' \<noteq> None then vf' else xc_verifier X) =
      map_option vf_allowed (if vf \<noteq> None then vf else xc_verifier X)"
proof -
  from run obtain running s0 where r: "run_running X t sp running recipient vf s0 = (Inr ev, s')"
    unfolding execute_def seqE_def by (auto elim!: bindE_cases split: option.splits if_splits)
  obtain x s1 where w: "on_world (worktree_create (xc_machine X) (xc_repo_path X) (xc_worktrees_root X)
              (task_slug (xc_sha256 X) t) (sp_base_branch sp)) s0 = (x, s1)" by (meson surj_pair)
  obtain wt where "x = Inr wt"
  proof (cases x)
    case (Inl e)
    with r w have "seqE (xc_transition X running FAILED None) (raise e) s1 = (Inr ev, s')"
      by (simp add: run_running_def)
    then show ?thesis by (auto simp: seqE_def elim!: bindE_cases)
  qed (rule that)
  with r w have "in_worktree X t sp running wt recipient vf s1 = (Inr ev, s')" by (simp add: run_running_def)
  from in_worktree_produces [OF this] show ?thesis by blast
qed


section \<open>A small machine\<close>

text \<open>
  The content of the worktree is a number, every harness run writes the next one, and a revision after the
  first fails with its edits in place. The machine keeps which contents were verified and which
  were committed.
\<close>

type_synonym ex_world = "nat \<times> nat list \<times> nat list"

definition ex_git :: "string list \<Rightarrow> string \<Rightarrow> (string, string) dict option \<Rightarrow> ex_world \<Rightarrow> (exn + completed) \<times> ex_world" where
  "ex_git argv cwd env = (\<lambda>(content, verified, committed).
     (Inr \<lparr>cm_returncode = (if ''--quiet'' \<in> set argv then 1 else 0),
           cm_stdout = (if ''--porcelain'' \<in> set argv then ''M'' else ''c1''), cm_stderr = []\<rparr>,
      content, verified, if ''commit'' \<in> set argv then committed @ [content] else committed))"

definition ex_machine :: "ex_world machine" where
  "ex_machine =
     \<lparr>m_run = ex_git, m_resolve = (\<lambda>p w. p), m_exists = (\<lambda>p w. True), m_mkdir = (\<lambda>p w. (Inr (), w)),
      m_rmtree = (\<lambda>p w. w), m_environ = [],
      m_timed_run = (\<lambda>argv cwd env n w. (Inr \<lparr>cm_returncode = 0, cm_stdout = [], cm_stderr = []\<rparr>, w)),
      m_which = (\<lambda>b w. None), m_expanduser = (\<lambda>p. p), m_listdir = (\<lambda>p w. []),
      m_read_text = (\<lambda>p w. Inr []), m_write_text = (\<lambda>p x w. (Inr (), w)), m_uuid = (\<lambda>w. (''0'', w))\<rparr>"

definition ex_runner :: "ex_world tracing runner" where
  "ex_runner =
     \<lparr>rn_run = (\<lambda>t sp wt ((content, verified, committed), l).
        (Inr \<lparr>rr_exit_code = (if content = 0 then 0 else 1), rr_stdout = [], rr_stderr = [], rr_branch = None,
              rr_commit = None, rr_pr_url = None, rr_extra = []\<rparr>,
         (Suc content, verified, committed), l @ [Harness])),
      rn_session_for = None\<rparr>"

definition ex_check :: "ex_world tracing verifier" where
  "ex_check =
     \<lparr>vf_allowed = [[''make'', ''test'']], vf_timeout_seconds = 900, vf_sandbox = no_sandbox 0,
      vf_execute = (\<lambda>argv cwd n ((content, verified, committed), l).
        (Inr \<lparr>cm_returncode = 0, cm_stdout = [], cm_stderr = []\<rparr>, (content, verified @ [content], committed), l))\<rparr>"

definition ex_executor :: "(pg_table, memory_log, memory_transport, ex_world tracing) executor" where
  "ex_executor =
     \<lparr>xc_queue = pg_ops (\<lambda>i. i), xc_runner = ex_runner,
      xc_git = \<lparr>gp_forge = (\<lambda>r b base title body. ret \<lparr>pr_url = ''u'', pr_number = None, pr_is_draft = True\<rparr>),
                gp_protected_branches = [''main'', ''master''], gp_push_key = None\<rparr>,
      xc_machine = logged ex_machine, xc_repo_path = ''/r'', xc_worktrees_root = ''/w'', xc_transport = mt_ops,
      xc_notifier = True, xc_escalator = True, xc_verifier = Some ex_check, xc_events = None,
      xc_lease = 10, xc_session = None,
      xc_reviewer = Some (\<lambda>diff instr. ret \<lparr>rv_approved = False, rv_summary = [], rv_notes = ''more''\<rparr>),
      xc_debate_rounds = 1, xc_clock = int, xc_sha256 = (\<lambda>s. ''0123456789'')\<rparr>"

definition ex_task_spec :: task_spec where
  "ex_task_spec = (new_spec ''o/r'')\<lparr>sp_instructions := ''go'', sp_verify := Some ''make test''\<rparr>"

definition ex_task :: task where
  "ex_task = (new_task ''a'' ''m'' 0)\<lparr>t_spec := Some ex_task_spec\<rparr>"

definition ex_exec_state :: "(pg_table, memory_log, memory_transport, ex_world tracing) exec_state" where
  "ex_exec_state =
     \<lparr>xs_queue = snd (pg_enqueue ex_task QUEUED 1 []), xs_events = [], xs_transport = mt_empty,
      xs_world = ((0, [], []), []), xs_tick = 2\<rparr>"

lemma ex_instrumented:
  "instrumented ex_machine (ex_executor\<lparr>xc_reviewer := None\<rparr>)" "instrumented ex_machine ex_executor"
  by (simp_all add: instrumented_def ex_executor_def ex_runner_def quiet_verifier_def quiet_sandbox_def quiet_def
      ex_check_def no_sandbox_def)

lemma ex_exec_inv: "pg_inv (xs_queue ex_exec_state)"
proof -
  have "pg_inv (snd (q_enqueue (pg_ops (\<lambda>i. i)) t st now []))" for t st now by (rule pgq.enqueue_invar) simp
  then show ?thesis by (simp add: ex_exec_state_def)
qed

section \<open>Properties of a run\<close>

fun pushes_of :: "trace_event list \<Rightarrow> string list list" where
  "pushes_of [] = []"
| "pushes_of (Harness # es) = pushes_of es"
| "pushes_of (Command argv # es) =
     (if take 2 argv = [''git'', ''push''] then argv # pushes_of es else pushes_of es)"

lemma pushes_of_in: "a \<in> set (pushes_of es) \<Longrightarrow> Command a \<in> set es"
  by (induction es rule: pushes_of.induct) (auto split: if_splits)

definition ex_summary ::
  "(exn + executed_task) \<times> (pg_table, memory_log, memory_transport, ex_world tracing) exec_state \<Rightarrow>
    (bool \<times> ex_world \<times> string list list) option" where
  "ex_summary r =
     (case r of
        (Inl e, s') \<Rightarrow> None
      | (Inr ev, s') \<Rightarrow> Some (xt_ok ev, fst (xs_world s'),
          pushes_of (trace_of s')))"

lemma failed_run_done:
  "ex_summary (execute ex_executor ex_task ex_task_spec None False None ex_exec_state) =
     Some (True, (2, [1], [2]), [[''git'', ''push'', ''--set-upstream'', ''origin'', ''dear-agent/a-01234567'']])"
  by code_simp

lemma ex_summary_Some:
  assumes "ex_summary r = Some (ok, w, pushes)"
  obtains ev s' where "r = (Inr ev, s')" "xt_ok ev = ok" "fst (xs_world s') = w"
    "pushes_of (trace_of s') = pushes"
  using assms by (auto simp: ex_summary_def split: prod.splits sum.splits)

lemma ex_run_pushes:
  obtains ev s' where "execute ex_executor ex_task ex_task_spec None False None ex_exec_state = (Inr ev, s')"
    "xt_ok ev" "fst (xs_world s') = (2, [1], [2])"
    "Command [''git'', ''push'', ''--set-upstream'', ''origin'', ''dear-agent/a-01234567''] \<in> set (trace_of s')"
proof (rule ex_summary_Some [OF failed_run_done])
  fix ev s' assume r: "execute ex_executor ex_task ex_task_spec None False None ex_exec_state = (Inr ev, s')"
    "xt_ok ev = True" "fst (xs_world s') = (2, [1], [2])"
    "pushes_of (trace_of s') = [[''git'', ''push'', ''--set-upstream'', ''origin'', ''dear-agent/a-01234567'']]"
  have "Command [''git'', ''push'', ''--set-upstream'', ''origin'', ''dear-agent/a-01234567''] \<in> set (trace_of s')"
    by (rule pushes_of_in) (simp only: r(4) list.set insert_iff simp_thms)
  with r(1-3) show ?thesis by (intro that) simp_all
qed

text \<open>
  A revision the harness fails is published all the same: when the reviewer asks for a revision and the second
  harness run fails, the debate keeps the first run's verdict, but the worktree has the second run's
  edits. Content 1 was verified, content 2 is committed and pushed, and the task is \<open>done\<close>.
\<close>

theorem failed_revision_published:
  "case execute ex_executor ex_task ex_task_spec None False None ex_exec_state of
     (Inl e, s') \<Rightarrow> False
   | (Inr ev, s') \<Rightarrow> xt_ok ev \<and> fst (xs_world s') = (2, [1], [2])"
  by (rule ex_run_pushes) simp

lemma ex_run_ok:
  "ex_summary (execute (ex_executor\<lparr>xc_reviewer := None\<rparr>) ex_task ex_task_spec None False None ex_exec_state) =
     Some (True, (1, [1], [1]), [[''git'', ''push'', ''--set-upstream'', ''origin'', ''dear-agent/a-01234567'']])"
  by code_simp


text \<open>
  C6. Every push a run makes is of an agent branch, a name under \<open>dear-agent/\<close> that is not
  protected, to the remote \<open>origin\<close>: whatever the task says and whatever the harness did, the executor never pushes
  to a base branch.
\<close>

theorem pushes_only_agent_branches:
  assumes "instrumented M X" and "\<forall>v. vf = Some v \<longrightarrow> quiet_verifier v"
    and "execute X t sp recipient held vf s = (r, s')"
  shows "\<exists>l. trace_of s' = trace_of s @ l \<and>
    (\<forall>argv. Command argv \<in> set l \<longrightarrow> take 2 argv = [''git'', ''push''] \<longrightarrow>
      (\<exists>b. argv = [''git'', ''push'', ''--set-upstream'', ''origin'', b] \<and> startswith b ''dear-agent/'' \<and>
         b \<notin> set (gp_protected_branches (xc_git X))))"
proof -
  from xbounded_execute [OF assms(1,2), of t sp recipient held] have
    "extends (gp_protected_branches (xc_git X)) (1 + nat (xc_debate_rounds X)) (xs_world s) (xs_world s')"
    unfolding xbounded_def using assms(3) by (metis snd_conv)
  then show ?thesis unfolding extends_def trace_ok_def push_ok_def trace_of_def by blast
qed

theorem pushes_only_agent_branches_witness:
  "startswith ''dear-agent/a-01234567'' ''dear-agent/'' \<and> ''dear-agent/a-01234567'' \<notin> {''main'', ''master''}"
proof -
  obtain ev s' where run: "execute ex_executor ex_task ex_task_spec None False None ex_exec_state = (Inr ev, s')"
    and pushed: "Command [''git'', ''push'', ''--set-upstream'', ''origin'', ''dear-agent/a-01234567''] \<in> set (trace_of s')"
    by (rule ex_run_pushes)
  from pushes_only_agent_branches [OF ex_instrumented(2) _ run] obtain l where
    l: "trace_of s' = trace_of ex_exec_state @ l"
      "\<forall>argv. Command argv \<in> set l \<longrightarrow> take 2 argv = [''git'', ''push''] \<longrightarrow>
        (\<exists>b. argv = [''git'', ''push'', ''--set-upstream'', ''origin'', b] \<and> startswith b ''dear-agent/'' \<and>
           b \<notin> set (gp_protected_branches (xc_git ex_executor)))" by auto
  have "trace_of ex_exec_state = []" by (simp add: trace_of_def ex_exec_state_def)
  with pushed l(1) have "Command [''git'', ''push'', ''--set-upstream'', ''origin'', ''dear-agent/a-01234567''] \<in> set l"
    by simp
  with l(2) have "startswith ''dear-agent/a-01234567'' ''dear-agent/'' \<and>
      ''dear-agent/a-01234567'' \<notin> set (gp_protected_branches (xc_git ex_executor))" by fastforce
  then show ?thesis by (simp add: ex_executor_def)
qed

text \<open>
  C27. The debate with the reviewer ends: one execution runs the harness at most once more than the
  configured number of rounds, however often the reviewer asks for a revision.
\<close>

theorem harness_runs_bounded:
  assumes "instrumented M X" and "\<forall>v. vf = Some v \<longrightarrow> quiet_verifier v"
    and "execute X t sp recipient held vf s = (r, s')"
  shows "\<exists>l. trace_of s' = trace_of s @ l \<and>
    length (filter (\<lambda>e. e = Harness) l) \<le> 1 + nat (xc_debate_rounds X)"
proof -
  from xbounded_execute [OF assms(1,2), of t sp recipient held] have
    "extends (gp_protected_branches (xc_git X)) (1 + nat (xc_debate_rounds X)) (xs_world s) (xs_world s')"
    unfolding xbounded_def using assms(3) by (metis snd_conv)
  then show ?thesis unfolding extends_def trace_ok_def trace_of_def by blast
qed

theorem harness_runs_bounded_witness:
  "\<exists>l. trace_of (snd (execute ex_executor ex_task ex_task_spec None False None ex_exec_state)) = l \<and>
     length (filter (\<lambda>e. e = Harness) l) \<le> 2"
proof -
  have "trace_of ex_exec_state = []" "nat (xc_debate_rounds ex_executor) = 1"
    by (simp_all add: trace_of_def ex_exec_state_def ex_executor_def)
  then show ?thesis
    using harness_runs_bounded [OF ex_instrumented(2) _ surjective_pairing,
        of None ex_task ex_task_spec None False ex_exec_state] by auto
qed

theorem execute_settles_task_witness:
  "\<exists>t'. pg_store (xs_queue (snd (execute ex_executor ex_task ex_task_spec None False None ex_exec_state))) ''a'' = Some t' \<and>
     t_state t' = DONE"
proof -
  obtain ev s' where
    r: "execute ex_executor ex_task ex_task_spec None False None ex_exec_state = (Inr ev, s')" "xt_ok ev"
    by (rule ex_run_pushes)
  have "fresh (pg_store []) ex_task" by (simp add: fresh_def pg_store_def)
  from pgq.enqueue_fresh [OF pg_inv_Nil this, of "\<lambda>i. i" QUEUED 1]
  have u: "pg_store (xs_queue ex_exec_state) (t_id ex_task) = Some (enqueued QUEUED 1 (pg_canon ex_task))"
    by (simp add: ex_exec_state_def)
  have X: "pg_executor (\<lambda>i. i) ex_executor = ex_executor" by (simp add: pg_executor_def ex_executor_def)
  from execute_settles_task [OF ex_exec_inv, of "\<lambda>i. i" ex_executor, unfolded X, OF r(1)] u r
  show ?thesis by (auto simp: enqueued_def ex_task_def new_task_def)
qed

end
