(* ===== verification/Sandbox.thy ===== *)
theory Sandbox
  imports Machine
begin

text \<open>
  Jails for a run (\<open>sandbox.py\<close>): the bubblewrap command line, the container session that the
  harness and the verify gate share, mounts and the policy read from the environment.
\<close>

section \<open>Configuration\<close>

record mount =
  mn_host :: string
  mn_container :: string
  mn_readonly :: bool
  mn_relabel :: bool

record sandbox_policy =
  sy_allow_network :: bool
  sy_readable_paths :: "string list"
  sy_writable_paths :: "string list"
  sy_env_allowlist :: "string list"

definition default_policy :: sandbox_policy where
  "default_policy =
     \<lparr>sy_allow_network = False, sy_readable_paths = [''/usr'', ''/bin'', ''/lib'', ''/lib64'', ''/etc''],
      sy_writable_paths = [], sy_env_allowlist = [''PATH'', ''HOME'', ''LANG'', ''TZ'']\<rparr>"

definition split_paths :: "string option \<Rightarrow> string list" where
  "split_paths value =
     filter (\<lambda>p. p \<noteq> []) (map strip (split_on (CHR '','') (replace_char (CHR '';'') (CHR '','') (or_else value []))))"

text \<open>\<open>tuple(dict.fromkeys(xs))\<close>: the first occurrences, in order.\<close>

fun unique :: "'a list \<Rightarrow> 'a list" where
  "unique [] = []"
| "unique (x # xs) = x # filter (\<lambda>y. y \<noteq> x) (unique xs)"

text \<open>\<open>_harness_dir\<close>; \<open>parent\<close> is the text of \<open>Path(...).resolve().parent\<close>.\<close>

definition harness_dir :: "'w machine \<Rightarrow> (string \<Rightarrow> 'w \<Rightarrow> string) \<Rightarrow> (string, string) dict \<Rightarrow> 'w \<Rightarrow> string option" where
  "harness_dir M parent env w =
     (let named = dict_get env ''DEAR_AGENT_HARNESS_BINARY'';
          harness = lower (strip (case dict_get env ''DEAR_AGENT_HARNESS'' of None \<Rightarrow> ''opencode'' | Some h \<Rightarrow> h));
          binary = (if truthy named then named
                    else if harness \<in> {''opencode'', ''claude'', ''codex''} then Some harness else None)
      in if \<not> truthy binary then None
         else case m_which M (the binary) w of
                None \<Rightarrow> None
              | Some resolved \<Rightarrow> if resolved = [] then None else Some (parent resolved w))"

definition sandbox_policy_from_env ::
  "'w machine \<Rightarrow> (string \<Rightarrow> 'w \<Rightarrow> string) \<Rightarrow> (string, string) dict \<Rightarrow> 'w \<Rightarrow> sandbox_policy" where
  "sandbox_policy_from_env M parent env w =
     (let readable = sy_readable_paths default_policy @ split_paths (dict_get env ''DEAR_AGENT_SANDBOX_READABLE'');
          binary_dir = harness_dir M parent env w;
          env_names = sy_env_allowlist default_policy @ split_paths (dict_get env ''DEAR_AGENT_SANDBOX_ENV'')
      in \<lparr>sy_allow_network =
            (lower (case dict_get env ''DEAR_AGENT_SANDBOX_NETWORK'' of None \<Rightarrow> ''false'' | Some v \<Rightarrow> v) = ''true''),
          sy_readable_paths = unique (readable @ (if truthy binary_dir then [the binary_dir] else [])),
          sy_writable_paths = split_paths (dict_get env ''DEAR_AGENT_SANDBOX_WRITABLE''),
          sy_env_allowlist = unique env_names\<rparr>)"

text \<open>One entry of \<open>parse_mounts\<close>, and the loop, which stops at the first bad entry.\<close>

definition parse_mount :: "string \<Rightarrow> exn + mount" where
  "parse_mount entry =
     (let bad = SandboxError (''invalid mount '' @ py_repr entry @ ''; expected host:container[:ro|rw]'')
      in case cut_at '':'' entry of
           None \<Rightarrow> Inl bad
         | Some (host, rest) \<Rightarrow>
             if strip host = [] \<or> strip rest = [] then Inl bad
             else
               let (container, mode0) = (case cut_at '':'' rest of None \<Rightarrow> (rest, []) | Some (c, md) \<Rightarrow> (c, md));
                   mode = lower (strip mode0)
               in if mode \<notin> {[], ''ro'', ''rw''}
                  then Inl (SandboxError (''invalid mount mode '' @ py_repr mode @ '' in '' @ py_repr entry))
                  else Inr \<lparr>mn_host = strip host, mn_container = strip container, mn_readonly = (mode \<noteq> ''rw''),
                            mn_relabel = False\<rparr>)"

fun parse_entries :: "string list \<Rightarrow> exn + mount list" where
  "parse_entries [] = Inr []"
| "parse_entries (e # es) =
     (case parse_mount e of
        Inl x \<Rightarrow> Inl x
      | Inr mn \<Rightarrow> (case parse_entries es of Inl x \<Rightarrow> Inl x | Inr mns \<Rightarrow> Inr (mn # mns)))"

definition parse_mounts :: "string option \<Rightarrow> exn + mount list" where
  "parse_mounts value = parse_entries (split_paths value)"

section \<open>Bubblewrap\<close>

text \<open>\<open>--setenv name value\<close> for the listed names the environment has.\<close>

definition pass_env :: "(string \<Rightarrow> string \<Rightarrow> string list) \<Rightarrow> (string, string) dict \<Rightarrow> string list \<Rightarrow> string list" where
  "pass_env option environ names =
     concat (map (\<lambda>n. case dict_get environ n of None \<Rightarrow> [] | Some v \<Rightarrow> option n v) names)"

definition bwrap_argv :: "(string, string) dict \<Rightarrow> sandbox_policy \<Rightarrow> string \<Rightarrow> string list \<Rightarrow> string \<Rightarrow> string list" where
  "bwrap_argv environ policy binary argv worktree =
     [binary, ''--die-with-parent'', ''--unshare-pid'', ''--unshare-ipc'', ''--new-session''] @
     (if \<not> sy_allow_network policy then [''--unshare-net''] else []) @
     concat (map (\<lambda>p. [''--ro-bind-try'', p, p]) (sy_readable_paths policy)) @
     concat (map (\<lambda>p. [''--bind-try'', p, p]) (sy_writable_paths policy)) @
     [''--bind'', worktree, worktree] @
     [''--chdir'', worktree] @
     [''--clearenv''] @
     pass_env (\<lambda>n v. [''--setenv'', n, v]) environ (sy_env_allowlist policy) @
     [''--''] @ argv"

definition bwrap_sandbox :: "'w machine \<Rightarrow> nat \<Rightarrow> sandbox_policy \<Rightarrow> string \<Rightarrow> 'w sandbox" where
  "bwrap_sandbox M ident policy binary =
     \<lparr>sb_ident = ident,
      sb_wrap = (\<lambda>argv worktree.
        bindE (asks (\<lambda>w. m_which M binary w \<noteq> None)) (\<lambda>available.
          if \<not> available then raise (SandboxError (py_repr binary @ '' is not available''))
          else ret (bwrap_argv (m_environ M) policy binary argv worktree))),
      sb_available = (\<lambda>w. m_which M binary w \<noteq> None),
      sb_close = ret ()\<rparr>"

section \<open>The container session\<close>

record container_config =
  cc_image :: string
  cc_mounts :: "mount list"
  cc_env_allowlist :: "string list"
  cc_network :: string
  cc_container_home :: string
  cc_workdir :: string
  cc_binary :: string
  cc_userns_keep_id :: bool
  cc_extra_args :: "string list"
  cc_cap_drop :: bool
  cc_pids_limit :: "int option"
  cc_read_only :: bool
  cc_setup :: "string list list"
  cc_selinux :: string

text \<open>\<open>__post_init__\<close>: the object exists only when this returns it.\<close>

definition container_new :: "container_config \<Rightarrow> exn + container_config" where
  "container_new c =
     (if cc_selinux c \<notin> {''auto'', ''none'', ''z'', ''Z'', ''disable''}
      then Inl (SandboxError (''invalid selinux mode '' @ py_repr (cc_selinux c) @
             ''; expected one of Z, auto, disable, none, z''))
      else case cc_pids_limit c of
             Some n \<Rightarrow> if n \<le> 0 then Inl (SandboxError (''pids_limit must be positive, got '' @ show_int n)) else Inr c
           | None \<Rightarrow> Inr c)"

text \<open>The machine and the name of the live container of one session.\<close>

record 'w session_state =
  se_world :: 'w
  se_container :: "string option"

definition se_run :: "('w, 'a) prog \<Rightarrow> ('w session_state, 'a) prog" where
  "se_run p = on_part se_world (\<lambda>w s. s\<lparr>se_world := w\<rparr>) p"

definition container_path :: "string \<Rightarrow> string \<Rightarrow> string" where
  "container_path path home =
     (if path = ''~'' then home
      else if startswith path ''~/'' then home @ ''/'' @ drop 2 path
      else path)"

definition selinux_enabled :: "'w machine \<Rightarrow> 'w \<Rightarrow> bool" where
  "selinux_enabled M w = m_exists M ''/sys/fs/selinux'' w"

definition worktree_relabel :: "'w machine \<Rightarrow> container_config \<Rightarrow> 'w \<Rightarrow> string" where
  "worktree_relabel M c w =
     (if cc_selinux c \<in> {''z'', ''Z''} then '','' @ cc_selinux c
      else if cc_selinux c = ''auto'' \<and> selinux_enabled M w then '',Z'' else [])"

definition mount_relabel :: "'w machine \<Rightarrow> container_config \<Rightarrow> mount \<Rightarrow> 'w \<Rightarrow> string" where
  "mount_relabel M c mn w =
     (if cc_selinux c \<in> {''z'', ''Z''} then '','' @ cc_selinux c
      else if mn_relabel mn \<and> cc_selinux c = ''auto'' \<and> selinux_enabled M w then '',Z'' else [])"

definition mount_args :: "'w machine \<Rightarrow> container_config \<Rightarrow> 'w \<Rightarrow> mount \<Rightarrow> string list" where
  "mount_args M c w mn =
     [''--volume'',
      m_expanduser M (mn_host mn) @ '':'' @ container_path (mn_container mn) (cc_container_home c) @ '':'' @
      (if mn_readonly mn then ''ro'' else ''rw'') @ mount_relabel M c mn w]"

definition container_run_argv ::
  "'w machine \<Rightarrow> container_config \<Rightarrow> string list \<Rightarrow> string \<Rightarrow> bool \<Rightarrow> string \<Rightarrow> bool \<Rightarrow> string option \<Rightarrow> 'w \<Rightarrow> string list" where
  "container_run_argv M c argv worktree remove name detach entrypoint w =
     [cc_binary c, ''run''] @
     (if detach then [''-d'', ''--name'', name] else []) @
     (if remove then [''--rm''] else []) @
     [''--security-opt'', ''no-new-privileges''] @
     (if cc_cap_drop c then [''--cap-drop'', ''ALL''] else []) @
     (case cc_pids_limit c of None \<Rightarrow> [] | Some n \<Rightarrow> [''--pids-limit'', show_int n]) @
     (if cc_read_only c then [''--read-only'', ''--tmpfs'', ''/tmp''] else []) @
     [''--volume'', worktree @ '':'' @ cc_workdir c @ '':rw'' @ worktree_relabel M c w,
      ''--workdir'', cc_workdir c, ''--network'', cc_network c] @
     (if cc_selinux c = ''disable'' then [''--security-opt'', ''label=disable''] else []) @
     (if cc_userns_keep_id c then [''--userns=keep-id''] else []) @
     concat (map (mount_args M c w) (cc_mounts c)) @
     pass_env (\<lambda>n v. [''--env'', n @ ''='' @ v]) (m_environ M) (cc_env_allowlist c) @
     cc_extra_args c @
     (if truthy entrypoint then [''--entrypoint'', the entrypoint] else []) @
     [cc_image c] @ argv"

definition container_exec_argv :: "'w machine \<Rightarrow> container_config \<Rightarrow> string list \<Rightarrow> ('w session_state, string list) prog" where
  "container_exec_argv M c argv =
     bindE (asks se_container) (\<lambda>name.
       case name of
         None \<Rightarrow> raise (SandboxError ''session has not been started'')
       | Some n \<Rightarrow>
           ret ([cc_binary c, ''exec'', ''--workdir'', cc_workdir c] @
                pass_env (\<lambda>k v. [''--env'', k @ ''='' @ v]) (m_environ M) (cc_env_allowlist c) @
                [''--env'', ''PWD='' @ cc_workdir c] @ [n] @ argv))"

definition run_setup :: "'w machine \<Rightarrow> container_config \<Rightarrow> string list \<Rightarrow> ('w session_state, unit) prog" where
  "run_setup M c cmd =
     bindE (container_exec_argv M c cmd) (\<lambda>argv.
       bindE (se_run (m_run M argv [] None)) (\<lambda>r.
         if cm_returncode r \<noteq> 0
         then let detail = strip (if cm_stderr r \<noteq> [] then cm_stderr r else cm_stdout r)
              in raise (SandboxError (''session setup '' @ py_repr_tuple cmd @ '' failed: '' @ take 300 detail))
         else ret ()))"

definition session_name :: "'w machine \<Rightarrow> ('w session_state, string) prog" where
  "session_name M = se_run (\<lambda>w. case m_uuid M w of (u, w') \<Rightarrow> (Inr (''dear-agent-'' @ u), w'))"

definition ensure_started :: "'w machine \<Rightarrow> container_config \<Rightarrow> string \<Rightarrow> ('w session_state, unit) prog" where
  "ensure_started M c worktree =
     bindE (asks se_container) (\<lambda>name.
       if name \<noteq> None then ret ()
       else bindE (session_name M) (\<lambda>name.
         bindE (asks (\<lambda>s. container_run_argv M c [''infinity''] worktree False name True (Some ''sleep'') (se_world s)))
           (\<lambda>argv.
             bindE (se_run (m_run M argv [] None)) (\<lambda>r.
               if cm_returncode r \<noteq> 0
               then raise (SandboxError (let err = strip (cm_stderr r) in
                      if err \<noteq> [] then err else ''cannot start the '' @ py_repr (cc_image c) @ '' session''))
               else seqE (modify (\<lambda>s. s\<lparr>se_container := Some name\<rparr>))
                      (for_each (\<lambda>cmd u. run_setup M c cmd) (cc_setup c) ())))))"

definition container_wrap ::
  "'w machine \<Rightarrow> container_config \<Rightarrow> string list \<Rightarrow> string \<Rightarrow> ('w session_state, string list) prog" where
  "container_wrap M c argv worktree =
     bindE (asks (\<lambda>s. m_which M (cc_binary c) (se_world s) \<noteq> None)) (\<lambda>available.
       if \<not> available then raise (SandboxError (py_repr (cc_binary c) @ '' is not available''))
       else seqE (ensure_started M c worktree) (container_exec_argv M c argv))"

definition container_close :: "'w machine \<Rightarrow> container_config \<Rightarrow> ('w session_state, unit) prog" where
  "container_close M c =
     bindE (asks se_container) (\<lambda>name.
       case name of
         None \<Rightarrow> ret ()
       | Some n \<Rightarrow>
           seqE (modify (\<lambda>s. s\<lparr>se_container := None\<rparr>))
             (seqE (se_run (m_run M [cc_binary c, ''rm'', ''-f'', n] [] None)) (ret ())))"

definition container_sandbox_of :: "'w machine \<Rightarrow> nat \<Rightarrow> container_config \<Rightarrow> 'w session_state sandbox" where
  "container_sandbox_of M ident c =
     \<lparr>sb_ident = ident, sb_wrap = container_wrap M c,
      sb_available = (\<lambda>s. m_which M (cc_binary c) (se_world s) \<noteq> None),
      sb_close = container_close M c\<rparr>"

section \<open>What bubblewrap is asked for\<close>

text \<open>The jail a command line describes, read option by option with the number of arguments of each.\<close>

record jail =
  jl_network :: bool
  jl_readable :: "string list"
  jl_writable :: "string list"
  jl_env :: "(string \<times> string) list"
  jl_command :: "string list"

definition open_jail :: jail where
  "open_jail = \<lparr>jl_network = True, jl_readable = [], jl_writable = [], jl_env = [], jl_command = []\<rparr>"

fun read_jail :: "string list \<Rightarrow> jail \<Rightarrow> jail option" where
  "read_jail [] j = None"
| "read_jail (x # xs) j =
     (if x = ''--'' then Some (j\<lparr>jl_command := xs\<rparr>)
      else if x = ''--unshare-net'' then read_jail xs (j\<lparr>jl_network := False\<rparr>)
      else if x = ''--clearenv'' then read_jail xs (j\<lparr>jl_env := []\<rparr>)
      else if x \<in> {''--ro-bind-try'', ''--bind-try'', ''--bind'', ''--setenv''}
      then (case xs of
              a # b # rest \<Rightarrow>
                read_jail rest
                  (if x = ''--ro-bind-try'' then j\<lparr>jl_readable := jl_readable j @ [b]\<rparr>
                   else if x = ''--setenv'' then j\<lparr>jl_env := jl_env j @ [(a, b)]\<rparr>
                   else j\<lparr>jl_writable := jl_writable j @ [b]\<rparr>)
            | _ \<Rightarrow> None)
      else if x = ''--chdir'' then (case xs of a # rest \<Rightarrow> read_jail rest j | _ \<Rightarrow> None)
      else read_jail xs j)"

definition passed :: "(string, string) dict \<Rightarrow> string list \<Rightarrow> (string \<times> string) list" where
  "passed environ names = [(n, the (dict_get environ n)). n \<leftarrow> names, dict_has environ n]"

lemma read_readable:
  "read_jail (concat (map (\<lambda>p. [''--ro-bind-try'', p, p]) ps) @ rest) j =
     read_jail rest (j\<lparr>jl_readable := jl_readable j @ ps\<rparr>)"
  by (induction ps arbitrary: j) simp_all

lemma read_writable:
  "read_jail (concat (map (\<lambda>p. [''--bind-try'', p, p]) ps) @ rest) j =
     read_jail rest (j\<lparr>jl_writable := jl_writable j @ ps\<rparr>)"
  by (induction ps arbitrary: j) simp_all

lemma read_env:
  "read_jail (pass_env (\<lambda>n v. [''--setenv'', n, v]) environ ns @ rest) j =
     read_jail rest (j\<lparr>jl_env := jl_env j @ passed environ ns\<rparr>)"
  by (induction ns arbitrary: j) (auto simp: pass_env_def passed_def split: option.split)

lemma read_bwrap:
  "read_jail (tl (bwrap_argv environ p binary argv worktree)) open_jail =
     Some \<lparr>jl_network = sy_allow_network p, jl_readable = sy_readable_paths p,
           jl_writable = sy_writable_paths p @ [worktree],
           jl_env = passed environ (sy_env_allowlist p), jl_command = argv\<rparr>"
  unfolding bwrap_argv_def by (simp add: read_readable read_writable read_env open_jail_def)

lemma set_unique [simp]: "set (unique xs) = set xs"
  by (induction xs) auto


section \<open>The life of a session\<close>

text \<open>A machine that records every command with its exit code.\<close>

type_synonym command_log = "(string list \<times> int option) list"

definition recording :: "'w machine \<Rightarrow> ('w \<times> command_log) machine" where
  "recording M =
     \<lparr>m_run = (\<lambda>argv cwd env (w, l). case m_run M argv cwd env w of
         (r, w') \<Rightarrow> (r, w', l @ [(argv, case r of Inl e \<Rightarrow> None | Inr cm \<Rightarrow> Some (cm_returncode cm))])),
      m_resolve = (\<lambda>p (w, l). m_resolve M p w), m_exists = (\<lambda>p (w, l). m_exists M p w),
      m_mkdir = (\<lambda>p (w, l). case m_mkdir M p w of (r, w') \<Rightarrow> (r, w', l)),
      m_rmtree = (\<lambda>p (w, l). (m_rmtree M p w, l)), m_environ = m_environ M,
      m_timed_run = (\<lambda>argv cwd env n (w, l). case m_timed_run M argv cwd env n w of (r, w') \<Rightarrow> (r, w', l)),
      m_which = (\<lambda>b (w, l). m_which M b w), m_expanduser = m_expanduser M,
      m_listdir = (\<lambda>p (w, l). m_listdir M p w), m_read_text = (\<lambda>p (w, l). m_read_text M p w),
      m_write_text = (\<lambda>p x (w, l). case m_write_text M p x w of (r, w') \<Rightarrow> (r, w', l)),
      m_uuid = (\<lambda>(w, l). case m_uuid M w of (r, w') \<Rightarrow> (r, w', l))\<rparr>"

text \<open>The containers a log leaves alive: started by a successful \<open>run -d --name\<close>, ended by \<open>rm -f\<close>.\<close>

definition live_step :: "string list \<times> int option \<Rightarrow> string list \<Rightarrow> string list" where
  "live_step e alive =
     (case e of
        (_ # verb # opt # rest, status) \<Rightarrow>
          if verb = ''run'' \<and> opt = ''-d'' \<and> length rest > 1 \<and> status = Some 0 then alive @ [rest ! 1]
          else if verb = ''rm'' \<and> opt = ''-f'' \<and> rest \<noteq> [] then filter (\<lambda>n. n \<noteq> hd rest) alive
          else alive
      | _ \<Rightarrow> alive)"

definition live :: "command_log \<Rightarrow> string list" where
  "live l = fold live_step l []"

definition session_ok :: "('w \<times> command_log) session_state \<Rightarrow> bool" where
  "session_ok s \<longleftrightarrow> live (snd (se_world s)) = (case se_container s of None \<Rightarrow> [] | Some n \<Rightarrow> [n])"

datatype session_call = Wrap "string list" string | Close

fun session_step :: "'w machine \<Rightarrow> container_config \<Rightarrow> session_call \<Rightarrow> ('w session_state, unit) prog" where
  "session_step M c (Wrap argv worktree) = seqE (container_wrap M c argv worktree) (ret ())"
| "session_step M c Close = container_close M c"

text \<open>A sequence of calls by a client that goes on after an exception.\<close>

fun session_calls :: "'w machine \<Rightarrow> container_config \<Rightarrow> session_call list \<Rightarrow> 'w session_state \<Rightarrow> 'w session_state" where
  "session_calls M c [] s = s"
| "session_calls M c (x # xs) s = session_calls M c xs (snd (session_step M c x s))"

lemma live_snoc [simp]: "live (l @ [e]) = live_step e (live l)"
  by (simp add: live_def)

definition keeps_session :: "('w \<times> command_log) session_state \<Rightarrow> ('w \<times> command_log) session_state \<Rightarrow> bool" where
  "keeps_session s s' \<longleftrightarrow> se_container s' = se_container s \<and> live (snd (se_world s')) = live (snd (se_world s))"

lemma keeps_session_order: "reflp keeps_session" "transp keeps_session"
  by (auto simp: keeps_session_def intro: reflpI transpI)

lemma run_recorded:
  "se_run (m_run (recording M) argv cwd env) s =
     (case m_run M argv cwd env (fst (se_world s)) of
        (r, w') \<Rightarrow> (r, s\<lparr>se_world := (w', snd (se_world s) @
           [(argv, case r of Inl e \<Rightarrow> None | Inr cm \<Rightarrow> Some (cm_returncode cm))])\<rparr>))"
  by (cases "se_world s") (simp add: se_run_def on_part_def recording_def split: prod.split)

lemma exec_argv_result:
  "container_exec_argv M c argv s = (r, s') \<Longrightarrow>
     s' = s \<and> (\<forall>a. r = Inr a \<longrightarrow> (\<exists>n opts. se_container s = Some n \<and>
        a = cc_binary c # ''exec'' # ''--workdir'' # opts @ [n] @ argv))"
  by (auto simp: container_exec_argv_def split: option.splits)

lemma setup_keeps: "keeps keeps_session (run_setup (recording M) c cmd)"
  unfolding keeps_def
proof
  fix s
  obtain r s' where run: "run_setup (recording M) c cmd s = (r, s')" by fastforce
  then have "keeps_session s s'"
    unfolding run_setup_def
  proof (cases rule: bindE_cases)
    case (raised e) then show ?thesis
      using exec_argv_result by (fastforce simp: keeps_session_def)
  next
    case (went_on argv s1)
    then obtain n opts where a: "argv = cc_binary c # ''exec'' # ''--workdir'' # opts @ [n] @ cmd" "s1 = s"
      using exec_argv_result by blast
    from went_on(2) show ?thesis
      by (auto simp: a run_recorded bindE_def keeps_session_def live_step_def split: prod.splits sum.splits if_splits)
  qed
  with run show "keeps_session s (snd (run_setup (recording M) c cmd s))" by simp
qed

lemma started_argv:
  "\<exists>rest. container_run_argv M c argv worktree False name True ep w = cc_binary c # ''run'' # ''-d'' # ''--name'' # name # rest"
  by (simp add: container_run_argv_def)

lemma start_ok:
  assumes "ensure_started (recording M) c worktree s = (r, s')" and "session_ok s"
  shows "session_ok s'"
proof (cases "se_container s")
  case (Some n) with assms show ?thesis by (simp add: ensure_started_def)
next
  case None
  obtain w l where w: "se_world s = (w, l)" by fastforce
  obtain u w1 where u: "m_uuid M w = (u, w1)" by fastforce
  define name where "name = ''dear-agent-'' @ u"
  let ?s1 = "s\<lparr>se_world := (w1, l)\<rparr>"
  let ?argv = "container_run_argv (recording M) c [''infinity''] worktree False name True (Some ''sleep'') (w1, l)"
  obtain x w2 where x: "m_run M ?argv [] None w1 = (x, w2)" by fastforce
  let ?code = "case x of Inl e \<Rightarrow> None | Inr cm \<Rightarrow> Some (cm_returncode cm)"
  let ?s2 = "s\<lparr>se_world := (w2, l @ [(?argv, ?code)])\<rparr>"
  have live: "live (l @ [(?argv, ?code)]) = (if ?code = Some 0 then [name] else [])"
    using assms(2) None w started_argv [of "recording M" c "[''infinity'']" worktree name "Some ''sleep''" "(w1, l)"]
    by (auto simp: session_ok_def live_step_def)
  have uuid: "session_name (recording M) s = (Inr name, ?s1)"
    by (simp add: session_name_def se_run_def on_part_def w recording_def u name_def)
  have ran: "se_run (m_run (recording M) ?argv [] None) ?s1 = (x, ?s2)"
    by (simp add: run_recorded x)
  note uuid = bindE_Inr [of "session_name (recording M)", OF uuid]
  show ?thesis
  proof (cases "\<exists>cm. x = Inr cm \<and> cm_returncode cm = 0")
    case False
    then have "s' = ?s2"
      using assms(1) None ran by (cases x) (auto simp: ensure_started_def uuid bindE_Inr bindE_Inl)
    moreover have "?code \<noteq> Some 0" using False by (cases x) auto
    ultimately show ?thesis using live None by (simp add: session_ok_def)
  next
    case True
    then obtain cm where cm: "x = Inr cm" "cm_returncode cm = 0" by blast
    let ?s3 = "?s2\<lparr>se_container := Some name\<rparr>"
    have "for_each (\<lambda>cmd u. run_setup (recording M) c cmd) (cc_setup c) () ?s3 = (r, s')"
      using assms(1) None cm ran by (simp add: ensure_started_def uuid bindE_Inr)
    moreover have "keeps keeps_session (for_each (\<lambda>cmd u. run_setup (recording M) c cmd) (cc_setup c) ())"
      by (intro keeps_for_each keeps_session_order setup_keeps)
    ultimately have "keeps_session ?s3 s'" by (blast dest: keepsD)
    then show ?thesis using live cm by (simp add: session_ok_def keeps_session_def)
  qed
qed

lemma wrap_ok:
  assumes "container_wrap (recording M) c argv worktree s = (r, s')" and "session_ok s"
  shows "session_ok s'"
    and "r = Inr a \<Longrightarrow> \<exists>n opts. se_container s' = Some n \<and> a = cc_binary c # ''exec'' # ''--workdir'' # opts @ [n] @ argv"
proof -
  let ?run = "seqE (ensure_started (recording M) c worktree) (container_exec_argv (recording M) c argv)"
  have "s' = s \<and> (\<exists>e. r = Inl e) \<or> ?run s = (r, s')"
    using assms(1) by (auto simp: container_wrap_def split: if_splits)
  moreover have "session_ok s' \<and> (\<forall>a. r = Inr a \<longrightarrow>
      (\<exists>n opts. se_container s' = Some n \<and> a = cc_binary c # ''exec'' # ''--workdir'' # opts @ [n] @ argv))"
    if "?run s = (r, s')"
    using that unfolding seqE_def
  proof (cases rule: bindE_cases)
    case (raised e) with assms(2) show ?thesis by (auto intro: start_ok)
  next
    case (went_on u s1)
    then have "session_ok s1" using assms(2) by (blast intro: start_ok)
    with exec_argv_result [OF went_on(2)] show ?thesis by auto
  qed
  ultimately show "session_ok s'"
    and "r = Inr a \<Longrightarrow> \<exists>n opts. se_container s' = Some n \<and> a = cc_binary c # ''exec'' # ''--workdir'' # opts @ [n] @ argv"
    using assms(2) by auto
qed

lemma close_ok:
  assumes "container_close (recording M) c s = (r, s')" and "session_ok s"
  shows "session_ok s'" "se_container s' = None"
  using assms
  by (auto simp: container_close_def seqE_def bindE_def run_recorded session_ok_def live_step_def
      split: option.splits prod.splits sum.splits)

lemma calls_ok:
  "session_ok s \<Longrightarrow> session_ok (session_calls (recording M) c calls s)"
proof (induction calls arbitrary: s)
  case (Cons x calls)
  have "session_ok (snd (session_step (recording M) c x s))"
  proof (cases x)
    case (Wrap argv worktree)
    obtain r s' where "container_wrap (recording M) c argv worktree s = (r, s')" by fastforce
    then show ?thesis using Wrap wrap_ok(1) Cons.prems by (cases r) (auto simp: seqE_def bindE_def)
  next
    case Close
    obtain r s' where "container_close (recording M) c s = (r, s')" by fastforce
    then show ?thesis using Close close_ok(1) Cons.prems by auto
  qed
  with Cons.IH show ?case by simp
qed simp

definition fresh_session :: "'w \<Rightarrow> ('w \<times> command_log) session_state" where
  "fresh_session w = \<lparr>se_world = (w, []), se_container = None\<rparr>"

text \<open>
  After any sequence of wraps and closes, failed ones included, the containers that were started and not
  removed are exactly the one the session remembers (none when it remembers none); a command the session
  wraps next runs in that container, so the harness and the verify gate share it, and closing
  leaves none.
\<close>

theorem session_has_one_container:
  "let s = session_calls (recording M) c calls (fresh_session w) in
    live (snd (se_world s)) = (case se_container s of None \<Rightarrow> [] | Some n \<Rightarrow> [n]) \<and>
    (case container_wrap (recording M) c argv worktree s of
       (Inl e, s') \<Rightarrow> length (live (snd (se_world s'))) \<le> 1
     | (Inr a, s') \<Rightarrow> \<exists>n opts. live (snd (se_world s')) = [n] \<and>
         a = cc_binary c # ''exec'' # ''--workdir'' # opts @ [n] @ argv) \<and>
    live (snd (se_world (snd (container_close (recording M) c s)))) = []"
proof -
  let ?s = "session_calls (recording M) c calls (fresh_session w)"
  have ok: "session_ok ?s" by (rule calls_ok) (simp add: fresh_session_def session_ok_def live_def)
  obtain r s1 where wr: "container_wrap (recording M) c argv worktree ?s = (r, s1)" by fastforce
  obtain x s2 where cl: "container_close (recording M) c ?s = (x, s2)" by fastforce
  have "case r of Inl e \<Rightarrow> length (live (snd (se_world s1))) \<le> 1
     | Inr a \<Rightarrow> \<exists>n opts. live (snd (se_world s1)) = [n] \<and> a = cc_binary c # ''exec'' # ''--workdir'' # opts @ [n] @ argv"
    using wrap_ok [OF wr ok] by (cases r; cases "se_container s1") (auto simp: session_ok_def)
  then show ?thesis
    using ok close_ok [OF cl ok] by (cases r) (auto simp: Let_def wr cl session_ok_def)
qed

end
