(* ===== verification/Runners.thy ===== *)
theory Runners
  imports Sandbox Executor Decision
begin

text \<open>
  The runners: the environment and the process of a harness run (\<open>runners/harness.py\<close>), the adapters
  (\<open>claude.py\<close>, \<open>codex.py\<close>, \<open>opencode.py\<close>, \<open>command.py\<close>), the catalog of harnesses and
  the container each runs in (\<open>catalog.py\<close>), and the choice of a harness per task
  (\<open>routing.py\<close>).
\<close>

section \<open>The environment and the process\<close>

definition HARNESS_ENV_ALLOWLIST :: "string list" where
  "HARNESS_ENV_ALLOWLIST =
     [''PATH'', ''HOME'', ''LANG'', ''LC_ALL'', ''TZ'', ''TERM'', ''USER'', ''LOGNAME'', ''SHELL'', ''TMPDIR'']"

definition harness_env_names :: "(string, string) dict \<Rightarrow> string list" where
  "harness_env_names environ = split_paths (dict_get environ ''DEAR_AGENT_HARNESS_ENV'')"

definition harness_env :: "(string, string) dict \<Rightarrow> string \<Rightarrow> (string, string) dict" where
  "harness_env environ cwd =
     (let names = unique (HARNESS_ENV_ALLOWLIST @ harness_env_names environ)
      in dict_set ''PWD'' cwd [(n, the (dict_get environ n)). n \<leftarrow> names, dict_has environ n])"

definition default_execute :: "'w machine \<Rightarrow> string list \<Rightarrow> string \<Rightarrow> int \<Rightarrow> ('w, completed) prog" where
  "default_execute M argv cwd seconds = m_timed_run M argv cwd (harness_env (m_environ M) cwd) seconds"

definition run_output :: "worktree \<Rightarrow> int \<Rightarrow> string \<Rightarrow> string \<Rightarrow> run_result" where
  "run_output wt exit_code out err =
     \<lparr>rr_exit_code = exit_code, rr_stdout = out, rr_stderr = err, rr_branch = Some (wt_branch wt),
      rr_commit = None, rr_pr_url = None, rr_extra = []\<rparr>"

text \<open>\<open>text\<close>: captured output of a timed-out process, if any.\<close>

definition captured :: "string option \<Rightarrow> string" where
  "captured x = (case x of None \<Rightarrow> [] | Some s \<Rightarrow> s)"

section \<open>The adapters\<close>

record 'w harness_runner =
  hr_binary :: string
  hr_model :: "string option"
  hr_timeout_seconds :: int
  hr_sandbox :: "'w sandbox"
  hr_execute :: "string list \<Rightarrow> string \<Rightarrow> int \<Rightarrow> ('w, completed) prog"
  hr_build_argv :: "string \<Rightarrow> string option \<Rightarrow> task_spec \<Rightarrow> string list"

definition harness_run :: "'w harness_runner \<Rightarrow> task \<Rightarrow> task_spec \<Rightarrow> worktree \<Rightarrow> ('w, run_result) prog" where
  "harness_run H t sp wt =
     bindE (sb_wrap (hr_sandbox H) (hr_build_argv H (hr_binary H) (hr_model H) sp) (wt_path wt)) (\<lambda>argv.
       bindE (attempt (hr_execute H argv (wt_path wt) (hr_timeout_seconds H))) (\<lambda>r.
         case r of
           Inl (FileNotFoundError _) \<Rightarrow>
             ret (run_output wt 127 [] (''harness binary '' @ py_repr (hr_binary H) @ '' not found''))
         | Inl (OSError s) \<Rightarrow>
             ret (run_output wt 126 [] (''cannot execute harness '' @ py_repr (hr_binary H) @ '': '' @ s))
         | Inl (TimeoutExpired _ out err) \<Rightarrow> ret (run_output wt 124 (captured out) (captured err))
         | Inl e \<Rightarrow> raise e
         | Inr done \<Rightarrow> ret (run_output wt (cm_returncode done) (cm_stdout done) (cm_stderr done))))"

definition with_model :: "string list \<Rightarrow> string option \<Rightarrow> task_spec \<Rightarrow> string list" where
  "with_model command model sp =
     command @ (if truthy model then [''--model'', the model] else []) @ [sp_instructions sp]"

definition claude_argv :: "string \<Rightarrow> string option \<Rightarrow> task_spec \<Rightarrow> string list" where
  "claude_argv binary model sp = with_model [binary, ''-p''] model sp"

definition codex_argv :: "string \<Rightarrow> string option \<Rightarrow> task_spec \<Rightarrow> string list" where
  "codex_argv binary model sp = with_model [binary, ''exec''] model sp"

definition opencode_argv :: "string \<Rightarrow> string option \<Rightarrow> task_spec \<Rightarrow> string list" where
  "opencode_argv binary model sp = with_model [binary, ''run''] model sp"

record 'w command_runner =
  cr_command :: "string list"
  cr_timeout_seconds :: int
  cr_sandbox :: "'w sandbox"
  cr_execute :: "string list \<Rightarrow> string \<Rightarrow> int \<Rightarrow> ('w, completed) prog"

definition command_run :: "'w command_runner \<Rightarrow> task \<Rightarrow> task_spec \<Rightarrow> worktree \<Rightarrow> ('w, run_result) prog" where
  "command_run C t sp wt =
     bindE (sb_wrap (cr_sandbox C) (cr_command C) (wt_path wt)) (\<lambda>argv.
       bindE (attempt (cr_execute C argv (wt_path wt) (cr_timeout_seconds C))) (\<lambda>r.
         case r of
           Inl (FileNotFoundError _) \<Rightarrow>
             ret (run_output wt 127 [] (''harness binary '' @
               py_repr (if cr_command C \<noteq> [] then hd (cr_command C) else ''command'') @ '' not found''))
         | Inl (OSError s) \<Rightarrow> ret (run_output wt 126 [] (''cannot execute command: '' @ s))
         | Inl (TimeoutExpired _ out err) \<Rightarrow> ret (run_output wt 124 (captured out) (captured err))
         | Inl e \<Rightarrow> raise e
         | Inr done \<Rightarrow> ret (run_output wt (cm_returncode done) (cm_stdout done) (cm_stderr done))))"

section \<open>The catalog\<close>

record harness_info =
  hi_id :: string
  hi_binary :: string
  hi_accepts_model :: bool
  hi_local :: bool
  hi_free :: bool
  hi_image :: "string option"
  hi_mounts :: "mount list"
  hi_container_env :: "string list"
  hi_install :: "string list list"

definition new_info :: "string \<Rightarrow> string \<Rightarrow> harness_info" where
  "new_info i binary =
     \<lparr>hi_id = i, hi_binary = binary, hi_accepts_model = False, hi_local = True, hi_free = False, hi_image = None,
      hi_mounts = [], hi_container_env = [], hi_install = []\<rparr>"

definition home_mount :: "string \<Rightarrow> bool \<Rightarrow> mount" where
  "home_mount path readonly = \<lparr>mn_host = path, mn_container = path, mn_readonly = readonly, mn_relabel = False\<rparr>"

text \<open>\<open>EnvHarnessCatalog\<close>.\<close>

definition list_harnesses :: "(string, string) dict \<Rightarrow> harness_info list" where
  "list_harnesses env =
     (let command = dict_get env ''DEAR_AGENT_HARNESS_COMMAND'' in
      [(new_info ''opencode'' ''opencode'')\<lparr>hi_accepts_model := True,
          hi_image := Some ''ghcr.io/anomalyco/opencode:latest'',
          hi_mounts := [home_mount ''~/.local/share/opencode'' True],
          hi_container_env := [''OPENCODE_CONFIG_CONTENT'']\<rparr>,
       (new_info ''claude'' ''claude'')\<lparr>
          hi_mounts := [home_mount ''~/.claude'' False, home_mount ''~/.claude.json'' False],
          hi_install := [[''npm'', ''install'', ''-g'', CHR 0x40 # ''anthropic-ai/claude-code'']]\<rparr>,
       (new_info ''codex'' ''codex'')\<lparr>
          hi_install := [[''npm'', ''install'', ''-g'', CHR 0x40 # ''openai/codex'']]\<rparr>] @
      (if truthy command then [new_info ''command'' (the command)] else []))"

definition DEFAULT_HARNESS :: string where "DEFAULT_HARNESS = ''opencode''"

definition by_id :: "harness_info list \<Rightarrow> (string, harness_info) dict" where
  "by_id infos = fold (\<lambda>i d. dict_set (hi_id i) i d) infos []"

definition select_harness ::
  "harness_info list \<Rightarrow> string option \<Rightarrow> (string \<Rightarrow> string option) \<Rightarrow> exn + harness_info" where
  "select_harness catalog preferred which =
     (let infos = by_id catalog; name = lower (strip (or_else preferred DEFAULT_HARNESS)) in
      if name \<in> {''auto'', ''local-agent''}
      then (case List.find (\<lambda>i. hi_id i \<noteq> ''command'' \<and> truthy (which (hi_binary i))) (dict_values infos) of
              Some i \<Rightarrow> Inr i
            | None \<Rightarrow> Inl (RuntimeError (''no local agent found on PATH (looked for opencode, claude, codex); '' @
                        ''set DEAR_AGENT_HARNESS and DEAR_AGENT_HARNESS_BINARY'')))
      else if name = ''command'' \<and> \<not> dict_has infos ''command''
      then Inl (RuntimeError ''DEAR_AGENT_HARNESS_COMMAND is required for DEAR_AGENT_HARNESS=command'')
      else case dict_get infos name of
             None \<Rightarrow> Inl (RuntimeError (''unknown harness '' @ py_repr name))
           | Some i \<Rightarrow> Inr i)"

definition split_list :: "string option \<Rightarrow> string list" where
  "split_list value = filter (\<lambda>p. p \<noteq> []) (map strip (split_on (CHR '','') (or_else value [])))"

definition optional_int :: "string option \<Rightarrow> exn + int option" where
  "optional_int value =
     (case value of
        None \<Rightarrow> Inr None
      | Some v \<Rightarrow>
          if lower (strip v) \<in> {[], ''none''} then Inr None
          else case py_int v of
                 None \<Rightarrow> Inl (ValueError (''invalid literal for int() with base 10: '' @ py_repr v))
               | Some n \<Rightarrow> Inr (Some n))"

definition env_default :: "(string, string) dict \<Rightarrow> string \<Rightarrow> string \<Rightarrow> string" where
  "env_default env name otherwise = (case dict_get env name of None \<Rightarrow> otherwise | Some v \<Rightarrow> v)"

definition container_sandbox :: "harness_info \<Rightarrow> (string, string) dict \<Rightarrow> exn + container_config" where
  "container_sandbox info env =
     (let image = (if truthy (dict_get env ''DEAR_AGENT_HARNESS_IMAGE'')
                   then dict_get env ''DEAR_AGENT_HARNESS_IMAGE'' else hi_image info) in
      if \<not> truthy image
      then Inl (RuntimeError (''harness '' @ py_repr (hi_id info) @
             '' has no container image; set DEAR_AGENT_HARNESS_IMAGE''))
      else case parse_mounts (dict_get env ''DEAR_AGENT_HARNESS_MOUNTS'') of
             Inl e \<Rightarrow> Inl e
           | Inr mounts \<Rightarrow>
               (case optional_int (Some (env_default env ''DEAR_AGENT_HARNESS_CONTAINER_PIDS'' ''512'')) of
                  Inl e \<Rightarrow> Inl e
                | Inr pids \<Rightarrow>
                    let names = split_list (dict_get env ''DEAR_AGENT_HARNESS_CONTAINER_ENV'') in
                    container_new
                      \<lparr>cc_image = the image,
                       cc_mounts = (if mounts \<noteq> [] then mounts else hi_mounts info),
                       cc_env_allowlist = (if names \<noteq> [] then names else hi_container_env info),
                       cc_network = env_default env ''DEAR_AGENT_HARNESS_CONTAINER_NETWORK'' ''host'',
                       cc_container_home = env_default env ''DEAR_AGENT_HARNESS_CONTAINER_HOME'' ''/root'',
                       cc_workdir = env_default env ''DEAR_AGENT_HARNESS_CONTAINER_WORKDIR'' ''/work'',
                       cc_binary = env_default env ''DEAR_AGENT_CONTAINER_BINARY'' ''podman'',
                       cc_userns_keep_id =
                         (lower (env_default env ''DEAR_AGENT_HARNESS_CONTAINER_USERNS'' []) = ''keep-id''),
                       cc_extra_args = split_list (dict_get env ''DEAR_AGENT_HARNESS_CONTAINER_ARGS''),
                       cc_cap_drop =
                         (lower (env_default env ''DEAR_AGENT_HARNESS_CONTAINER_CAP_DROP'' ''true'') \<noteq> ''false''),
                       cc_pids_limit = pids,
                       cc_read_only =
                         (lower (env_default env ''DEAR_AGENT_HARNESS_CONTAINER_READONLY'' []) = ''true''),
                       cc_setup = [],
                       cc_selinux = strip (env_default env ''DEAR_AGENT_HARNESS_CONTAINER_SELINUX'' ''auto'')\<rparr>))"

definition plain_runner :: "(task \<Rightarrow> task_spec \<Rightarrow> worktree \<Rightarrow> ('w, run_result) prog) \<Rightarrow> 'w runner" where
  "plain_runner f = \<lparr>rn_run = f, rn_session_for = None\<rparr>"

definition adapter ::
  "'w machine \<Rightarrow> (string \<Rightarrow> string option \<Rightarrow> task_spec \<Rightarrow> string list) \<Rightarrow> harness_info \<Rightarrow> string option \<Rightarrow> 'w sandbox \<Rightarrow>
    'w runner" where
  "adapter M build info model sb =
     plain_runner (harness_run
       \<lparr>hr_binary = hi_binary info, hr_model = model, hr_timeout_seconds = 3600, hr_sandbox = sb,
        hr_execute = default_execute M, hr_build_argv = build\<rparr>)"

definition build_runner_for ::
  "'w machine \<Rightarrow> harness_info \<Rightarrow> string option \<Rightarrow> 'w sandbox \<Rightarrow> exn + 'w runner" where
  "build_runner_for M info model sb =
     (let harness_model = (if hi_accepts_model info then model else None) in
      if hi_id info = ''command''
      then Inr (plain_runner (command_run
             \<lparr>cr_command = split_ws (hi_binary info), cr_timeout_seconds = 3600, cr_sandbox = sb,
              cr_execute = default_execute M\<rparr>))
      else if hi_id info = ''claude'' then Inr (adapter M claude_argv info harness_model sb)
      else if hi_id info = ''codex'' then Inr (adapter M codex_argv info harness_model sb)
      else if hi_id info = ''opencode'' then Inr (adapter M opencode_argv info harness_model sb)
      else Inl (RuntimeError (''unknown harness '' @ py_repr (hi_id info))))"

section \<open>Routing\<close>

text \<open>
  The routing runner with its mutable cache; each registered runner comes with its \<open>sandbox\<close> attribute, if it
  has one. The decider may be a hosted model: it acts on the machine and may answer differently each time.
\<close>

record 'w routing =
  rt_runners :: "(string, 'w runner \<times> 'w sandbox option) dict"
  rt_decider :: "(string \<Rightarrow> questions \<Rightarrow> ('w, decision) prog) option"
  rt_default :: string

record 'w routing_state =
  ro_world :: 'w
  ro_task :: "string option"
  ro_choice :: "string option"

definition HARNESS_QUESTION :: question where
  "HARNESS_QUESTION =
     \<lparr>qu_kind = CHOICE, qu_instructions = ''Which coding harness should run this task?'',
      qu_criteria = Some (CDict
        [(''local'', ''the lightweight/cheap harness for mechanical, low-risk changes''),
         (''hosted'', ''the strong harness for architecture, security, subtle debugging, design'')])\<rparr>"

definition ro_run :: "('w, 'a) prog \<Rightarrow> ('w routing_state, 'a) prog" where
  "ro_run p = on_part ro_world (\<lambda>w s. s\<lparr>ro_world := w\<rparr>) p"

definition routing_text :: "task \<Rightarrow> task_spec \<Rightarrow> string" where
  "routing_text t sp = join newline (filter (\<lambda>p. p \<noteq> []) [or_else (t_subject t) [], sp_instructions sp])"

definition routing_decide :: "'w routing \<Rightarrow> task \<Rightarrow> task_spec \<Rightarrow> ('w routing_state, string) prog" where
  "routing_decide R t sp =
     (case rt_decider R of
        None \<Rightarrow> ret (rt_default R)
      | Some decide \<Rightarrow>
          bindE (attempt (ro_run (decide (routing_text t sp) [(''harness'', HARNESS_QUESTION)]))) (\<lambda>r.
            case r of
              Inl e \<Rightarrow> ret (rt_default R)
            | Inr d \<Rightarrow> ret (or_else (d_choice d ''harness'') (rt_default R))))"

definition routing_choose :: "'w routing \<Rightarrow> task \<Rightarrow> task_spec \<Rightarrow> ('w routing_state, string) prog" where
  "routing_choose R t sp =
     bindE (asks (\<lambda>s. (ro_task s, ro_choice s))) (\<lambda>(cached, choice).
       if cached = Some (t_id t) \<and> choice \<noteq> None then ret (the choice)
       else bindE (routing_decide R t sp) (\<lambda>chosen.
         seqE (modify (\<lambda>s. s\<lparr>ro_task := Some (t_id t), ro_choice := Some chosen\<rparr>)) (ret chosen)))"

definition routing_runner_for :: "'w routing \<Rightarrow> string \<Rightarrow> exn + ('w runner \<times> 'w sandbox option)" where
  "routing_runner_for R chosen =
     (case dict_get (rt_runners R) chosen of
        Some r \<Rightarrow> Inr r
      | None \<Rightarrow>
          (case dict_get (rt_runners R) (rt_default R) of
             Some r \<Rightarrow> Inr r
           | None \<Rightarrow> Inl (KeyError (''no runner registered for '' @ py_repr chosen @ '' or default '' @
                       py_repr (rt_default R)))))"

definition routing_pick :: "'w routing \<Rightarrow> task \<Rightarrow> task_spec \<Rightarrow> ('w routing_state, 'w runner \<times> 'w sandbox option) prog" where
  "routing_pick R t sp =
     bindE (routing_choose R t sp) (\<lambda>chosen.
       case routing_runner_for R chosen of Inl e \<Rightarrow> raise e | Inr r \<Rightarrow> ret r)"

definition routing_run :: "'w routing \<Rightarrow> task \<Rightarrow> task_spec \<Rightarrow> worktree \<Rightarrow> ('w routing_state, run_result) prog" where
  "routing_run R t sp wt = bindE (routing_pick R t sp) (\<lambda>(rn, sb). ro_run (rn_run rn t sp wt))"

definition routing_session_for :: "'w routing \<Rightarrow> task \<Rightarrow> task_spec \<Rightarrow> ('w routing_state, 'w sandbox option) prog" where
  "routing_session_for R t sp = bindE (routing_pick R t sp) (\<lambda>(rn, sb). ret sb)"

section \<open>Facts\<close>

text \<open>
  C35. The environment of a harness process has the worktree as \<open>PWD\<close> and otherwise only variables of the
  allowlist or named in \<open>DEAR_AGENT_HARNESS_ENV\<close>, with the values they have in the agent's own
  environment: no other variable of the agent (mail token, database address) is inherited.
\<close>

theorem harness_env_isolated:
  "dict_get (harness_env environ cwd) n =
     (if n = ''PWD'' then Some cwd
      else if n \<in> set HARNESS_ENV_ALLOWLIST \<union> set (harness_env_names environ) then dict_get environ n else None)"
proof -
  have "dict_get [(n, the (dict_get environ n)). n \<leftarrow> names, dict_has environ n] n =
      (if n \<in> set names then dict_get environ n else None)" for names
    by (induction names) auto
  then show ?thesis by (simp add: harness_env_def Let_def)
qed

lemma decide_total:
  "\<exists>c w. routing_decide R t sp s = (Inr c, s\<lparr>ro_world := w\<rparr>) \<and>
     (\<forall>decide e w'. rt_decider R = Some decide \<longrightarrow>
        decide (routing_text t sp) [(''harness'', HARNESS_QUESTION)] (ro_world s) = (Inl e, w') \<longrightarrow> c = rt_default R)"
proof (cases "rt_decider R")
  case None then show ?thesis by (auto simp: routing_decide_def intro!: exI [of _ "ro_world s"])
next
  case (Some decide)
  obtain r w where "decide (routing_text t sp) [(''harness'', HARNESS_QUESTION)] (ro_world s) = (r, w)" by fastforce
  with Some show ?thesis
    by (cases r) (auto simp: routing_decide_def ro_run_def on_part_def)
qed

lemma choose_cached:
  "\<exists>c w. routing_choose R t sp s = (Inr c, s\<lparr>ro_world := w, ro_task := Some (t_id t), ro_choice := Some c\<rparr>)"
proof (cases "ro_task s = Some (t_id t) \<and> ro_choice s \<noteq> None")
  case True
  then obtain c where "ro_choice s = Some c" by blast
  with True have "routing_choose R t sp s = (Inr c, s)" "s = s\<lparr>ro_world := ro_world s, ro_task := Some (t_id t), ro_choice := Some c\<rparr>"
    by (simp_all add: routing_choose_def)
  then show ?thesis by metis
next
  case False
  obtain c w where "routing_decide R t sp s = (Inr c, s\<lparr>ro_world := w\<rparr>)" using decide_total [of R t sp s] by blast
  with False show ?thesis
    by (auto simp: routing_choose_def bindE_def seqE_def intro!: exI [of _ c] exI [of _ w])
qed

lemma choose_again:
  "ro_task s = Some (t_id t) \<Longrightarrow> ro_choice s = Some c \<Longrightarrow> routing_choose R t sp s = (Inr c, s)"
  by (simp add: routing_choose_def)

text \<open>
  The session handed to the verify gate is the one of the harness that runs: after
  \<open>session_for\<close> has named a session, whatever happens to the machine in between, \<open>run\<close> runs the
  very runner that session belongs to, without asking the decider again, however it would answer now.
\<close>

theorem session_is_of_the_run:
  assumes "routing_session_for R t sp s = (Inr sb, s1)"
  shows "\<exists>rn. (rn, sb) \<in> set (dict_values (rt_runners R)) \<and>
    routing_run R t sp wt (s1\<lparr>ro_world := w\<rparr>) =
      (case rn_run rn t sp wt w of (r, w') \<Rightarrow> (r, s1\<lparr>ro_world := w'\<rparr>))"
proof -
  obtain c w1 where c: "routing_choose R t sp s = (Inr c, s\<lparr>ro_world := w1, ro_task := Some (t_id t), ro_choice := Some c\<rparr>)"
    using choose_cached [of R t sp s] by blast
  then obtain rn where rn: "routing_runner_for R c = Inr (rn, sb)"
      and s1: "s1 = s\<lparr>ro_world := w1, ro_task := Some (t_id t), ro_choice := Some c\<rparr>"
    using assms by (auto simp: routing_session_for_def routing_pick_def bindE_def split: sum.splits)
  have "(rn, sb) \<in> set (dict_values (rt_runners R))"
    using rn by (force simp: routing_runner_for_def dest: map_of_SomeD split: option.splits)
  moreover have "routing_run R t sp wt (s1\<lparr>ro_world := w\<rparr>) =
      (case rn_run rn t sp wt w of (r, w') \<Rightarrow> (r, s1\<lparr>ro_world := w'\<rparr>))"
    using choose_again [of "s1\<lparr>ro_world := w\<rparr>" t c R sp] rn
    by (simp add: s1 routing_run_def routing_pick_def bindE_def ro_run_def on_part_def)
  ultimately show ?thesis by blast
qed

text \<open>A decider that answers \<open>local\<close> first and \<open>hosted\<close> ever after.\<close>

definition ex_runner_of :: "int \<Rightarrow> nat runner" where
  "ex_runner_of n = plain_runner (\<lambda>t sp wt. ret (run_output wt n [] []))"

definition ex_routing :: "nat routing" where
  "ex_routing =
     \<lparr>rt_runners = [(''local'', (ex_runner_of 0, Some (no_sandbox 7))), (''hosted'', (ex_runner_of 1, None))],
      rt_decider = Some (\<lambda>state qs n. (Inr [(''harness'', (new_answer CHOICE)\<lparr>an_choice :=
        Some (if n = 0 then ''local'' else ''hosted'')\<rparr>)], Suc n)),
      rt_default = ''hosted''\<rparr>"

theorem session_is_of_the_run_witness:
  "\<exists>s1. routing_session_for ex_routing (new_task ''a'' ''m'' 0) (new_spec ''o/r'')
       \<lparr>ro_world = 0, ro_task = None, ro_choice = None\<rparr> = (Inr (Some (no_sandbox 7)), s1) \<and>
     (\<exists>rn. (rn, Some (no_sandbox 7)) \<in> set (dict_values (rt_runners ex_routing)) \<and>
       routing_run ex_routing (new_task ''a'' ''m'' 0) (new_spec ''o/r'')
         \<lparr>wt_repo_path = [], wt_path = [], wt_branch = []\<rparr> (s1\<lparr>ro_world := 1\<rparr>) =
       (case rn_run rn (new_task ''a'' ''m'' 0) (new_spec ''o/r'')
           \<lparr>wt_repo_path = [], wt_path = [], wt_branch = []\<rparr> 1 of (r, w') \<Rightarrow> (r, s1\<lparr>ro_world := w'\<rparr>)))"
proof -
  have "routing_session_for ex_routing (new_task ''a'' ''m'' 0) (new_spec ''o/r'')
       \<lparr>ro_world = 0, ro_task = None, ro_choice = None\<rparr> =
     (Inr (Some (no_sandbox 7)), \<lparr>ro_world = 1, ro_task = Some ''a'', ro_choice = Some ''local''\<rparr>)"
    by (simp add: routing_session_for_def routing_pick_def routing_choose_def routing_decide_def ex_routing_def
        ro_run_def on_part_def d_choice_def routing_runner_for_def bindE_def seqE_def attempt_def or_else_def
        truthy_def new_task_def)
  with session_is_of_the_run [OF this] show ?thesis by blast
qed

end
