(* ===== verification/Worker.thy ===== *)
theory Worker
  imports Runners ControlPlane Deps
begin

text \<open>
  The task worker (\<open>worker.py\<close>): the guards before a run, the policy's defaults, running one task by id and
  taking the next runnable one; and the resolution of a task's instructions (\<open>worker_factory.py\<close>,
  \<open>repo.py\<close>).
\<close>

section \<open>State\<close>

record ('q, 'e, 't, 'w, 'p) worker =
  wk_queue :: "'q queue_ops"
  wk_executor :: "('q, 'e, 't, 'w) executor"
  wk_resolve_spec :: "task \<Rightarrow> string \<Rightarrow> (('q, 'e, 't, 'w) exec_state, task_spec) prog"
  wk_repo_path :: string
  wk_recipient :: "string option"
  wk_max_attempts :: int
  wk_lease :: duration
  wk_events :: "'e event_ops option"
  wk_budget :: error_budget
  wk_policies :: "('p policy_ops \<times> 'p) option"
  wk_verifier :: "'w verifier option"

definition wk_now :: "('q, 'e, 't, 'w, 'p) worker \<Rightarrow> (('q, 'e, 't, 'w) exec_state, time) prog" where
  "wk_now W = xc_now (wk_executor W)"

definition wk_emit ::
  "('q, 'e, 't, 'w, 'p) worker \<Rightarrow> string \<Rightarrow> string \<Rightarrow> (string, string) dict \<Rightarrow>
    (('q, 'e, 't, 'w) exec_state, unit) prog" where
  "wk_emit W task_id kind data =
     (case wk_events W of
        None \<Rightarrow> ret ()
      | Some E \<Rightarrow> bindE (wk_now W) (\<lambda>now.
          modify (\<lambda>s. s\<lparr>xs_events := e_record E task_id kind data now (xs_events s)\<rparr>)))"

definition wk_transition ::
  "('q, 'e, 't, 'w, 'p) worker \<Rightarrow> task \<Rightarrow> task_state \<Rightarrow> (('q, 'e, 't, 'w) exec_state, task) prog" where
  "wk_transition W t st = bindE (wk_now W) (\<lambda>now.
     on_part xs_queue (\<lambda>q s. s\<lparr>xs_queue := q\<rparr>) (q_transition (wk_queue W) t st None now))"

definition wk_claim :: "('q, 'e, 't, 'w, 'p) worker \<Rightarrow> task \<Rightarrow> (('q, 'e, 't, 'w) exec_state, bool) prog" where
  "wk_claim W t = bindE (wk_now W) (\<lambda>now.
     on_part xs_queue (\<lambda>q s. s\<lparr>xs_queue := q\<rparr>)
       (\<lambda>q. case q_claim (wk_queue W) t (wk_lease W) now q of (b, q') \<Rightarrow> (Inr b, q')))"

section \<open>Guards\<close>

definition guard_budget :: "('q, 'e, 't, 'w, 'p) worker \<Rightarrow> string \<Rightarrow> (('q, 'e, 't, 'w) exec_state, unit) prog" where
  "guard_budget W task_id =
     (case wk_events W of
        None \<Rightarrow> ret ()
      | Some E \<Rightarrow>
          bindE (wk_now W) (\<lambda>now.
            bindE (asks (\<lambda>s. exhausted (wk_budget W) E now (xs_events s))) (\<lambda>stop.
              if \<not> stop then ret ()
              else seqE (wk_emit W task_id ''budget.exhausted'' [])
                (raise (TaskWorkerError (''error budget exhausted ('' @ show_int (eb_max_failures (wk_budget W)) @
                   '' failures in '' @ show_int (eb_window_seconds (wk_budget W)) @ ''s); not starting new runs''))))))"

definition guard_attempts :: "('q, 'e, 't, 'w, 'p) worker \<Rightarrow> task \<Rightarrow> (('q, 'e, 't, 'w) exec_state, unit) prog" where
  "guard_attempts W t =
     (if int (t_attempts t) \<ge> wk_max_attempts W
      then seqE (wk_transition W t FAILED)
        (raise (TaskWorkerError (''task '' @ py_repr (t_id t) @ '' exceeded '' @ show_int (wk_max_attempts W) @
           '' attempts; left failed'')))
      else ret ())"

definition policy_for :: "('q, 'e, 't, 'w, 'p) worker \<Rightarrow> task \<Rightarrow> project_policy option" where
  "policy_for W t =
     (case (wk_policies W, t_spec t) of
        (Some (P, ps), Some sp) \<Rightarrow> p_for_repo P (sp_repo_url sp) ps
      | _ \<Rightarrow> None)"

definition guard_policy :: "('q, 'e, 't, 'w, 'p) worker \<Rightarrow> task \<Rightarrow> (('q, 'e, 't, 'w) exec_state, unit) prog" where
  "guard_policy W t =
     (case policy_for W t of
        None \<Rightarrow> ret ()
      | Some p \<Rightarrow>
          if pp_enabled p then ret ()
          else seqE (wk_transition W t FAILED)
            (seqE (wk_emit W (t_id t) ''policy.denied'' [(''project'', pp_project p)])
              (raise (TaskWorkerError (''project '' @ py_repr (pp_project p) @ '' is disabled'')))))"

definition wk_status :: "('q, 'e, 't, 'w, 'p) worker \<Rightarrow> task \<Rightarrow> (('q, 'e, 't, 'w) exec_state, dependency_status) prog" where
  "wk_status W t = asks (\<lambda>s. dependency_status_of (wk_queue W) (xs_queue s) t)"

definition give_up :: "('q, 'e, 't, 'w, 'p) worker \<Rightarrow> task \<Rightarrow> dependency_status \<Rightarrow> (('q, 'e, 't, 'w) exec_state, unit) prog" where
  "give_up W t st =
     seqE (wk_transition W t FAILED)
       (wk_emit W (t_id t) ''task.dependency_failed'' [(''failed_on'', py_repr_list (ds_failed_on st))])"

definition report_blocked :: "('q, 'e, 't, 'w, 'p) worker \<Rightarrow> task \<Rightarrow> dependency_status \<Rightarrow> (('q, 'e, 't, 'w) exec_state, unit) prog" where
  "report_blocked W t st =
     wk_emit W (t_id t) ''task.blocked'' [(''blocked_on'', py_repr_list (ds_blocked_on st))]"

definition guard_dependencies :: "('q, 'e, 't, 'w, 'p) worker \<Rightarrow> task \<Rightarrow> (('q, 'e, 't, 'w) exec_state, unit) prog" where
  "guard_dependencies W t =
     bindE (wk_status W t) (\<lambda>st.
       if ds_state st = ''failed''
       then seqE (give_up W t st) (raise (TaskWorkerError
              (''task '' @ py_repr (t_id t) @ '' depends on failed '' @ py_repr_tuple (ds_failed_on st))))
       else if ds_state st = ''blocked''
       then seqE (report_blocked W t st) (raise (TaskWorkerError
              (''task '' @ py_repr (t_id t) @ '' is blocked on '' @ py_repr_tuple (ds_blocked_on st))))
       else ret ())"

section \<open>The policy's defaults\<close>

text \<open>\<open>CommandVerifier(allowed=...)\<close> with its defaults: no sandbox, the restricted environment.\<close>

definition command_verifier :: "'w machine \<Rightarrow> string list list \<Rightarrow> 'w verifier" where
  "command_verifier M allowed =
     \<lparr>vf_allowed = allowed, vf_timeout_seconds = 900, vf_sandbox = no_sandbox 0, vf_execute = default_execute M\<rparr>"

text \<open>The argument vectors of the policy's \<open>verify_allow\<close>; an entry \<open>shlex\<close> rejects raises.\<close>

fun split_entries :: "string list \<Rightarrow> exn + string list list" where
  "split_entries [] = Inr []"
| "split_entries (e # es) =
     (if strip e = [] then split_entries es
      else case shlex_split e of
             Inl x \<Rightarrow> Inl x
           | Inr argv \<Rightarrow> (case split_entries es of Inl x \<Rightarrow> Inl x | Inr r \<Rightarrow> Inr (argv # r)))"

definition effective ::
  "('q, 'e, 't, 'w, 'p) worker \<Rightarrow> task \<Rightarrow> task_spec \<Rightarrow> exn + task_spec \<times> 'w verifier option" where
  "effective W t sp =
     (case policy_for W t of
        None \<Rightarrow> Inr (sp, wk_verifier W)
      | Some p \<Rightarrow>
          let sp' = (if truthy (pp_base_branch p) \<and> sp_base_branch sp \<in> {[], ''main''}
                     then sp\<lparr>sp_base_branch := the (pp_base_branch p)\<rparr> else sp)
          in if pp_verify_allow p = [] then Inr (sp', wk_verifier W)
             else case split_entries (pp_verify_allow p) of
                    Inl e \<Rightarrow> Inl e
                  | Inr extra \<Rightarrow>
                      Inr (sp', Some (case wk_verifier W of
                                        Some v \<Rightarrow> v\<lparr>vf_allowed := vf_allowed v @ extra\<rparr>
                                      | None \<Rightarrow> command_verifier (xc_machine (wk_executor W)) extra)))"

section \<open>Running\<close>

definition resolve_and_execute ::
  "('q, 'e, 't, 'w, 'p) worker \<Rightarrow> task \<Rightarrow> bool \<Rightarrow> (('q, 'e, 't, 'w) exec_state, executed_task) prog" where
  "resolve_and_execute W t held =
     bindE (wk_resolve_spec W t (wk_repo_path W)) (\<lambda>sp0.
       case effective W t sp0 of
         Inl e \<Rightarrow> raise e
       | Inr (sp, vf) \<Rightarrow> execute (wk_executor W) t sp (wk_recipient W) held vf)"

definition worker_run :: "('q, 'e, 't, 'w, 'p) worker \<Rightarrow> string \<Rightarrow> (('q, 'e, 't, 'w) exec_state, executed_task) prog" where
  "worker_run W task_id =
     bindE (asks (\<lambda>s. q_get (wk_queue W) task_id (xs_queue s))) (\<lambda>found.
       case found of
         None \<Rightarrow> raise (TaskWorkerError (''no task '' @ py_repr task_id @ '' in the queue''))
       | Some t \<Rightarrow>
           seqE (guard_budget W (t_id t)) (seqE (guard_attempts W t) (seqE (guard_dependencies W t)
             (seqE (guard_policy W t) (resolve_and_execute W t False)))))"

fun next_loop :: "('q, 'e, 't, 'w, 'p) worker \<Rightarrow> task list \<Rightarrow> (('q, 'e, 't, 'w) exec_state, executed_task) prog" where
  "next_loop W [] = raise (TaskWorkerError ''no runnable task'')"
| "next_loop W (t # ts) =
     bindE (wk_status W t) (\<lambda>st.
       if ds_state st = ''failed'' then seqE (give_up W t st) (next_loop W ts)
       else if ds_state st = ''blocked'' then seqE (report_blocked W t st) (next_loop W ts)
       else bindE (attempt (seqE (guard_attempts W t) (guard_policy W t))) (\<lambda>r.
         case r of
           Inl (TaskWorkerError _) \<Rightarrow> next_loop W ts
         | Inl e \<Rightarrow> raise e
         | Inr _ \<Rightarrow>
             bindE (wk_claim W t) (\<lambda>won.
               if \<not> won then next_loop W ts else resolve_and_execute W t True)))"

definition run_next :: "('q, 'e, 't, 'w, 'p) worker \<Rightarrow> (('q, 'e, 't, 'w) exec_state, executed_task) prog" where
  "run_next W =
     seqE (guard_budget W ''<dispatch>'')
       (bindE (asks (\<lambda>s. q_list (wk_queue W) QUEUED 100 (xs_queue s))) (next_loop W))"

section \<open>Resolving a task (worker_factory.py, repo.py)\<close>

text \<open>\<open>RepoPreparer.ensure\<close>; \<open>parent\<close> is \<open>Path.parent\<close>.\<close>

definition ensure_repo :: "'w machine \<Rightarrow> (string \<Rightarrow> string) \<Rightarrow> string \<Rightarrow> string \<Rightarrow> string \<Rightarrow> ('w, string) prog" where
  "ensure_repo M parent binary path url =
     bindE (asks (m_exists M (path_join path ''.git''))) (\<lambda>is_repo.
       if is_repo then ret path
       else bindE (asks (\<lambda>w. m_exists M path w \<and> m_listdir M path w \<noteq> [])) (\<lambda>occupied.
         if occupied then raise (RepoError (path @ '' exists but is not a git repository''))
         else seqE (m_mkdir M (parent path))
           (bindE (m_run M [binary, ''clone'', ''--depth'', ''1'', url, path] [] None) (\<lambda>r.
              if cm_returncode r \<noteq> 0
              then raise (RepoError (let err = strip (cm_stderr r) in
                     if err \<noteq> [] then err else ''cannot clone '' @ py_repr url))
              else ret path))))"

text \<open>\<open>WorktreeSpecResolver\<close>; a task without a spec is looked for in the mailbox.\<close>

definition spec_from_transport ::
  "('q, 'e, 't, 'w) executor \<Rightarrow> task \<Rightarrow> (('q, 'e, 't, 'w) exec_state, task_spec) prog" where
  "spec_from_transport X t =
     bindE (on_part xs_transport (\<lambda>tr s. s\<lparr>xs_transport := tr\<rparr>) (tr_poll (xc_transport X))) (\<lambda>raws.
       case List.find (\<lambda>m. rm_transport_id m = t_transport_id t) raws of
         None \<Rightarrow> raise (LookupError (''message '' @ py_repr (t_transport_id t) @ '' not found in the transport''))
       | Some m \<Rightarrow>
           bindE (xc_now X) (\<lambda>now.
             case normalize m None now of
               NormalizedTask _ sp \<Rightarrow> ret sp
             | Rejected _ reason _ \<Rightarrow>
                 raise (ValueError (''message '' @ py_repr (t_transport_id t) @ '' does not normalize: '' @
                   reason_value reason))))"

definition spec_resolver ::
  "('q, 'e, 't, 'w) executor \<Rightarrow> (string \<Rightarrow> string) \<Rightarrow> string \<Rightarrow> task \<Rightarrow> string \<Rightarrow>
    (('q, 'e, 't, 'w) exec_state, task_spec) prog" where
  "spec_resolver X parent binary t repo_path =
     bindE (case t_spec t of Some sp \<Rightarrow> ret sp | None \<Rightarrow> spec_from_transport X t) (\<lambda>sp.
       if sp_repo_url sp \<noteq> []
       then seqE (on_world (ensure_repo (xc_machine X) parent binary repo_path (sp_repo_url sp))) (ret sp)
       else ret sp)"

section \<open>What the steps leave alone\<close>

lemma keeps_queue_wk_emit [simp]: "keeps same_queue (wk_emit W i k d)"
  unfolding wk_emit_def wk_now_def
  by (auto split: option.split intro!: keeps_queue_intros
      simp: keeps_def [of _ "xc_now X" for X] xc_now_def keeps_def [of _ "modify _"] same_queue_def)

lemma wk_emit_returns: "\<exists>s'. wk_emit W i k d s = (Inr (), s') \<and> xs_queue s' = xs_queue s"
  by (cases "wk_events W") (auto simp: wk_emit_def bindE_def wk_now_def xc_now_def)

lemma keeps_queue_resolver: "keeps same_queue (spec_resolver X parent binary t path)"
  unfolding spec_resolver_def spec_from_transport_def
  by (auto intro!: keeps_queue_intros split: option.split normalization_result.split
      simp: keeps_def [of _ "on_part xs_transport _ _"] on_part_def same_queue_def case_prod_unfold
        keeps_def [of _ "xc_now X"] xc_now_def)

lemma budget_cases:
  obtains (stopped) s' where "guard_budget W i s = (Inl (TaskWorkerError (''error budget exhausted ('' @
        show_int (eb_max_failures (wk_budget W)) @ '' failures in '' @ show_int (eb_window_seconds (wk_budget W)) @
        ''s); not starting new runs'')), s')" "xs_queue s' = xs_queue s"
      "\<exists>E now. wk_events W = Some E \<and> exhausted (wk_budget W) E now (xs_events s)"
  | (passed) s' where "guard_budget W i s = (Inr (), s')" "xs_queue s' = xs_queue s"
proof (cases "wk_events W")
  case None then show ?thesis using passed by (auto simp: guard_budget_def)
next
  case (Some E)
  let ?s = "s\<lparr>xs_tick := Suc (xs_tick s)\<rparr>"
  obtain s1 where "wk_emit W i ''budget.exhausted'' [] ?s = (Inr (), s1)" "xs_queue s1 = xs_queue s"
    using wk_emit_returns [of W i "''budget.exhausted''" "[]" ?s] by auto
  then show ?thesis
    using Some passed stopped
    by (cases "exhausted (wk_budget W) E (xc_clock (wk_executor W) (xs_tick s)) (xs_events s)")
      (auto simp: guard_budget_def wk_now_def xc_now_def bindE_def seqE_def)
qed

end
