(* ===== verification/WorkerRuns.thy ===== *)
theory WorkerRuns
  imports Worker ExecutorTrace
begin

text \<open>
  What the worker does to the queue: taking the next runnable task changes no task but the one it runs and those
  it gives up on, and takes the oldest runnable one; running by id changes that task only.
\<close>

section \<open>Which tasks may run\<close>

definition may_run :: "('q, 'e, 't, 'w, 'p) worker \<Rightarrow> store \<Rightarrow> task \<Rightarrow> bool" where
  "may_run W m u \<longleftrightarrow>
     t_state u = QUEUED \<and> (\<forall>d \<in> set (depends_of u). \<exists>x. m d = Some x \<and> t_state x = DONE) \<and>
     int (t_attempts u) < wk_max_attempts W \<and> (\<forall>p. policy_for W u = Some p \<longrightarrow> pp_enabled p)"

definition hopeless :: "('q, 'e, 't, 'w, 'p) worker \<Rightarrow> store \<Rightarrow> task \<Rightarrow> bool" where
  "hopeless W m u \<longleftrightarrow>
     (\<exists>d \<in> set (depends_of u). \<exists>x. m d = Some x \<and> t_state x \<in> {FAILED, REJECTED}) \<or>
     int (t_attempts u) \<ge> wk_max_attempts W \<or> (\<exists>p. policy_for W u = Some p \<and> \<not> pp_enabled p)"

text \<open>
  What one call of \<open>run_next\<close> may do to the stored tasks, \<open>taken\<close> being the task it runs, if any;
  \<open>keep\<close> is how the backend carries evidence over.
\<close>

definition one_turn ::
  "('q, 'e, 't, 'w, 'p) worker \<Rightarrow> (string \<Rightarrow> string) \<Rightarrow> (evidence option \<Rightarrow> evidence option) \<Rightarrow> string option \<Rightarrow>
    exn + executed_task \<Rightarrow> store \<Rightarrow> store \<Rightarrow> bool" where
  "one_turn W idkey keep taken r m m' \<longleftrightarrow>
     dom m' = dom m \<and>
     (\<forall>i u. m i = Some u \<longrightarrow>
        m' i = Some u \<or>
        t_state u = QUEUED \<and> hopeless W m' u \<and> m' i = Some (moved FAILED (keep (t_evidence u)) u) \<or>
        taken = Some i \<and> may_run W m u \<and> (\<exists>u'. m' i = Some u' \<and> same_task u u')) \<and>
     (case taken of
        None \<Rightarrow> \<exists>e. r = Inl (TaskWorkerError e)
      | Some i \<Rightarrow> \<exists>u u'. m i = Some u \<and> may_run W m u \<and> m' i = Some u' \<and> t_state u' \<in> {RUNNING, DONE, FAILED} \<and>
          (\<forall>j v. m j = Some v \<longrightarrow> may_run W m v \<longrightarrow> age idkey u \<le> age idkey v) \<and>
          (\<forall>ev. r = Inr ev \<longrightarrow> xt_task_id ev = i \<and> t_state u' = (if xt_ok ev then DONE else FAILED)))"

section \<open>The contract\<close>

locale working = executing Q store invar canon merge_ev idkey X
  for Q :: "'q queue_ops" and store invar canon merge_ev idkey and X :: "('q, 'e, 't, 'w) executor" +
  fixes W :: "('q, 'e, 't, 'w, 'p) worker"
  assumes worker_queue: "wk_queue W = Q" and worker_executor: "wk_executor W = X"
    and resolver_keeps: "keeps same_queue (wk_resolve_spec W t path)"
begin

definition abandoned :: "'q \<Rightarrow> task \<Rightarrow> bool" where
  "abandoned q u \<longleftrightarrow>
     (\<exists>d \<in> set (depends_of u). dep_failed q d) \<or> int (t_attempts u) \<ge> wk_max_attempts W \<or>
     (\<exists>p. policy_for W u = Some p \<and> \<not> pp_enabled p)"

definition runnable :: "'q \<Rightarrow> task \<Rightarrow> bool" where
  "runnable q u \<longleftrightarrow>
     (\<forall>d \<in> set (depends_of u). dep_done q d) \<and> int (t_attempts u) < wk_max_attempts W \<and>
     (\<forall>p. policy_for W u = Some p \<longrightarrow> pp_enabled p)"

definition given_up :: "task \<Rightarrow> task" where
  "given_up u = moved FAILED (merge_ev None (t_evidence u)) u"

text \<open>From \<open>q\<close> to \<open>q'\<close> only abandoned queued tasks failed, and at most \<open>taken\<close> was run.\<close>

definition attended :: "'q \<Rightarrow> 'q \<Rightarrow> string option \<Rightarrow> bool" where
  "attended q q' taken \<longleftrightarrow>
     (\<forall>j. case store q j of
        None \<Rightarrow> store q' j = None
      | Some u \<Rightarrow>
          store q' j = Some u \<or>
          t_state u = QUEUED \<and> abandoned q' u \<and> store q' j = Some (given_up u) \<or>
          taken = Some j \<and> t_state u = QUEUED \<and> runnable q u \<and> (\<exists>u'. store q' j = Some u' \<and> same_task u u'))"

lemma attended_refl [simp]: "attended q q taken"
  by (auto simp: attended_def split: option.split)

lemma attended_settled:
  assumes "attended q q' taken" and "store q j = Some u" and "t_state u \<noteq> QUEUED"
  shows "store q' j = Some u"
  using assms unfolding attended_def by (metis (mono_tags, lifting) option.simps(5))

lemma attended_failed: "attended q q' taken \<Longrightarrow> dep_failed q d \<Longrightarrow> dep_failed q' d"
  unfolding dep_failed_def by (metis attended_settled insert_iff singletonD task_state.distinct)

lemma attended_abandoned: "attended q q' taken \<Longrightarrow> abandoned q u \<Longrightarrow> abandoned q' u"
  by (auto simp: abandoned_def dest: attended_failed)

text \<open>Giving up on one task and attending to the rest.\<close>

lemma attended_step:
  assumes t: "store q (t_id t) = Some t" "t_state t = QUEUED" "abandoned q t"
    and q1: "store q1 = (store q)(t_id t \<mapsto> given_up t)" and rest: "attended q1 q' taken"
  shows "attended q q' taken" and "runnable q1 u \<longleftrightarrow> runnable q u"
proof -
  have dead: "store q' (t_id t) = Some (given_up t)"
    using attended_settled [OF rest, of "t_id t" "given_up t"] q1 by (simp add: given_up_def moved_def)
  have "dep_failed q1 d" if "dep_failed q d" for d
    using that t(1,2) q1 by (cases "d = t_id t") (simp_all add: dep_failed_def)
  then have ab: "abandoned q' t"
    using t(3) attended_failed [OF rest] unfolding abandoned_def by blast
  have dones: "dep_done q1 d \<longleftrightarrow> dep_done q d" for d
    using t(1,2) q1 by (cases "d = t_id t") (simp_all add: dep_done_def given_up_def moved_def)
  then show run: "runnable q1 u \<longleftrightarrow> runnable q u" for u by (simp add: runnable_def)
  show "attended q q' taken"
    unfolding attended_def
  proof
    fix j
    show "case store q j of None \<Rightarrow> store q' j = None
      | Some u \<Rightarrow> store q' j = Some u \<or> t_state u = QUEUED \<and> abandoned q' u \<and> store q' j = Some (given_up u) \<or>
          taken = Some j \<and> t_state u = QUEUED \<and> runnable q u \<and> (\<exists>u'. store q' j = Some u' \<and> same_task u u')"
    proof (cases "j = t_id t")
      case True with t dead ab show ?thesis by simp
    next
      case False
      then have "store q1 j = store q j" using q1 by simp
      with rest [unfolded attended_def run, rule_format, of j] show ?thesis by simp
    qed
  qed
qed

section \<open>The steps\<close>

lemma fails_task:
  assumes "invar (xs_queue s)" and "store (xs_queue s) (t_id t) = Some t"
  shows "\<exists>s'. wk_transition W t FAILED s = (Inr (given_up t), s') \<and> invar (xs_queue s') \<and>
    store (xs_queue s') = (store (xs_queue s))(t_id t \<mapsto> given_up t)"
proof -
  have "wk_transition W t FAILED = xc_transition X t FAILED None"
    by (simp add: wk_transition_def wk_now_def worker_queue worker_executor xc_transition_def executor_queue)
  then show ?thesis using transition_settles [OF assms, of FAILED None] unfolding given_up_def by metis
qed

lemma gives_up:
  assumes "invar (xs_queue s)" and "store (xs_queue s) (t_id t) = Some t"
  shows "\<exists>s'. give_up W t st s = (Inr (), s') \<and> invar (xs_queue s') \<and>
    store (xs_queue s') = (store (xs_queue s))(t_id t \<mapsto> given_up t)"
proof -
  obtain s1 where s1: "wk_transition W t FAILED s = (Inr (given_up t), s1)" "invar (xs_queue s1)"
      "store (xs_queue s1) = (store (xs_queue s))(t_id t \<mapsto> given_up t)"
    using fails_task [OF assms] by blast
  then show ?thesis
    using wk_emit_returns [of W "t_id t" "''task.dependency_failed''" "[(''failed_on'', py_repr_list (ds_failed_on st))]" s1]
    by (auto simp: give_up_def seqE_Inr)
qed

lemma fails_and_raises:
  assumes "invar (xs_queue s)" and "store (xs_queue s) (t_id t) = Some t" and "abandoned (xs_queue s) t"
    and "\<And>s1. \<exists>s2. p s1 = (Inl (TaskWorkerError e), s2) \<and> xs_queue s2 = xs_queue s1"
  shows "\<exists>s'. seqE (wk_transition W t FAILED) p s = (Inl (TaskWorkerError e), s') \<and> invar (xs_queue s') \<and>
    store (xs_queue s') = (store (xs_queue s))(t_id t \<mapsto> given_up t)"
proof -
  obtain s1 where s1: "wk_transition W t FAILED s = (Inr (given_up t), s1)" "invar (xs_queue s1)"
      "store (xs_queue s1) = (store (xs_queue s))(t_id t \<mapsto> given_up t)"
    using fails_task [OF assms(1,2)] by blast
  obtain s2 where "p s1 = (Inl (TaskWorkerError e), s2)" "xs_queue s2 = xs_queue s1" using assms(4) by blast
  with s1 show ?thesis by (simp add: seqE_def bindE_def)
qed

lemma attempts_guard:
  assumes "invar (xs_queue s)" and "store (xs_queue s) (t_id t) = Some t"
  shows "if int (t_attempts t) < wk_max_attempts W then guard_attempts W t s = (Inr (), s)
    else abandoned (xs_queue s) t \<and> (\<exists>e s'. guard_attempts W t s = (Inl (TaskWorkerError e), s') \<and>
      invar (xs_queue s') \<and> store (xs_queue s') = (store (xs_queue s))(t_id t \<mapsto> given_up t))"
proof (cases "int (t_attempts t) < wk_max_attempts W")
  case True then show ?thesis by (simp add: guard_attempts_def)
next
  case False
  then have ab: "abandoned (xs_queue s) t" by (simp add: abandoned_def)
  obtain e where e: "guard_attempts W t = seqE (wk_transition W t FAILED) (raise (TaskWorkerError e))"
    using False by (auto simp: guard_attempts_def)
  show ?thesis using False ab fails_and_raises [OF assms ab, of "raise (TaskWorkerError e)" e] by (auto simp: e)
qed

lemma policy_guard:
  assumes "invar (xs_queue s)" and "store (xs_queue s) (t_id t) = Some t"
  shows "if \<forall>p. policy_for W t = Some p \<longrightarrow> pp_enabled p then guard_policy W t s = (Inr (), s)
    else abandoned (xs_queue s) t \<and> (\<exists>e s'. guard_policy W t s = (Inl (TaskWorkerError e), s') \<and>
      invar (xs_queue s') \<and> store (xs_queue s') = (store (xs_queue s))(t_id t \<mapsto> given_up t))"
proof (cases "\<forall>p. policy_for W t = Some p \<longrightarrow> pp_enabled p")
  case True then show ?thesis by (auto simp: guard_policy_def split: option.split)
next
  case False
  then obtain p where p: "policy_for W t = Some p" "\<not> pp_enabled p" by blast
  then have ab: "abandoned (xs_queue s) t" by (auto simp: abandoned_def)
  let ?e = "''project '' @ py_repr (pp_project p) @ '' is disabled''"
  let ?p = "seqE (wk_emit W (t_id t) ''policy.denied'' [(''project'', pp_project p)]) (raise (TaskWorkerError ?e))"
  have "\<exists>s2. ?p s1 = (Inl (TaskWorkerError ?e), s2) \<and> xs_queue s2 = xs_queue s1" for s1
    using wk_emit_returns [of W "t_id t" "''policy.denied''" "[(''project'', pp_project p)]" s1]
    by (auto simp: seqE_def bindE_def)
  from fails_and_raises [OF assms ab, of ?p ?e, OF this] show ?thesis
    using False ab by (auto simp: guard_policy_def p)
qed

text \<open>The two guards of the loop together.\<close>

definition guarded :: "task \<Rightarrow> bool" where
  "guarded t \<longleftrightarrow> int (t_attempts t) < wk_max_attempts W \<and> (\<forall>p. policy_for W t = Some p \<longrightarrow> pp_enabled p)"

lemma guards:
  assumes "invar (xs_queue s)" and "store (xs_queue s) (t_id t) = Some t"
  shows "if guarded t then seqE (guard_attempts W t) (guard_policy W t) s = (Inr (), s)
    else \<exists>e s'. seqE (guard_attempts W t) (guard_policy W t) s = (Inl (TaskWorkerError e), s') \<and>
      invar (xs_queue s') \<and> store (xs_queue s') = (store (xs_queue s))(t_id t \<mapsto> given_up t)"
proof (cases "int (t_attempts t) < wk_max_attempts W")
  case False
  with attempts_guard [OF assms] show ?thesis by (auto simp: guarded_def seqE_def bindE_def)
next
  case True
  with attempts_guard [OF assms] have "guard_attempts W t s = (Inr (), s)" by simp
  with policy_guard [OF assms] True show ?thesis by (simp add: guarded_def seqE_def bindE_def split: if_splits)
qed

lemma ready_cases:
  assumes "invar (xs_queue s)"
  shows "wk_status W t s = (Inr (dependency_status_of Q (xs_queue s) t), s)"
    and "ds_state (dependency_status_of Q (xs_queue s) t) = ''failed'' \<Longrightarrow> abandoned (xs_queue s) t \<and> \<not> runnable (xs_queue s) t"
    and "ds_state (dependency_status_of Q (xs_queue s) t) = ''blocked'' \<Longrightarrow> \<not> runnable (xs_queue s) t"
    and "ds_state (dependency_status_of Q (xs_queue s) t) \<notin> {''failed'', ''blocked''} \<Longrightarrow>
           \<forall>d \<in> set (depends_of t). dep_done (xs_queue s) d"
proof -
  have "\<not> (dep_failed (xs_queue s) d \<and> dep_done (xs_queue s) d)" for d
    by (auto simp: dep_failed_def dep_done_def)
  then show "ds_state (dependency_status_of Q (xs_queue s) t) = ''failed'' \<Longrightarrow> abandoned (xs_queue s) t \<and> \<not> runnable (xs_queue s) t"
    and "ds_state (dependency_status_of Q (xs_queue s) t) = ''blocked'' \<Longrightarrow> \<not> runnable (xs_queue s) t"
    and "ds_state (dependency_status_of Q (xs_queue s) t) \<notin> {''failed'', ''blocked''} \<Longrightarrow>
           \<forall>d \<in> set (depends_of t). dep_done (xs_queue s) d"
    using dependency_cases [OF assms, of t]
    by (auto simp: abandoned_def runnable_def split: if_splits)
qed (simp add: wk_status_def worker_queue)

text \<open>What running a held task leaves behind.\<close>

definition ran_to :: "task \<Rightarrow> (exn + executed_task) \<Rightarrow> task \<Rightarrow> bool" where
  "ran_to u r u' \<longleftrightarrow> same_task u u' \<and> t_state u' \<in> {RUNNING, DONE, FAILED} \<and>
     (\<forall>ev. r = Inr ev \<longrightarrow> xt_task_id ev = t_id u \<and> t_state u' = (if xt_ok ev then DONE else FAILED))"

lemma settled_ran: "settled u r u' \<Longrightarrow> t_state u = RUNNING \<Longrightarrow> ran_to u r u'"
  by (cases r) (auto simp: settled_def ran_to_def)

lemma resolve_held:
  assumes run: "resolve_and_execute W t True s = (r, s')"
    and inv: "invar (xs_queue s)" and u: "store (xs_queue s) (t_id t) = Some u" "t_state u = RUNNING"
  shows "invar (xs_queue s') \<and> (\<exists>u'. store (xs_queue s') = (store (xs_queue s))(t_id t \<mapsto> u') \<and> ran_to u r u')"
  using run unfolding resolve_and_execute_def
proof (cases rule: bindE_cases)
  case (raised e)
  with resolver_keeps have "xs_queue s' = xs_queue s" by (fastforce simp: same_queue_def dest: keepsD)
  then show ?thesis using inv u raised by (auto simp: ran_to_def intro!: exI [of _ u])
next
  case (went_on sp0 s1)
  with resolver_keeps have q1: "xs_queue s1 = xs_queue s" by (fastforce simp: same_queue_def dest: keepsD)
  show ?thesis
  proof (cases "effective W t sp0")
    case (Inl e)
    then have "r = Inl e" "s' = s1" using went_on(2) by simp_all
    then show ?thesis using inv u q1 by (auto simp: ran_to_def intro!: exI [of _ u])
  next
    case (Inr x)
    obtain sp vf where x: "x = (sp, vf)" by (cases x)
    have "execute X t sp (wk_recipient W) True vf s1 = (r, s')"
      using went_on(2) Inr x by (simp add: worker_executor)
    from execute_held [OF this] inv u q1 show ?thesis by (auto dest: settled_ran)
  qed
qed

section \<open>Taking the next task\<close>

text \<open>One round of the loop, by what the status and the guards say.\<close>

lemma loop_failed:
  assumes "ds_state (dependency_status_of Q (xs_queue s) t) = ''failed''"
    and "give_up W t (dependency_status_of Q (xs_queue s) t) s = (Inr (), s1)"
  shows "next_loop W (t # ts) s = next_loop W ts s1"
  using assms by (simp add: wk_status_def worker_queue seqE_def bindE_def)

lemma loop_blocked:
  assumes "ds_state (dependency_status_of Q (xs_queue s) t) = ''blocked''"
    and "report_blocked W t (dependency_status_of Q (xs_queue s) t) s = (Inr (), s1)"
  shows "next_loop W (t # ts) s = next_loop W ts s1"
  using assms by (simp add: wk_status_def worker_queue seqE_def bindE_def)

lemma loop_guarded:
  assumes "ds_state (dependency_status_of Q (xs_queue s) t) \<notin> {''failed'', ''blocked''}"
    and "seqE (guard_attempts W t) (guard_policy W t) s = (Inl (TaskWorkerError e), s1)"
  shows "next_loop W (t # ts) s = next_loop W ts s1"
  using assms by (simp add: wk_status_def worker_queue)

lemma loop_claims:
  assumes "ds_state (dependency_status_of Q (xs_queue s) t) \<notin> {''failed'', ''blocked''}"
    and "seqE (guard_attempts W t) (guard_policy W t) s = (Inr (), s)" and "wk_claim W t s = (Inr True, s1)"
  shows "next_loop W (t # ts) s = resolve_and_execute W t True s1"
  using assms by (simp add: wk_status_def worker_queue bindE_Inr)

lemma next_loop_attends:
  assumes "next_loop W ts s = (r, s')" and "invar (xs_queue s)"
    and "\<forall>t \<in> set ts. store (xs_queue s) (t_id t) = Some t \<and> t_state t = QUEUED" and "distinct (map t_id ts)"
  shows "invar (xs_queue s') \<and>
    (case List.find (runnable (xs_queue s)) ts of
       None \<Rightarrow> r = Inl (TaskWorkerError ''no runnable task'') \<and> attended (xs_queue s) (xs_queue s') None
     | Some t \<Rightarrow> attended (xs_queue s) (xs_queue s') (Some (t_id t)) \<and>
         (\<exists>u'. store (xs_queue s') (t_id t) = Some u' \<and> ran_to t r u'))"
    (is "?P ts s")
  using assms
proof (induction ts arbitrary: s)
  case Nil then show ?case by simp
next
  case (Cons t ts)
  let ?q = "xs_queue s" and ?st = "dependency_status_of Q (xs_queue s) t"
  have t: "store ?q (t_id t) = Some t" "t_state t = QUEUED" using Cons.prems(3) by simp_all
  have skip: ?case if "next_loop W ts s1 = (r, s')" "xs_queue s1 = ?q" "\<not> runnable ?q t" for s1
  proof -
    have "?P ts s1" using Cons.IH [OF that(1)] Cons.prems(2-4) that(2) by simp
    then show ?thesis using that(3) by (simp add: that(2) split: option.splits)
  qed
  have drop: ?case if "next_loop W ts s1 = (r, s')" "invar (xs_queue s1)"
      "store (xs_queue s1) = (store ?q)(t_id t \<mapsto> given_up t)" "abandoned ?q t" "\<not> runnable ?q t" for s1
  proof -
    have "\<forall>u \<in> set ts. store (xs_queue s1) (t_id u) = Some u \<and> t_state u = QUEUED"
    proof
      fix u assume u: "u \<in> set ts"
      then have "t_id u \<noteq> t_id t" using Cons.prems(4) by (metis distinct.simps(2) image_eqI list.set_map list.simps(9))
      then show "store (xs_queue s1) (t_id u) = Some u \<and> t_state u = QUEUED" using u Cons.prems(3) that(3) by simp
    qed
    then have IH: "?P ts s1" using Cons.IH [OF that(1,2)] Cons.prems(4) by simp
    note step = attended_step [OF t that(4,3)]
    have same: "runnable (xs_queue s1) = runnable ?q"
    proof
      fix u show "runnable (xs_queue s1) u = runnable ?q u"
        using attended_step(2) [OF t that(4,3) attended_refl] .
    qed
    show ?thesis
    proof (cases "List.find (runnable ?q) ts")
      case None
      with IH have "r = Inl (TaskWorkerError ''no runnable task'')" "attended (xs_queue s1) (xs_queue s') None"
          "invar (xs_queue s')" by (simp_all add: same)
      with step(1) [of "xs_queue s'" None] that(5) None show ?thesis by simp
    next
      case (Some u)
      with IH have "attended (xs_queue s1) (xs_queue s') (Some (t_id u))" "invar (xs_queue s')"
          "\<exists>u'. store (xs_queue s') (t_id u) = Some u' \<and> ran_to u r u'" by (simp_all add: same)
      with step(1) [of "xs_queue s'" "Some (t_id u)"] that(5) Some show ?thesis by simp
    qed
  qed
  show ?case
  proof (cases "ds_state ?st = ''failed''")
    case True
    obtain s1 where s1: "give_up W t ?st s = (Inr (), s1)" "invar (xs_queue s1)"
        "store (xs_queue s1) = (store ?q)(t_id t \<mapsto> given_up t)"
      using gives_up [OF Cons.prems(2) t(1)] by blast
    have "next_loop W ts s1 = (r, s')"
      using Cons.prems(1) by (simp only: loop_failed [OF True s1(1)])
    from drop [OF this s1(2,3)] ready_cases(2) [OF Cons.prems(2) True] show ?thesis by simp
  next
    case not_failed: False
    show ?thesis
    proof (cases "ds_state ?st = ''blocked''")
      case True
      obtain s1 where s1: "report_blocked W t ?st s = (Inr (), s1)" "xs_queue s1 = ?q"
        using wk_emit_returns unfolding report_blocked_def by blast
      have "next_loop W ts s1 = (r, s')"
        using Cons.prems(1) by (simp only: loop_blocked [OF True s1(1)])
      from skip [OF this s1(2)] ready_cases(3) [OF Cons.prems(2) True] show ?thesis by simp
    next
      case False
      with not_failed have deps: "\<forall>d \<in> set (depends_of t). dep_done ?q d"
        using ready_cases(4) [OF Cons.prems(2)] by simp
      have unblocked: "ds_state ?st \<notin> {''failed'', ''blocked''}" using False not_failed by simp
      note go = guards [OF Cons.prems(2) t(1)]
      show ?thesis
      proof (cases "guarded t")
        case no: False
        have "\<exists>e s1. seqE (guard_attempts W t) (guard_policy W t) s = (Inl (TaskWorkerError e), s1) \<and>
            invar (xs_queue s1) \<and> store (xs_queue s1) = (store ?q)(t_id t \<mapsto> given_up t)"
          using go no by simp
        then obtain e s1 where s1: "seqE (guard_attempts W t) (guard_policy W t) s = (Inl (TaskWorkerError e), s1)"
            "invar (xs_queue s1)" "store (xs_queue s1) = (store ?q)(t_id t \<mapsto> given_up t)"
          by (elim exE conjE)
        have "next_loop W ts s1 = (r, s')"
          using Cons.prems(1) by (simp only: loop_guarded [OF unblocked s1(1)])
        moreover have "abandoned ?q t" "\<not> runnable ?q t"
          using no by (auto simp: guarded_def abandoned_def runnable_def)
        ultimately show ?thesis by (rule drop [OF _ s1(2,3)])
      next
        case True
        then have pass: "seqE (guard_attempts W t) (guard_policy W t) s = (Inr (), s)" using go by simp
        from True have run: "runnable ?q t" using deps by (simp add: guarded_def runnable_def)
        let ?now = "xc_clock X (xs_tick s)"
        obtain q1 where q1: "q_claim Q t (wk_lease W) ?now ?q = (True, q1)"
            "store q1 = (store ?q)(t_id t \<mapsto> claimed (wk_lease W) ?now t)"
          using claim_ok [OF Cons.prems(2) t, of "wk_lease W" ?now] by (metis prod.collapse)
        have i1: "invar q1" using claim_invar [OF Cons.prems(2), of t "wk_lease W" ?now] q1(1) by simp
        let ?s1 = "s\<lparr>xs_tick := Suc (xs_tick s), xs_queue := q1\<rparr>"
        have "wk_claim W t s = (Inr True, ?s1)"
          using q1(1) by (simp add: wk_claim_def wk_now_def worker_queue worker_executor bindE_def xc_now_def on_part_def)
        then have "resolve_and_execute W t True ?s1 = (r, s')"
          using Cons.prems(1) by (simp only: loop_claims [OF unblocked pass])
        from resolve_held [OF this, of "claimed (wk_lease W) ?now t"]
        have "invar (xs_queue s') \<and> (\<exists>u'. store (xs_queue s') = (store ?q)(t_id t \<mapsto> u') \<and>
            ran_to (claimed (wk_lease W) ?now t) r u')" by (simp add: i1 q1(2) claimed_def [of _ _ t])
        then obtain u' where u': "invar (xs_queue s')" "store (xs_queue s') = (store ?q)(t_id t \<mapsto> u')"
            "ran_to (claimed (wk_lease W) ?now t) r u'" by (elim exE conjE)
        have "ran_to t r u'" using u'(3) by (auto simp: ran_to_def same_task_def claimed_def)
        moreover from this have "attended ?q (xs_queue s') (Some (t_id t))"
          using t run u'(2) by (auto simp: attended_def ran_to_def split: option.split)
        ultimately show ?thesis using run u'(1,2) by simp
      qed
    qed
  qed
qed

text \<open>The first runnable task of the listing is the oldest runnable one.\<close>

lemma first_is_oldest:
  assumes inv: "invar q" and found: "List.find P (q_list Q QUEUED 100 q) = Some t"
    and u: "store q i = Some u" "t_state u = QUEUED" "P u"
  shows "age idkey t \<le> age idkey u"
proof -
  let ?l = "q_list Q QUEUED 100 q"
  obtain k where k: "k < length ?l" "t = ?l ! k" "\<forall>j < k. \<not> P (?l ! j)" using found by (auto simp: find_Some_iff)
  show ?thesis
  proof (cases "u \<in> set ?l")
    case True
    then obtain j where j: "j < length ?l" "u = ?l ! j" by (auto simp: in_set_conv_nth)
    with k u(3) have "k \<le> j" by (metis not_le)
    with list_sorted [OF inv, of 100 QUEUED] j k show ?thesis by (auto dest: sorted_nth_mono)
  next
    case False
    with list_complete [OF inv _ u(1,2) False] k show ?thesis by auto
  qed
qed

text \<open>When nothing listed is runnable, a runnable task was kept out by a hundred older queued ones.\<close>

lemma none_runnable:
  assumes inv: "invar q" and none: "List.find P (q_list Q QUEUED 100 q) = None"
    and u: "store q i = Some u" "t_state u = QUEUED" "P u"
  shows "100 < card {j. \<exists>v. store q j = Some v \<and> t_state v = QUEUED}"
proof -
  let ?l = "q_list Q QUEUED 100 q" and ?S = "{j. \<exists>v. store q j = Some v \<and> t_state v = QUEUED}"
  have out: "u \<notin> set ?l" using none u(3) by (auto simp: find_None_iff)
  have len: "length ?l = 100" using list_complete [OF inv _ u(1,2) out] by simp
  have ids: "store q (t_id v) = Some v \<and> t_state v = QUEUED" if "v \<in> set ?l" for v
    using list_sound [OF inv _ that] by simp
  have "inj_on t_id (set ?l)" using ids by (metis inj_onI option.inject)
  then have "card (t_id ` set ?l) = 100"
    using list_distinct [OF inv, of 100 QUEUED] len by (simp add: card_image distinct_card)
  moreover have "i \<notin> t_id ` set ?l" using ids out u(1) by auto
  moreover have "finite ?S" using invar_store [OF inv] by (auto simp: store_ok_def dom_def intro: finite_subset [rotated])
  moreover have "insert i (t_id ` set ?l) \<subseteq> ?S" using ids u by blast
  ultimately show ?thesis by (metis (no_types, lifting) List.finite_set card_insert_disjoint card_mono finite_imageI lessI less_le_trans)
qed

lemma runnable_may: "t_state u = QUEUED \<Longrightarrow> runnable q u \<longleftrightarrow> may_run W (store q) u"
  by (simp add: runnable_def may_run_def dep_done_def)

lemma abandoned_hopeless: "abandoned q u \<longleftrightarrow> hopeless W (store q) u"
  by (simp add: abandoned_def hopeless_def dep_failed_def)

lemma run_next_attends:
  assumes run: "run_next W s = (r, s')" and inv: "invar (xs_queue s)"
  shows "invar (xs_queue s') \<and>
    (xs_queue s' = xs_queue s \<and> (\<exists>e. r = Inl (TaskWorkerError e)) \<and>
       (\<exists>E now. wk_events W = Some E \<and> exhausted (wk_budget W) E now (xs_events s)) \<or>
     (case List.find (runnable (xs_queue s)) (q_list Q QUEUED 100 (xs_queue s)) of
       None \<Rightarrow> r = Inl (TaskWorkerError ''no runnable task'') \<and> attended (xs_queue s) (xs_queue s') None
     | Some t \<Rightarrow> attended (xs_queue s) (xs_queue s') (Some (t_id t)) \<and>
         (\<exists>u'. store (xs_queue s') (t_id t) = Some u' \<and> ran_to t r u')))"
proof (cases rule: budget_cases [of W "''<dispatch>''" s])
  case (stopped s1)
  with run have "\<exists>e. r = Inl (TaskWorkerError e)" "s' = s1"
    by (simp_all add: run_next_def seqE_def bindE_def) auto
  then show ?thesis using stopped(2,3) inv by simp
next
  case (passed s1)
  let ?l = "q_list Q QUEUED 100 (xs_queue s)"
  have loop: "next_loop W ?l s1 = (r, s')"
    using run passed by (simp only: run_next_def seqE_def bindE_def worker_queue asks_simp prod.case sum.case)
  have listed: "store (xs_queue s) (t_id t) = Some t \<and> t_state t = QUEUED" if "t \<in> set ?l" for t
    by (rule list_sound [OF inv _ that]) simp
  have "inj_on t_id (set ?l)"
  proof (rule inj_onI)
    fix a b assume "a \<in> set ?l" "b \<in> set ?l" "t_id a = t_id b"
    then show "a = b" by (metis listed option.inject)
  qed
  then have dist: "distinct (map t_id ?l)" using list_distinct [OF inv, of 100 QUEUED] by (simp add: distinct_map)
  show ?thesis
    using next_loop_attends [OF loop _ _ dist] inv listed unfolding passed(2) by blast
qed

lemma attended_turn:
  assumes "attended q q' taken"
  shows "dom (store q') = dom (store q)"
    and "store q i = Some u \<Longrightarrow> store q' i = Some u \<or>
        t_state u = QUEUED \<and> hopeless W (store q') u \<and> store q' i = Some (moved FAILED (merge_ev None (t_evidence u)) u) \<or>
        taken = Some i \<and> may_run W (store q) u \<and> (\<exists>u'. store q' i = Some u' \<and> same_task u u')"
proof -
  note at = assms [unfolded attended_def, rule_format]
  show "store q i = Some u \<Longrightarrow> store q' i = Some u \<or>
        t_state u = QUEUED \<and> hopeless W (store q') u \<and> store q' i = Some (moved FAILED (merge_ev None (t_evidence u)) u) \<or>
        taken = Some i \<and> may_run W (store q) u \<and> (\<exists>u'. store q' i = Some u' \<and> same_task u u')"
    using at [of i] by (auto simp: abandoned_hopeless runnable_may given_up_def)
  have "store q' j = None \<longleftrightarrow> store q j = None" for j
    using at [of j] by (cases "store q j") auto
  then show "dom (store q') = dom (store q)" by (auto simp: dom_def)
qed

lemma run_next_turn:
  assumes run: "run_next W s = (r, s')" and inv: "invar (xs_queue s)"
  shows "invar (xs_queue s') \<and>
    (\<exists>taken. one_turn W idkey (merge_ev None) taken r (store (xs_queue s)) (store (xs_queue s')) \<and>
      (taken = None \<longrightarrow>
        (\<exists>E now. wk_events W = Some E \<and> exhausted (wk_budget W) E now (xs_events s)) \<or>
        (\<forall>i u. store (xs_queue s) i = Some u \<longrightarrow> may_run W (store (xs_queue s)) u \<longrightarrow>
           100 < card {j. \<exists>v. store (xs_queue s) j = Some v \<and> t_state v = QUEUED})))"
proof -
  let ?q = "xs_queue s" and ?q' = "xs_queue s'" and ?l = "q_list Q QUEUED 100 (xs_queue s)"
  note at = run_next_attends [OF run inv]
  have idle: "one_turn W idkey (merge_ev None) None (Inl (TaskWorkerError e)) (store ?q) (store ?q')"
    if "attended ?q ?q' None" for e
    using attended_turn [OF that] unfolding one_turn_def by auto
  have may: "runnable ?q u" "t_state u = QUEUED" if "may_run W (store ?q) u" for u
    using that by (auto simp: runnable_may may_run_def runnable_def dep_done_def)
  from at consider (budget) e where "?q' = ?q" "r = Inl (TaskWorkerError e)"
      "\<exists>E now. wk_events W = Some E \<and> exhausted (wk_budget W) E now (xs_events s)"
    | (none) "List.find (runnable ?q) ?l = None" "r = Inl (TaskWorkerError ''no runnable task'')" "attended ?q ?q' None"
    | (some) t u' where "List.find (runnable ?q) ?l = Some t" "attended ?q ?q' (Some (t_id t))"
        "store ?q' (t_id t) = Some u'" "ran_to t r u'"
    by (auto split: option.splits)
  then show ?thesis
  proof cases
    case budget
    then have "one_turn W idkey (merge_ev None) None r (store ?q) (store ?q')" using idle [of e] by simp
    then show ?thesis using budget(3) at by blast
  next
    case none
    then have "one_turn W idkey (merge_ev None) None r (store ?q) (store ?q')" using idle by simp
    moreover have "100 < card {j. \<exists>v. store ?q j = Some v \<and> t_state v = QUEUED}"
      if "store ?q i = Some u" "may_run W (store ?q) u" for i u
      using none_runnable [OF inv none(1) that(1) may(2,1) [OF that(2)]] .
    ultimately show ?thesis using at by blast
  next
    case some
    have t: "t \<in> set ?l" "runnable ?q t" using some(1) by (auto simp: find_Some_iff)
    have st: "store ?q (t_id t) = Some t \<and> t_state t = QUEUED" by (rule list_sound [OF inv _ t(1)]) simp
    have old: "age idkey t \<le> age idkey v" if "store ?q j = Some v" "may_run W (store ?q) v" for j v
      using first_is_oldest [OF inv some(1) that(1) may(2,1) [OF that(2)]] .
    have "may_run W (store ?q) t" using t(2) st by (simp add: runnable_may)
    then have "one_turn W idkey (merge_ev None) (Some (t_id t)) r (store ?q) (store ?q')"
      using attended_turn [OF some(2)] some(3,4) st old unfolding one_turn_def ran_to_def by auto
    then show ?thesis using at by blast
  qed
qed

section \<open>Running by id\<close>

lemma resolve_unheld:
  assumes run: "resolve_and_execute W t False s = (r, s')" and inv: "invar (xs_queue s)"
    and t: "store (xs_queue s) (t_id t) = Some t"
  shows "invar (xs_queue s') \<and>
    (if t_state t = QUEUED
     then \<exists>u'. store (xs_queue s') = (store (xs_queue s))(t_id t \<mapsto> u') \<and>
       (u' = t \<and> (\<exists>e. r = Inl e) \<or> ran_to t r u')
     else xs_queue s' = xs_queue s \<and> (\<exists>e. r = Inl e))"
  using run unfolding resolve_and_execute_def
proof (cases rule: bindE_cases)
  case (raised e)
  with resolver_keeps have "xs_queue s' = xs_queue s" by (fastforce simp: same_queue_def dest: keepsD)
  then show ?thesis using inv t raised by (auto intro!: exI [of _ t])
next
  case (went_on sp0 s1)
  with resolver_keeps have q1: "xs_queue s1 = xs_queue s" by (fastforce simp: same_queue_def dest: keepsD)
  show ?thesis
  proof (cases "effective W t sp0")
    case (Inl e)
    then have "r = Inl e" "s' = s1" using went_on(2) by simp_all
    then show ?thesis using inv t q1 by (auto intro!: exI [of _ t])
  next
    case (Inr x)
    obtain sp vf where x: "x = (sp, vf)" by (cases x)
    have ex: "execute X t sp (wk_recipient W) False vf s1 = (r, s')"
      using went_on(2) Inr x by (simp add: worker_executor)
    show ?thesis
    proof (cases "t_state t = QUEUED")
      case True
      from execute_claims [OF ex] inv t True q1 obtain now u' where
        "invar (xs_queue s')" "store (xs_queue s') = (store (xs_queue s))(t_id t \<mapsto> u')"
        "settled (claimed (xc_lease X) now t) r u'" by auto
      moreover from this(3) have "ran_to (claimed (xc_lease X) now t) r u'" by (rule settled_ran) (simp add: claimed_def)
      then have "ran_to t r u'" by (auto simp: ran_to_def same_task_def claimed_def)
      ultimately show ?thesis using True by auto
    next
      case False
      then have "\<not> (\<exists>u. store (xs_queue s1) (t_id t) = Some u \<and> t_state u = QUEUED)" using t q1 by simp
      then have "xs_queue s' = xs_queue s \<and> (\<exists>e. r = Inl e)"
        using execute_unclaimable [of s1 t sp "wk_recipient W" vf] inv q1 ex by auto
      then show ?thesis using inv False by simp
    qed
  qed
qed

lemma dependency_guard:
  assumes "invar (xs_queue s)" and "store (xs_queue s) (t_id t) = Some t"
  shows "if \<forall>d \<in> set (depends_of t). dep_done (xs_queue s) d then guard_dependencies W t s = (Inr (), s)
    else \<exists>e s'. guard_dependencies W t s = (Inl (TaskWorkerError e), s') \<and> invar (xs_queue s') \<and>
      (xs_queue s' = xs_queue s \<or>
       abandoned (xs_queue s) t \<and> store (xs_queue s') = (store (xs_queue s))(t_id t \<mapsto> given_up t))"
proof -
  let ?st = "dependency_status_of Q (xs_queue s) t"
  have excl: "\<not> (dep_failed (xs_queue s) d \<and> dep_done (xs_queue s) d)" for d
    by (auto simp: dep_failed_def dep_done_def)
  note cs = dependency_cases [OF assms(1), of t]
  consider (failed) "ds_state ?st = ''failed''" "\<not> (\<forall>d \<in> set (depends_of t). dep_done (xs_queue s) d)"
    | (blocked) "ds_state ?st = ''blocked''" "\<not> (\<forall>d \<in> set (depends_of t). dep_done (xs_queue s) d)"
    | (ready) "ds_state ?st = ''ready''" "\<forall>d \<in> set (depends_of t). dep_done (xs_queue s) d"
    using cs excl by (auto split: if_splits)
  then show ?thesis
  proof cases
    case failed
    obtain s1 where s1: "give_up W t ?st s = (Inr (), s1)" "invar (xs_queue s1)"
        "store (xs_queue s1) = (store (xs_queue s))(t_id t \<mapsto> given_up t)"
      using gives_up [OF assms] by blast
    have ab: "abandoned (xs_queue s) t" using ready_cases(2) [OF assms(1) failed(1)] by simp
    have "guard_dependencies W t s = (Inl (TaskWorkerError (''task '' @ py_repr (t_id t) @ '' depends on failed '' @
        py_repr_tuple (ds_failed_on ?st))), s1)"
      using failed(1) s1(1) by (simp add: guard_dependencies_def wk_status_def worker_queue seqE_def bindE_def)
    then show ?thesis using failed(2) s1(2,3) ab by auto
  next
    case blocked
    obtain s1 where s1: "report_blocked W t ?st s = (Inr (), s1)" "xs_queue s1 = xs_queue s"
      using wk_emit_returns unfolding report_blocked_def by blast
    have "guard_dependencies W t s = (Inl (TaskWorkerError (''task '' @ py_repr (t_id t) @ '' is blocked on '' @
        py_repr_tuple (ds_blocked_on ?st))), s1)"
      using blocked(1) s1(1) by (simp add: guard_dependencies_def wk_status_def worker_queue seqE_def bindE_def)
    then show ?thesis using blocked(2) s1(2) assms(1) by auto
  next
    case ready
    then show ?thesis by (simp add: guard_dependencies_def wk_status_def worker_queue)
  qed
qed

lemma worker_run_touches:
  assumes run: "worker_run W i s = (r, s')" and inv: "invar (xs_queue s)"
  shows "invar (xs_queue s') \<and> (\<forall>j. j \<noteq> i \<longrightarrow> store (xs_queue s') j = store (xs_queue s) j) \<and>
    (case store (xs_queue s) i of
       None \<Rightarrow> store (xs_queue s') i = None \<and> (\<exists>e. r = Inl e)
     | Some u \<Rightarrow>
         store (xs_queue s') i = Some u \<and> (\<exists>e. r = Inl e) \<or>
         abandoned (xs_queue s) u \<and> store (xs_queue s') i = Some (given_up u) \<and> (\<exists>e. r = Inl e) \<or>
         t_state u = QUEUED \<and> runnable (xs_queue s) u \<and> (\<exists>u'. store (xs_queue s') i = Some u' \<and> ran_to u r u'))"
proof (cases "store (xs_queue s) i")
  case None
  then obtain e where "worker_run W i s = (Inl e, s)" by (auto simp: worker_run_def worker_queue get_law [OF inv])
  then have "s' = s" "\<exists>e. r = Inl e" using run by simp_all
  then show ?thesis using None inv by auto
next
  case (Some u)
  then have id: "t_id u = i" using store_okD [OF invar_store [OF inv]] by simp
  let ?rest = "seqE (guard_attempts W u) (seqE (guard_dependencies W u)
             (seqE (guard_policy W u) (resolve_and_execute W u False)))"
  have seq: "seqE (guard_budget W (t_id u)) ?rest s = (r, s')"
    using run Some by (simp add: worker_run_def worker_queue get_law [OF inv])
  show ?thesis
  proof (cases rule: budget_cases [of W "t_id u" s])
    case (stopped s1)
    then have "s' = s1" "\<exists>e. r = Inl e" using seq by (auto simp: seqE_def bindE_def)
    then show ?thesis using stopped(2) inv Some by simp
  next
    case (passed s1)
    have rest: "?rest s1 = (r, s')" using seq passed(1) by (simp add: seqE_def bindE_def)
    have inv1: "invar (xs_queue s1)" and u1: "store (xs_queue s1) (t_id u) = Some u"
      using inv Some id passed(2) by simp_all
    let ?ok = "int (t_attempts u) < wk_max_attempts W"
    let ?deps = "\<forall>d \<in> set (depends_of u). dep_done (xs_queue s1) d"
    let ?pol = "\<forall>p. policy_for W u = Some p \<longrightarrow> pp_enabled p"
    consider "\<not> ?ok" | "?ok" "\<not> ?deps" | "?ok" "?deps" "\<not> ?pol" | "?ok" "?deps" "?pol" by blast
    then show ?thesis
    proof cases
      case 1
      with attempts_guard [OF inv1 u1] rest show ?thesis
        using Some id passed(2) by (auto simp: seqE_def bindE_def)
    next
      case 2
      with attempts_guard [OF inv1 u1] have a: "guard_attempts W u s1 = (Inr (), s1)" by simp
      from dependency_guard [OF inv1 u1, unfolded if_not_P [OF 2(2)]] obtain e s2 where
        d: "guard_dependencies W u s1 = (Inl (TaskWorkerError e), s2)" "invar (xs_queue s2)"
          "xs_queue s2 = xs_queue s1 \<or>
             abandoned (xs_queue s1) u \<and> store (xs_queue s2) = (store (xs_queue s1))(t_id u \<mapsto> given_up u)" by blast
      have "r = Inl (TaskWorkerError e)" "s' = s2" using rest by (simp_all add: seqE_def bindE_def a d(1))
      then show ?thesis using Some id passed(2) d(2,3) by auto
    next
      case 3
      with attempts_guard [OF inv1 u1] dependency_guard [OF inv1 u1]
      have a: "guard_attempts W u s1 = (Inr (), s1)" "guard_dependencies W u s1 = (Inr (), s1)" by simp_all
      from policy_guard [OF inv1 u1] 3(3) rest show ?thesis
        using Some id passed(2) by (auto simp: seqE_def bindE_def a)
    next
      case 4
      with attempts_guard [OF inv1 u1] dependency_guard [OF inv1 u1] policy_guard [OF inv1 u1]
      have a: "guard_attempts W u s1 = (Inr (), s1)" "guard_dependencies W u s1 = (Inr (), s1)"
          "guard_policy W u s1 = (Inr (), s1)" by simp_all
      have "resolve_and_execute W u False s1 = (r, s')" using rest by (simp add: seqE_def bindE_def a)
      from resolve_unheld [OF this inv1 u1] show ?thesis
        using 4 Some id passed(2) by (auto simp: runnable_def split: if_splits)
    qed
  qed
qed

lemma worker_run_result:
  assumes run: "worker_run W i s = (r, s')" and inv: "invar (xs_queue s)"
  shows "(\<forall>j. j \<noteq> i \<longrightarrow> store (xs_queue s') j = store (xs_queue s) j) \<and>
    (case r of
       Inr ev \<Rightarrow> \<exists>u u'. store (xs_queue s) i = Some u \<and> may_run W (store (xs_queue s)) u \<and>
         store (xs_queue s') i = Some u' \<and> xt_task_id ev = i \<and> t_state u' = (if xt_ok ev then DONE else FAILED)
     | Inl e \<Rightarrow>
         store (xs_queue s') i = store (xs_queue s) i \<or>
         (\<exists>u u'. store (xs_queue s) i = Some u \<and> store (xs_queue s') i = Some u' \<and>
            (hopeless W (store (xs_queue s)) u \<and> u' = moved FAILED (merge_ev None (t_evidence u)) u \<or>
             may_run W (store (xs_queue s)) u \<and> same_task u u' \<and> t_state u' \<in> {RUNNING, DONE, FAILED})))"
    (is "?others \<and> ?own")
proof
  note w = worker_run_touches [OF run inv]
  from w show ?others by blast
  show ?own
  proof (cases "store (xs_queue s) i")
    case None
    with w obtain e where "r = Inl e" "store (xs_queue s') i = None" by auto
    with None show ?thesis by simp
  next
    case (Some u)
    have id: "t_id u = i" using store_okD [OF invar_store [OF inv] Some] .
    from w Some consider e where "store (xs_queue s') i = Some u" "r = Inl e"
      | e where "abandoned (xs_queue s) u" "store (xs_queue s') i = Some (given_up u)" "r = Inl e"
      | u' where "t_state u = QUEUED" "runnable (xs_queue s) u" "store (xs_queue s') i = Some u'" "ran_to u r u'"
      by auto
    then show ?thesis
    proof cases
      case 1 with Some show ?thesis by simp
    next
      case 2 with Some show ?thesis by (simp add: abandoned_hopeless given_up_def)
    next
      case 3
      then have "may_run W (store (xs_queue s)) u" by (simp add: runnable_may)
      with 3(3,4) Some id show ?thesis by (cases r) (auto simp: ran_to_def)
    qed
  qed
qed

end

section \<open>The durable worker\<close>

definition pg_worker ::
  "(string \<Rightarrow> string) \<Rightarrow> (string \<Rightarrow> string) \<Rightarrow> string \<Rightarrow> (pg_table, 'e, 't, 'w, 'p) worker \<Rightarrow>
    (pg_table, 'e, 't, 'w, 'p) worker" where
  "pg_worker coll parent git W =
     W\<lparr>wk_queue := pg_ops coll, wk_executor := pg_executor coll (wk_executor W),
       wk_resolve_spec := spec_resolver (pg_executor coll (wk_executor W)) parent git\<rparr>"

interpretation pgwork: working "pg_ops coll" pg_store pg_inv pg_canon coalesce_ev coll
    "pg_executor coll (wk_executor W)" "pg_worker coll parent git W" for coll parent git W
  by unfold_locales (simp_all add: pg_worker_def keeps_queue_resolver)

text \<open>
  C3. One call of \<open>run_next\<close> over the durable queue runs at most one task: one that was queued, whose dependencies
  are all done, whose attempts are left and whose project is enabled, and no such task is older. Every
  other task is left exactly as it was, except queued ones that can never run (a dependency failed,
  no attempts left, project disabled), which become failed. It runs none only when the error
  budget is exhausted or no task is runnable, or more than a hundred are queued.
\<close>

theorem run_next_takes_oldest:
  assumes "pg_inv (xs_queue s)" and "run_next (pg_worker coll parent git W) s = (r, s')"
  shows "\<exists>taken. one_turn (pg_worker coll parent git W) coll (coalesce_ev None) taken r
      (pg_store (xs_queue s)) (pg_store (xs_queue s')) \<and>
    (taken = None \<longrightarrow>
      (\<exists>E now. wk_events W = Some E \<and> exhausted (wk_budget W) E now (xs_events s)) \<or>
      (\<forall>i u. pg_store (xs_queue s) i = Some u \<longrightarrow> may_run (pg_worker coll parent git W) (pg_store (xs_queue s)) u \<longrightarrow>
         100 < card {j. \<exists>v. pg_store (xs_queue s) j = Some v \<and> t_state v = QUEUED}))"
proof -
  have parts: "wk_events (pg_worker coll parent git W) = wk_events W" "wk_budget (pg_worker coll parent git W) = wk_budget W"
    by (simp_all add: pg_worker_def)
  show ?thesis using conjunct2 [OF pgwork.run_next_turn [OF assms(2,1)]] unfolding parts .
qed

text \<open>
  C25. Running a task by its id changes no other task. When it returns a result the task was queued and
  allowed to run, and is done exactly when the evidence has no failure, failed otherwise; when it
  raises, the task is as it was, or was hopeless and is failed, or was started.
\<close>

theorem run_touches_one_task:
  assumes "pg_inv (xs_queue s)" and "worker_run (pg_worker coll parent git W) i s = (r, s')"
  shows "(\<forall>j. j \<noteq> i \<longrightarrow> pg_store (xs_queue s') j = pg_store (xs_queue s) j) \<and>
    (case r of
       Inr ev \<Rightarrow> \<exists>u u'. pg_store (xs_queue s) i = Some u \<and> may_run (pg_worker coll parent git W) (pg_store (xs_queue s)) u \<and>
         pg_store (xs_queue s') i = Some u' \<and> xt_task_id ev = i \<and> t_state u' = (if xt_ok ev then DONE else FAILED)
     | Inl e \<Rightarrow>
         pg_store (xs_queue s') i = pg_store (xs_queue s) i \<or>
         (\<exists>u u'. pg_store (xs_queue s) i = Some u \<and> pg_store (xs_queue s') i = Some u' \<and>
            (hopeless (pg_worker coll parent git W) (pg_store (xs_queue s)) u \<and>
               u' = moved FAILED (coalesce_ev None (t_evidence u)) u \<or>
             may_run (pg_worker coll parent git W) (pg_store (xs_queue s)) u \<and> same_task u u' \<and>
               t_state u' \<in> {RUNNING, DONE, FAILED})))"
  by (rule pgwork.worker_run_result [OF assms(2,1)])

section \<open>Examples\<close>

definition ex_worker :: "(pg_table, memory_log, memory_transport, ex_world tracing, project_policy list) worker" where
  "ex_worker =
     \<lparr>wk_queue = pg_ops (\<lambda>i. i), wk_executor = ex_executor, wk_resolve_spec = (\<lambda>t p. raise (RuntimeError [])),
      wk_repo_path = ''/r'', wk_recipient = None, wk_max_attempts = 3, wk_lease = 10, wk_events = None,
      wk_budget = \<lparr>eb_max_failures = 0, eb_window_seconds = 3600\<rparr>, wk_policies = None, wk_verifier = None\<rparr>"

lemma ex_queued:
  "pg_store (xs_queue ex_exec_state) =
     [''a'' \<mapsto> enqueued QUEUED 1 (pg_canon ex_task)]"
proof -
  have "pg_store (snd (q_enqueue (pg_ops (\<lambda>i. i)) ex_task QUEUED 1 [])) =
      (pg_store [])(t_id ex_task \<mapsto> enqueued QUEUED 1 (pg_canon ex_task))"
    by (rule conjunct2 [OF pgq.enqueue_fresh]) (simp_all add: fresh_def pg_store_def)
  then show ?thesis by (simp add: ex_exec_state_def ex_task_def new_task_def pg_store_def fun_eq_iff)
qed

lemma ex_may_run:
  "may_run (pg_worker (\<lambda>i. i) (\<lambda>p. p) ''git'' ex_worker) (pg_store (xs_queue ex_exec_state))
     (enqueued QUEUED 1 (pg_canon ex_task))"
  by (simp add: may_run_def enqueued_def pg_canon_def ex_task_def ex_task_spec_def new_task_def new_spec_def depends_of_def
      pg_worker_def ex_worker_def policy_for_def)

theorem run_next_takes_oldest_witness:
  "\<exists>r s'. run_next (pg_worker (\<lambda>i. i) (\<lambda>p. p) ''git'' ex_worker) ex_exec_state = (r, s') \<and>
     one_turn (pg_worker (\<lambda>i. i) (\<lambda>p. p) ''git'' ex_worker) (\<lambda>i. i) (coalesce_ev None) (Some ''a'') r
       (pg_store (xs_queue ex_exec_state)) (pg_store (xs_queue s'))"
proof -
  obtain r s' where run: "run_next (pg_worker (\<lambda>i. i) (\<lambda>p. p) ''git'' ex_worker) ex_exec_state = (r, s')"
    by (meson surj_pair)
  obtain taken where turn: "one_turn (pg_worker (\<lambda>i. i) (\<lambda>p. p) ''git'' ex_worker) (\<lambda>i. i) (coalesce_ev None) taken r
       (pg_store (xs_queue ex_exec_state)) (pg_store (xs_queue s'))"
    and idle: "taken = None \<longrightarrow>
      (\<exists>E now. wk_events ex_worker = Some E \<and> exhausted (wk_budget ex_worker) E now (xs_events ex_exec_state)) \<or>
      (\<forall>i u. pg_store (xs_queue ex_exec_state) i = Some u \<longrightarrow>
         may_run (pg_worker (\<lambda>i. i) (\<lambda>p. p) ''git'' ex_worker) (pg_store (xs_queue ex_exec_state)) u \<longrightarrow>
         100 < card {j. \<exists>v. pg_store (xs_queue ex_exec_state) j = Some v \<and> t_state v = QUEUED})"
    using run_next_takes_oldest [OF ex_exec_inv run] by blast
  have "{j. \<exists>v. pg_store (xs_queue ex_exec_state) j = Some v \<and> t_state v = QUEUED} \<subseteq> {''a''}"
    by (auto simp: ex_queued split: if_splits)
  from card_mono [OF _ this] have "taken \<noteq> None"
    using idle ex_may_run ex_queued by (auto simp: ex_worker_def)
  moreover have "taken = Some i \<Longrightarrow> i = ''a''" for i
    using turn by (auto simp: one_turn_def ex_queued split: if_splits)
  ultimately have "taken = Some ''a''" by auto
  with run turn show ?thesis by blast
qed

theorem run_touches_one_task_witness:
  "\<exists>r s'. worker_run (pg_worker (\<lambda>i. i) (\<lambda>p. p) ''git'' ex_worker) ''b'' ex_exec_state = (r, s') \<and>
     pg_store (xs_queue s') ''a'' = Some (enqueued QUEUED 1 (pg_canon ex_task))"
proof -
  obtain r s' where run: "worker_run (pg_worker (\<lambda>i. i) (\<lambda>p. p) ''git'' ex_worker) ''b'' ex_exec_state = (r, s')"
    by (meson surj_pair)
  then show ?thesis using run_touches_one_task [OF ex_exec_inv run] by (auto simp: ex_queued)
qed

text \<open>
  The guards come before the claim and fail a task of any state: when the project of a task has been
  disabled, running its id again marks it failed even when it is done, waiting for approval or being
  run by another worker.
\<close>

theorem disabled_project_fails_any_state:
  assumes "pg_inv (xs_queue s)" and "pg_store (xs_queue s) i = Some u" and "wk_events W = None"
    and "int (t_attempts u) < wk_max_attempts W" and "depends_of u = []"
    and "policy_for W u = Some p" "\<not> pp_enabled p"
  shows "\<exists>e s'. worker_run (pg_worker coll parent git W) i s = (Inl (TaskWorkerError e), s') \<and>
    pg_store (xs_queue s') i = Some (moved FAILED (coalesce_ev None (t_evidence u)) u)"
proof -
  let ?W = "pg_worker coll parent git W"
  have id: "t_id u = i" using store_okD [OF pgq.invar_store [OF assms(1)] assms(2)] .
  have parts: "wk_queue ?W = pg_ops coll" "wk_events ?W = None" "wk_max_attempts ?W = wk_max_attempts W"
      "policy_for ?W u = Some p"
    using assms(3,6) by (simp_all add: pg_worker_def policy_for_def)
  have pass: "guard_attempts ?W u s = (Inr (), s)" "guard_dependencies ?W u s = (Inr (), s)"
    using assms(4,5) by (simp_all add: guard_attempts_def parts guard_dependencies_def wk_status_def dependency_status_of_def)
  obtain e s' where stop: "guard_policy ?W u s = (Inl (TaskWorkerError e), s')"
      "pg_store (xs_queue s') = (pg_store (xs_queue s))(t_id u \<mapsto> moved FAILED (coalesce_ev None (t_evidence u)) u)"
    using pgwork.policy_guard [OF assms(1), of u coll parent git W] assms(2,7) id parts(4)
    by (auto simp: pgwork.given_up_def)
  have "q_get (pg_ops coll) i (xs_queue s) = Some u" unfolding pgq.get_law [OF assms(1)] by (rule assms(2))
  then have "worker_run ?W i s = (Inl (TaskWorkerError e), s')"
    by (simp add: worker_run_def parts(1) guard_budget_def parts(2) seqE_def bindE_def pass stop(1))
  then show ?thesis using stop(2) id by auto
qed

definition ex_closed_worker :: "(pg_table, memory_log, memory_transport, ex_world tracing, project_policy list) worker" where
  "ex_closed_worker =
     ex_worker\<lparr>wk_policies := Some (mem_policy_ops, [ex_policy\<lparr>pp_enabled := False, pp_repos := [''o/*'']\<rparr>])\<rparr>"

theorem disabled_project_fails_any_state_witness:
  "\<exists>u. pg_store (snd (pg_enqueue ex_task DONE 1 [])) ''a'' = Some u \<and> t_state u = DONE \<and>
     (\<exists>e s'. worker_run (pg_worker (\<lambda>i. i) (\<lambda>p. p) ''git'' ex_closed_worker) ''a''
         (ex_exec_state\<lparr>xs_queue := snd (pg_enqueue ex_task DONE 1 [])\<rparr>) = (Inl (TaskWorkerError e), s') \<and>
       pg_store (xs_queue s') ''a'' = Some (moved FAILED (coalesce_ev None (t_evidence u)) u))"
proof -
  let ?u = "enqueued DONE 1 (pg_canon ex_task)" and ?q = "snd (pg_enqueue ex_task DONE 1 [])"
  have q: "?q = snd (q_enqueue (pg_ops (\<lambda>i. i)) ex_task DONE 1 [])" by simp
  have inv: "pg_inv ?q" unfolding q by (rule pgq.enqueue_invar) simp
  have "pg_store ?q = (pg_store [])(t_id ex_task \<mapsto> ?u)"
    unfolding q by (rule conjunct2 [OF pgq.enqueue_fresh]) (simp_all add: fresh_def pg_store_def)
  then have u: "pg_store ?q ''a'' = Some ?u" by (simp add: ex_task_def new_task_def)
  have spec: "t_spec ?u = Some ex_task_spec" "t_attempts ?u = 0" "t_state ?u = DONE"
    by (simp_all add: enqueued_def pg_canon_def ex_task_def ex_task_spec_def new_spec_def new_task_def)
  have "for_repo [ex_policy\<lparr>pp_enabled := False, pp_repos := [''o/*'']\<rparr>] ''o/r'' =
      Some (ex_policy\<lparr>pp_enabled := False, pp_repos := [''o/*'']\<rparr>)"
    by code_simp
  then have pol: "policy_for ex_closed_worker ?u = Some (ex_policy\<lparr>pp_enabled := False, pp_repos := [''o/*'']\<rparr>)"
    by (simp add: policy_for_def ex_closed_worker_def spec(1) mem_policy_ops_def ex_task_spec_def new_spec_def)
  have "depends_of ?u = []" by (simp add: depends_of_def spec(1) ex_task_spec_def new_spec_def)
  from disabled_project_fails_any_state [of "ex_exec_state\<lparr>xs_queue := ?q\<rparr>" "''a''" ?u ex_closed_worker, OF _ _ _ _ this pol,
      of "\<lambda>i. i" "\<lambda>p. p" "''git''"] inv u spec
  show ?thesis by (simp add: ex_closed_worker_def ex_worker_def) 
qed

end
