(* ===== verification/Json.thy ===== *)
theory Json
  imports PyJson
begin

text \<open>
  JSON values and the standard library's \<open>json\<close> module on them: \<open>json.dumps\<close> with its defaults and
  \<open>json.loads\<close>. A floating-point number is kept as its text. The parser is given fuel, twice the length
  of its text: each second call of it consumes a character (\<open>fuel_enough\<close>).
\<close>

datatype json =
    JNull
  | JBool bool
  | JInt int
  | JFloat string
  | JStr string
  | JArr "json list"
  | JObj "(string \<times> json) list"

section \<open>Encoding\<close>

fun json_dumps :: "json \<Rightarrow> string" where
  "json_dumps JNull = ''null''"
| "json_dumps (JBool b) = (if b then ''true'' else ''false'')"
| "json_dumps (JInt i) = show_int i"
| "json_dumps (JFloat s) = s"
| "json_dumps (JStr s) = dumps_str s"
| "json_dumps (JArr vs) = ''['' @ join '', '' (map json_dumps vs) @ '']''"
| "json_dumps (JObj kvs) = CHR 0x7B # join '', '' (map (\<lambda>(k, v). dumps_str k @ '': '' @ json_dumps v) kvs) @ [CHR 0x7D]"

section \<open>Decoding\<close>

definition nat_of_digits :: "string \<Rightarrow> nat" where
  "nat_of_digits ds = foldl (\<lambda>a c. 10 * a + (code c - 48)) 0 ds"

text \<open>The optional fraction and exponent of a number: the text they take and the rest.\<close>

definition number_frac :: "string \<Rightarrow> string \<times> string" where
  "number_frac s =
     (case s of
        c # r \<Rightarrow>
          if c = CHR ''.'' \<and> takeWhile is_digit r \<noteq> [] then (c # takeWhile is_digit r, dropWhile is_digit r) else ([], s)
      | [] \<Rightarrow> ([], s))"

definition number_exp :: "string \<Rightarrow> string \<times> string" where
  "number_exp s =
     (case s of
        c # r \<Rightarrow>
          if c = CHR ''e'' \<or> c = CHR ''E'' then
            (let sign = (case r of x # _ \<Rightarrow> if x = CHR ''+'' \<or> x = CHR ''-'' then [x] else [] | [] \<Rightarrow> []);
                 r1 = drop (length sign) r
             in if takeWhile is_digit r1 \<noteq> [] then (c # sign @ takeWhile is_digit r1, dropWhile is_digit r1) else ([], s))
          else ([], s)
      | [] \<Rightarrow> ([], s))"

definition scan_digits :: "string \<Rightarrow> (string \<times> string) option" where
  "scan_digits s =
     (case s of
        [] \<Rightarrow> None
      | c # r \<Rightarrow>
          if c = CHR ''0'' then Some ([c], r)
          else if is_digit c then Some (takeWhile is_digit s, dropWhile is_digit s) else None)"

definition scan_number :: "string \<Rightarrow> (json \<times> string) option" where
  "scan_number s =
     (let neg = startswith s ''-''; s1 = (if neg then tl s else s) in
      case scan_digits s1 of
        None \<Rightarrow> None
      | Some (ds, r) \<Rightarrow>
          (case number_frac r of
             (frac, r1) \<Rightarrow>
               (case number_exp r1 of
                  (ex, r2) \<Rightarrow>
                    if frac = [] \<and> ex = []
                    then Some (JInt (if neg then - int (nat_of_digits ds) else int (nat_of_digits ds)), r)
                    else Some (JFloat ((if neg then ''-'' else []) @ ds @ frac @ ex), r2))))"

definition literals :: "(string \<times> json) list" where
  "literals =
     [(''null'', JNull), (''true'', JBool True), (''false'', JBool False), (''NaN'', JFloat ''NaN''),
      (''Infinity'', JFloat ''Infinity''), (''-Infinity'', JFloat ''-Infinity'')]"

definition scan_literal :: "string \<Rightarrow> (json \<times> string) option" where
  "scan_literal s =
     (case List.find (\<lambda>(w, v). startswith s w) literals of
        Some (w, v) \<Rightarrow> Some (v, drop (length w) s) | None \<Rightarrow> scan_number s)"

definition dict_of :: "(string \<times> json) list \<Rightarrow> (string \<times> json) list" where
  "dict_of kvs = fold (\<lambda>(k, v) d. dict_set k v d) kvs []"

definition map_fst :: "('a \<Rightarrow> 'b) \<Rightarrow> ('a \<times> 'c) option \<Rightarrow> ('b \<times> 'c) option" where
  "map_fst f = map_option (\<lambda>(x, r). (f x, r))"

text \<open>What follows a value in a list of values: the closing character, or a comma and more.\<close>

fun load_value :: "nat \<Rightarrow> string \<Rightarrow> (json \<times> string) option"
  and load_elems :: "nat \<Rightarrow> string \<Rightarrow> (json list \<times> string) option"
  and load_members :: "nat \<Rightarrow> string \<Rightarrow> ((string \<times> json) list \<times> string) option" where
  "load_value 0 s = None"
| "load_value (Suc n) s =
     (case s of
        [] \<Rightarrow> None
      | c # r \<Rightarrow>
          if c = dquote then map_fst JStr (scanstring r)
          else if c = CHR ''['' then
            (case skip_ws r of
               [] \<Rightarrow> None
             | d # r1 \<Rightarrow> if d = CHR '']'' then Some (JArr [], r1) else map_fst JArr (load_elems n (d # r1)))
          else if c = CHR 0x7B then
            (case skip_ws r of
               [] \<Rightarrow> None
             | d # r1 \<Rightarrow>
                 if d = CHR 0x7D then Some (JObj [], r1)
                 else map_fst (\<lambda>kvs. JObj (dict_of kvs)) (load_members n (d # r1)))
          else scan_literal s)"
| "load_elems 0 s = None"
| "load_elems (Suc n) s =
     (case load_value n s of
        None \<Rightarrow> None
      | Some (v, r) \<Rightarrow>
          (case skip_ws r of
             [] \<Rightarrow> None
           | d # r1 \<Rightarrow>
               if d = CHR '']'' then Some ([v], r1)
               else if d = CHR '','' then cons_fst v (load_elems n (skip_ws r1)) else None))"
| "load_members 0 s = None"
| "load_members (Suc n) s =
     (case s of
        [] \<Rightarrow> None
      | c # r \<Rightarrow>
          if c \<noteq> dquote then None
          else case scanstring r of
                 None \<Rightarrow> None
               | Some (k, r0) \<Rightarrow>
                   (case skip_ws r0 of
                      [] \<Rightarrow> None
                    | e # r1 \<Rightarrow>
                        if e \<noteq> CHR '':'' then None
                        else case load_value n (skip_ws r1) of
                               None \<Rightarrow> None
                             | Some (v, r2) \<Rightarrow>
                                 (case skip_ws r2 of
                                    [] \<Rightarrow> None
                                  | d # r3 \<Rightarrow>
                                      if d = CHR 0x7D then Some ([(k, v)], r3)
                                      else if d = CHR '','' then cons_fst (k, v) (load_members n (skip_ws r3))
                                      else None)))"

definition json_loads :: "string \<Rightarrow> exn + json" where
  "json_loads s =
     (case load_value (2 * length s + 2) (skip_ws s) of
        Some (v, r) \<Rightarrow>
          if skip_ws r = [] then Inr v else Inl (JSONDecodeError ''Extra data'')
      | None \<Rightarrow> Inl (JSONDecodeError ''Expecting value''))"

section \<open>The fuel is enough\<close>

lemma map_fst_Some: "map_fst f x = Some (y, r) \<longleftrightarrow> (\<exists>z. x = Some (z, r) \<and> y = f z)"
  by (auto simp: map_fst_def)

lemma cons_fst_Some: "cons_fst c x = Some (y, r) \<longleftrightarrow> (\<exists>z. x = Some (z, r) \<and> y = c # z)"
  by (auto simp: cons_fst_def)

lemma scan_digits_shorter: "scan_digits s = Some (ds, r) \<Longrightarrow> length r < length s"
  by (auto simp: scan_digits_def length_dropWhile_le le_imp_less_Suc split: list.splits if_splits)

lemma number_frac_le: "number_frac s = (x, r) \<Longrightarrow> length r \<le> length s"
  using length_dropWhile_le [of is_digit "tl s"]
  by (auto simp: number_frac_def split: list.splits if_splits)

lemma number_exp_le: "number_exp s = (x, r) \<Longrightarrow> length r \<le> length s"
  by (auto simp: number_exp_def Let_def split: list.splits if_splits
      intro: order.trans [OF length_dropWhile_le])

lemma scan_number_shorter: "scan_number s = Some (v, r) \<Longrightarrow> length r < length s"
proof -
  assume a: "scan_number s = Some (v, r)"
  let ?s = "if startswith s ''-'' then tl s else s"
  obtain ds r0 where d: "scan_digits ?s = Some (ds, r0)" using a by (auto simp: scan_number_def Let_def split: option.splits)
  obtain fr r1 where f: "number_frac r0 = (fr, r1)" by fastforce
  obtain ex r2 where e: "number_exp r1 = (ex, r2)" by fastforce
  have "length r \<le> length r0"
    using a d f e number_frac_le [OF f] number_exp_le [OF e]
    by (auto simp: scan_number_def Let_def split: if_splits)
  also have "length r0 < length ?s" using scan_digits_shorter [OF d] .
  also have "length ?s \<le> length s" by simp
  finally show ?thesis .
qed

lemma scan_literal_shorter: "scan_literal s = Some (v, r) \<Longrightarrow> length r < length s"
  by (auto simp: scan_literal_def literals_def startswith_iff split: option.splits if_splits dest: scan_number_shorter)

lemma skip_ws_Cons: "skip_ws s = d # r \<Longrightarrow> length r < length s"
  using skip_ws_length [of s] by simp

declare load_value.simps [simp del] load_elems.simps [simp del] load_members.simps [simp del]

lemmas load_simps = load_value.simps load_elems.simps load_members.simps

lemma load_shorter:
  "load_value n s = Some (v, r) \<Longrightarrow> length r < length s"
  "load_elems n s = Some (vs, r) \<Longrightarrow> length r < length s"
  "load_members n s = Some (kvs, r) \<Longrightarrow> length r < length s"
proof (induction n arbitrary: s v vs kvs r)
  case 0
  { case 1 then show ?case by (simp add: load_simps) next
    case 2 then show ?case by (simp add: load_simps) next
    case 3 then show ?case by (simp add: load_simps) }
next
  case (Suc n)
  { case 1
    then show ?case
      by (fastforce simp: load_simps map_fst_Some split: list.splits if_splits
          dest: Suc.IH(2,3) scanstring_shorter scan_literal_shorter skip_ws_Cons)
  next
    case 2
    then obtain v0 r0 d r1 where a: "load_value n s = Some (v0, r0)" "skip_ws r0 = d # r1"
        "d = CHR '']'' \<and> r = r1 \<or> (\<exists>z. load_elems n (skip_ws r1) = Some (z, r))"
      by (auto simp: load_simps cons_fst_Some split: option.splits list.splits if_splits)
    have "length r1 < length s" using Suc.IH(1) [OF a(1)] skip_ws_Cons [OF a(2)] by simp
    then show ?case using a(3) Suc.IH(2) [of "skip_ws r1" _ r] skip_ws_length [of r1] by (elim disjE) force+
  next
    case 3
    then obtain k r0 e r1 v0 r2 d r3 t where a: "s = dquote # t" "scanstring t = Some (k, r0)" "skip_ws r0 = e # r1"
        "load_value n (skip_ws r1) = Some (v0, r2)" "skip_ws r2 = d # r3"
        "d = CHR 0x7D \<and> r = r3 \<or> (\<exists>z. load_members n (skip_ws r3) = Some (z, r))"
      by (auto simp: load_simps cons_fst_Some split: option.splits list.splits if_splits)
    have "length r3 < length s"
      using scanstring_shorter [OF a(2)] skip_ws_Cons [OF a(3)] Suc.IH(1) [OF a(4)] skip_ws_Cons [OF a(5)]
        skip_ws_length [of r1] a(1) by simp
    then show ?case using a(6) Suc.IH(3) [of "skip_ws r3" _ r] skip_ws_length [of r3] by (elim disjE) force+ }
qed

lemma fuel_step:
  "2 * length s < n \<Longrightarrow> load_value (Suc n) s = load_value n s"
  "2 * length s + 1 < n \<Longrightarrow> load_elems (Suc n) s = load_elems n s"
  "2 * length s + 1 < n \<Longrightarrow> load_members (Suc n) s = load_members n s"
proof (induction n arbitrary: s)
  case (Suc n)
  { case 1
    have elems: "load_elems (Suc n) (d # r1) = load_elems n (d # r1)" "load_members (Suc n) (d # r1) = load_members n (d # r1)"
      if "s = c # r" "skip_ws r = d # r1" for c r d r1
      using skip_ws_Cons [OF that(2)] that(1) 1 by (intro Suc.IH(2,3); simp)+
    show ?case
      by (subst (1 2) load_value.simps) (auto simp: elems split: list.split)
  next
    case 2
    have v: "load_value (Suc n) s = load_value n s" using 2 by (intro Suc.IH(1)) simp
    have "load_elems (Suc n) (skip_ws r1) = load_elems n (skip_ws r1)"
      if "load_value n s = Some (v, r)" "skip_ws r = d # r1" for v r d r1
      using load_shorter(1) [OF that(1)] skip_ws_Cons [OF that(2)] skip_ws_length [of r1] 2 by (intro Suc.IH(2)) simp
    then show ?case by (subst (1 2) load_elems.simps) (auto simp: v split: option.split list.split)
  next
    case 3
    have v: "load_value (Suc n) (skip_ws r1) = load_value n (skip_ws r1)"
      if "s = c # t" "scanstring t = Some (k, r0)" "skip_ws r0 = e # r1" for c t k r0 e r1
      using scanstring_shorter [OF that(2)] skip_ws_Cons [OF that(3)] skip_ws_length [of r1] that(1) 3
      by (intro Suc.IH(1)) simp
    have "load_members (Suc n) (skip_ws r3) = load_members n (skip_ws r3)"
      if "s = c # t" "scanstring t = Some (k, r0)" "skip_ws r0 = e # r1" "load_value n (skip_ws r1) = Some (x, r2)"
        "skip_ws r2 = d # r3" for c t k r0 e r1 x r2 d r3
      using scanstring_shorter [OF that(2)] skip_ws_Cons [OF that(3)] skip_ws_length [of r1] load_shorter(1) [OF that(4)]
        skip_ws_Cons [OF that(5)] skip_ws_length [of r3] that(1) 3
      by (intro Suc.IH(3)) simp
    then show ?case by (subst (1 2) load_members.simps) (auto simp: v split: option.split list.split) }
qed simp_all

lemma fuel_enough: "2 * length s < n \<Longrightarrow> load_value n s = load_value (2 * length s + 2) s"
proof -
  assume "2 * length s < n"
  moreover have "load_value (Suc (2 * length s) + k) s = load_value (Suc (2 * length s)) s" for k
    by (induction k) (simp_all add: fuel_step(1))
  ultimately show ?thesis
    by (metis Suc_leI add_2_eq_Suc' le_add_diff_inverse add_Suc_right One_nat_def plus_1_eq_Suc add.commute)
qed

section \<open>Round trip\<close>

text \<open>The texts of floating-point numbers: those the parser reads to their end as one.\<close>

definition float_text :: "string \<Rightarrow> bool" where
  "float_text s \<longleftrightarrow> scan_literal s = Some (JFloat s, [])"

text \<open>Values whose floats are texts of floats and whose objects have no repeated key.\<close>

fun json_plain :: "json \<Rightarrow> bool" where
  "json_plain (JFloat s) = float_text s"
| "json_plain (JArr vs) = (\<forall>v \<in> set vs. json_plain v)"
| "json_plain (JObj kvs) = (distinct (map fst kvs) \<and> (\<forall>p \<in> set kvs. json_plain (snd p)))"
| "json_plain _ = True"

lemma digit_char: "n < 10 \<Longrightarrow> is_digit (char_of (48 + n)) \<and> code (char_of (48 + n)) = 48 + n"
  by (simp add: is_digit_def code_def)

lemma digits_all: "c \<in> set (digits_of n) \<Longrightarrow> is_digit c"
proof (induction n rule: digits_of.induct)
  case (1 n)
  then show ?case
    using digit_char [of "n mod 10"] digit_char [of n]
    by (subst (asm) (2) digits_of.simps) (auto split: if_splits)
qed

lemma nat_of_digits_snoc: "nat_of_digits (ds @ [c]) = 10 * nat_of_digits ds + (code c - 48)"
  by (simp add: nat_of_digits_def)

lemma nat_of_digits_of [simp]: "nat_of_digits (digits_of n) = n"
proof (induction n rule: digits_of.induct)
  case (1 n)
  show ?case
  proof (cases "n < 10")
    case True
    then show ?thesis using digit_char [of n] by (subst digits_of.simps) (simp add: nat_of_digits_def)
  next
    case False
    then show ?thesis using 1 digit_char [of "n mod 10"] by (subst digits_of.simps) (simp add: nat_of_digits_snoc)
  qed
qed

lemma digits_first:
  "\<exists>c t. digits_of n = c # t \<and> (n = 0 \<longrightarrow> c = CHR ''0'' \<and> t = []) \<and> (n \<noteq> 0 \<longrightarrow> c \<noteq> CHR ''0'')"
proof (induction n rule: digits_of.induct)
  case (1 n)
  show ?case
  proof (cases "n < 10")
    case True
    then have "digits_of n = [char_of (48 + n)]" by (subst digits_of.simps) simp
    moreover have "char_of (48 + n) \<noteq> CHR ''0''" if "n \<noteq> 0"
    proof
      assume "char_of (48 + n) = CHR ''0''"
      then have "code (char_of (48 + n)) = 48" by (simp add: code_def)
      then show False using digit_char [OF True] that by simp
    qed
    moreover have "char_of (48 :: nat) = CHR ''0''" by code_simp
    ultimately show ?thesis by auto
  next
    case False
    then have "digits_of n = digits_of (n div 10) @ [char_of (48 + n mod 10)]" "n div 10 \<noteq> 0" "n \<noteq> 0"
      by (subst digits_of.simps, auto)
    then show ?thesis using False 1 by auto
  qed
qed

text \<open>What may follow a value inside a document.\<close>

definition ends_value :: "string \<Rightarrow> bool" where
  "ends_value r \<longleftrightarrow> (case r of [] \<Rightarrow> True | c # _ \<Rightarrow> c = CHR '','' \<or> c = CHR '']'' \<or> c = CHR 0x7D)"

lemma scan_digits_of:
  assumes "ends_value r" shows "scan_digits (digits_of n @ r) = Some (digits_of n, r)"
proof -
  have nd: "takeWhile is_digit r = []" "dropWhile is_digit r = r"
    using assms by (auto simp: ends_value_def is_digit_def code_def split: list.splits)
  show ?thesis
  proof (cases "n = 0")
    case True
    then show ?thesis using digits_first [of n] by (auto simp: scan_digits_def)
  next
    case False
    then obtain c t where ct: "digits_of n = c # t" "c \<noteq> CHR ''0''" using digits_first [of n] by blast
    have all: "\<forall>x \<in> set (c # t). is_digit x" using digits_all [of _ n] ct(1) by auto
    then have "takeWhile is_digit ((c # t) @ r) = (c # t) @ takeWhile is_digit r"
        "dropWhile is_digit ((c # t) @ r) = dropWhile is_digit r"
      by (blast intro: takeWhile_append2, blast intro: dropWhile_append2)
    with all ct nd show ?thesis by (simp add: scan_digits_def)
  qed
qed

lemma no_fraction: "ends_value r \<Longrightarrow> number_frac r = ([], r) \<and> number_exp r = ([], r)"
  by (auto simp: ends_value_def number_frac_def number_exp_def split: list.splits)

lemma scan_show_int:
  assumes "ends_value r" shows "scan_number (show_int i @ r) = Some (JInt i, r)"
proof (cases "i < 0")
  case True
  then show ?thesis
    using scan_digits_of [OF assms, of "nat (- i)"] no_fraction [OF assms]
    by (simp add: scan_number_def show_int_def startswith_def Let_def)
next
  case False
  obtain c t where ct: "digits_of (nat i) = c # t" using digits_first [of "nat i"] by blast
  have "is_digit c" using digits_all [of c "nat i"] ct by simp
  then have "\<not> startswith (digits_of (nat i) @ r) ''-''"
    using ct by (auto simp: startswith_def is_digit_def code_def)
  then show ?thesis
    using False scan_digits_of [OF assms, of "nat i"] no_fraction [OF assms]
    by (simp add: scan_number_def show_int_def Let_def)
qed

lemma dquote_char: "dquote = CHR 0x22"
  by code_simp

lemma digits_until:
  assumes "ends_value r"
  shows "takeWhile is_digit (x @ r) = takeWhile is_digit x" "dropWhile is_digit (x @ r) = dropWhile is_digit x @ r"
proof -
  have "takeWhile is_digit r = []" "dropWhile is_digit r = r"
    using assms by (auto simp: ends_value_def is_digit_def code_def split: list.splits)
  then show "takeWhile is_digit (x @ r) = takeWhile is_digit x" "dropWhile is_digit (x @ r) = dropWhile is_digit x @ r"
    by (induction x) simp_all
qed

lemma scan_digits_more: "scan_digits s = Some (ds, q) \<Longrightarrow> ends_value r \<Longrightarrow> scan_digits (s @ r) = Some (ds, q @ r)"
  using digits_until [of r] by (cases s) (auto simp: scan_digits_def split: if_split_asm)

lemma number_frac_more: "number_frac q = (fr, q1) \<Longrightarrow> ends_value r \<Longrightarrow> number_frac (q @ r) = (fr, q1 @ r)"
  using digits_until [of r] no_fraction [of r]
  by (cases q) (simp_all add: number_frac_def [of "c # p" for c p] number_frac_def [of "[]"] split: if_split_asm)

lemma number_exp_more:
  assumes "number_exp q = (ex, q1)" and r: "ends_value r" shows "number_exp (q @ r) = (ex, q1 @ r)"
proof (cases q)
  case Nil then show ?thesis using assms no_fraction [OF r] by (simp add: number_exp_def)
next
  case (Cons c p)
  let ?sign = "\<lambda>p. case p of x # _ \<Rightarrow> if x = CHR ''+'' \<or> x = CHR ''-'' then [x] else [] | [] \<Rightarrow> []"
  have sign: "?sign (p @ r) = ?sign p" using r by (cases p) (auto simp: ends_value_def split: list.splits)
  have "length (?sign p) \<le> length p" by (cases p) auto
  then show ?thesis
    using assms Cons unfolding number_exp_def Cons append_Cons list.case Let_def sign
    by (auto simp: digits_until [OF r] split: if_split_asm)
qed

lemma scan_number_more:
  assumes "scan_number s = Some (v, q)" and r: "ends_value r" shows "scan_number (s @ r) = Some (v, q @ r)"
proof -
  let ?s1 = "if startswith s ''-'' then tl s else s"
  obtain ds q0 fr q1 ex q2 where d: "scan_digits ?s1 = Some (ds, q0)" "number_frac q0 = (fr, q1)" "number_exp q1 = (ex, q2)"
    using assms(1) by (auto simp: scan_number_def Let_def split: option.splits prod.splits)
  have ne: "s \<noteq> []" using scan_number_shorter [OF assms(1)] by auto
  then have m: "startswith (s @ r) ''-'' = startswith s ''-''" "tl (s @ r) = tl s @ r" by (cases s; simp add: startswith_def)+
  have "scan_digits (if startswith s ''-'' then tl s @ r else s @ r) = Some (ds, q0 @ r)"
    using scan_digits_more [OF d(1) r] by (simp split: if_split_asm)
  then show ?thesis
    using assms(1) d number_frac_more [OF d(2) r] number_exp_more [OF d(3) r]
    by (auto simp: scan_number_def Let_def m split: if_split_asm)
qed

lemma number_first:
  assumes "scan_number s = Some (v, q)"
  shows "\<exists>c t. is_digit c \<and> (s = c # t \<or> s = CHR ''-'' # c # t)"
proof (cases s)
  case (Cons c p)
  have z: "is_digit CHR ''0''" by (simp add: is_digit_def code_def)
  show ?thesis
  proof (cases "c = CHR ''-''")
    case True
    then show ?thesis using assms Cons z
      by (cases p) (auto simp: scan_number_def startswith_def scan_digits_def Let_def split: option.splits if_split_asm)
  next
    case False
    then show ?thesis using assms Cons z
      by (auto simp: scan_number_def startswith_def scan_digits_def Let_def split: option.splits if_split_asm)
  qed
qed (use scan_number_shorter [OF assms] in simp)

lemma float_text_cases:
  assumes "float_text s"
  obtains "s \<in> {''NaN'', ''Infinity'', ''-Infinity''}" | "scan_number s = Some (JFloat s, [])"
proof (cases "List.find (\<lambda>(w, v). startswith s w) literals")
  case None then show ?thesis using assms that(2) by (simp add: float_text_def scan_literal_def)
next
  case (Some p)
  then have "p \<in> set literals" "startswith s (fst p)" by (auto simp: find_Some_iff) (metis nth_mem)
  with assms Some show ?thesis using that(1)
    by (auto simp: float_text_def scan_literal_def literals_def startswith_iff)
qed

lemma number_chars:
  assumes "scan_number s = Some (JFloat x, q)" and "c \<in> set x"
  shows "is_digit c \<or> c \<in> {CHR ''-'', CHR ''+'', CHR ''.'', CHR ''e'', CHR ''E''}"
proof -
  have tw: "c \<notin> set (takeWhile is_digit y)" if "\<not> is_digit c" for y using that by (auto dest: set_takeWhileD)
  have zero: "is_digit CHR ''0''" by (simp add: is_digit_def code_def)
  obtain ds q0 fr q1 ex q2 where d: "scan_digits (if startswith s ''-'' then tl s else s) = Some (ds, q0)" "number_frac q0 = (fr, q1)"
      "number_exp q1 = (ex, q2)" and x: "x = (if startswith s ''-'' then ''-'' else []) @ ds @ fr @ ex"
    using assms(1) by (auto simp: scan_number_def Let_def split: option.splits prod.splits if_split_asm)
  have "c \<in> set ds \<Longrightarrow> is_digit c"
    using d(1) zero by (auto simp: scan_digits_def split: list.splits if_split_asm dest: set_takeWhileD)
  moreover have "c \<in> set fr \<Longrightarrow> is_digit c \<or> c = CHR ''.''"
    using d(2) by (auto simp: number_frac_def split: list.splits if_split_asm dest: set_takeWhileD)
  moreover have "c \<in> set ex \<Longrightarrow> is_digit c \<or> c \<in> {CHR ''-'', CHR ''+'', CHR ''e'', CHR ''E''}"
    using d(3) tw by (auto simp: number_exp_def Let_def split: list.splits if_split_asm)
  ultimately show ?thesis using assms(2) x by (auto split: if_split_asm)
qed

lemma float_chars:
  assumes "float_text s" and "c \<in> set s"
  shows "is_digit c \<or> c \<in> {CHR ''-'', CHR ''+'', CHR ''.''} \<or> 65 \<le> code c"
  using assms(1)
proof (cases rule: float_text_cases)
  case 1 then show ?thesis using assms(2) by (auto simp: code_def)
next
  case 2 then show ?thesis using number_chars [OF 2 assms(2)] by (auto simp: code_def)
qed

lemma float_first:
  assumes "float_text s"
  shows "\<exists>c t. s = c # t \<and> \<not> json_ws c \<and> c \<noteq> CHR '']'' \<and> c \<noteq> dquote \<and> c \<noteq> CHR ''['' \<and> c \<noteq> CHR 0x7B"
  using assms
proof (cases rule: float_text_cases)
  case 1
  then have "\<exists>c t. s = c # t \<and> c \<in> {CHR ''N'', CHR ''I'', CHR ''-''}" by auto
  then show ?thesis by (elim exE conjE) (rule exI, rule exI, rule conjI, assumption, auto simp: json_ws_def dquote_char code_def)
next
  case 2
  then obtain c t where "s = c # t" "is_digit c \<or> c = CHR ''-''" using number_first [OF 2] by auto
  then show ?thesis by (intro exI [of _ c] exI [of _ t]) (auto simp: json_ws_def dquote_char is_digit_def code_def)
qed

text \<open>How the text of a plain value begins.\<close>

lemma dumps_first:
  assumes "json_plain v"
  shows "\<exists>c t. json_dumps v = c # t \<and> \<not> json_ws c \<and> c \<noteq> CHR '']'' \<and>
    (\<not> (\<exists>x. v = JStr x) \<longrightarrow> c \<noteq> dquote) \<and> (\<not> (\<exists>x. v = JArr x) \<longrightarrow> c \<noteq> CHR ''['') \<and>
    (\<not> (\<exists>x. v = JObj x) \<longrightarrow> c \<noteq> CHR 0x7B)"
proof (cases v)
  case (JInt i)
  obtain c t where ct: "digits_of (nat i) = c # t" using digits_first [of "nat i"] by blast
  have "is_digit c" using digits_all [of c "nat i"] ct by simp
  then show ?thesis using JInt ct
    by (cases "i < 0") (auto simp: show_int_def json_ws_def dquote_char is_digit_def code_def)
next
  case (JFloat s) then show ?thesis using assms float_first [of s] by auto
qed (use assms in \<open>auto simp: json_ws_def dquote_char dumps_str_def code_def\<close>)

lemma skip_ws_dumps: "json_plain v \<Longrightarrow> skip_ws (json_dumps v @ r) = json_dumps v @ r"
  using dumps_first [of v] by (auto simp: skip_ws_def)

lemma skip_ws_other: "\<not> json_ws c \<Longrightarrow> skip_ws (c # r) = c # r" "json_ws c \<Longrightarrow> skip_ws (c # r) = skip_ws r"
  by (simp_all add: skip_ws_def)

lemma not_ws [simp]:
  "\<not> json_ws CHR ''['' " "\<not> json_ws CHR '']''" "\<not> json_ws CHR '',''" "\<not> json_ws CHR '':''" "\<not> json_ws CHR 0x7B"
  "\<not> json_ws CHR 0x7D" "\<not> json_ws dquote" "json_ws CHR '' ''"
  by (simp_all add: json_ws_def dquote_char code_def)

lemma char_code: "c \<noteq> d" if "code c \<noteq> code d"
  using that by blast

lemma no_literal:
  assumes "is_digit c" shows "List.find (\<lambda>(w, v). startswith (c # t) w) literals = None"
    and "List.find (\<lambda>(w, v). startswith (CHR ''-'' # c # t) w) literals = None"
proof -
  have n: "code c \<le> 57" using assms by (simp add: is_digit_def)
  have ne: "c \<noteq> CHR ''n''" "c \<noteq> CHR ''t''" "c \<noteq> CHR ''f''" "c \<noteq> CHR ''N''" "c \<noteq> CHR ''I''"
    using n by (auto simp: code_def)
  have "c \<noteq> CHR ''-''" using assms by (auto simp: is_digit_def code_def)
  with ne show "List.find (\<lambda>(w, v). startswith (c # t) w) literals = None"
    by (simp add: literals_def startswith_def)
  from ne show "List.find (\<lambda>(w, v). startswith (CHR ''-'' # c # t) w) literals = None"
    by (simp add: literals_def startswith_def)
qed

lemma scan_float:
  assumes "float_text s" and r: "ends_value r" shows "scan_literal (s @ r) = Some (JFloat s, r)"
  using assms(1)
proof (cases rule: float_text_cases)
  case 1 then show ?thesis by (auto simp: scan_literal_def literals_def startswith_def)
next
  case 2
  obtain c t where "is_digit c" "s = c # t \<or> s = CHR ''-'' # c # t" using number_first [OF 2] by blast
  then have "List.find (\<lambda>(w, v). startswith (s @ r) w) literals = None" using no_literal [of c "t @ r"] by auto
  then show ?thesis using scan_number_more [OF 2 r] by (simp add: scan_literal_def)
qed

lemma scan_literal_int: "scan_literal (show_int i @ r) = scan_number (show_int i @ r)"
proof -
  obtain c t where ct: "digits_of (nat \<bar>i\<bar>) = c # t" using digits_first by blast
  have d: "is_digit c" using digits_all [of c "nat \<bar>i\<bar>"] ct by simp
  have "show_int i = (if i < 0 then CHR ''-'' # c # t else c # t)" using ct by (cases "i < 0") (simp_all add: show_int_def)
  then have "List.find (\<lambda>(w, v). startswith (show_int i @ r) w) literals = None"
    using no_literal [OF d, of "t @ r"] by (cases "i < 0") simp_all
  then show ?thesis by (simp add: scan_literal_def)
qed

lemma scan_literal_dumps:
  assumes "ends_value r" and "v = JNull \<or> (\<exists>b. v = JBool b) \<or> (\<exists>i. v = JInt i) \<or> (\<exists>s. v = JFloat s \<and> float_text s)"
  shows "scan_literal (json_dumps v @ r) = Some (v, r)"
  using assms(2)
proof (elim disjE exE)
  assume "v = JNull" then show ?thesis by (simp add: scan_literal_def literals_def startswith_def)
next
  fix b assume "v = JBool b" then show ?thesis by (cases b) (simp_all add: scan_literal_def literals_def startswith_def)
next
  fix i assume "v = JInt i" then show ?thesis using scan_show_int [OF assms(1)] by (simp add: scan_literal_int)
next
  fix s assume "v = JFloat s \<and> float_text s" then show ?thesis using scan_float [OF _ assms(1)] by simp
qed

lemma dict_of_distinct: "distinct (map fst kvs) \<Longrightarrow> dict_of kvs = kvs"
proof -
  have "distinct (map fst (d @ kvs)) \<Longrightarrow> fold (\<lambda>(k, v) d. dict_set k v d) kvs d = d @ kvs" for d
  proof (induction kvs arbitrary: d)
    case (Cons p kvs)
    obtain k v where p: "p = (k, v)" by (cases p)
    have "k \<notin> fst ` set d" using Cons.prems p by auto
    then have "dict_set k v d = d @ [(k, v)]" by (intro dict_set_fresh) (simp add: map_of_eq_None_iff)
    moreover have "fold (\<lambda>(k, v) d. dict_set k v d) kvs (d @ [(k, v)]) = (d @ [(k, v)]) @ kvs"
      by (rule Cons.IH) (use Cons.prems p in simp)
    ultimately show ?case using p by simp
  qed simp
  from this [of "[]"] show "distinct (map fst kvs) \<Longrightarrow> dict_of kvs = kvs" by (simp add: dict_of_def)
qed

lemma scan_dumps_str: "scanstring (concat (map json_esc s) @ [dquote] @ r) = Some (s, r)"
  using scan_dumps by simp

lemma load_elems_dumps:
  assumes "\<And>v n r. v \<in> set vs \<Longrightarrow> ends_value r \<Longrightarrow> 2 * length (json_dumps v @ r) < n \<Longrightarrow>
      load_value n (json_dumps v @ r) = Some (v, r)"
    and "\<forall>v \<in> set vs. json_plain v" and "vs \<noteq> []"
    and "2 * length (join '', '' (map json_dumps vs) @ '']'' @ r) + 1 < n"
  shows "load_elems n (join '', '' (map json_dumps vs) @ '']'' @ r) = Some (vs, r)"
  using assms
proof (induction vs arbitrary: n rule: induct_list012)
  case (2 v)
  then obtain m where n: "n = Suc m" by (cases n) auto
  have "load_value m (json_dumps v @ '']'' @ r) = Some (v, '']'' @ r)"
    using 2 n by (intro "2.prems"(1)) (auto simp: ends_value_def)
  then show ?case by (simp add: n load_simps skip_ws_other)
next
  case (3 v w vs)
  then obtain m where n: "n = Suc m" by (cases n) auto
  let ?rest = "join '', '' (map json_dumps (w # vs)) @ '']'' @ r"
  have split: "join '', '' (map json_dumps (v # w # vs)) @ '']'' @ r = json_dumps v @ '', '' @ ?rest" by simp
  have "load_value m (json_dumps v @ '', '' @ ?rest) = Some (v, '', '' @ ?rest)"
    using "3.prems"(4) n unfolding split by (intro "3.prems"(1)) (auto simp: ends_value_def)
  moreover have "skip_ws ('' '' @ ?rest) = ?rest"
    using skip_ws_dumps [of w] "3.prems"(2) by (cases vs) (simp_all add: skip_ws_other)
  moreover have "load_elems m ?rest = Some (w # vs, r)"
    using "3.prems" n unfolding split by (intro "3.IH"(2)) auto
  ultimately show ?case unfolding split n by (simp add: load_simps skip_ws_other cons_fst_def)
qed simp

lemma load_members_dumps:
  assumes "\<And>k v n r. (k, v) \<in> set kvs \<Longrightarrow> ends_value r \<Longrightarrow> 2 * length (json_dumps v @ r) < n \<Longrightarrow>
      load_value n (json_dumps v @ r) = Some (v, r)"
    and "\<forall>p \<in> set kvs. json_plain (snd p)" and "kvs \<noteq> []"
    and "2 * length (join '', '' (map (\<lambda>(k, v). dumps_str k @ '': '' @ json_dumps v) kvs) @ CHR 0x7D # r) + 1 < n"
  shows "load_members n (join '', '' (map (\<lambda>(k, v). dumps_str k @ '': '' @ json_dumps v) kvs) @ CHR 0x7D # r) =
    Some (kvs, r)"
  using assms
proof (induction kvs arbitrary: n rule: induct_list012)
  case (2 p)
  obtain k v where p: "p = (k, v)" by (cases p)
  from 2 obtain m where n: "n = Suc m" by (cases n) auto
  have "load_value m (json_dumps v @ CHR 0x7D # r) = Some (v, CHR 0x7D # r)"
    using 2 n p by (intro "2.prems"(1)) (auto simp: ends_value_def dumps_str_def)
  moreover have "skip_ws (json_dumps v @ CHR 0x7D # r) = json_dumps v @ CHR 0x7D # r"
    using "2.prems"(2) p by (intro skip_ws_dumps) simp
  ultimately show ?case
    using scan_dumps [of k "'': '' @ json_dumps v @ CHR 0x7D # r"]
    by (simp add: n p load_simps dumps_str_def skip_ws_other)
next
  case (3 p q kvs)
  obtain k v where p: "p = (k, v)" by (cases p)
  obtain l w where q: "q = (l, w)" by (cases q)
  from 3 obtain m where n: "n = Suc m" by (cases n) auto
  let ?f = "\<lambda>(k, v). dumps_str k @ '': '' @ json_dumps v"
  let ?rest = "join '', '' (map ?f (q # kvs)) @ CHR 0x7D # r"
  have split: "join '', '' (map ?f (p # q # kvs)) @ CHR 0x7D # r = dumps_str k @ '': '' @ json_dumps v @ '', '' @ ?rest"
    by (simp add: p)
  define R where "R = ?rest"
  have "load_value m (json_dumps v @ '', '' @ ?rest) = Some (v, '', '' @ ?rest)"
    using "3.prems"(4) n unfolding split p by (intro "3.prems"(1)) (auto simp: ends_value_def p dumps_str_def)
  moreover have "skip_ws (json_dumps v @ '', '' @ ?rest) = json_dumps v @ '', '' @ ?rest"
    using "3.prems"(2) p by (intro skip_ws_dumps) simp
  moreover have "skip_ws ('' '' @ ?rest) = ?rest"
    by (cases kvs) (simp_all add: q dumps_str_def skip_ws_other)
  moreover have "load_members m ?rest = Some (q # kvs, r)"
    using "3.prems" n unfolding split by (intro "3.IH"(2)) auto
  ultimately show ?case
    using scan_dumps [of k "'': '' @ json_dumps v @ '', '' @ R"]
    unfolding split unfolding n R_def [symmetric] unfolding p by (simp add: load_simps dumps_str_def skip_ws_other cons_fst_def)
qed simp

lemma load_plain_literal:
  assumes "ends_value r" and "v = JNull \<or> (\<exists>b. v = JBool b) \<or> (\<exists>i. v = JInt i) \<or> (\<exists>s. v = JFloat s \<and> float_text s)" and "2 * length (json_dumps v @ r) < n"
  shows "load_value n (json_dumps v @ r) = Some (v, r)"
proof -
  obtain m where n: "n = Suc m" using assms(3) by (cases n) auto
  obtain c t where ct: "json_dumps v = c # t" "c \<noteq> dquote" "c \<noteq> CHR ''[''" "c \<noteq> CHR 0x7B"
    using dumps_first [of v] assms(2) by auto
  show ?thesis using scan_literal_dumps [OF assms(1,2)] ct(2-4) unfolding n ct(1) by (simp add: load_simps)
qed

lemma load_dumps:
  "json_plain v \<Longrightarrow> ends_value r \<Longrightarrow> 2 * length (json_dumps v @ r) < n \<Longrightarrow> load_value n (json_dumps v @ r) = Some (v, r)"
proof (induction v arbitrary: n r)
  case (JArr vs)
  then obtain m where n: "n = Suc m" by (cases n) auto
  show ?case
  proof (cases vs)
    case Nil then show ?thesis by (simp add: n load_simps skip_ws_other dquote_char)
  next
    case (Cons v ws)
    let ?body = "join '', '' (map json_dumps vs) @ '']'' @ r"
    have "load_elems m ?body = Some (vs, r)"
      using JArr n Cons by (intro load_elems_dumps) auto
    moreover obtain c t where ct: "?body = c # t" "\<not> json_ws c" "c \<noteq> CHR '']''"
      using dumps_first [of v] JArr.prems(1) Cons by (cases ws) auto
    ultimately show ?thesis by (simp add: n load_simps skip_ws_other map_fst_def dquote_char)
  qed
next
  case (JObj kvs)
  then obtain m where n: "n = Suc m" by (cases n) auto
  show ?case
  proof (cases kvs)
    case Nil then show ?thesis by (simp add: n load_simps skip_ws_other dquote_char)
  next
    case (Cons p ps)
    let ?body = "join '', '' (map (\<lambda>(k, v). dumps_str k @ '': '' @ json_dumps v) kvs) @ CHR 0x7D # r"
    have "load_members m ?body = Some (kvs, r)"
    proof (rule load_members_dumps)
      fix k v n r
      assume "(k, v) \<in> set kvs" and more: "ends_value r" "2 * length (json_dumps v @ r) < n"
      then have "json_plain v" using JObj.prems(1) by fastforce
      with \<open>(k, v) \<in> set kvs\<close> more show "load_value n (json_dumps v @ r) = Some (v, r)"
        by (intro JObj.IH [of "(k, v)" v]) simp_all
    qed (use JObj.prems n Cons in auto)
    moreover obtain t where ct: "?body = dquote # t"
      using Cons by (cases ps; cases p) (auto simp: dumps_str_def)
    moreover have "dict_of kvs = kvs" using JObj.prems(1) by (intro dict_of_distinct) simp
    ultimately show ?thesis by (simp add: n load_simps skip_ws_other map_fst_def) (simp add: dquote_char)
  qed
next
  case (JStr s)
  then obtain m where n: "n = Suc m" by (cases n) auto
  then show ?case using scan_dumps [of s r] by (simp add: load_simps dumps_str_def map_fst_def)
next
  case JNull show ?case using JNull.prems(2,3) by (intro load_plain_literal) simp_all
next
  case (JBool b) show ?case using JBool.prems(2,3) by (intro load_plain_literal) simp_all
next
  case (JInt i) show ?case using JInt.prems(2,3) by (intro load_plain_literal) simp_all
next
  case (JFloat s) show ?case using JFloat.prems by (intro load_plain_literal) simp_all
qed

section \<open>One line\<close>

text \<open>The text of a value is one line.\<close>

definition plain_char :: "char \<Rightarrow> bool" where
  "plain_char c \<longleftrightarrow> 32 \<le> code c \<and> code c \<le> 126"

lemma esc_printable: "c \<in> set (json_esc x) \<Longrightarrow> plain_char c"
proof -
  have d: "code (hex_digit n) \<le> 102 \<and> 48 \<le> code (hex_digit n)" if "n < 16" for n
    using that by (simp add: hex_digit_def code_def)
  have lt: "code x < 256" by (simp add: code_def)
  assume c: "c \<in> set (json_esc x)"
  have "code x div 16 < 16" "code x mod 16 < 16" using lt by auto
  note h = this [THEN d]
  from c have "c \<in> {backslash, x} \<and> (code x = 34 \<or> code x = 92) \<or> c \<in> set (backslash # ''nrtfbu0'') \<or>
      c = x \<and> 32 \<le> code x \<and> code x \<le> 126 \<or> c = hex_digit (code x div 16) \<or> c = hex_digit (code x mod 16)"
    by (auto simp: json_esc_def Let_def split: if_split_asm)
  then show ?thesis using h by (elim disjE) (auto simp: plain_char_def backslash_def code_def)
qed

lemma str_printable: "c \<in> set (dumps_str s) \<Longrightarrow> plain_char c"
  by (auto simp: dumps_str_def intro: esc_printable) (auto simp: plain_char_def dquote_def code_def)

lemma float_printable: "float_text s \<Longrightarrow> c \<in> set s \<Longrightarrow> plain_char c"
  by (erule float_text_cases) (auto simp: plain_char_def code_def is_digit_def dest!: number_chars)

lemma int_printable: "c \<in> set (show_int i) \<Longrightarrow> plain_char c"
  by (auto simp: show_int_def plain_char_def is_digit_def code_def split: if_split_asm dest!: digits_all)

lemma join_printable: "\<forall>x \<in> set xs. \<forall>c \<in> set x. plain_char c \<Longrightarrow> c \<in> set (join '', '' xs) \<Longrightarrow> plain_char c"
  by (induction xs rule: induct_list012) (auto simp: plain_char_def code_def)

lemma dumps_printable: "json_plain v \<Longrightarrow> c \<in> set (json_dumps v) \<Longrightarrow> plain_char c"
proof (induction v arbitrary: c)
  case (JArr vs)
  then have "\<forall>x \<in> set (map json_dumps vs). \<forall>c \<in> set x. plain_char c" by auto
  with JArr.prems(2) join_printable [OF this] show ?case by (auto simp: plain_char_def code_def)
next
  case (JObj kvs)
  let ?f = "\<lambda>(k, v). dumps_str k @ '': '' @ json_dumps v"
  have "plain_char c" if p: "p \<in> set kvs" "c \<in> set (?f p)" for p c
  proof -
    obtain k v where kv: "p = (k, v)" by (cases p)
    have "json_plain v" using JObj.prems(1) p(1) kv by fastforce
    then have "c \<in> set (json_dumps v) \<Longrightarrow> plain_char c" using JObj.IH [of p v] p(1) kv by simp
    moreover have "c \<in> set '': '' \<Longrightarrow> plain_char c" by (auto simp: plain_char_def code_def)
    ultimately show ?thesis using p(2) kv str_printable by auto
  qed
  then have "\<forall>x \<in> set (map ?f kvs). \<forall>c \<in> set x. plain_char c" by auto
  with JObj.prems(2) join_printable [OF this] show ?case by (auto simp: plain_char_def code_def)
next
  case (JBool b) then show ?case by (cases b) (auto simp: plain_char_def code_def)
qed (auto simp: plain_char_def code_def dest: str_printable int_printable float_printable simp del: set_append)

lemma not_break: "plain_char c \<Longrightarrow> \<not> islinebreak c"
  by (auto simp: plain_char_def islinebreak_def Let_def)

section \<open>Reading back\<close>



end
