(* ===== verification/PyValue.thy ===== *)
theory PyValue
  imports Json PyEffect Machine
begin

text \<open>
  Python's operations on values decoded from JSON or YAML, as the source uses them (attribute calls, subscripts,
  truth, \<open>str\<close>), with the exceptions they raise on values of another type; sequencing of computations that may
  raise; and the HTTP request of the standard library as an operation on a world.
\<close>

section \<open>Computations that may raise\<close>

definition bindR :: "exn + 'a \<Rightarrow> ('a \<Rightarrow> exn + 'b) \<Rightarrow> exn + 'b" where
  "bindR x f = (case x of Inl e \<Rightarrow> Inl e | Inr a \<Rightarrow> f a)"

lemma bindR_simps [simp]: "bindR (Inl e) f = Inl e" "bindR (Inr a) f = f a"
  by (simp_all add: bindR_def)

lemma bindR_Inr: "bindR x f = Inr b \<longleftrightarrow> (\<exists>a. x = Inr a \<and> f a = Inr b)"
  by (cases x) simp_all

fun mapR :: "('a \<Rightarrow> exn + 'b) \<Rightarrow> 'a list \<Rightarrow> exn + 'b list" where
  "mapR f [] = Inr []"
| "mapR f (x # xs) = bindR (f x) (\<lambda>y. bindR (mapR f xs) (\<lambda>ys. Inr (y # ys)))"

lemma mapR_Inr: "mapR f xs = Inr ys \<longleftrightarrow> list_all2 (\<lambda>x y. f x = Inr y) xs ys"
  by (induction xs arbitrary: ys) (auto simp: bindR_Inr list_all2_Cons1)

text \<open>A computation as a step of a program.\<close>

definition liftR :: "exn + 'a \<Rightarrow> ('s, 'a) prog" where
  "liftR x s = (x, s)"

lemma liftR_simp [simp]: "liftR x s = (x, s)"
  by (simp add: liftR_def)

section \<open>Values\<close>

fun type_name :: "json \<Rightarrow> string" where
  "type_name JNull = ''NoneType''"
| "type_name (JBool _) = ''bool''"
| "type_name (JInt _) = ''int''"
| "type_name (JFloat _) = ''float''"
| "type_name (JStr _) = ''str''"
| "type_name (JArr _) = ''list''"
| "type_name (JObj _) = ''dict''"

text \<open>\<open>bool(v)\<close>; a float is zero when its text has no other digit before the exponent.\<close>

fun j_true :: "json \<Rightarrow> bool" where
  "j_true JNull = False"
| "j_true (JBool b) = b"
| "j_true (JInt i) = (i \<noteq> 0)"
| "j_true (JFloat s) =
     (\<exists>c \<in> set (takeWhile (\<lambda>c. c \<noteq> CHR ''e'' \<and> c \<noteq> CHR ''E'') s). c \<notin> set ''0.-'')"
| "j_true (JStr s) = (s \<noteq> [])"
| "j_true (JArr vs) = (vs \<noteq> [])"
| "j_true (JObj kvs) = (kvs \<noteq> [])"

text \<open>\<open>repr(v)\<close> and \<open>str(v)\<close>; a float is its text.\<close>

fun py_repr_json :: "json \<Rightarrow> string" where
  "py_repr_json JNull = ''None''"
| "py_repr_json (JBool b) = (if b then ''True'' else ''False'')"
| "py_repr_json (JInt i) = show_int i"
| "py_repr_json (JFloat s) = s"
| "py_repr_json (JStr s) = py_repr s"
| "py_repr_json (JArr vs) = ''['' @ join '', '' (map py_repr_json vs) @ '']''"
| "py_repr_json (JObj kvs) =
     CHR 0x7B # join '', '' (map (\<lambda>(k, v). py_repr k @ '': '' @ py_repr_json v) kvs) @ [CHR 0x7D]"

definition py_str :: "json \<Rightarrow> string" where
  "py_str v = (case v of JStr s \<Rightarrow> s | _ \<Rightarrow> py_repr_json v)"

text \<open>\<open>v.name(...)\<close> for a method of dictionaries: the dictionary, or \<open>AttributeError\<close>.\<close>

definition as_dict :: "string \<Rightarrow> json \<Rightarrow> exn + (string, json) dict" where
  "as_dict name v =
     (case v of
        JObj d \<Rightarrow> Inr d
      | _ \<Rightarrow> Inl (AttributeError (py_repr (type_name v) @ '' object has no attribute '' @ py_repr name)))"

text \<open>\<open>v[key]\<close> for a text key, and \<open>v[0]\<close>.\<close>

definition item :: "json \<Rightarrow> string \<Rightarrow> exn + json" where
  "item v k =
     (case v of
        JObj d \<Rightarrow> (case dict_get d k of Some x \<Rightarrow> Inr x | None \<Rightarrow> Inl (KeyError k))
      | JArr _ \<Rightarrow> Inl (TypeError ''list indices must be integers or slices, not str'')
      | JStr _ \<Rightarrow> Inl (TypeError (''string indices must be integers, not '' @ py_repr ''str''))
      | _ \<Rightarrow> Inl (TypeError (py_repr (type_name v) @ '' object is not subscriptable'')))"

definition first_item :: "json \<Rightarrow> exn + json" where
  "first_item v =
     (case v of
        JArr (x # _) \<Rightarrow> Inr x
      | JArr [] \<Rightarrow> Inl (IndexError ''list index out of range'')
      | JStr (c # _) \<Rightarrow> Inr (JStr [c])
      | JStr [] \<Rightarrow> Inl (IndexError ''string index out of range'')
      | JObj _ \<Rightarrow> Inl (KeyError ''0'')
      | _ \<Rightarrow> Inl (TypeError (py_repr (type_name v) @ '' object is not subscriptable'')))"

text \<open>\<open>d.get(k, x)\<close> for a dictionary \<open>d\<close>.\<close>

definition get_or :: "(string, json) dict \<Rightarrow> string \<Rightarrow> json \<Rightarrow> json" where
  "get_or d k x = (case dict_get d k of None \<Rightarrow> x | Some v \<Rightarrow> v)"

definition optional_str :: "string option \<Rightarrow> json" where
  "optional_str x = (case x of None \<Rightarrow> JNull | Some s \<Rightarrow> JStr s)"

lemma loads_dumps_plain: "json_plain v \<Longrightarrow> json_loads (json_dumps v) = Inr v"
  using load_dumps [of v "[]" "2 * length (json_dumps v) + 2"] skip_ws_dumps [of v "[]"]
  by (simp add: ends_value_def json_loads_def skip_ws_def)

section \<open>HTTP\<close>

text \<open>
  \<open>urllib.request.urlopen\<close> of a request and the reading of its answer: the status and the body as text, or
  \<open>HTTPError\<close> (a status outside the 200s, with the body) or \<open>URLError\<close>. The timeout belongs to the operation.
\<close>

record http_request =
  hq_url :: string
  hq_data :: "string option"
  hq_headers :: "(string, string) dict"
  hq_method :: string

type_synonym 'w http = "http_request \<Rightarrow> ('w, int \<times> string) prog"

text \<open>An HTTP client that keeps the requests it was given.\<close>

definition recorded_http :: "'w http \<Rightarrow> ('w \<times> http_request list) http" where
  "recorded_http h r = (\<lambda>(w, rs). case h r w of (x, w') \<Rightarrow> (x, w', rs @ [r]))"

text \<open>\<open>x or y\<close> on the body of an answer.\<close>

definition body_or_empty :: "string \<Rightarrow> string" where
  "body_or_empty b = (if b = [] then [CHR 0x7B, CHR 0x7D] else b)"

end
