(* ===== verification/Dispatch.thy ===== *)
theory Dispatch
  imports PyValue Deps "HOL-Library.Sublist"
begin

text \<open>
  The dispatcher (\<open>dispatch.py\<close>) and the cluster client (\<open>kube.py\<close>): the name of a task's Job, the Job rendered from
  the template, one sweep over the queued tasks, and the requests to the Kubernetes API. \<open>yaml.safe_load\<close> and the
  hexadecimal SHA-256 digest are parameters; a loaded template is a tree.
\<close>

section \<open>The name of a Job\<close>

definition slug_char :: "char \<Rightarrow> bool" where
  "slug_char c \<longleftrightarrow> (let n = code c in 48 \<le> n \<and> n \<le> 57 \<or> 97 \<le> n \<and> n \<le> 122)"

text \<open>\<open>re.sub("[^a-z0-9]+", "-", s)\<close>; the flag says that the character before was replaced.\<close>

fun slug_sub :: "bool \<Rightarrow> string \<Rightarrow> string" where
  "slug_sub gap [] = []"
| "slug_sub gap (c # cs) =
     (if slug_char c then c # slug_sub False cs
      else if gap then slug_sub True cs else CHR ''-'' # slug_sub True cs)"

definition job_prefix :: string where
  "job_prefix = ''dear-agent-task-''"

definition job_name :: "(string \<Rightarrow> string) \<Rightarrow> string \<Rightarrow> string" where
  "job_name sha256 task_id =
     (let digest = take 10 (sha256 task_id);
          max_slug = 63 - length job_prefix - 1 - length digest;
          slug = take max_slug (strip_chars ''-'' (slug_sub False (lower task_id)))
      in job_prefix @ (if slug = [] then ''task'' else slug) @ ''-'' @ digest)"

section \<open>The Job of a task\<close>

definition image_placeholders :: "(string \<times> (string \<times> string)) list" where
  "image_placeholders =
     [(''__RUNNER_IMAGE__'', (''DEAR_AGENT_RUNNER_IMAGE'', ''quay.io/dear-agent/dear-agent:latest'')),
      (''__HARNESS_IMAGE__'', (''DEAR_AGENT_HARNESS_IMAGE'', ''quay.io/dear-agent/dear-agent:harness-latest''))]"

definition resolve_image :: "(string, string) dict \<Rightarrow> (string, json) dict \<Rightarrow> (string, json) dict" where
  "resolve_image env container =
     (case dict_get container ''image'' of
        Some (JStr img) \<Rightarrow>
          (case map_of image_placeholders img of
             Some (variable, dflt) \<Rightarrow> dict_set ''image'' (JStr (or_else (dict_get env variable) dflt)) container
           | None \<Rightarrow> container)
      | _ \<Rightarrow> container)"

text \<open>The loop over a container's \<open>env\<close>: the first entry of the name gets the value, otherwise one is appended.\<close>

fun stamp_env :: "string \<Rightarrow> json list \<Rightarrow> exn + json list" where
  "stamp_env task_id [] = Inr [JObj [(''name'', JStr ''DEAR_AGENT_TASK_ID''), (''value'', JStr task_id)]]"
| "stamp_env task_id (entry # entries) =
     bindR (as_dict ''get'' entry) (\<lambda>d.
       if dict_get d ''name'' = Some (JStr ''DEAR_AGENT_TASK_ID'')
       then Inr (JObj (dict_set ''value'' (JStr task_id) d) # entries)
       else bindR (stamp_env task_id entries) (\<lambda>es. Inr (entry # es)))"

text \<open>
  Going over a value and using \<open>get\<close> on its items, or \<open>append\<close> when it has none: a value that is no list raises.
\<close>

definition no_attribute :: "string \<Rightarrow> string \<Rightarrow> exn" where
  "no_attribute ty name = AttributeError (py_repr ty @ '' object has no attribute '' @ py_repr name)"

definition as_list :: "json \<Rightarrow> exn + json list" where
  "as_list v =
     (case v of
        JArr vs \<Rightarrow> Inr vs
      | JObj d \<Rightarrow> Inl (if d = [] then no_attribute ''dict'' ''append'' else no_attribute ''str'' ''get'')
      | JStr s \<Rightarrow> Inl (no_attribute ''str'' (if s = [] then ''append'' else ''get''))
      | _ \<Rightarrow> Inl (TypeError (py_repr (type_name v) @ '' object is not iterable'')))"

definition stamp_container :: "string \<Rightarrow> (string, string) dict \<Rightarrow> json \<Rightarrow> exn + json" where
  "stamp_container task_id env container =
     bindR (as_dict ''get'' container) (\<lambda>d0.
       let d = resolve_image env d0 in
       bindR (as_list (get_or d ''env'' (JArr []))) (\<lambda>entries.
         bindR (stamp_env task_id entries) (\<lambda>es. Inr (JObj (dict_set ''env'' (JArr es) d)))))"

definition set_item :: "string \<Rightarrow> json \<Rightarrow> json \<Rightarrow> exn + json" where
  "set_item k x v =
     (case v of
        JObj d \<Rightarrow> Inr (JObj (dict_set k x d))
      | JArr _ \<Rightarrow> Inl (TypeError ''list indices must be integers or slices, not str'')
      | _ \<Rightarrow> Inl (TypeError (py_repr (type_name v) @ '' object does not support item assignment'')))"

text \<open>The metadata of the Job: a fixed name in place of a generated one.\<close>

definition stamp_metadata :: "string \<Rightarrow> (string, json) dict \<Rightarrow> exn + (string, json) dict" where
  "stamp_metadata nm job =
     bindR (as_dict ''pop'' (get_or job ''metadata'' (JObj []))) (\<lambda>meta.
       Inr (dict_set ''metadata''
              (JObj (dict_set ''name'' (JStr nm) (filter (\<lambda>p. fst p \<noteq> ''generateName'') meta))) job))"

text \<open>The pod template: its containers and its annotations.\<close>

definition stamp_containers :: "string \<Rightarrow> (string, string) dict \<Rightarrow> json \<Rightarrow> exn + json" where
  "stamp_containers task_id env spec =
     bindR (as_dict ''get'' spec) (\<lambda>d.
       let containers = get_or d ''containers'' (JArr []) in
       if \<not> j_true containers then Inl (DispatchError ''runner template has no containers'')
       else bindR (as_list containers) (\<lambda>cs.
              bindR (mapR (stamp_container task_id env) cs) (\<lambda>cs'.
                Inr (JObj (dict_set ''containers'' (JArr cs') d)))))"

definition stamp_annotation :: "string \<Rightarrow> json \<Rightarrow> exn + json" where
  "stamp_annotation task_id template =
     bindR (as_dict ''setdefault'' template) (\<lambda>d.
       bindR (as_dict ''setdefault'' (get_or d ''metadata'' (JObj []))) (\<lambda>meta.
         bindR (set_item ''dearagent.dev/task-id'' (JStr task_id) (get_or meta ''annotations'' (JObj []))) (\<lambda>ann.
           Inr (JObj (dict_set ''metadata'' (JObj (dict_set ''annotations'' ann meta)) d)))))"

definition render_job ::
  "(string \<Rightarrow> exn + json) \<Rightarrow> (string \<Rightarrow> string) \<Rightarrow> string \<Rightarrow> task \<Rightarrow> (string, string) dict \<Rightarrow> exn + json" where
  "render_job safe_load sha256 template t env =
     bindR (safe_load template) (\<lambda>job.
       bindR (as_dict ''setdefault'' job) (\<lambda>d.
         bindR (stamp_metadata (job_name sha256 (t_id t)) d) (\<lambda>d1.
           bindR (item (JObj d1) ''spec'') (\<lambda>job_spec.
             bindR (item job_spec ''template'') (\<lambda>tmpl.
               bindR (item tmpl ''spec'') (\<lambda>spec.
                 bindR (stamp_containers (t_id t) env spec) (\<lambda>spec1.
                   bindR (set_item ''spec'' spec1 tmpl) (\<lambda>tmpl1.
                     bindR (stamp_annotation (t_id t) tmpl1) (\<lambda>tmpl2.
                       bindR (set_item ''template'' tmpl2 job_spec) (\<lambda>spec2.
                         Inr (JObj (dict_set ''spec'' spec2 d1))))))))))))"

section \<open>One sweep\<close>

record ('q, 'l) dispatcher =
  dp_queue :: "'q queue_ops"
  dp_launcher :: "json \<Rightarrow> ('l, unit) prog"
  dp_template :: string
  dp_limit :: int
  dp_clock :: "nat \<Rightarrow> time"
  dp_safe_load :: "string \<Rightarrow> exn + json"
  dp_sha256 :: "string \<Rightarrow> string"
  dp_environ :: "(string, string) dict"

record ('q, 'l) dispatch_state =
  dq_queue :: 'q
  dq_cluster :: 'l
  dq_tick :: nat

definition dp_fail :: "('q, 'l) dispatcher \<Rightarrow> task \<Rightarrow> (('q, 'l) dispatch_state, task) prog" where
  "dp_fail D t s =
     (case q_transition (dp_queue D) t FAILED None (dp_clock D (dq_tick s)) (dq_queue s) of
        (r, q) \<Rightarrow> (r, s\<lparr>dq_queue := q, dq_tick := Suc (dq_tick s)\<rparr>))"

definition dp_launch :: "('q, 'l) dispatcher \<Rightarrow> json \<Rightarrow> (('q, 'l) dispatch_state, unit) prog" where
  "dp_launch D job = on_part dq_cluster (\<lambda>l s. s\<lparr>dq_cluster := l\<rparr>) (dp_launcher D job)"

definition already_running :: "task \<Rightarrow> bool" where
  "already_running t \<longleftrightarrow> t_state t \<noteq> QUEUED"

definition dispatch_task :: "('q, 'l) dispatcher \<Rightarrow> task \<Rightarrow> string list \<Rightarrow> (('q, 'l) dispatch_state, string list) prog" where
  "dispatch_task D t created =
     (if already_running t then ret created
      else bindE (asks (\<lambda>s. dependency_status_of (dp_queue D) (dq_queue s) t)) (\<lambda>st.
        if ds_state st = ''failed'' then seqE (dp_fail D t) (ret created)
        else if ds_state st = ''blocked'' then ret created
        else bindE (liftR (render_job (dp_safe_load D) (dp_sha256 D) (dp_template D) t (dp_environ D))) (\<lambda>job.
          seqE (dp_launch D job) (ret (created @ [t_id t])))))"

definition dispatch_once :: "('q, 'l) dispatcher \<Rightarrow> (('q, 'l) dispatch_state, string list) prog" where
  "dispatch_once D =
     bindE (asks (\<lambda>s. q_list (dp_queue D) QUEUED (dp_limit D) (dq_queue s))) (\<lambda>ts.
       for_each (dispatch_task D) ts [])"

section \<open>The cluster client (kube.py)\<close>

record kube_client =
  kc_namespace :: string
  kc_token :: string
  kc_ca_path :: string
  kc_host :: string

definition SA_DIR :: string where "SA_DIR = ''/var/run/secrets/kubernetes.io/serviceaccount''"

definition KUBE_HOST :: string where "KUBE_HOST = ''https://kubernetes.default.svc''"

definition from_cluster :: "'w machine \<Rightarrow> string \<Rightarrow> string \<Rightarrow> ('w, kube_client) prog" where
  "from_cluster M namespace sa_dir =
     (let token_path = path_join sa_dir ''token''; namespace_file = path_join sa_dir ''namespace'' in
      bindE (asks (m_exists M token_path)) (\<lambda>has_token.
        if \<not> has_token then raise (KubernetesError (''no service-account token at '' @ token_path))
        else bindE (asks (m_exists M namespace_file)) (\<lambda>has_namespace.
          bindE (if has_namespace
                 then bindE (\<lambda>w. (m_read_text M namespace_file w, w)) (\<lambda>txt. ret (strip txt))
                 else ret namespace) (\<lambda>ns.
            bindE (\<lambda>w. (m_read_text M token_path w, w)) (\<lambda>tok.
              ret \<lparr>kc_namespace = ns, kc_token = strip tok, kc_ca_path = path_join sa_dir ''ca.crt'',
                   kc_host = KUBE_HOST\<rparr>)))))"

text \<open>\<open>_request\<close>; an answer that is no JSON raises the decoder's error.\<close>

definition kube_request :: "'w http \<Rightarrow> kube_client \<Rightarrow> string \<Rightarrow> string \<Rightarrow> json option \<Rightarrow> ('w, json) prog" where
  "kube_request urlopen K method path payload =
     (let headers = [(''Authorization'', ''Bearer '' @ kc_token K), (''Accept'', ''application/json'')] @
            (if payload = None then [] else [(''Content-Type'', ''application/json'')])
      in bindE (attempt (urlopen \<lparr>hq_url = kc_host K @ path, hq_data = map_option json_dumps payload,
                                   hq_headers = headers, hq_method = method\<rparr>)) (\<lambda>r.
           case r of
             Inr (_, body) \<Rightarrow> liftR (json_loads (body_or_empty body))
           | Inl (HTTPError c _ detail) \<Rightarrow>
               raise (KubernetesError (method @ '' '' @ path @ '' failed: '' @ show_int c @ '' '' @ detail))
           | Inl (URLError reason) \<Rightarrow> raise (KubernetesError (method @ '' '' @ path @ '' failed: '' @ reason))
           | Inl e \<Rightarrow> raise e))"

definition get_configmap :: "'w http \<Rightarrow> kube_client \<Rightarrow> string \<Rightarrow> ('w, (string, string) dict) prog" where
  "get_configmap urlopen K name =
     bindE (kube_request urlopen K ''GET'' (''/api/v1/namespaces/'' @ kc_namespace K @ ''/configmaps/'' @ name) None) (\<lambda>body.
       bindE (liftR (as_dict ''get'' body)) (\<lambda>d.
         case get_or d ''data'' (JObj []) of
           JObj kvs \<Rightarrow> ret (map (\<lambda>(k, v). (k, py_str v)) kvs)
         | _ \<Rightarrow> raise (KubernetesError (''configmap '' @ py_repr name @ '' has no data''))))"

text \<open>\<open>job.get("metadata", {}).get("name", "")\<close> in a path.\<close>

definition job_name_of :: "json \<Rightarrow> exn + string" where
  "job_name_of job =
     bindR (as_dict ''get'' job) (\<lambda>d.
       bindR (as_dict ''get'' (get_or d ''metadata'' (JObj []))) (\<lambda>meta. Inr (py_str (get_or meta ''name'' (JStr [])))))"

definition create_job :: "'w http \<Rightarrow> kube_client \<Rightarrow> json \<Rightarrow> ('w, json) prog" where
  "create_job urlopen K job =
     (let path = ''/apis/batch/v1/namespaces/'' @ kc_namespace K @ ''/jobs'' in
      bindE (attempt (kube_request urlopen K ''POST'' path (Some job))) (\<lambda>r.
        case r of
          Inr v \<Rightarrow> ret v
        | Inl (KubernetesError msg) \<Rightarrow>
            if contains ('' '' @ msg @ '' '') '' 409 '' \<or> contains msg ''AlreadyExists''
            then bindE (liftR (job_name_of job)) (\<lambda>nm. kube_request urlopen K ''GET'' (path @ ''/'' @ nm) None)
            else raise (KubernetesError msg)
        | Inl e \<Rightarrow> raise e))"

definition kubernetes_launcher :: "'w http \<Rightarrow> kube_client \<Rightarrow> json \<Rightarrow> ('w, unit) prog" where
  "kubernetes_launcher urlopen K job = seqE (create_job urlopen K job) (ret ())"

section \<open>Names\<close>

lemma slug_sub_chars: "c \<in> set (slug_sub gap s) \<Longrightarrow> slug_char c \<or> c = CHR ''-''"
  by (induction gap s rule: slug_sub.induct) (auto split: if_splits)

lemma set_strip_chars: "set (strip_chars cs s) \<subseteq> set s"
  unfolding strip_chars_def rstrip_chars_def lstrip_chars_def
  by (metis set_dropWhileD set_rev subsetI)

definition hex_text :: "string \<Rightarrow> bool" where
  "hex_text s \<longleftrightarrow> (\<forall>c \<in> set s. slug_char c)"

lemma job_name_parts:
  assumes "length (sha256 i) = 64"
  obtains slug where "job_name sha256 i = job_prefix @ slug @ ''-'' @ take 10 (sha256 i)" and "length slug \<le> 36"
    and "\<forall>c \<in> set slug. slug_char c \<or> c = CHR ''-''"
proof -
  let ?cut = "take 36 (strip_chars ''-'' (slug_sub False (lower i)))"
  define slug where "slug = (if ?cut = [] then ''task'' else ?cut)"
  have "length (take 10 (sha256 i)) = 10" using assms by simp
  then have 1: "job_name sha256 i = job_prefix @ slug @ ''-'' @ take 10 (sha256 i)"
    unfolding job_name_def Let_def slug_def by (simp add: job_prefix_def)
  have 2: "length slug \<le> 36" by (simp add: slug_def)
  have cut: "\<forall>c \<in> set ?cut. slug_char c \<or> c = CHR ''-''"
  proof
    fix c assume "c \<in> set ?cut"
    then have "c \<in> set (slug_sub False (lower i))"
      by (rule subsetD [OF set_strip_chars, OF in_set_takeD])
    then show "slug_char c \<or> c = CHR ''-''" by (rule slug_sub_chars)
  qed
  have 3: "\<forall>c \<in> set slug. slug_char c \<or> c = CHR ''-''"
  proof (cases "?cut = []")
    case True then show ?thesis by (simp add: slug_def slug_char_def code_def)
  next
    case False then show ?thesis using cut by (simp only: slug_def if_False)
  qed
  from that [OF 1 2 3] show ?thesis .
qed

lemma same_suffix: "xs @ us = ys @ vs \<Longrightarrow> length us = length vs \<Longrightarrow> us = vs"
  by simp

lemma digest_parts:
  assumes "length d = 64" and "hex_text d"
  shows "length (take 10 d) = 10" and "\<forall>c \<in> set (take 10 d). slug_char c" and "take 10 d \<noteq> []"
  using assms by (auto simp: hex_text_def dest: in_set_takeD)

text \<open>
  The name of a task's Job is a DNS-1123 label whatever the id of the task is: at most 63 characters, only
  lower-case letters, digits and dashes, a letter first and no dash last; and two tasks get the same name only if
  their digests agree on ten characters. The digest is the parameter, sixty-four lower-case hexadecimal digits.
\<close>

theorem job_name_is_label:
  assumes "\<And>x. length (sha256 x) = 64" and "\<And>x. hex_text (sha256 x)"
  shows "length (job_name sha256 i) \<le> 63 \<and>
    (\<forall>c \<in> set (job_name sha256 i). slug_char c \<or> c = CHR ''-'') \<and>
    hd (job_name sha256 i) = CHR ''d'' \<and> slug_char (last (job_name sha256 i)) \<and>
    (job_name sha256 i = job_name sha256 j \<longrightarrow> take 10 (sha256 i) = take 10 (sha256 j))"
proof -
  obtain slug where i: "job_name sha256 i = job_prefix @ slug @ ''-'' @ take 10 (sha256 i)" "length slug \<le> 36"
      "\<forall>c \<in> set slug. slug_char c \<or> c = CHR ''-''"
    using job_name_parts [of sha256 i, OF assms(1)] .
  obtain slug' where j: "job_name sha256 j = job_prefix @ slug' @ ''-'' @ take 10 (sha256 j)" "length slug' \<le> 36"
      "\<forall>c \<in> set slug'. slug_char c \<or> c = CHR ''-''"
    using job_name_parts [of sha256 j, OF assms(1)] .
  note di = digest_parts [OF assms(1,2), of i] and dj = digest_parts [OF assms(1,2), of j]
  have prefix: "length job_prefix = 16" "\<forall>c \<in> set job_prefix. slug_char c \<or> c = CHR ''-''" "hd job_prefix = CHR ''d''"
      "job_prefix \<noteq> []"
    by (simp_all add: job_prefix_def slug_char_def code_def)
  have "length (job_name sha256 i) \<le> 63" unfolding i(1) using i(2) di(1) prefix(1) by simp
  moreover have "\<forall>c \<in> set (job_name sha256 i). slug_char c \<or> c = CHR ''-''"
  proof -
    have "\<forall>c \<in> set (take 10 (sha256 i)). slug_char c \<or> c = CHR ''-''" using di(2) by blast
    then show ?thesis unfolding i(1) using i(3) prefix(2) by (simp only: set_append ball_Un) simp
  qed
  moreover have "hd (job_name sha256 i) = CHR ''d''" unfolding i(1) using prefix(3,4) by simp
  moreover have "slug_char (last (job_name sha256 i))"
  proof -
    have "last (job_name sha256 i) = last (take 10 (sha256 i))" unfolding i(1) using di(3) by (simp only: last_appendR append_is_Nil_conv not_Cons_self2 simp_thms list.distinct)
    then show ?thesis using di(2) last_in_set [OF di(3)] by metis
  qed
  moreover have "take 10 (sha256 i) = take 10 (sha256 j)" if eq: "job_name sha256 i = job_name sha256 j"
  proof (rule same_suffix)
    show "(job_prefix @ slug @ ''-'') @ take 10 (sha256 i) = (job_prefix @ slug' @ ''-'') @ take 10 (sha256 j)"
      using eq unfolding i(1) j(1) by (simp only: append_assoc)
  qed (simp only: di(1) dj(1))
  ultimately show ?thesis by blast
qed

theorem job_name_is_label_witness:
  "let nm = job_name (\<lambda>_. replicate 64 CHR ''a'') ''Fix/The Bug!'' in
     nm = ''dear-agent-task-fix-the-bug-aaaaaaaaaa'' \<and> length nm \<le> 63"
  using job_name_is_label [of "\<lambda>_. replicate 64 CHR ''a''" "''Fix/The Bug!''"]
  by (simp add: hex_text_def slug_char_def code_def Let_def) code_simp

section \<open>What a rendered Job has\<close>

text \<open>The structure of a value: the same tree with every text emptied.\<close>

fun outline :: "json \<Rightarrow> json" where
  "outline (JStr s) = JStr []"
| "outline (JArr vs) = JArr (map outline vs)"
| "outline (JObj kvs) = JObj (map (\<lambda>(k, v). (k, outline v)) kvs)"
| "outline v = v"

definition same_outline :: "exn + json \<Rightarrow> exn + json \<Rightarrow> bool" where
  "same_outline x y \<longleftrightarrow> map_sum id outline x = map_sum id outline y"

abbreviation dict_outline :: "(string, json) dict \<Rightarrow> (string, json) dict" where
  "dict_outline d \<equiv> map (\<lambda>(k, v). (k, outline v)) d"

lemma outline_set: "dict_outline (dict_set k v d) = dict_set k (outline v) (dict_outline d)"
  by (induction d) auto

lemma outline_get: "dict_get (dict_outline d) k = map_option outline (dict_get d k)"
  by (simp add: map_of_map)

lemma same_outline_simps [simp]:
  "same_outline x x" "same_outline (Inr v) (Inr w) \<longleftrightarrow> outline v = outline w" "same_outline (Inl e) (Inl f) \<longleftrightarrow> e = f"
  by (simp_all add: same_outline_def)

lemma same_bind:
  assumes "\<And>v. x = Inr v \<Longrightarrow> same_outline (f v) (g v)"
  shows "same_outline (bindR x f) (bindR x g)"
  using assms by (cases x) simp_all

lemma same_bind2:
  assumes "same_outline x y" and "\<And>v w. x = Inr v \<Longrightarrow> y = Inr w \<Longrightarrow> outline v = outline w \<Longrightarrow> same_outline (f v) (g w)"
  shows "same_outline (bindR x f) (bindR y g)"
  using assms by (cases x; cases y) (simp_all add: same_outline_def)

lemma stamp_env_outline:
  "map_sum id (map outline) (stamp_env i es) = map_sum id (map outline) (stamp_env j es)"
proof (induction es)
  case (Cons e es)
  show ?case
    using Cons by (cases "stamp_env i es"; cases "stamp_env j es") (auto simp: bindR_def outline_set split: sum.split)
qed simp

lemma stamp_container_outline: "same_outline (stamp_container i env c) (stamp_container j env c)"
  unfolding stamp_container_def Let_def
  apply (intro same_bind)
  subgoal for d es
    using stamp_env_outline [of i es j] by (cases "stamp_env i es"; cases "stamp_env j es") (auto simp: outline_set)
  done

lemma same_outline_cases:
  assumes "same_outline x y"
  obtains (raised) e where "x = Inl e" "y = Inl e"
  | (returned) v w where "x = Inr v" "y = Inr w" "outline v = outline w"
  using assms by (cases x; cases y) (auto simp: same_outline_def)

lemma mapR_outline:
  assumes "\<And>c. same_outline (f c) (g c)"
  shows "map_sum id (map outline) (mapR f cs) = map_sum id (map outline) (mapR g cs)"
proof (induction cs)
  case (Cons c cs)
  from assms [of c] show ?case
  proof (cases rule: same_outline_cases)
    case (returned v w)
    then show ?thesis using Cons.IH by (cases "mapR f cs"; cases "mapR g cs") simp_all
  qed simp
qed simp

lemma stamp_containers_outline: "same_outline (stamp_containers i env spec) (stamp_containers j env spec)"
  unfolding stamp_containers_def Let_def
  apply (intro same_bind)
  subgoal for d
    apply (cases "j_true (get_or d ''containers'' (JArr []))"; simp)
    apply (intro same_bind)
    subgoal for cs
      using mapR_outline [of "stamp_container i env" "stamp_container j env" cs, OF stamp_container_outline]
      by (cases "mapR (stamp_container i env) cs"; cases "mapR (stamp_container j env) cs") (auto simp: outline_set)
    done
  done

lemma as_dict_outline:
  assumes "outline v = outline w"
  obtains (raised) e where "as_dict n v = Inl e" "as_dict n w = Inl e"
  | (dict) d d' where "as_dict n v = Inr d" "as_dict n w = Inr d'" "dict_outline d = dict_outline d'"
  using assms by (cases v; cases w) (auto simp: as_dict_def)

lemma get_or_outline: "dict_outline d = dict_outline d' \<Longrightarrow> outline (get_or d k x) = outline (get_or d' k x)"
proof -
  assume "dict_outline d = dict_outline d'"
  then have "map_option outline (dict_get d k) = map_option outline (dict_get d' k)" by (metis outline_get)
  then show ?thesis by (cases "dict_get d k"; cases "dict_get d' k") (simp_all add: get_or_def)
qed

lemma set_item_outline:
  "outline v = outline w \<Longrightarrow> outline x = outline y \<Longrightarrow> same_outline (set_item k x v) (set_item k y w)"
  by (cases v; cases w) (auto simp: set_item_def outline_set)

lemma stamp_annotation_outline:
  assumes "outline v = outline w"
  shows "same_outline (stamp_annotation i v) (stamp_annotation j w)"
  using assms
proof (cases rule: as_dict_outline [of _ _ "''setdefault''"])
  case raised then show ?thesis by (simp add: stamp_annotation_def)
next
  case (dict d d')
  from get_or_outline [OF dict(3), of "''metadata''" "JObj []"] show ?thesis
  proof (cases rule: as_dict_outline [of _ _ "''setdefault''"])
    case raised with dict show ?thesis by (simp add: stamp_annotation_def)
  next
    case (dict m m')
    have "same_outline (set_item ''dearagent.dev/task-id'' (JStr i) (get_or m ''annotations'' (JObj [])))
        (set_item ''dearagent.dev/task-id'' (JStr j) (get_or m' ''annotations'' (JObj [])))"
      by (intro set_item_outline get_or_outline dict(3)) simp
    then show ?thesis
      using dict \<open>as_dict ''setdefault'' v = Inr d\<close> \<open>as_dict ''setdefault'' w = Inr d'\<close> \<open>dict_outline d = dict_outline d'\<close>
      by (cases rule: same_outline_cases) (simp_all add: stamp_annotation_def outline_set)
  qed
qed

lemma stamp_metadata_outline:
  "map_sum id dict_outline (stamp_metadata nm d) = map_sum id dict_outline (stamp_metadata nm' d)"
  by (cases "as_dict ''pop'' (get_or d ''metadata'' (JObj []))") (simp_all add: stamp_metadata_def outline_set)

lemma item_outline: "dict_outline d = dict_outline d' \<Longrightarrow> same_outline (item (JObj d) k) (item (JObj d') k)"
  using get_or_outline [of d d' k] outline_get [of d k] outline_get [of d' k]
  by (cases "dict_get d k"; cases "dict_get d' k") (simp_all add: item_def)

text \<open>\<open>stamp_metadata\<close> leaves every other key of the Job as it is.\<close>

lemma stamp_metadata_item: "stamp_metadata nm d = Inr d1 \<Longrightarrow> k \<noteq> ''metadata'' \<Longrightarrow> dict_get d1 k = dict_get d k"
  by (auto simp: stamp_metadata_def bindR_Inr)

text \<open>
  A task id cannot inject anything into its Job: for any template the Jobs of two tasks are the same tree with
  the same keys, differing in texts only, and rendering fails for both tasks or for neither.
\<close>

theorem job_structure_ignores_task:
  "same_outline (render_job safe_load sha256 template t env) (render_job safe_load sha256 template u env)"
proof -
  let ?i = "t_id t" and ?j = "t_id u"
  have "same_outline
      (bindR (stamp_metadata (job_name sha256 ?i) d) (\<lambda>d1. bindR (item (JObj d1) ''spec'') (\<lambda>s. f ?i d1 s)))
      (bindR (stamp_metadata (job_name sha256 ?j) d) (\<lambda>d1. bindR (item (JObj d1) ''spec'') (\<lambda>s. f ?j d1 s)))"
    if f: "\<And>d1 d2 s. dict_outline d1 = dict_outline d2 \<Longrightarrow> same_outline (f ?i d1 s) (f ?j d2 s)" for d f
  proof (cases "stamp_metadata (job_name sha256 ?i) d")
    case (Inl e)
    then show ?thesis using stamp_metadata_outline [of "job_name sha256 ?i" d "job_name sha256 ?j"]
      by (cases "stamp_metadata (job_name sha256 ?j) d") simp_all
  next
    case (Inr d1)
    then obtain d2 where d2: "stamp_metadata (job_name sha256 ?j) d = Inr d2" "dict_outline d1 = dict_outline d2"
      using stamp_metadata_outline [of "job_name sha256 ?i" d "job_name sha256 ?j"]
      by (cases "stamp_metadata (job_name sha256 ?j) d") simp_all
    have "item (JObj d1) ''spec'' = item (JObj d2) ''spec''"
      using stamp_metadata_item [OF Inr, of "''spec''"] stamp_metadata_item [OF d2(1), of "''spec''"]
      by (simp add: item_def)
    with Inr d2 f show ?thesis by (simp add: same_bind)
  qed
  note top = this
  have tail: "same_outline
      (bindR (set_item ''spec'' x tmpl) (\<lambda>a. bindR (stamp_annotation ?i a) (\<lambda>b. bindR (set_item ''template'' b s) (\<lambda>c. Inr (JObj (dict_set ''spec'' c d1))))))
      (bindR (set_item ''spec'' y tmpl) (\<lambda>a. bindR (stamp_annotation ?j a) (\<lambda>b. bindR (set_item ''template'' b s) (\<lambda>c. Inr (JObj (dict_set ''spec'' c d2))))))"
    if "outline x = outline y" "dict_outline d1 = dict_outline d2" for x y tmpl s d1 d2
    by (intro same_bind2 set_item_outline stamp_annotation_outline) (simp_all add: that outline_set)
  show ?thesis
    unfolding render_job_def
    by (intro same_bind top same_bind2 [OF stamp_containers_outline] tail) simp_all
qed

text \<open>The value at a path of keys, and the value of an environment entry (the first of the name counts).\<close>

fun at_path :: "json \<Rightarrow> string list \<Rightarrow> json option" where
  "at_path v [] = Some v"
| "at_path (JObj d) (k # ks) = (case dict_get d k of None \<Rightarrow> None | Some x \<Rightarrow> at_path x ks)"
| "at_path v (k # ks) = None"

fun env_entry :: "string \<Rightarrow> json list \<Rightarrow> json option" where
  "env_entry n [] = None"
| "env_entry n (e # es) = (if at_path e [''name''] = Some (JStr n) then at_path e [''value''] else env_entry n es)"

lemma stamp_env_entry: "stamp_env i es = Inr es' \<Longrightarrow> env_entry ''DEAR_AGENT_TASK_ID'' es' = Some (JStr i)"
proof (induction es arbitrary: es')
  case (Cons e es)
  then obtain d where d: "e = JObj d" by (cases e) (auto simp: as_dict_def)
  show ?case
  proof (cases "dict_get d ''name'' = Some (JStr ''DEAR_AGENT_TASK_ID'')")
    case True then show ?thesis using Cons.prems d by (auto simp: as_dict_def)
  next
    case False
    then obtain es1 where "stamp_env i es = Inr es1" "es' = e # es1"
      using Cons.prems d by (auto simp: as_dict_def bindR_Inr)
    then show ?thesis using Cons.IH False d by (auto split: option.splits)
  qed
qed auto

lemma stamp_container_entry:
  "stamp_container i env c = Inr c' \<Longrightarrow> \<exists>es. at_path c' [''env''] = Some (JArr es) \<and> env_entry ''DEAR_AGENT_TASK_ID'' es = Some (JStr i)"
  by (auto simp: stamp_container_def Let_def bindR_Inr dest: stamp_env_entry)

lemma stamp_containers_entry:
  assumes "stamp_containers i env spec = Inr spec'"
  shows "\<exists>cs. at_path spec' [''containers''] = Some (JArr cs) \<and> cs \<noteq> [] \<and>
    (\<forall>c \<in> set cs. \<exists>es. at_path c [''env''] = Some (JArr es) \<and> env_entry ''DEAR_AGENT_TASK_ID'' es = Some (JStr i))"
proof -
  obtain d cs0 cs where d: "j_true (get_or d ''containers'' (JArr []))" "as_list (get_or d ''containers'' (JArr [])) = Inr cs0"
      "mapR (stamp_container i env) cs0 = Inr cs" "spec' = JObj (dict_set ''containers'' (JArr cs) d)"
    using assms by (auto simp: stamp_containers_def Let_def bindR_Inr split: if_splits)
  have "get_or d ''containers'' (JArr []) = JArr cs0" using d(2) by (auto simp: as_list_def split: json.splits)
  then have "cs0 \<noteq> []" using d(1) by auto
  moreover have all: "list_all2 (\<lambda>c c'. stamp_container i env c = Inr c') cs0 cs" using d(3) by (simp add: mapR_Inr)
  ultimately have "cs \<noteq> []" by auto
  moreover have "\<exists>es. at_path c [''env''] = Some (JArr es) \<and> env_entry ''DEAR_AGENT_TASK_ID'' es = Some (JStr i)"
    if "c \<in> set cs" for c
    using all that stamp_container_entry by (auto simp: list_all2_conv_all_nth in_set_conv_nth)
  ultimately show ?thesis using d(4) by auto
qed

lemma set_item_path: "set_item k x v = Inr v' \<Longrightarrow> at_path v' (k # ks) = at_path x ks \<and>
    (\<forall>l. l \<noteq> k \<longrightarrow> at_path v' (l # ks) = at_path v (l # ks))"
  by (cases v) (auto simp: set_item_def split: if_splits)

text \<open>
  C28. A Job that is rendered is the task's: it has the task's fixed name and no generated one, its pod is annotated
  with the task id, and every container of it (there is at least one) is given the task id in its environment.
\<close>

theorem rendered_job_is_the_tasks:
  assumes "render_job safe_load sha256 template t env = Inr job"
  shows "at_path job [''metadata'', ''name''] = Some (JStr (job_name sha256 (t_id t))) \<and>
    at_path job [''metadata'', ''generateName''] = None \<and>
    at_path job [''spec'', ''template'', ''metadata'', ''annotations'', ''dearagent.dev/task-id''] = Some (JStr (t_id t)) \<and>
    (\<exists>cs. at_path job [''spec'', ''template'', ''spec'', ''containers''] = Some (JArr cs) \<and> cs \<noteq> [] \<and>
      (\<forall>c \<in> set cs. \<exists>es. at_path c [''env''] = Some (JArr es) \<and> env_entry ''DEAR_AGENT_TASK_ID'' es = Some (JStr (t_id t))))"
proof -
  obtain d d1 s tmpl pod pod1 tmpl1 tmpl2 s1 where
    steps: "stamp_metadata (job_name sha256 (t_id t)) d = Inr d1" "stamp_containers (t_id t) env pod = Inr pod1"
      "set_item ''spec'' pod1 tmpl = Inr tmpl1" "stamp_annotation (t_id t) tmpl1 = Inr tmpl2"
      "set_item ''template'' tmpl2 s = Inr s1" "job = JObj (dict_set ''spec'' s1 d1)"
    using assms unfolding render_job_def bindR_Inr by blast
  obtain meta where meta: "dict_get d1 ''metadata'' =
      Some (JObj (dict_set ''name'' (JStr (job_name sha256 (t_id t))) (filter (\<lambda>p. fst p \<noteq> ''generateName'') meta)))"
    using steps(1) by (auto simp: stamp_metadata_def bindR_Inr)
  have nogen: "dict_get (filter (\<lambda>p. fst p \<noteq> ''generateName'') meta) ''generateName'' = None"
    by (auto simp: map_of_eq_None_iff)
  obtain td tm ann where ann: "tmpl1 = JObj td" "set_item ''dearagent.dev/task-id'' (JStr (t_id t)) (get_or tm ''annotations'' (JObj [])) = Inr ann"
      "tmpl2 = JObj (dict_set ''metadata'' (JObj (dict_set ''annotations'' ann tm)) td)"
    using steps(4) by (cases tmpl1) (auto simp: stamp_annotation_def bindR_Inr as_dict_def)
  have pod: "at_path tmpl2 [''spec'', ''containers''] = at_path pod1 [''containers'']"
    using set_item_path [OF steps(3), of "[''containers'']"] ann(1,3) by (simp split: option.splits)
  have spec: "at_path job (''spec'' # ''template'' # ks) = at_path tmpl2 ks" for ks
    using set_item_path [OF steps(5), of ks] steps(6) by simp
  have noted: "at_path tmpl2 [''metadata'', ''annotations'', ''dearagent.dev/task-id''] = Some (JStr (t_id t))"
    using set_item_path [OF ann(2), of "[]"] ann(3) by simp
  have "at_path job [''metadata'', ''name''] = Some (JStr (job_name sha256 (t_id t)))" "at_path job [''metadata'', ''generateName''] = None"
    using meta nogen steps(6) by simp_all
  then show ?thesis using spec noted pod stamp_containers_entry [OF steps(2)] by simp
qed

definition ex_template :: json where
  "ex_template =
     JObj [(''metadata'', JObj [(''generateName'', JStr ''x-'')]),
           (''spec'', JObj [(''template'', JObj [(''spec'', JObj [(''containers'',
              JArr [JObj [(''image'', JStr ''__RUNNER_IMAGE__'')]])])])])]"

definition ex_sha256 :: "string \<Rightarrow> string" where
  "ex_sha256 x = replicate 64 CHR ''a''"

theorem rendered_job_is_the_tasks_witness:
  "\<exists>job. render_job (\<lambda>_. Inr ex_template) ex_sha256 [] (new_task ''t'' ''m'' 0) [] = Inr job \<and>
     at_path job [''metadata'', ''name''] = Some (JStr ''dear-agent-task-t-aaaaaaaaaa'')"
proof -
  have "isl (render_job (\<lambda>_. Inr ex_template) ex_sha256 [] (new_task ''t'' ''m'' 0) []) = False" by code_simp
  then obtain job where job: "render_job (\<lambda>_. Inr ex_template) ex_sha256 [] (new_task ''t'' ''m'' 0) [] = Inr job"
    by (cases "render_job (\<lambda>_. Inr ex_template) ex_sha256 [] (new_task ''t'' ''m'' 0) []") simp_all
  moreover have "job_name ex_sha256 (t_id (new_task ''t'' ''m'' 0)) = ''dear-agent-task-t-aaaaaaaaaa''" by code_simp
  ultimately show ?thesis using rendered_job_is_the_tasks [OF job] by simp
qed

section \<open>What a sweep does\<close>

text \<open>A launcher that keeps the Jobs it was asked to create.\<close>

definition recording_launcher :: "(json \<Rightarrow> ('l, unit) prog) \<Rightarrow> json \<Rightarrow> ('l \<times> json list, unit) prog" where
  "recording_launcher L job = (\<lambda>(l, jobs). case L job l of (r, l') \<Rightarrow> (r, (l', jobs @ [job])))"

definition job_of :: "('q, 'l) dispatcher \<Rightarrow> task \<Rightarrow> exn + json" where
  "job_of D t = render_job (dp_safe_load D) (dp_sha256 D) (dp_template D) t (dp_environ D)"

text \<open>Dispatching changes the queue only by failing queued tasks that have a failed dependency.\<close>

definition swept :: "(evidence option \<Rightarrow> evidence option) \<Rightarrow> store \<Rightarrow> store \<Rightarrow> bool" where
  "swept keep m m' \<longleftrightarrow>
     (\<forall>j. case m j of
        None \<Rightarrow> m' j = None
      | Some u \<Rightarrow> m' j = Some u \<or>
          t_state u = QUEUED \<and> (\<exists>d \<in> set (depends_of u). \<exists>x. m' d = Some x \<and> t_state x \<in> {FAILED, REJECTED}) \<and>
          m' j = Some (moved FAILED (keep (t_evidence u)) u))"

definition deps_done :: "store \<Rightarrow> task \<Rightarrow> bool" where
  "deps_done m u \<longleftrightarrow> (\<forall>d \<in> set (depends_of u). \<exists>x. m d = Some x \<and> t_state x = DONE)"

lemma swept_refl [simp]: "swept keep m m"
  by (auto simp: swept_def split: option.split)

lemma swept_settled: "swept keep m m' \<Longrightarrow> m j = Some u \<Longrightarrow> t_state u \<noteq> QUEUED \<Longrightarrow> m' j = Some u"
  unfolding swept_def by (metis (mono_tags, lifting) option.simps(5))

lemma swept_done: "swept keep m m' \<Longrightarrow> deps_done m' u \<longleftrightarrow> deps_done m u"
proof -
  assume a: "swept keep m m'"
  have "(\<exists>x. m' d = Some x \<and> t_state x = DONE) \<longleftrightarrow> (\<exists>x. m d = Some x \<and> t_state x = DONE)" for d
    using a [unfolded swept_def, rule_format, of d] by (cases "m d") (auto simp: moved_def)
  then show ?thesis by (simp add: deps_done_def)
qed

lemma swept_trans:
  assumes "swept keep m m1" and "swept keep m1 m'" shows "swept keep m m'"
  unfolding swept_def
proof
  fix j
  have failed: "\<exists>d \<in> set (depends_of u). \<exists>x. m' d = Some x \<and> t_state x \<in> {FAILED, REJECTED}"
    if "\<exists>d \<in> set (depends_of u). \<exists>x. m1 d = Some x \<and> t_state x \<in> {FAILED, REJECTED}" for u
    using that swept_settled [OF assms(2)] by (metis insert_iff singletonD task_state.distinct)
  show "case m j of None \<Rightarrow> m' j = None
      | Some u \<Rightarrow> m' j = Some u \<or>
          t_state u = QUEUED \<and> (\<exists>d \<in> set (depends_of u). \<exists>x. m' d = Some x \<and> t_state x \<in> {FAILED, REJECTED}) \<and>
          m' j = Some (moved FAILED (keep (t_evidence u)) u)"
  proof (cases "m j")
    case None
    then have "m1 j = None" using assms(1) [unfolded swept_def, rule_format, of j] by simp
    then show ?thesis using assms(2) [unfolded swept_def, rule_format, of j] None by simp
  next
    case (Some u)
    consider "m1 j = Some u" | "t_state u = QUEUED" "\<exists>d \<in> set (depends_of u). \<exists>x. m1 d = Some x \<and> t_state x \<in> {FAILED, REJECTED}"
        "m1 j = Some (moved FAILED (keep (t_evidence u)) u)"
      using assms(1) [unfolded swept_def, rule_format, of j] Some by auto
    then show ?thesis
    proof cases
      case 1 then show ?thesis using assms(2) [unfolded swept_def, rule_format, of j] Some by simp
    next
      case 2
      then have "m' j = Some (moved FAILED (keep (t_evidence u)) u)" using swept_settled [OF assms(2) 2(3)] by (simp add: moved_def)
      with 2 Some failed show ?thesis by simp
    qed
  qed
qed

context task_queue
begin

text \<open>One task of the sweep, which is still stored as it was listed.\<close>

lemma sweep_task:
  assumes D: "dp_queue D = Q" "dp_launcher D = recording_launcher L" and run: "dispatch_task D t acc s = (r, s')"
    and inv: "invar (dq_queue s)" and t: "store (dq_queue s) (t_id t) = Some t" "t_state t = QUEUED"
  shows "invar (dq_queue s') \<and> swept (merge_ev None) (store (dq_queue s)) (store (dq_queue s')) \<and>
    (\<forall>j. j \<noteq> t_id t \<longrightarrow> store (dq_queue s') j = store (dq_queue s) j) \<and>
    (if deps_done (store (dq_queue s)) t
     then case job_of D t of
            Inl e \<Rightarrow> r = Inl e \<and> s' = s
          | Inr job \<Rightarrow> snd (dq_cluster s') = snd (dq_cluster s) @ [job] \<and> (r = Inr (acc @ [t_id t]) \<or> isl r)
     else r = Inr acc \<and> snd (dq_cluster s') = snd (dq_cluster s))"
proof -
  let ?q = "dq_queue s"
  let ?st = "dependency_status_of Q ?q t"
  have dep: "ds_state ?st = (if \<exists>d \<in> set (depends_of t). dep_failed ?q d then ''failed''
     else if \<forall>d \<in> set (depends_of t). dep_done ?q d then ''ready'' else ''blocked'')"
    by (rule dependency_cases [OF inv])
  have dd: "deps_done (store ?q) t \<longleftrightarrow> (\<forall>d \<in> set (depends_of t). dep_done ?q d)"
    by (simp add: deps_done_def dep_done_def)
  consider (failed) "\<exists>d \<in> set (depends_of t). dep_failed ?q d" "\<not> deps_done (store ?q) t" "ds_state ?st = ''failed''"
    | (ready) "deps_done (store ?q) t" "ds_state ?st = ''ready''" | (blocked) "\<not> deps_done (store ?q) t" "ds_state ?st = ''blocked''"
  proof (cases "\<exists>d \<in> set (depends_of t). dep_failed ?q d")
    case True
    then have "\<not> deps_done (store ?q) t" by (fastforce simp: dd dep_failed_def dep_done_def)
    with True that(1) dep show thesis by simp
  next
    case False
    with that dep dd show thesis by (auto split: if_splits)
  qed
  then show ?thesis
  proof cases
    case blocked
    then have "r = Inr acc" "s' = s" using run t by (simp_all add: dispatch_task_def already_running_def D)
    with blocked inv show ?thesis by simp
  next
    case failed
    let ?m = "moved FAILED (merge_ev None (t_evidence t)) t"
    obtain q' where q': "q_transition Q t FAILED None (dp_clock D (dq_tick s)) ?q = (Inr ?m, q')"
        "store q' = (store ?q)(t_id t \<mapsto> ?m)" "invar q'"
      using transition_ok [OF inv t(1) refl, of FAILED None "dp_clock D (dq_tick s)"]
        transition_invar [OF inv, of t FAILED None "dp_clock D (dq_tick s)"] by (metis prod.collapse)
    then have res: "r = Inr acc" "s' = s\<lparr>dq_queue := q', dq_tick := Suc (dq_tick s)\<rparr>"
      using run t failed by (simp_all add: dispatch_task_def already_running_def D dp_fail_def seqE_def bindE_def)
    obtain d where d: "d \<in> set (depends_of t)" "dep_failed ?q d" using failed(1) by blast
    then have "d \<noteq> t_id t" using t by (auto simp: dep_failed_def)
    then have "\<exists>d \<in> set (depends_of t). \<exists>x. store q' d = Some x \<and> t_state x \<in> {FAILED, REJECTED}"
      using d q'(2) by (auto simp: dep_failed_def)
    then have "swept (merge_ev None) (store ?q) (store q')"
      using t q'(2) by (auto simp: swept_def split: option.split)
    with res q' failed show ?thesis by simp
  next
    case ready
    show ?thesis
    proof (cases "job_of D t")
      case (Inl e)
      then have "r = Inl e" "s' = s"
        using run t ready by (simp_all add: dispatch_task_def already_running_def D job_of_def bindE_def)
      with ready inv Inl show ?thesis by simp
    next
      case (Inr job)
      obtain l jobs where l: "dq_cluster s = (l, jobs)" by fastforce
      obtain x l' where L: "L job l = (x, l')" by fastforce
      have s': "s' = s\<lparr>dq_cluster := (l', jobs @ [job])\<rparr>" "r = (case x of Inl e \<Rightarrow> Inl e | Inr _ \<Rightarrow> Inr (acc @ [t_id t]))"
        using run t ready Inr
        by (auto simp: dispatch_task_def already_running_def D job_of_def bindE_def seqE_def dp_launch_def on_part_def
            recording_launcher_def l L split: sum.splits)
      then show ?thesis using ready inv Inr l by (cases x) simp_all
    qed
  qed
qed

lemma sweep_tasks:
  assumes D: "dp_queue D = Q" "dp_launcher D = recording_launcher L" and run: "for_each (dispatch_task D) ts acc s = (r, s')"
    and inv: "invar (dq_queue s)" and ts: "\<forall>t \<in> set ts. store (dq_queue s) (t_id t) = Some t \<and> t_state t = QUEUED"
    and dist: "distinct (map t_id ts)"
  shows "invar (dq_queue s') \<and> swept (merge_ev None) (store (dq_queue s)) (store (dq_queue s')) \<and>
    (\<exists>us jobs. subseq us (filter (deps_done (store (dq_queue s))) ts) \<and> mapR (job_of D) us = Inr jobs \<and>
       snd (dq_cluster s') = snd (dq_cluster s) @ jobs \<and>
       (\<forall>ids. r = Inr ids \<longrightarrow> us = filter (deps_done (store (dq_queue s))) ts \<and> ids = acc @ map t_id us))"
  using run inv ts dist
proof (induction ts arbitrary: acc s)
  case Nil
  then show ?case by (intro conjI exI [of _ "[]"]) auto
next
  case (Cons t ts)
  obtain r1 s1 where s1: "dispatch_task D t acc s = (r1, s1)" by fastforce
  let ?q = "dq_queue s" and ?q1 = "dq_queue s1"
  have step: "invar ?q1" "swept (merge_ev None) (store ?q) (store ?q1)" "\<forall>j. j \<noteq> t_id t \<longrightarrow> store ?q1 j = store ?q j"
      "if deps_done (store ?q) t
       then case job_of D t of
              Inl e \<Rightarrow> r1 = Inl e \<and> s1 = s
            | Inr job \<Rightarrow> snd (dq_cluster s1) = snd (dq_cluster s) @ [job] \<and> (r1 = Inr (acc @ [t_id t]) \<or> isl r1)
       else r1 = Inr acc \<and> snd (dq_cluster s1) = snd (dq_cluster s)"
    using sweep_task [OF D s1 Cons.prems(2)] Cons.prems(3) by simp_all
  show ?case
  proof (cases r1)
    case (Inl e)
    then have "r = Inl e" "s' = s1" using Cons.prems(1) s1 by (simp_all add: bindE_def)
    moreover have "deps_done (store ?q) t" using step(4) Inl by (simp split: if_splits)
    moreover obtain us jobs where "us = [] \<and> jobs = [] \<or> us = [t] \<and> job_of D t = Inr (hd jobs) \<and> length jobs = 1"
        "snd (dq_cluster s1) = snd (dq_cluster s) @ jobs"
    proof (cases "job_of D t")
      case (Inl e') then show thesis using that [of "[]" "[]"] step(4) \<open>deps_done (store ?q) t\<close> by simp
    next
      case (Inr job) then show thesis using that [of "[t]" "[job]"] step(4) \<open>deps_done (store ?q) t\<close> by simp
    qed
    ultimately show ?thesis using step(1,2)
      by (intro conjI exI [of _ us] exI [of _ jobs]) (auto simp: length_Suc_conv)
  next
    case (Inr acc1)
    have "for_each (dispatch_task D) ts acc1 s1 = (r, s')" using Cons.prems(1) s1 Inr by (simp add: bindE_def)
    moreover have "\<forall>u \<in> set ts. store ?q1 (t_id u) = Some u \<and> t_state u = QUEUED"
    proof
      fix u assume u: "u \<in> set ts"
      then have "t_id u \<noteq> t_id t" using Cons.prems(4) by (metis distinct.simps(2) image_eqI image_set list.simps(9))
      then show "store ?q1 (t_id u) = Some u \<and> t_state u = QUEUED" using step(3) Cons.prems(3) u by simp
    qed
    ultimately obtain us jobs where rest: "invar (dq_queue s')" "swept (merge_ev None) (store ?q1) (store (dq_queue s'))"
        "subseq us (filter (deps_done (store ?q1)) ts)" "mapR (job_of D) us = Inr jobs"
        "snd (dq_cluster s') = snd (dq_cluster s1) @ jobs"
        "\<forall>ids. r = Inr ids \<longrightarrow> us = filter (deps_done (store ?q1)) ts \<and> ids = acc1 @ map t_id us"
      using Cons.IH [of acc1 s1] step(1) Cons.prems(4) by auto
    have same: "filter (deps_done (store ?q1)) ts = filter (deps_done (store ?q)) ts"
      using swept_done [OF step(2)] by (intro filter_cong) simp_all
    note sw = swept_trans [OF step(2) rest(2)]
    show ?thesis
    proof (cases "deps_done (store ?q) t")
      case True
      then obtain job where job: "job_of D t = Inr job" "snd (dq_cluster s1) = snd (dq_cluster s) @ [job]" "acc1 = acc @ [t_id t]"
        using step(4) Inr by (cases "job_of D t") auto
      show ?thesis
        using True job rest(3-6) sw rest(1) same by (intro conjI exI [of _ "t # us"] exI [of _ "job # jobs"]) auto
    next
      case False
      then show ?thesis
        using step(4) Inr rest(3-6) sw rest(1) same by (intro conjI exI [of _ us] exI [of _ jobs]) auto
    qed
  qed
qed

lemma dispatch_sweep:
  assumes D: "dp_queue D = Q" "dp_launcher D = recording_launcher L" and limit: "0 \<le> dp_limit D"
    and run: "dispatch_once D s = (r, s')" and inv: "invar (dq_queue s)"
  shows "invar (dq_queue s') \<and> swept (merge_ev None) (store (dq_queue s)) (store (dq_queue s')) \<and>
    (\<exists>us jobs. mapR (job_of D) us = Inr jobs \<and> snd (dq_cluster s') = snd (dq_cluster s) @ jobs \<and>
       distinct (map t_id us) \<and> sorted (map (age idkey) us) \<and> int (length us) \<le> dp_limit D \<and>
       (\<forall>u \<in> set us. store (dq_queue s) (t_id u) = Some u \<and> t_state u = QUEUED \<and> deps_done (store (dq_queue s)) u) \<and>
       (\<forall>ids. r = Inr ids \<longrightarrow> ids = map t_id us \<and>
          (\<forall>i u. store (dq_queue s) i = Some u \<longrightarrow> t_state u = QUEUED \<longrightarrow> deps_done (store (dq_queue s)) u \<longrightarrow> u \<notin> set us \<longrightarrow>
             dp_limit D \<le> int (card {j. \<exists>v. store (dq_queue s) j = Some v \<and> t_state v = QUEUED \<and> age idkey v \<le> age idkey u}))))"
proof -
  let ?q = "dq_queue s"
  let ?ts = "q_list Q QUEUED (dp_limit D) ?q"
  let ?m = "store ?q"
  have sound: "\<forall>t \<in> set ?ts. ?m (t_id t) = Some t \<and> t_state t = QUEUED" using list_sound [OF inv limit] by blast
  have ids: "inj_on t_id (set ?ts)" using sound by (metis inj_onI option.inject)
  then have dist: "distinct (map t_id ?ts)" using list_distinct [OF inv limit] by (simp add: distinct_map)
  have "for_each (dispatch_task D) ?ts [] s = (r, s')" using run by (simp add: dispatch_once_def D)
  from sweep_tasks [OF D this inv sound dist] obtain us jobs where us:
      "invar (dq_queue s')" "swept (merge_ev None) ?m (store (dq_queue s'))"
      "subseq us (filter (deps_done ?m) ?ts)" "mapR (job_of D) us = Inr jobs" "snd (dq_cluster s') = snd (dq_cluster s) @ jobs"
      "\<forall>ids. r = Inr ids \<longrightarrow> us = filter (deps_done ?m) ?ts \<and> ids = [] @ map t_id us"
    by blast
  have sub: "subseq us ?ts" using us(3) subseq_order.trans subseq_filter_left by blast
  then obtain N where N: "us = nths ?ts N" by (auto simp: subseq_conv_nths)
  have d1: "distinct (map t_id us)" using dist unfolding N nths_map [symmetric] by (rule distinct_nthsI)
  have d2: "sorted (map (age idkey) us)"
    using list_sorted [OF inv limit, of QUEUED] unfolding N nths_map [symmetric] by (rule sorted_nths)
  have d3: "int (length us) \<le> dp_limit D"
    using list_length [OF inv limit, of QUEUED] list_emb_length [OF sub] by simp
  have d4: "\<forall>u \<in> set us. ?m (t_id u) = Some u \<and> t_state u = QUEUED \<and> deps_done ?m u"
    using sound us(3) unfolding subseq_conv_nths by (auto dest: in_set_nthsD)
  have d5: "dp_limit D \<le> int (card {j. \<exists>v. ?m j = Some v \<and> t_state v = QUEUED \<and> age idkey v \<le> age idkey u})"
    if "r = Inr ids" "?m i = Some u" "t_state u = QUEUED" "deps_done ?m u" "u \<notin> set us" for ids i u
  proof -
    have "u \<notin> set ?ts" using us(6) that(1,4,5) by simp
    then have full: "int (length ?ts) = dp_limit D" "\<forall>v \<in> set ?ts. age idkey v \<le> age idkey u"
      using list_complete [OF inv limit that(2,3)] by simp_all
    let ?S = "{j. \<exists>v. ?m j = Some v \<and> t_state v = QUEUED \<and> age idkey v \<le> age idkey u}"
    have fin: "finite ?S" using invar_store [OF inv] by (rule_tac finite_subset [of _ "dom ?m"]) (auto simp: store_ok_def)
    have incl: "t_id ` set ?ts \<subseteq> ?S" using sound full(2) by auto
    have "card (t_id ` set ?ts) = length ?ts"
      using dist by (metis distinct_card length_map set_map)
    then have "length ?ts \<le> card ?S" using card_mono [OF fin incl] by linarith
    then show ?thesis using full(1) by linarith
  qed
  show ?thesis
  proof (intro conjI us(1,2) exI [of _ us] exI [of _ jobs] us(4,5) d1 d2 d3 d4 allI impI)
    show "ids = map t_id us" if "r = Inr ids" for ids using us(6) that by simp
  qed (rule d5)
qed

end

section \<open>The durable dispatcher\<close>

text \<open>
  C14. One sweep over the durable queue asks for Jobs of queued tasks whose dependencies are all done only, of each at
  most once and the oldest first, at most \<open>limit\<close>, and each is the Job rendered from the template for
  that task. It changes no stored task except queued ones with a failed dependency, which become
  failed. When it returns, it returns the ids of those tasks, and a queued ready task is left out only
  if at least \<open>limit\<close> queued tasks are as old as it.
\<close>

theorem dispatch_asks_for_ready_tasks:
  assumes "pg_inv (dq_queue s)" and "dp_queue D = pg_ops coll" and "dp_launcher D = recording_launcher L"
    and "0 \<le> dp_limit D" and "dispatch_once D s = (r, s')"
  shows "swept (coalesce_ev None) (pg_store (dq_queue s)) (pg_store (dq_queue s')) \<and>
    (\<exists>us jobs. mapR (job_of D) us = Inr jobs \<and> snd (dq_cluster s') = snd (dq_cluster s) @ jobs \<and>
       distinct (map t_id us) \<and> sorted (map (age coll) us) \<and> int (length us) \<le> dp_limit D \<and>
       (\<forall>u \<in> set us. pg_store (dq_queue s) (t_id u) = Some u \<and> t_state u = QUEUED \<and> deps_done (pg_store (dq_queue s)) u) \<and>
       (\<forall>ids. r = Inr ids \<longrightarrow> ids = map t_id us \<and>
          (\<forall>i u. pg_store (dq_queue s) i = Some u \<longrightarrow> t_state u = QUEUED \<longrightarrow> deps_done (pg_store (dq_queue s)) u \<longrightarrow> u \<notin> set us \<longrightarrow>
             dp_limit D \<le> int (card {j. \<exists>v. pg_store (dq_queue s) j = Some v \<and> t_state v = QUEUED \<and> age coll v \<le> age coll u}))))"
  by (rule conjunct2 [OF pgq.dispatch_sweep [OF assms(2-5,1)]])

definition ex_dispatcher :: "(pg_table, unit \<times> json list) dispatcher" where
  "ex_dispatcher =
     \<lparr>dp_queue = pg_ops (\<lambda>i. i), dp_launcher = recording_launcher (\<lambda>job l. (Inr (), l)), dp_template = [], dp_limit = 20,
      dp_clock = (\<lambda>n. int n), dp_safe_load = (\<lambda>_. Inr ex_template), dp_sha256 = ex_sha256, dp_environ = []\<rparr>"

definition ex_sweep :: "(pg_table, unit \<times> json list) dispatch_state" where
  "ex_sweep = \<lparr>dq_queue = snd (q_enqueue (pg_ops (\<lambda>i. i)) (new_task ''t'' ''m'' 0) QUEUED 1 []), dq_cluster = ((), []), dq_tick = 0\<rparr>"

theorem dispatch_asks_for_ready_tasks_witness:
  "\<exists>s' u. dispatch_once ex_dispatcher ex_sweep = (Inr [''t''], s') \<and> t_id u = ''t'' \<and> t_state u = QUEUED \<and>
     mapR (job_of ex_dispatcher) [u] = Inr (snd (dq_cluster s'))"
proof -
  have "fst (dispatch_once ex_dispatcher ex_sweep) = Inr [''t'']" by code_simp
  then obtain s' where run: "dispatch_once ex_dispatcher ex_sweep = (Inr [''t''], s')" by (metis prod.collapse)
  have inv: "pg_inv (dq_queue ex_sweep)" using pgq.enqueue_invar [OF pg_inv_Nil, of "\<lambda>i. i" "new_task ''t'' ''m'' 0" QUEUED 1]
    by (simp add: ex_sweep_def)
  obtain us where us: "mapR (job_of ex_dispatcher) us = Inr (snd (dq_cluster s'))" "map t_id us = [''t'']"
      "\<forall>u \<in> set us. t_state u = QUEUED"
  proof -
    have D: "dp_queue ex_dispatcher = pg_ops (\<lambda>i. i)" "dp_launcher ex_dispatcher = recording_launcher (\<lambda>job l. (Inr (), l))"
        "0 \<le> dp_limit ex_dispatcher" "snd (dq_cluster ex_sweep) = []"
      by (simp_all add: ex_dispatcher_def ex_sweep_def)
    show thesis
      using dispatch_asks_for_ready_tasks [OF inv D(1-3) run] that unfolding D(4) by (metis append_Nil)
  qed
  then obtain u where "us = [u]" by (cases us) auto
  with us run show ?thesis by auto
qed

end
