(* ===== verification/Review.thy ===== *)
theory Review
  imports PyValue Executor
begin

text \<open>
  The adversarial reviewer (\<open>review.py\<close>): the chat request, the verdict read from its answer, and the reviewer the
  environment configures. The timeout of a reviewer is kept as the text of a number.
\<close>

section \<open>Numbers in the environment\<close>

text \<open>Whether \<open>float(s)\<close> accepts a text: digits may be grouped by single underscores.\<close>

fun single_underscores :: "string \<Rightarrow> bool" where
  "single_underscores (c # d # cs) = (\<not> (c = CHR ''_'' \<and> d = CHR ''_'') \<and> single_underscores (d # cs))"
| "single_underscores _ = True"

definition digit_run :: "string \<Rightarrow> bool" where
  "digit_run s \<longleftrightarrow>
     s \<noteq> [] \<and> is_digit (hd s) \<and> is_digit (last s) \<and> (\<forall>c \<in> set s. is_digit c \<or> c = CHR ''_'') \<and> single_underscores s"

definition unsigned :: "string \<Rightarrow> string" where
  "unsigned s = (case s of c # cs \<Rightarrow> if c = CHR ''+'' \<or> c = CHR ''-'' then cs else s | [] \<Rightarrow> [])"

definition is_float :: "string \<Rightarrow> bool" where
  "is_float text \<longleftrightarrow>
     (let s = unsigned (lower (strip text)) in
      s \<in> {''inf'', ''infinity'', ''nan''} \<or>
      (let mantissa = takeWhile (\<lambda>c. c \<noteq> CHR ''e'') s; exponent = dropWhile (\<lambda>c. c \<noteq> CHR ''e'') s in
       (exponent = [] \<or> digit_run (unsigned (tl exponent))) \<and>
       (case cut_at ''.'' mantissa of
          None \<Rightarrow> digit_run mantissa
        | Some (whole, frac) \<Rightarrow>
            (whole = [] \<or> digit_run whole) \<and> (frac = [] \<or> digit_run frac) \<and> (whole \<noteq> [] \<or> frac \<noteq> []))))"

section \<open>The chat request\<close>

definition REVIEW_BASE_URL :: string where "REVIEW_BASE_URL = ''https://openrouter.ai/api/v1''"

definition REVIEW_TIMEOUT :: string where "REVIEW_TIMEOUT = ''60''"

definition review_system_prompt :: string where
  "review_system_prompt =
     ''You are a strict code reviewer. You receive the INSTRUCTIONS a coding agent was given and '' @
     ''the DIFF it produced. Decide whether the change should become a pull request as-is. Reply '' @
     ''with ONE JSON object and nothing else: '' @
     [CHR 0x7B] @ dumps_str ''verdict'' @ '': '' @ dumps_str ''approve'' @ '' | '' @ dumps_str ''revise'' @ '', '' @
     dumps_str ''summary'' @ '': '' @ dumps_str ''<one line>'' @ '', '' @
     dumps_str ''notes'' @ '': '' @ dumps_str ''<what to fix, or empty>'' @ [CHR 0x7D] @ ''. '' @
     ''Approve when the change satisfies the instructions and looks correct; otherwise revise and '' @
     ''list concrete, actionable fixes. Never rewrite the code.''"

record review_chat =
  ch_api_key :: string
  ch_model :: string
  ch_base_url :: string
  ch_messages :: "(string \<times> string) list"

definition chat_body :: "review_chat \<Rightarrow> json" where
  "chat_body c =
     JObj [(''model'', JStr (ch_model c)),
           (''messages'', JArr (map (\<lambda>(role, content). JObj [(''role'', JStr role), (''content'', JStr content)]) (ch_messages c))),
           (''temperature'', JInt 0), (''stream'', JBool False)]"

text \<open>\<open>payload["choices"][0]["message"]["content"]\<close>.\<close>

definition chat_content :: "json \<Rightarrow> exn + json" where
  "chat_content payload =
     bindR (item payload ''choices'') (\<lambda>choices.
       bindR (first_item choices) (\<lambda>choice.
         bindR (item choice ''message'') (\<lambda>msg. item msg ''content'')))"

definition http_chat :: "'w http \<Rightarrow> review_chat \<Rightarrow> ('w, string) prog" where
  "http_chat urlopen c =
     bindE (attempt (bindE (urlopen
         \<lparr>hq_url = rstrip_chars ''/'' (ch_base_url c) @ ''/chat/completions'', hq_data = Some (json_dumps (chat_body c)),
          hq_headers = [(''Authorization'', ''Bearer '' @ ch_api_key c), (''Content-Type'', ''application/json''),
                        (''Accept'', ''application/json'')],
          hq_method = ''POST''\<rparr>) (\<lambda>(_, body). liftR (json_loads (body_or_empty body))))) (\<lambda>r.
       case r of
         Inl (HTTPError n _ detail) \<Rightarrow> raise (ReviewError (''reviewer '' @ show_int n @ '': '' @ detail))
       | Inl (URLError reason) \<Rightarrow> raise (ReviewError (''reviewer unreachable: '' @ reason))
       | Inl (JSONDecodeError _) \<Rightarrow> raise (ReviewError ''reviewer returned non-JSON'')
       | Inl e \<Rightarrow> raise e
       | Inr payload \<Rightarrow>
           (case chat_content payload of
              Inl _ \<Rightarrow> raise (ReviewError ''reviewer response has no content'')
            | Inr (JStr content) \<Rightarrow> ret content
            | Inr _ \<Rightarrow> raise (ReviewError ''reviewer content is not a string'')))"

section \<open>The verdict\<close>

text \<open>What follows the first line break, or the whole text.\<close>

definition after_newline :: "string \<Rightarrow> string" where
  "after_newline s = (case cut_at newline s of None \<Rightarrow> s | Some (_, rest) \<Rightarrow> rest)"

definition fence :: string where "fence = ''```''"

definition strip_fence :: "string \<Rightarrow> string" where
  "strip_fence text =
     (let stripped = strip text in
      strip (if startswith stripped fence
             then let inner = after_newline stripped in
                  if endswith inner fence then take (length inner - 3) inner else inner
             else stripped))"

definition parse_verdict :: "string \<Rightarrow> exn + review_verdict" where
  "parse_verdict content =
     (case json_loads (strip_fence content) of
        Inl (JSONDecodeError _) \<Rightarrow> Inl (ReviewError (''reviewer content is not JSON: '' @ py_repr (take 200 content)))
      | Inl e \<Rightarrow> Inl e
      | Inr (JObj d) \<Rightarrow>
          (let verdict = lower (strip (py_str (get_or d ''verdict'' (JStr []))))
           in if verdict \<notin> {''approve'', ''revise''}
              then Inl (ReviewError (''reviewer verdict '' @ py_repr verdict @ '' is not approve|revise''))
              else Inr \<lparr>rv_approved = (verdict = ''approve''), rv_summary = py_str (get_or d ''summary'' (JStr [])),
                        rv_notes = py_str (get_or d ''notes'' (JStr []))\<rparr>)
      | Inr _ \<Rightarrow> Inl (ReviewError ''reviewer content is not a JSON object''))"

section \<open>Reviewers\<close>

text \<open>\<open>ModelReviewer\<close>; \<open>_chat\<close> is given to its operation.\<close>

record model_reviewer =
  mr_api_key :: string
  mr_model :: string
  mr_base_url :: string
  mr_timeout :: string

definition review_prompt :: "string \<Rightarrow> string \<Rightarrow> string" where
  "review_prompt diff instructions =
     ''INSTRUCTIONS:'' @ newline @ instructions @ newline @ newline @ ''DIFF:'' @ newline @ diff @ newline @ newline @
     ''Reply with one JSON object.''"

definition model_review ::
  "(review_chat \<Rightarrow> ('w, string) prog) \<Rightarrow> model_reviewer \<Rightarrow> string \<Rightarrow> string \<Rightarrow> ('w, review_verdict) prog" where
  "model_review chat R diff instructions =
     bindE (chat \<lparr>ch_api_key = mr_api_key R, ch_model = mr_model R, ch_base_url = mr_base_url R,
                  ch_messages = [(''system'', review_system_prompt), (''user'', review_prompt diff instructions)]\<rparr>)
       (\<lambda>content. liftR (parse_verdict content))"

text \<open>\<open>NoReviewer\<close>.\<close>

definition no_reviewer :: "string \<Rightarrow> string \<Rightarrow> ('w, review_verdict) prog" where
  "no_reviewer diff instructions = ret \<lparr>rv_approved = True, rv_summary = ''no reviewer configured'', rv_notes = []\<rparr>"

definition build_reviewer :: "(string, string) dict \<Rightarrow> exn + model_reviewer option" where
  "build_reviewer env =
     (let choice = lower (strip (or_else (dict_get env ''DEAR_AGENT_REVIEWER'') ''none'')) in
      if choice \<in> {[], ''none'', ''off''} then Inr None
      else if choice \<notin> {''openai-compat'', ''openai'', ''model''}
      then Inl (ReviewError (''unknown DEAR_AGENT_REVIEWER '' @ py_repr choice @ ''; expected none|openai-compat''))
      else let model = strip (or_else (dict_get env ''DEAR_AGENT_REVIEWER_MODEL'') []) in
        if model = [] then Inl (ReviewError ''DEAR_AGENT_REVIEWER_MODEL is required'')
        else let timeout = (case dict_get env ''DEAR_AGENT_REVIEWER_TIMEOUT'' of None \<Rightarrow> REVIEW_TIMEOUT | Some s \<Rightarrow> s) in
          if \<not> is_float timeout then Inl (ValueError (''could not convert string to float: '' @ py_repr timeout))
          else Inr (Some
            \<lparr>mr_api_key = or_else (dict_get env ''DEAR_AGENT_REVIEWER_API_KEY'') (or_else (dict_get env ''OPENROUTER_API_KEY'') ''local''),
             mr_model = model,
             mr_base_url = or_else (dict_get env ''DEAR_AGENT_REVIEWER_BASE_URL'') REVIEW_BASE_URL,
             mr_timeout = timeout\<rparr>))"

section \<open>What a review promises\<close>

lemma strip_ends:
  assumes "s \<noteq> []" and "\<not> isspace (hd s)" and "\<not> isspace (last s)"
  shows "strip s = s" and "strip (s @ newline) = s"
proof -
  have l: "lstrip (s @ t) = s @ t" for t using assms(1,2) by (cases s) (simp_all add: lstrip_def)
  have r: "dropWhile isspace (rev s) = rev s" using assms(1,3) by (cases s rule: rev_cases) simp_all
  show "strip s = s" using l [of "[]"] r by (simp add: strip_def rstrip_def)
  have "isspace CHR 0x0A" by (simp add: isspace_def code_def)
  then show "strip (s @ newline) = s" using l [of newline] r by (simp add: strip_def rstrip_def newline_def)
qed

lemma dumps_object_ends:
  "json_dumps (JObj kvs) \<noteq> []" "\<not> isspace (hd (json_dumps (JObj kvs)))" "\<not> isspace (last (json_dumps (JObj kvs)))"
  by (simp_all add: isspace_def code_def)

lemma json_loads_error: "json_loads s = Inl e \<Longrightarrow> \<exists>m. e = JSONDecodeError m"
  by (auto simp: json_loads_def split: option.splits prod.splits if_splits)

definition fenced :: "string \<Rightarrow> string" where
  "fenced s = fence @ ''json'' @ newline @ s @ newline @ fence"

lemma strip_fence_plain: "s \<noteq> [] \<Longrightarrow> \<not> isspace (hd s) \<Longrightarrow> \<not> isspace (last s) \<Longrightarrow> hd s \<noteq> CHR ''`'' \<Longrightarrow> strip_fence s = s"
  using strip_ends(1) [of s] by (cases s) (simp_all add: strip_fence_def fence_def startswith_def)

lemma strip_fence_fenced:
  assumes "s \<noteq> []" and "\<not> isspace (hd s)" and "\<not> isspace (last s)"
  shows "strip_fence (fenced s) = s"
proof -
  have "strip (fenced s) = fenced s" by (rule strip_ends) (simp_all add: fenced_def fence_def isspace_def code_def)
  moreover have "after_newline (fenced s) = s @ newline @ fence"
    by (simp add: after_newline_def fenced_def fence_def newline_def startswith_def)
  moreover have "endswith (s @ newline @ fence) fence" by (simp add: endswith_def fence_def newline_def)
  moreover have "take (length (s @ newline @ fence) - 3) (s @ newline @ fence) = s @ newline"
    by (simp add: fence_def newline_def)
  moreover have "startswith (fenced s) fence" by (simp add: fenced_def startswith_def)
  ultimately show ?thesis using strip_ends(2) [OF assms] by (simp add: strip_fence_def)
qed

definition verdict_json :: "review_verdict \<Rightarrow> json" where
  "verdict_json v =
     JObj [(''verdict'', JStr (if rv_approved v then ''approve'' else ''revise'')), (''summary'', JStr (rv_summary v)),
           (''notes'', JStr (rv_notes v))]"

text \<open>
  A verdict survives the trip: whatever texts it holds, the reviewer reads back exactly the verdict
  that was written as JSON, bare or inside a Markdown fence.
\<close>

theorem verdict_roundtrip:
  "parse_verdict (json_dumps (verdict_json v)) = Inr v \<and> parse_verdict (fenced (json_dumps (verdict_json v))) = Inr v"
proof -
  have plain: "json_plain (verdict_json v)" by (simp add: verdict_json_def)
  have ends: "json_dumps (verdict_json v) \<noteq> []" "\<not> isspace (hd (json_dumps (verdict_json v)))"
      "\<not> isspace (last (json_dumps (verdict_json v)))" "hd (json_dumps (verdict_json v)) \<noteq> CHR ''`''"
    unfolding verdict_json_def by (simp_all add: isspace_def code_def)
  have same: "strip_fence (json_dumps (verdict_json v)) = json_dumps (verdict_json v)"
      "strip_fence (fenced (json_dumps (verdict_json v))) = json_dumps (verdict_json v)"
    using strip_fence_plain [OF ends] strip_fence_fenced [OF ends(1-3)] by simp_all
  have words: "strip ''approve'' = ''approve''" "strip ''revise'' = ''revise''" "lower ''approve'' = ''approve''"
      "lower ''revise'' = ''revise''"
    by code_simp+
  have "case json_loads (json_dumps (verdict_json v)) of Inl _ \<Rightarrow> False | Inr w \<Rightarrow> w = verdict_json v"
    using loads_dumps_plain [OF plain] by simp
  then show ?thesis
    unfolding parse_verdict_def same loads_dumps_plain [OF plain]
    by (cases "rv_approved v") (simp_all add: verdict_json_def get_or_def py_str_def words)
qed

text \<open>
  Over a client that raises nothing but HTTP and connection errors a review ends with a verdict or with
  \<open>ReviewError\<close>, whatever the model answers.
\<close>

theorem review_errors_are_review_errors:
  assumes "\<And>q w e w'. urlopen q w = (Inl e, w') \<Longrightarrow> (\<exists>n m b. e = HTTPError n m b) \<or> (\<exists>m. e = URLError m)"
    and "model_review (http_chat urlopen) R diff instructions w = (Inl e, w')"
  shows "\<exists>m. e = ReviewError m"
proof -
  have verdict: "\<exists>m. x = ReviewError m" if "parse_verdict content = Inl x" for content x
    using that by (auto simp: parse_verdict_def Let_def split: sum.splits json.splits if_splits exn.splits dest: json_loads_error)
  have chat: "\<exists>m. x = ReviewError m" if "http_chat urlopen c w = (Inl x, w1)" for c x w1
  proof -
    obtain r w2 where u: "urlopen \<lparr>hq_url = rstrip_chars ''/'' (ch_base_url c) @ ''/chat/completions'',
         hq_data = Some (json_dumps (chat_body c)),
         hq_headers = [(''Authorization'', ''Bearer '' @ ch_api_key c), (''Content-Type'', ''application/json''),
                       (''Accept'', ''application/json'')], hq_method = ''POST''\<rparr> w = (r, w2)"
      by fastforce
    show ?thesis
    proof (cases r)
      case (Inl e1)
      with assms(1) [of _ w e1 w2] u have "(\<exists>n m b. e1 = HTTPError n m b) \<or> (\<exists>m. e1 = URLError m)" by blast
      with Inl u that show ?thesis by (auto simp: http_chat_def bindE_def attempt_def)
    next
      case (Inr a)
      obtain n body where a: "a = (n, body)" by (cases a)
      show ?thesis
      proof (cases "json_loads (body_or_empty body)")
        case (Inl e1)
        with json_loads_error obtain m where "e1 = JSONDecodeError m" by blast
        with Inl Inr u a that show ?thesis by (auto simp: http_chat_def bindE_def attempt_def)
      next
        case (Inr v)
        with \<open>r = Inr a\<close> u a that show ?thesis
          by (auto simp: http_chat_def bindE_def attempt_def split: sum.splits json.splits)
      qed
    qed
  qed
  from assms(2) show ?thesis
    unfolding model_review_def by (cases rule: bindE_cases) (auto dest: verdict chat)
qed

theorem review_errors_are_review_errors_witness:
  "\<exists>m. fst (model_review (http_chat (\<lambda>q w. (Inl (URLError ''refused''), w)))
     \<lparr>mr_api_key = [], mr_model = ''m'', mr_base_url = [], mr_timeout = ''60''\<rparr> [] [] ()) = Inl (ReviewError m)"
proof -
  let ?u = "\<lambda>q w. (Inl (URLError ''refused''), w)"
  let ?R = "\<lparr>mr_api_key = [], mr_model = ''m'', mr_base_url = [], mr_timeout = ''60''\<rparr>"
  have "\<exists>e. model_review (http_chat ?u) ?R [] [] () = (Inl e, ())"
    by (simp add: model_review_def http_chat_def bindE_def attempt_def)
  then obtain e where e: "model_review (http_chat ?u) ?R [] [] () = (Inl e, ())" by blast
  from review_errors_are_review_errors [OF _ e] obtain m where "e = ReviewError m" by auto
  with e show ?thesis by simp
qed

end
