(* ===== verification/Shared.thy ===== *)
theory Shared
  imports PyValue Executor
begin

text \<open>
  The harness in a sibling container (\<open>runners/shared.py\<close>): the request and the result that cross the shared
  directory as files, the control side that waits for a result, the harness side that serves requests. The
  directory is a map from file names to texts; what happens while the control side sleeps, the other
  container's steps included, is a parameter of the wait.
\<close>

section \<open>The files\<close>

definition REQUEST_FILE :: string where "REQUEST_FILE = ''harness-request.json''"

definition RESULT_FILE :: string where "RESULT_FILE = ''harness-result.json''"

type_synonym files = "string \<rightharpoonup> string"

record harness_request =
  hr_task_id :: string
  hr_instructions :: string
  hr_model_request :: "string option"
  hr_workdir :: string
  hr_branch :: string

definition request_dumps :: "harness_request \<Rightarrow> string" where
  "request_dumps r =
     json_dumps (JObj
       [(''task_id'', JStr (hr_task_id r)), (''instructions'', JStr (hr_instructions r)),
        (''model_request'', optional_str (hr_model_request r)), (''workdir'', JStr (hr_workdir r)),
        (''branch'', JStr (hr_branch r))])"

text \<open>
  A field of another JSON type than the class declares is a \<open>TypeError\<close> here; the code stores it and fails where it is
  first used.
\<close>

definition text_of :: "json \<Rightarrow> exn + string" where
  "text_of v = (case v of JStr s \<Rightarrow> Inr s | _ \<Rightarrow> Inl (TypeError (''expected str, not '' @ type_name v)))"

definition optional_text_of :: "json \<Rightarrow> exn + string option" where
  "optional_text_of v =
     (case v of JNull \<Rightarrow> Inr None | JStr s \<Rightarrow> Inr (Some s) | _ \<Rightarrow> Inl (TypeError (''expected str, not '' @ type_name v)))"

definition request_loads :: "string \<Rightarrow> exn + harness_request" where
  "request_loads text =
     bindR (json_loads text) (\<lambda>data.
       bindR (bindR (item data ''task_id'') text_of) (\<lambda>task_id.
         bindR (as_dict ''get'' data) (\<lambda>d.
           bindR (text_of (get_or d ''instructions'' (JStr []))) (\<lambda>instructions.
             bindR (optional_text_of (get_or d ''model_request'' JNull)) (\<lambda>model_request.
               bindR (bindR (item data ''workdir'') text_of) (\<lambda>workdir.
                 bindR (text_of (get_or d ''branch'' (JStr ''dear-agent''))) (\<lambda>branch.
                   Inr \<lparr>hr_task_id = task_id, hr_instructions = instructions, hr_model_request = model_request,
                        hr_workdir = workdir, hr_branch = branch\<rparr>)))))))"

text \<open>\<open>json.dumps(asdict(result))\<close> and \<open>RunResult(**json.loads(text))\<close>.\<close>

definition result_dumps :: "run_result \<Rightarrow> string" where
  "result_dumps r =
     json_dumps (JObj
       [(''exit_code'', JInt (rr_exit_code r)), (''stdout'', JStr (rr_stdout r)), (''stderr'', JStr (rr_stderr r)),
        (''branch'', optional_str (rr_branch r)), (''commit'', optional_str (rr_commit r)),
        (''pr_url'', optional_str (rr_pr_url r)), (''extra'', JObj (map (\<lambda>(k, v). (k, JStr v)) (rr_extra r)))])"

definition int_of_json :: "json \<Rightarrow> exn + int" where
  "int_of_json v = (case v of JInt i \<Rightarrow> Inr i | _ \<Rightarrow> Inl (TypeError (''expected int, not '' @ type_name v)))"

definition texts_of :: "json \<Rightarrow> exn + (string, string) dict" where
  "texts_of v =
     (case v of
        JObj d \<Rightarrow> mapR (\<lambda>(k, x). bindR (text_of x) (\<lambda>s. Inr (k, s))) d
      | _ \<Rightarrow> Inl (TypeError (''expected dict, not '' @ type_name v)))"

definition result_fields :: "string list" where
  "result_fields = [''exit_code'', ''stdout'', ''stderr'', ''branch'', ''commit'', ''pr_url'', ''extra'']"

definition result_loads :: "string \<Rightarrow> exn + run_result" where
  "result_loads text =
     bindR (json_loads text) (\<lambda>data.
       case data of
         JObj d \<Rightarrow>
           if \<not> set (dict_keys d) \<subseteq> set result_fields then Inl (TypeError ''got an unexpected keyword argument'')
           else if \<not> dict_has d ''exit_code'' then Inl (TypeError ''missing 1 required positional argument: exit_code'')
           else bindR (int_of_json (get_or d ''exit_code'' JNull)) (\<lambda>code.
             bindR (text_of (get_or d ''stdout'' (JStr []))) (\<lambda>out.
               bindR (text_of (get_or d ''stderr'' (JStr []))) (\<lambda>err.
                 bindR (optional_text_of (get_or d ''branch'' JNull)) (\<lambda>branch.
                   bindR (optional_text_of (get_or d ''commit'' JNull)) (\<lambda>commit.
                     bindR (optional_text_of (get_or d ''pr_url'' JNull)) (\<lambda>pr_url.
                       bindR (texts_of (get_or d ''extra'' (JObj []))) (\<lambda>extra.
                         Inr \<lparr>rr_exit_code = code, rr_stdout = out, rr_stderr = err, rr_branch = branch,
                              rr_commit = commit, rr_pr_url = pr_url, rr_extra = extra\<rparr>)))))))
       | _ \<Rightarrow> Inl (TypeError ''argument after ** must be a mapping''))"

section \<open>The control side\<close>

definition request_of :: "task \<Rightarrow> task_spec \<Rightarrow> worktree \<Rightarrow> harness_request" where
  "request_of t sp wt =
     \<lparr>hr_task_id = t_id t, hr_instructions = sp_instructions sp, hr_model_request = sp_model_request sp,
      hr_workdir = wt_path wt, hr_branch = wt_branch wt\<rparr>"

definition delegate_start :: "task \<Rightarrow> task_spec \<Rightarrow> worktree \<Rightarrow> files \<Rightarrow> files" where
  "delegate_start t sp wt f = (f(RESULT_FILE := None))(REQUEST_FILE \<mapsto> request_dumps (request_of t sp wt))"

text \<open>One look for the result: none yet, or what reading it gives; a result that was read is removed.\<close>

definition delegate_poll :: "files \<Rightarrow> (exn + run_result) option \<times> files" where
  "delegate_poll f =
     (case f RESULT_FILE of
        None \<Rightarrow> (None, f)
      | Some text \<Rightarrow>
          (case result_loads text of
             Inl e \<Rightarrow> (Some (Inl e), f)
           | Inr r \<Rightarrow> (Some (Inr r), f(RESULT_FILE := None))))"

definition no_answer :: "worktree \<Rightarrow> run_result" where
  "no_answer wt =
     \<lparr>rr_exit_code = 124, rr_stdout = [], rr_stderr = ''the harness container did not answer in time'',
      rr_branch = Some (wt_branch wt), rr_commit = None, rr_pr_url = None, rr_extra = []\<rparr>"

text \<open>
  The waiting loop: \<open>now\<close> reads the monotonic clock, \<open>sleep\<close> is what happens during one sleep. It is \<open>None\<close> when the loop
  never ends.
\<close>

partial_function (option) delegate_wait ::
  "('w \<Rightarrow> int) \<Rightarrow> (files \<times> 'w \<Rightarrow> files \<times> 'w) \<Rightarrow> int \<Rightarrow> worktree \<Rightarrow> files \<times> 'w \<Rightarrow> ((exn + run_result) \<times> files \<times> 'w) option" where
  "delegate_wait now sleep deadline wt s =
     (if now (snd s) < deadline then
        (case delegate_poll (fst s) of
           (Some r, f) \<Rightarrow> Some (r, f, snd s)
         | (None, f) \<Rightarrow> delegate_wait now sleep deadline wt (sleep (f, snd s)))
      else Some (Inr (no_answer wt), s))"

definition delegate_run ::
  "('w \<Rightarrow> int) \<Rightarrow> (files \<times> 'w \<Rightarrow> files \<times> 'w) \<Rightarrow> int \<Rightarrow> task \<Rightarrow> task_spec \<Rightarrow> worktree \<Rightarrow> files \<times> 'w \<Rightarrow>
    ((exn + run_result) \<times> files \<times> 'w) option" where
  "delegate_run now sleep timeout t sp wt s =
     delegate_wait now sleep (now (snd s) + timeout) wt (delegate_start t sp wt (fst s), snd s)"

section \<open>The harness side\<close>

text \<open>What a request asks to run.\<close>

definition request_task :: "harness_request \<Rightarrow> time \<Rightarrow> task" where
  "request_task r now = new_task (hr_task_id r) (hr_task_id r) now"

definition request_spec :: "harness_request \<Rightarrow> task_spec" where
  "request_spec r = (new_spec [])\<lparr>sp_instructions := hr_instructions r, sp_model_request := hr_model_request r\<rparr>"

definition request_worktree :: "harness_request \<Rightarrow> worktree" where
  "request_worktree r = \<lparr>wt_repo_path = hr_workdir r, wt_path = hr_workdir r, wt_branch = hr_branch r\<rparr>"

definition broken_harness :: "exn \<Rightarrow> run_result" where
  "broken_harness e =
     \<lparr>rr_exit_code = 1, rr_stdout = [], rr_stderr = ''harness raised '' @ exn_name e,
      rr_branch = None, rr_commit = None, rr_pr_url = None, rr_extra = []\<rparr>"

text \<open>Reading the request, and answering it when the run has ended.\<close>

definition serve_take :: "files \<Rightarrow> (exn + harness_request) option" where
  "serve_take f = map_option request_loads (f REQUEST_FILE)"

definition serve_answer :: "exn + run_result \<Rightarrow> files \<Rightarrow> files" where
  "serve_answer r f =
     (f(RESULT_FILE \<mapsto> result_dumps (case r of Inl e \<Rightarrow> broken_harness e | Inr x \<Rightarrow> x)))(REQUEST_FILE := None)"

text \<open>One turn of the loop that no other process interrupts: whether a request was answered.\<close>

definition serve_turn ::
  "(task \<Rightarrow> task_spec \<Rightarrow> worktree \<Rightarrow> ('w, run_result) prog) \<Rightarrow> time \<Rightarrow> files \<times> 'w \<Rightarrow> (exn + bool) \<times> files \<times> 'w" where
  "serve_turn runner now s =
     (case serve_take (fst s) of
        None \<Rightarrow> (Inr False, s)
      | Some (Inl e) \<Rightarrow> (Inl e, s)
      | Some (Inr req) \<Rightarrow>
          (case runner (request_task req now) (request_spec req) (request_worktree req) (snd s) of
             (r, w) \<Rightarrow> (Inr True, serve_answer r (fst s), w)))"

text \<open>\<open>serve\<close> for at most \<open>n\<close> turns; between turns without a request it sleeps. An exception ends it.\<close>

fun serve ::
  "(task \<Rightarrow> task_spec \<Rightarrow> worktree \<Rightarrow> ('w, run_result) prog) \<Rightarrow> ('w \<Rightarrow> time) \<Rightarrow> (files \<times> 'w \<Rightarrow> files \<times> 'w) \<Rightarrow> bool \<Rightarrow> nat \<Rightarrow> files \<times> 'w \<Rightarrow>
    (exn + unit) option \<times> files \<times> 'w" where
  "serve runner now sleep once 0 s = (None, s)"
| "serve runner now sleep once (Suc n) s =
     (case serve_turn runner (now (snd s)) s of
        (Inl e, s') \<Rightarrow> (Some (Inl e), s')
      | (Inr False, s') \<Rightarrow> serve runner now sleep once n (sleep s')
      | (Inr True, s') \<Rightarrow> if once then (Some (Inr ()), s') else serve runner now sleep once n s')"

section \<open>What crosses the directory\<close>

lemma optional_trip [simp]: "json_plain (optional_str x)" "optional_text_of (optional_str x) = Inr x"
  by (cases x; simp add: optional_str_def optional_text_of_def)+

lemma request_trip: "request_loads (request_dumps r) = Inr r"
  unfolding request_dumps_def request_loads_def
  by (subst loads_dumps_plain) (simp_all add: item_def text_of_def as_dict_def get_or_def)

lemma texts_trip: "texts_of (JObj (map (\<lambda>(k, v). (k, JStr v)) d)) = Inr d"
  unfolding texts_of_def by (induction d) (auto simp: text_of_def)

lemma result_trip:
  assumes "distinct (dict_keys (rr_extra r))" shows "result_loads (result_dumps r) = Inr r"
proof -
  have extra: "json_plain (JObj (map (\<lambda>(k, v). (k, JStr v)) (rr_extra r)))"
    using assms by (auto simp: comp_def case_prod_unfold)
  show ?thesis
    unfolding result_dumps_def result_loads_def
    by (subst loads_dumps_plain)
      (use extra in \<open>simp_all add: texts_trip text_of_def int_of_json_def get_or_def result_fields_def\<close>)
qed

section \<open>Waiting\<close>

declare delegate_wait.simps [code]

lemma wait_returns:
  assumes tick: "\<And>s. now (snd s) + 1 \<le> now (snd (sleep s))"
  shows "\<exists>r f w. delegate_wait now sleep deadline wt s = Some (r, f, w) \<and>
    (r = Inr (no_answer wt) \<and> deadline \<le> now w \<or> now w < deadline)"
proof (induction "nat (deadline - now (snd s))" arbitrary: s rule: less_induct)
  case less
  show ?case
  proof (cases "now (snd s) < deadline")
    case False then show ?thesis by (cases s) (simp add: delegate_wait.simps)
  next
    case True
    obtain x f where p: "delegate_poll (fst s) = (x, f)" by fastforce
    show ?thesis
    proof (cases x)
      case (Some r) then show ?thesis using True p by (simp add: delegate_wait.simps [of now sleep deadline wt s])
    next
      case None
      have "nat (deadline - now (snd (sleep (f, snd s)))) < nat (deadline - now (snd s))"
        using tick [of "(f, snd s)"] True by simp
      from less [OF this] show ?thesis using True p None by (simp add: delegate_wait.simps [of now sleep deadline wt s])
    qed
  qed
qed

text \<open>
  The control side never waits for ever: while every sleep moves the clock, \<open>run\<close> returns, with the result
  it read, with what reading it raised, or with exit code 124 once the deadline has passed.
\<close>

theorem delegate_returns:
  assumes "\<And>s. now (snd s) + 1 \<le> now (snd (sleep s))"
  shows "\<exists>r f w. delegate_run now sleep timeout t sp wt s = Some (r, f, w) \<and>
    (r = Inr (no_answer wt) \<and> now w \<ge> now (snd s) + timeout \<or> now w < now (snd s) + timeout)"
  using wait_returns [where now = now and sleep = sleep, OF assms, of "now (snd s) + timeout" wt] unfolding delegate_run_def by simp

theorem delegate_returns_witness:
  "\<exists>r f w. delegate_run (\<lambda>w. w) (\<lambda>(f, w). (f, w + 5)) 12 (new_task ''t'' ''m'' 0) (new_spec [])
     \<lparr>wt_repo_path = ''/r'', wt_path = ''/w'', wt_branch = ''b''\<rparr> (Map.empty, 0) = Some (r, f, w)"
  using delegate_returns [of "\<lambda>w. w" "\<lambda>(f, w). (f, w + 5)" 12 "new_task ''t'' ''m'' 0" "new_spec []"
      "\<lparr>wt_repo_path = ''/r'', wt_path = ''/w'', wt_branch = ''b''\<rparr>" "(Map.empty, 0)"]
  by (auto simp: case_prod_unfold)

text \<open>
  C29. Delegation is transparent: when the harness container answers between two polls and the runner's
  result has no repeated extra key, the control side returns exactly what the runner returns for a task
  with the same id, instructions, model, path and branch, or exit code 1 when the runner raises,
  and no file is left behind.
\<close>

theorem delegation_is_transparent:
  assumes "0 < timeout" and "now w1 < now w + timeout"
    and "runner (request_task (request_of t sp wt) n) (request_spec (request_of t sp wt)) (request_worktree (request_of t sp wt)) w =
      (r, w1)"
    and "\<And>x. r = Inr x \<Longrightarrow> distinct (dict_keys (rr_extra x))"
    and "\<And>s. sleep s = snd (serve_turn runner n s)"
  shows "delegate_run now sleep timeout t sp wt (f, w) =
    Some (Inr (case r of Inl e \<Rightarrow> broken_harness e | Inr x \<Rightarrow> x), (f(RESULT_FILE := None))(REQUEST_FILE := None), w1)"
proof -
  let ?f1 = "delegate_start t sp wt f" and ?res = "case r of Inl e \<Rightarrow> broken_harness e | Inr x \<Rightarrow> x"
  have names: "REQUEST_FILE \<noteq> RESULT_FILE" by (simp add: REQUEST_FILE_def RESULT_FILE_def)
  have "serve_turn runner n (?f1, w) = (Inr True, serve_answer r ?f1, w1)"
    using assms(3) names by (simp add: serve_turn_def serve_take_def delegate_start_def request_trip)
  then have slept: "sleep (?f1, w) = (serve_answer r ?f1, w1)" using assms(5) by simp
  have poll1: "delegate_poll ?f1 = (None, ?f1)" using names by (simp add: delegate_poll_def delegate_start_def)
  have "distinct (dict_keys (rr_extra ?res))" using assms(4) by (cases r) (simp_all add: broken_harness_def)
  then have "delegate_poll (serve_answer r ?f1) = (Some (Inr ?res), (serve_answer r ?f1)(RESULT_FILE := None))"
    using names by (simp add: delegate_poll_def serve_answer_def result_trip)
  moreover have "(serve_answer r ?f1)(RESULT_FILE := None) = (f(RESULT_FILE := None))(REQUEST_FILE := None)"
    by (simp add: serve_answer_def delegate_start_def fun_eq_iff)
  ultimately show ?thesis
    using assms(1,2) poll1 slept unfolding delegate_run_def
    by (subst delegate_wait.simps) (simp add: delegate_wait.simps)
qed

definition ex_result :: run_result where
  "ex_result = \<lparr>rr_exit_code = 0, rr_stdout = ''ok'', rr_stderr = [], rr_branch = None, rr_commit = None, rr_pr_url = None,
     rr_extra = []\<rparr>"

theorem delegation_is_transparent_witness:
  "delegate_run (\<lambda>w. w) (\<lambda>s. snd (serve_turn (\<lambda>t sp wt w. (Inr ex_result, w + 1)) 0 s)) 10 (new_task ''t'' ''m'' 0)
     (new_spec []) \<lparr>wt_repo_path = ''/r'', wt_path = ''/w'', wt_branch = ''b''\<rparr> (Map.empty, 0) =
   Some (Inr ex_result, Map.empty, 1)"
  using delegation_is_transparent [of 10 "\<lambda>w. w" 1 0 "\<lambda>t sp wt w. (Inr ex_result, w + 1)" "new_task ''t'' ''m'' 0"
      "new_spec []" "\<lparr>wt_repo_path = ''/r'', wt_path = ''/w'', wt_branch = ''b''\<rparr>" 0 "Inr ex_result"
      "\<lambda>s. snd (serve_turn (\<lambda>t sp wt w. (Inr ex_result, w + 1)) 0 s)" Map.empty]
  by (simp add: ex_result_def fun_upd_idem)

text \<open>
  A late answer goes to the wrong task: when a request has timed out and the harness is still running it, the
  next request overwrites the file; the harness then writes the old result and deletes the new request, and
  the control side takes the old task's result for the new one's.
\<close>

theorem late_answer_is_taken_for_next_task:
  assumes "distinct (dict_keys (rr_extra old))"
  shows "serve_take (delegate_start t sp wt f) = Some (Inr (request_of t sp wt)) \<and>
    (let f' = delegate_start t' sp' wt' (delegate_start t sp wt f) in
     fst (delegate_poll (serve_answer (Inr old) f')) = Some (Inr old) \<and>
     serve_take (snd (delegate_poll (serve_answer (Inr old) f'))) = None)"
proof -
  have "REQUEST_FILE \<noteq> RESULT_FILE" by (simp add: REQUEST_FILE_def RESULT_FILE_def)
  then show ?thesis
    by (simp add: Let_def delegate_start_def serve_take_def request_trip delegate_poll_def serve_answer_def result_trip [OF assms])
qed

theorem late_answer_is_taken_for_next_task_witness:
  "fst (delegate_poll (serve_answer (Inr ex_result)
     (delegate_start (new_task ''b'' ''m'' 0) (new_spec []) \<lparr>wt_repo_path = ''/r'', wt_path = ''/v'', wt_branch = ''b''\<rparr>
       (delegate_start (new_task ''a'' ''m'' 0) (new_spec []) \<lparr>wt_repo_path = ''/r'', wt_path = ''/w'', wt_branch = ''a''\<rparr> Map.empty)))) =
   Some (Inr ex_result)"
  using late_answer_is_taken_for_next_task [of ex_result] by (simp add: ex_result_def Let_def)

end
