(* ===== verification/Forge.thy ===== *)
theory Forge
  imports PyValue GitPlane
begin

text \<open>
  The forges that open the draft pull request (\<open>gitplane/forge.py\<close>, \<open>gitplane/gh.py\<close>): the remote of a repository, the
  requests to the GitHub, GitLab, Gitea and Bitbucket APIs, the choice of a forge. The POST request is a
  parameter; a URL whose host is in balanced brackets is not checked to be an IPv6 address.
\<close>

section \<open>URLs (urllib.parse)\<close>

definition scheme_char :: "char \<Rightarrow> bool" where
  "scheme_char c \<longleftrightarrow> is_ascii_alnum c \<or> c = CHR ''+'' \<or> c = CHR ''-'' \<or> c = CHR ''.''"

definition ascii_letter :: "char \<Rightarrow> bool" where
  "ascii_letter c \<longleftrightarrow> is_ascii_alnum c \<and> \<not> is_digit c"

text \<open>The scheme and the rest of a URL, the scheme empty when there is none.\<close>

definition split_scheme :: "string \<Rightarrow> string \<times> string" where
  "split_scheme url =
     (case cut_at '':'' url of
        Some (scheme, rest) \<Rightarrow>
          if scheme \<noteq> [] \<and> ascii_letter (hd scheme) \<and> (\<forall>c \<in> set scheme. scheme_char c)
          then (lower scheme, rest) else ([], url)
      | None \<Rightarrow> ([], url))"

definition before :: "string \<Rightarrow> string \<Rightarrow> string" where
  "before seps s = takeWhile (\<lambda>c. c \<notin> set seps) s"

definition uses_params :: "string list" where
  "uses_params = [[], ''ftp'', ''hdl'', ''prospero'', ''http'', ''imap'', ''https'', ''shttp'', ''rtsp'', ''rtsps'', ''rtspu'',
     ''sip'', ''sips'', ''mms'', ''sftp'', ''tel'']"

text \<open>The path without the parameters of its last segment.\<close>

definition split_params :: "string \<Rightarrow> string" where
  "split_params path =
     (let lst = after_last CHR ''/'' path in take (length path - length lst) path @ before '';'' lst)"

text \<open>\<open>urlparse(value)\<close>: its \<open>hostname\<close> (empty for none) and its \<open>path\<close>.\<close>

definition hostname_of :: "string \<Rightarrow> string" where
  "hostname_of netloc =
     (let hostinfo = after_last CHR 0x40 netloc;
          host = (case cut_at ''['' hostinfo of
                    Some (_, bracketed) \<Rightarrow> before '']'' bracketed
                  | None \<Rightarrow> before '':'' hostinfo)
      in case cut_at ''%'' host of
           None \<Rightarrow> lower host
         | Some (name, zone) \<Rightarrow> lower name @ ''%'' @ zone)"

definition urlparse :: "string \<Rightarrow> exn + string \<times> string" where
  "urlparse value =
     (let url = filter (\<lambda>c. c \<noteq> CHR 0x09 \<and> c \<noteq> CHR 0x0A \<and> c \<noteq> CHR 0x0D) value;
          (scheme, rest) = split_scheme url;
          (netloc, tail) = (if startswith rest ''//''
                            then (before ''/?#'' (drop 2 rest), drop (2 + length (before ''/?#'' (drop 2 rest))) rest)
                            else ([], rest));
          path = before ''?'' (before ''#'' tail)
      in if (CHR ''['' \<in> set netloc) \<noteq> (CHR '']'' \<in> set netloc) then Inl (ValueError ''Invalid IPv6 URL'')
         else Inr (hostname_of netloc, if scheme \<in> set uses_params then split_params path else path))"

text \<open>The UTF-8 bytes of a text.\<close>

definition utf8 :: "string \<Rightarrow> nat list" where
  "utf8 s = concat (map (\<lambda>c. if code c < 128 then [code c] else [192 + code c div 64, 128 + code c mod 64]) s)"

definition upper_hex :: "nat \<Rightarrow> char" where
  "upper_hex n = (if n < 10 then char_of (48 + n) else char_of (55 + n))"

text \<open>\<open>quote(s, safe="")\<close>.\<close>

definition quote_all :: "string \<Rightarrow> string" where
  "quote_all s =
     concat (map (\<lambda>b. let c = char_of b in
         if b < 128 \<and> (is_ascii_alnum c \<or> c \<in> set ''_.-~'') then [c]
         else [CHR ''%'', upper_hex (b div 16), upper_hex (b mod 16)]) (utf8 s))"

text \<open>\<open>base64.b64encode\<close>.\<close>

definition b64_char :: "nat \<Rightarrow> char" where
  "b64_char n =
     (if n < 26 then char_of (65 + n) else if n < 52 then char_of (71 + n) else if n < 62 then char_of (n - 4)
      else if n = 62 then CHR ''+'' else CHR ''/'')"

fun b64encode :: "nat list \<Rightarrow> string" where
  "b64encode [] = []"
| "b64encode [a] = [b64_char (a div 4), b64_char (a mod 4 * 16), CHR ''='', CHR ''='']"
| "b64encode [a, b] = [b64_char (a div 4), b64_char (a mod 4 * 16 + b div 16), b64_char (b mod 16 * 4), CHR ''='']"
| "b64encode (a # b # c # bs) =
     b64_char (a div 4) # b64_char (a mod 4 * 16 + b div 16) # b64_char (b mod 16 * 4 + c div 64) # b64_char (c mod 64) #
     b64encode bs"

section \<open>Remotes\<close>

record remote =
  re_host :: string
  re_path :: string

definition without_git :: "string \<Rightarrow> string" where
  "without_git path = (if endswith path ''.git'' then take (length path - 4) path else path)"

definition parse_remote :: "string \<Rightarrow> exn + remote" where
  "parse_remote url =
     (let value = strip url; failed = GitError (''cannot parse remote '' @ py_repr value) in
      if value = [] then Inl (GitError ''empty remote URL'')
      else bindR (if contains value ''://'' then urlparse value
                  else case cut_at '':'' value of
                         None \<Rightarrow> Inl failed
                       | Some (host_part, path) \<Rightarrow> Inr (after_last CHR 0x40 host_part, path))
        (\<lambda>(host, path0).
          let path = without_git (strip_chars ''/'' path0) in
          if host = [] \<or> path = [] then Inl failed else Inr \<lparr>re_host = host, re_path = path\<rparr>))"

definition read_origin :: "'w machine \<Rightarrow> string \<Rightarrow> ('w, string) prog" where
  "read_origin M repo_path =
     bindE (m_run M [''git'', ''remote'', ''get-url'', ''origin''] repo_path None) (\<lambda>r.
       if cm_returncode r \<noteq> 0 \<or> strip (cm_stdout r) = []
       then raise (GitError (let err = strip (cm_stderr r) in
              if err \<noteq> [] then err else ''no '' @ py_repr ''origin'' @ '' remote to open a PR against''))
       else ret (strip (cm_stdout r)))"

definition provider_for_host :: "string \<Rightarrow> string" where
  "provider_for_host host =
     (let lowered = lower host in
      if contains lowered ''github'' then ''github''
      else if contains lowered ''gitlab'' then ''gitlab''
      else if contains lowered ''bitbucket'' then ''bitbucket''
      else if \<exists>marker \<in> set [''gitea'', ''forgejo'', ''codeberg'']. contains lowered marker then ''gitea''
      else ''github'')"

definition snippet :: "string \<Rightarrow> string" where
  "snippet text = take 300 (join '' '' (split_ws text))"

fun first_env :: "(string, string) dict \<Rightarrow> string list \<Rightarrow> string option" where
  "first_env env [] = None"
| "first_env env (name # names) =
     (case dict_get env name of
        Some value \<Rightarrow> if strip value \<noteq> [] then Some (strip value) else first_env env names
      | None \<Rightarrow> first_env env names)"

section \<open>The requests\<close>

type_synonym 'w http_post = "string \<Rightarrow> (string, string) dict \<Rightarrow> string \<Rightarrow> ('w, int \<times> string) prog"

definition default_http_post :: "'w http \<Rightarrow> 'w http_post" where
  "default_http_post urlopen url headers body =
     bindE (attempt (urlopen \<lparr>hq_url = url, hq_data = Some body, hq_headers = headers, hq_method = ''POST''\<rparr>)) (\<lambda>r.
       case r of
         Inr response \<Rightarrow> ret response
       | Inl (HTTPError n _ text) \<Rightarrow> ret (n, text)
       | Inl (URLError reason) \<Rightarrow> raise (GitError (''cannot reach '' @ url @ '': '' @ reason))
       | Inl e \<Rightarrow> raise e)"

definition forge_post ::
  "'w http_post \<Rightarrow> string \<Rightarrow> (string, string) dict \<Rightarrow> string \<Rightarrow> string \<Rightarrow> ((string, json) dict \<Rightarrow> exn + pull_request) \<Rightarrow>
    ('w, pull_request) prog" where
  "forge_post http_post url headers payload provider parse =
     bindE (http_post url headers payload) (\<lambda>(status, body).
       if status \<notin> {200, 201}
       then raise (GitError (provider @ '' API returned '' @ show_int status @ '': '' @ snippet body))
       else case json_loads (body_or_empty body) of
              Inl (JSONDecodeError _) \<Rightarrow> raise (GitError (provider @ '' API returned invalid JSON''))
            | Inl e \<Rightarrow> raise e
            | Inr (JObj d) \<Rightarrow> liftR (parse d)
            | Inr _ \<Rightarrow> raise (GitError (provider @ '' API returned an unexpected response'')))"

text \<open>A pull request whose number is no integer has none here.\<close>

definition number_of :: "(string, json) dict \<Rightarrow> string \<Rightarrow> int option" where
  "number_of d k = (case dict_get d k of Some (JInt i) \<Rightarrow> Some i | _ \<Rightarrow> None)"

definition parse_pr :: "string \<Rightarrow> string \<Rightarrow> (string, json) dict \<Rightarrow> exn + pull_request" where
  "parse_pr url_key number_key d =
     bindR (item (JObj d) url_key) (\<lambda>url.
       Inr \<lparr>pr_url = py_str url, pr_number = number_of d number_key, pr_is_draft = True\<rparr>)"

definition parse_bitbucket_pr :: "(string, json) dict \<Rightarrow> exn + pull_request" where
  "parse_bitbucket_pr d =
     (let html = (case get_or d ''links'' JNull of JObj links \<Rightarrow> get_or links ''html'' JNull | _ \<Rightarrow> JNull);
          url = (case html of JObj h \<Rightarrow> get_or h ''href'' JNull | _ \<Rightarrow> JNull)
      in if \<not> j_true url then Inl (GitError ''bitbucket API returned no PR URL'')
         else Inr \<lparr>pr_url = py_str url, pr_number = number_of d ''id'', pr_is_draft = True\<rparr>)"

datatype forge =
    GithubApiForge string
  | GitlabApiForge string
  | GiteaApiForge string
  | BitbucketApiForge string string
  | AutoForge "(string, string) dict"
  | GhForge

text \<open>The payload of each API.\<close>

fun forge_payload :: "forge \<Rightarrow> string \<Rightarrow> string \<Rightarrow> string \<Rightarrow> string \<Rightarrow> json" where
  "forge_payload (GitlabApiForge _) branch base title body =
     JObj [(''source_branch'', JStr branch), (''target_branch'', JStr base), (''title'', JStr (''Draft: '' @ title)),
           (''description'', JStr body)]"
| "forge_payload (BitbucketApiForge _ _) branch base title body =
     JObj [(''title'', JStr title), (''source'', JObj [(''branch'', JObj [(''name'', JStr branch)])]),
           (''destination'', JObj [(''branch'', JObj [(''name'', JStr base)])]), (''description'', JStr body),
           (''draft'', JBool True)]"
| "forge_payload _ branch base title body =
     JObj [(''title'', JStr title), (''head'', JStr branch), (''base'', JStr base), (''body'', JStr body), (''draft'', JBool True)]"

fun forge_headers :: "forge \<Rightarrow> (string, string) dict" where
  "forge_headers (GithubApiForge token) =
     [(''Authorization'', ''Bearer '' @ token), (''Accept'', ''application/vnd.github+json''),
      (''X-GitHub-Api-Version'', ''2022-11-28''), (''Content-Type'', ''application/json'')]"
| "forge_headers (GitlabApiForge token) = [(''PRIVATE-TOKEN'', token), (''Content-Type'', ''application/json'')]"
| "forge_headers (GiteaApiForge token) = [(''Authorization'', ''token '' @ token), (''Content-Type'', ''application/json'')]"
| "forge_headers (BitbucketApiForge username token) =
     [(''Authorization'', ''Basic '' @ b64encode (utf8 (username @ '':'' @ token))), (''Accept'', ''application/json''),
      (''Content-Type'', ''application/json'')]"
| "forge_headers _ = []"

fun forge_url :: "forge \<Rightarrow> remote \<Rightarrow> string" where
  "forge_url (GithubApiForge _) re =
     (if lower (re_host re) = ''github.com'' then ''https://api.github.com'' else ''https://'' @ re_host re @ ''/api/v3'') @
     ''/repos/'' @ re_path re @ ''/pulls''"
| "forge_url (GitlabApiForge _) re =
     ''https://'' @ re_host re @ ''/api/v4/projects/'' @ quote_all (re_path re) @ ''/merge_requests''"
| "forge_url (GiteaApiForge _) re = ''https://'' @ re_host re @ ''/api/v1/repos/'' @ re_path re @ ''/pulls''"
| "forge_url (BitbucketApiForge _ _) re = ''https://api.bitbucket.org/2.0/repositories/'' @ re_path re @ ''/pullrequests''"
| "forge_url _ re = []"

fun forge_provider :: "forge \<Rightarrow> string" where
  "forge_provider (GithubApiForge _) = ''github''"
| "forge_provider (GitlabApiForge _) = ''gitlab''"
| "forge_provider (GiteaApiForge _) = ''gitea''"
| "forge_provider (BitbucketApiForge _ _) = ''bitbucket''"
| "forge_provider _ = []"

fun forge_parse :: "forge \<Rightarrow> (string, json) dict \<Rightarrow> exn + pull_request" where
  "forge_parse (GitlabApiForge _) = parse_pr ''web_url'' ''iid''"
| "forge_parse (BitbucketApiForge _ _) = parse_bitbucket_pr"
| "forge_parse _ = parse_pr ''html_url'' ''number''"

text \<open>\<open>open_draft_pr\<close> of the four API forges.\<close>

definition api_open ::
  "'w machine \<Rightarrow> 'w http_post \<Rightarrow> forge \<Rightarrow> string \<Rightarrow> string \<Rightarrow> string \<Rightarrow> string \<Rightarrow> string \<Rightarrow> ('w, pull_request) prog" where
  "api_open M http_post fg repo_path branch base title body =
     bindE (bindE (read_origin M repo_path) (\<lambda>origin. liftR (parse_remote origin))) (\<lambda>re.
       forge_post http_post (forge_url fg re) (forge_headers fg) (json_dumps (forge_payload fg branch base title body))
         (forge_provider fg) (forge_parse fg))"

section \<open>The choice of a forge\<close>

definition forge_tokens :: "(string \<times> ((string \<Rightarrow> forge) \<times> string list)) list" where
  "forge_tokens =
     [(''github'', (GithubApiForge, [''GH_TOKEN'', ''GITHUB_TOKEN''])), (''gitlab'', (GitlabApiForge, [''GITLAB_TOKEN''])),
      (''gitea'', (GiteaApiForge, [''GITEA_TOKEN'']))]"

definition forge_providers :: "string list" where
  "forge_providers = [''bitbucket'', ''gitea'', ''github'', ''gitlab'']"

definition forge_for :: "string \<Rightarrow> (string, string) dict \<Rightarrow> exn + forge" where
  "forge_for provider env =
     (if provider = ''bitbucket'' then
        (case (first_env env [''BITBUCKET_TOKEN''], first_env env [''BITBUCKET_USERNAME'', ''BITBUCKET_EMAIL'', ''ATLASSIAN_EMAIL'']) of
           (Some token, Some username) \<Rightarrow> Inr (BitbucketApiForge username token)
         | _ \<Rightarrow> Inl (GitError ''bitbucket needs BITBUCKET_TOKEN and BITBUCKET_USERNAME (or BITBUCKET_EMAIL)''))
      else case map_of forge_tokens provider of
             None \<Rightarrow> Inl (GitError (''unknown forge provider '' @ py_repr provider))
           | Some (cls, token_envs) \<Rightarrow>
               (case first_env env token_envs of
                  None \<Rightarrow> Inl (GitError (''no '' @ provider @ '' token; set one of '' @ join '', '' token_envs))
                | Some token \<Rightarrow> Inr (cls token)))"

definition gh_open :: "'w machine \<Rightarrow> string \<Rightarrow> string \<Rightarrow> string \<Rightarrow> string \<Rightarrow> string \<Rightarrow> ('w, pull_request) prog" where
  "gh_open M repo_path branch base title body =
     bindE (m_run M [''gh'', ''pr'', ''create'', ''--draft'', ''--base'', base, ''--head'', branch, ''--title'', title,
                     ''--body'', body] repo_path None) (\<lambda>r.
       if cm_returncode r \<noteq> 0
       then raise (GitError (let err = strip (cm_stderr r) in if err \<noteq> [] then err else ''gh pr create failed''))
       else ret \<lparr>pr_url = (if strip (cm_stdout r) \<noteq> [] then last (splitlines (strip (cm_stdout r))) else []),
                 pr_number = None, pr_is_draft = True\<rparr>)"

fun open_draft_pr ::
  "'w machine \<Rightarrow> 'w http_post \<Rightarrow> forge \<Rightarrow> string \<Rightarrow> string \<Rightarrow> string \<Rightarrow> string \<Rightarrow> string \<Rightarrow> ('w, pull_request) prog" where
  "open_draft_pr M http_post GhForge repo_path branch base title body = gh_open M repo_path branch base title body"
| "open_draft_pr M http_post (AutoForge env) repo_path branch base title body =
     bindE (bindE (read_origin M repo_path) (\<lambda>origin. liftR (parse_remote origin))) (\<lambda>re.
       bindE (liftR (forge_for (provider_for_host (re_host re)) env)) (\<lambda>fg.
         api_open M http_post fg repo_path branch base title body))"
| "open_draft_pr M http_post fg repo_path branch base title body = api_open M http_post fg repo_path branch base title body"

definition build_forge :: "(string, string) dict \<Rightarrow> exn + forge" where
  "build_forge env =
     (let choice = lower (strip (or_else (dict_get env ''DEAR_AGENT_FORGE'') ''auto'')) in
      if choice \<in> {''gh'', ''cli''} then Inr GhForge
      else if choice = ''auto'' then Inr (AutoForge env)
      else if choice \<notin> set forge_providers
      then Inl (GitError (''unknown DEAR_AGENT_FORGE '' @ py_repr choice @ ''; expected auto|'' @ join ''|'' forge_providers @ ''|gh''))
      else forge_for choice env)"

section \<open>What is sent\<close>

text \<open>A POST that keeps what it was asked to send.\<close>

definition recorded_post ::
  "'w http_post \<Rightarrow> ('w \<times> (string \<times> (string, string) dict \<times> string) list) http_post" where
  "recorded_post p url headers body = (\<lambda>(w, sent). case p url headers body w of (r, w') \<Rightarrow> (r, (w', sent @ [(url, headers, body)])))"

text \<open>The machine beside it.\<close>

definition beside :: "'w machine \<Rightarrow> ('w \<times> 'b) machine" where
  "beside M =
     \<lparr>m_run = (\<lambda>argv cwd env (w, b). case m_run M argv cwd env w of (r, w') \<Rightarrow> (r, (w', b))),
      m_resolve = (\<lambda>p (w, b). m_resolve M p w), m_exists = (\<lambda>p (w, b). m_exists M p w),
      m_mkdir = (\<lambda>p (w, b). case m_mkdir M p w of (r, w') \<Rightarrow> (r, (w', b))),
      m_rmtree = (\<lambda>p (w, b). (m_rmtree M p w, b)), m_environ = m_environ M,
      m_timed_run = (\<lambda>argv cwd env n (w, b). case m_timed_run M argv cwd env n w of (r, w') \<Rightarrow> (r, (w', b))),
      m_which = (\<lambda>p (w, b). m_which M p w), m_expanduser = m_expanduser M,
      m_listdir = (\<lambda>p (w, b). m_listdir M p w), m_read_text = (\<lambda>p (w, b). m_read_text M p w),
      m_write_text = (\<lambda>p t (w, b). case m_write_text M p t w of (r, w') \<Rightarrow> (r, (w', b))),
      m_uuid = (\<lambda>(w, b). case m_uuid M w of (u, w') \<Rightarrow> (u, (w', b)))\<rparr>"

lemma origin_beside: "read_origin (beside M) path (w, b) = (case read_origin M path w of (r, w') \<Rightarrow> (r, (w', b)))"
  by (auto simp: read_origin_def bindE_def beside_def split: prod.split sum.split)

text \<open>A request for a draft from the branch to the base, as each API expects it.\<close>

fun asks_for_draft :: "string \<Rightarrow> string \<Rightarrow> string \<Rightarrow> json \<Rightarrow> bool" where
  "asks_for_draft branch base title (JObj d) =
     ((dict_get d ''draft'' = Some (JBool True) \<and> dict_get d ''title'' = Some (JStr title) \<and>
         (dict_get d ''head'' = Some (JStr branch) \<and> dict_get d ''base'' = Some (JStr base) \<or>
          dict_get d ''source'' = Some (JObj [(''branch'', JObj [(''name'', JStr branch)])]) \<and>
          dict_get d ''destination'' = Some (JObj [(''branch'', JObj [(''name'', JStr base)])]))) \<or>
      dict_get d ''title'' = Some (JStr (''Draft: '' @ title)) \<and> dict_get d ''source_branch'' = Some (JStr branch) \<and>
         dict_get d ''target_branch'' = Some (JStr base))"
| "asks_for_draft branch base title v = False"

lemma payload_asks:
  "\<exists>v. json_loads (json_dumps (forge_payload fg branch base title body)) = Inr v \<and> asks_for_draft branch base title v"
proof -
  have "json_plain (forge_payload fg branch base title body)" by (cases fg) simp_all
  then have "json_loads (json_dumps (forge_payload fg branch base title body)) = Inr (forge_payload fg branch base title body)"
    by (rule loads_dumps_plain)
  moreover have "asks_for_draft branch base title (forge_payload fg branch base title body)" by (cases fg) simp_all
  ultimately show ?thesis by blast
qed

lemma parse_is_draft: "forge_parse fg d = Inr pr \<Longrightarrow> pr_is_draft pr"
  by (cases fg) (auto simp: parse_pr_def parse_bitbucket_pr_def bindR_Inr Let_def split: if_splits)

lemma forge_post_sends:
  assumes "forge_post (recorded_post p) url headers payload provider parse (w, sent) = (r, (w', sent'))"
  shows "sent' = sent @ [(url, headers, payload)] \<and> (\<forall>pr. r = Inr pr \<longrightarrow> (\<exists>d. parse d = Inr pr))"
proof -
  obtain x w1 where "p url headers payload w = (x, w1)" by fastforce
  then show ?thesis using assms
    by (cases x) (auto simp: forge_post_def recorded_post_def bindE_def split: if_splits sum.splits json.splits exn.splits)
qed

lemma api_open_sends:
  assumes "api_open (beside M) (recorded_post p) fg path branch base title body (w, sent) = (r, (w', sent'))"
  shows "(sent' = sent \<and> isl r \<or>
      (\<exists>re. sent' = sent @ [(forge_url fg re, forge_headers fg, json_dumps (forge_payload fg branch base title body))] \<and>
         (\<exists>origin. parse_remote origin = Inr re))) \<and> (\<forall>pr. r = Inr pr \<longrightarrow> pr_is_draft pr)"
proof -
  obtain x w1 where o1: "read_origin M path w = (x, w1)" by fastforce
  show ?thesis
  proof (cases x)
    case (Inl e) then show ?thesis using assms o1 by (auto simp: api_open_def origin_beside bindE_def)
  next
    case (Inr origin)
    show ?thesis
    proof (cases "parse_remote origin")
      case (Inl e) then show ?thesis using assms o1 Inr by (auto simp: api_open_def origin_beside bindE_def)
    next
      case (Inr re)
      then have "forge_post (recorded_post p) (forge_url fg re) (forge_headers fg)
          (json_dumps (forge_payload fg branch base title body)) (forge_provider fg) (forge_parse fg) (w1, sent) = (r, (w', sent'))"
        using assms o1 \<open>x = Inr origin\<close> by (simp add: api_open_def origin_beside bindE_def)
      from forge_post_sends [OF this] Inr show ?thesis by (auto dest: parse_is_draft)
    qed
  qed
qed


definition ex_machine :: "string \<Rightarrow> unit machine" where
  "ex_machine origin =
     \<lparr>m_run = (\<lambda>argv cwd env w. (Inr \<lparr>cm_returncode = 0, cm_stdout = origin @ newline, cm_stderr = []\<rparr>, w)),
      m_resolve = (\<lambda>p w. p), m_exists = (\<lambda>p w. True), m_mkdir = (\<lambda>p w. (Inr (), w)), m_rmtree = (\<lambda>p w. w),
      m_environ = [], m_timed_run = (\<lambda>argv cwd env n w. (Inl (OSError []), w)), m_which = (\<lambda>p w. None),
      m_expanduser = (\<lambda>p. p), m_listdir = (\<lambda>p w. []), m_read_text = (\<lambda>p w. Inl (OSError [])),
      m_write_text = (\<lambda>p t w. (Inr (), w)), m_uuid = (\<lambda>w. ([], w))\<rparr>"

definition ex_created :: "unit http_post" where
  "ex_created url headers body = ret (201, json_dumps (JObj [(''html_url'', JStr ''u''), (''number'', JInt 7)]))"


section \<open>Whom the token is sent to\<close>

text \<open>
  The automatic forge sends the GitHub token to any host it does not know: when the host of the origin names no
  known provider, the one request it makes goes to that host and carries the token.
\<close>

theorem github_token_sent_to_unknown_host:
  assumes "read_origin M path w = (Inr origin, w)" and "parse_remote origin = Inr re"
    and "\<forall>marker \<in> set [''github'', ''gitlab'', ''bitbucket'', ''gitea'', ''forgejo'', ''codeberg'']. \<not> contains (lower (re_host re)) marker"
    and "first_env env [''GH_TOKEN'', ''GITHUB_TOKEN''] = Some token"
  shows "\<exists>r w'. open_draft_pr (beside M) (recorded_post p) (AutoForge env) path branch base title body (w, []) =
      (r, (w', [(''https://'' @ re_host re @ ''/api/v3/repos/'' @ re_path re @ ''/pulls'', forge_headers (GithubApiForge token),
        json_dumps (forge_payload (GithubApiForge token) branch base title body))])) \<and>
    dict_get (forge_headers (GithubApiForge token)) ''Authorization'' = Some (''Bearer '' @ token)"
proof -
  have gh: "provider_for_host (re_host re) = ''github''" using assms(3) by (simp add: provider_for_host_def Let_def)
  have ghe: "lower (re_host re) \<noteq> ''github.com''"
  proof
    assume "lower (re_host re) = ''github.com''"
    moreover have "contains ''github.com'' ''github''" by code_simp
    ultimately show False using assms(3) by simp
  qed
  have fg: "forge_for ''github'' env = Inr (GithubApiForge token)" using assms(4) by (simp add: forge_for_def forge_tokens_def)
  obtain x w1 where post: "p (''https://'' @ re_host re @ ''/api/v3/repos/'' @ re_path re @ ''/pulls'') (forge_headers (GithubApiForge token))
      (json_dumps (forge_payload (GithubApiForge token) branch base title body)) w = (x, w1)" by fastforce
  obtain r w' sent where run: "open_draft_pr (beside M) (recorded_post p) (AutoForge env) path branch base title body (w, []) = (r, (w', sent))"
    by (metis prod.exhaust)
  have "open_draft_pr (beside M) (recorded_post p) (AutoForge env) path branch base title body (w, []) =
      api_open (beside M) (recorded_post p) (GithubApiForge token) path branch base title body (w, [])"
    using assms(1,2) gh fg by (simp add: origin_beside bindE_def)
  with run have api: "api_open (beside M) (recorded_post p) (GithubApiForge token) path branch base title body (w, []) = (r, (w', sent))"
    by simp
  have "forge_post (recorded_post p) (forge_url (GithubApiForge token) re) (forge_headers (GithubApiForge token))
      (json_dumps (forge_payload (GithubApiForge token) branch base title body)) (forge_provider (GithubApiForge token))
      (forge_parse (GithubApiForge token)) (w, []) = (r, (w', sent))"
    using api assms(1,2) by (simp add: api_open_def origin_beside bindE_def)
  from forge_post_sends [OF this] ghe run show ?thesis by simp
qed

theorem github_token_sent_to_unknown_host_witness:
  "\<exists>r w'. open_draft_pr (beside (ex_machine ''git:o/r'')) (recorded_post ex_created) (AutoForge [(''GH_TOKEN'', ''s'')]) ''/r'' ''b'' ''main'' ''t'' [] ((), []) =
      (r, (w', [(''https://git/api/v3/repos/o/r/pulls'', forge_headers (GithubApiForge ''s''),
        json_dumps (forge_payload (GithubApiForge ''s'') ''b'' ''main'' ''t'' []))]))"
proof -
  have o: "read_origin (ex_machine ''git:o/r'') ''/r'' () = (Inr ''git:o/r'', ())" by code_simp
  have re: "parse_remote ''git:o/r'' = Inr \<lparr>re_host = ''git'', re_path = ''o/r''\<rparr>" by code_simp
  have none: "\<forall>marker \<in> set [''github'', ''gitlab'', ''bitbucket'', ''gitea'', ''forgejo'', ''codeberg''].
      \<not> contains (lower (re_host \<lparr>re_host = ''git'', re_path = ''o/r''\<rparr>)) marker" by code_simp
  have tok: "first_env [(''GH_TOKEN'', ''s'')] [''GH_TOKEN'', ''GITHUB_TOKEN''] = Some ''s''" by code_simp
  from github_token_sent_to_unknown_host [OF o re none tok, of ex_created "''b''" "''main''" "''t''" "[]"] show ?thesis by auto
qed

section \<open>Forms of a remote\<close>

definition host_chars :: string where "host_chars = ''abcdefghijklmnopqrstuvwxyz0123456789-.''"

definition path_chars :: string where
  "path_chars = ''abcdefghijklmnopqrstuvwxyzABCDEFGHIJKLMNOPQRSTUVWXYZ0123456789-._/''"

lemma no_space_chars: "\<forall>c \<in> set (host_chars @ path_chars @ '':''). \<not> isspace c"
  by code_simp

lemma strip_no_space: "\<forall>c \<in> set s. \<not> isspace c \<Longrightarrow> strip s = s"
proof -
  assume a: "\<forall>c \<in> set s. \<not> isspace c"
  then have "dropWhile isspace s = s" by (cases s) simp_all
  moreover have "dropWhile isspace (rev s) = rev s" using a by (cases s rule: rev_cases) simp_all
  ultimately show ?thesis by (simp add: strip_def lstrip_def rstrip_def)
qed

lemma cut_at_char: "c \<notin> set x \<Longrightarrow> cut_at [c] (x @ c # y) = Some (x, y)"
  by (induction x) (auto simp: startswith_def)

lemma cut_at_absent: "c \<notin> set x \<Longrightarrow> cut_at [c] x = None"
  by (induction x) (auto simp: startswith_def)

lemma after_last_char:
  assumes "c \<notin> set y" shows "after_last c (x @ c # y) = y" and "after_last c y = y"
proof -
  have "takeWhile (\<lambda>x. x \<noteq> c) (rev y) = rev y" using assms by (auto simp: takeWhile_eq_all_conv)
  then show "after_last c y = y" by (simp only: after_last_def rev_rev_ident)
  show "after_last c (x @ c # y) = y" using assms by (simp add: after_last_def takeWhile_append)
qed

lemma before_absent: "\<forall>c \<in> set s. c \<notin> set seps \<Longrightarrow> before seps s = s"
  by (simp add: before_def takeWhile_eq_all_conv)

lemma before_at: "\<forall>c \<in> set s. c \<notin> set seps \<Longrightarrow> c \<in> set seps \<Longrightarrow> before seps (s @ c # t) = s"
  by (simp add: before_def takeWhile_append)

lemma split_params_absent: "CHR '';'' \<notin> set path \<Longrightarrow> split_params path = path"
proof -
  assume a: "CHR '';'' \<notin> set path"
  obtain u where u: "path = u @ after_last CHR ''/'' path"
    unfolding after_last_def by (metis rev_append rev_rev_ident takeWhile_dropWhile_id)
  then have "CHR '';'' \<notin> set (after_last CHR ''/'' path)" using a by (metis Un_iff set_append)
  then have b: "before '';'' (after_last CHR ''/'' path) = after_last CHR ''/'' path" by (intro before_absent) auto
  have "take (length path - length (after_last CHR ''/'' path)) path = u" using u by (metis append_eq_conv_conj diff_add_inverse2 length_append)
  then show ?thesis using u b by (simp add: split_params_def)
qed

text \<open>A host and a path as they appear in remotes.\<close>

definition plain_remote :: "string \<Rightarrow> string \<Rightarrow> bool" where
  "plain_remote h p \<longleftrightarrow> h \<noteq> [] \<and> set h \<subseteq> set host_chars \<and> p \<noteq> [] \<and> set p \<subseteq> set path_chars \<and>
     hd p \<noteq> CHR ''/'' \<and> last p \<noteq> CHR ''/'' \<and> \<not> endswith p ''.git''"

lemma plain_host:
  assumes "set h \<subseteq> set host_chars"
  shows "CHR '':'' \<notin> set h" "CHR 0x40 \<notin> set h" "CHR ''['' \<notin> set h" "CHR '']'' \<notin> set h" "CHR ''%'' \<notin> set h"
    "\<forall>c \<in> set h. c \<notin> set ''/?#''" "\<forall>c \<in> set h. c \<notin> set '':''" "lower h = h" "\<forall>c \<in> set h. \<not> isspace c"
    "filter (\<lambda>c. c \<noteq> CHR 0x09 \<and> c \<noteq> CHR 0x0A \<and> c \<noteq> CHR 0x0D) h = h"
proof -
  have all: "\<forall>c \<in> set host_chars. c \<notin> {CHR '':'', CHR 0x40, CHR ''['', CHR '']'', CHR ''%'', CHR ''/'', CHR ''?'', CHR ''#'',
      CHR 0x09, CHR 0x0A, CHR 0x0D} \<and> lower_char c = c \<and> \<not> isspace c"
    by code_simp
  then have each: "c \<notin> {CHR '':'', CHR 0x40, CHR ''['', CHR '']'', CHR ''%'', CHR ''/'', CHR ''?'', CHR ''#'',
      CHR 0x09, CHR 0x0A, CHR 0x0D} \<and> lower_char c = c \<and> \<not> isspace c" if "c \<in> set h" for c
    using assms that by blast
  show "CHR '':'' \<notin> set h" "CHR 0x40 \<notin> set h" "CHR ''['' \<notin> set h" "CHR '']'' \<notin> set h" "CHR ''%'' \<notin> set h"
    using each [of "CHR '':''"] each [of "CHR 0x40"] each [of "CHR ''[''"] each [of "CHR '']''"] each [of "CHR ''%''"]
    by (simp_all only: insertI1 insertI2 simp_thms) auto
  show "\<forall>c \<in> set h. c \<notin> set ''/?#''" "\<forall>c \<in> set h. c \<notin> set '':''" by (intro ballI, drule each, simp)+
  show "lower h = h" unfolding lower_def by (rule map_idI) (drule each, simp)
  show "\<forall>c \<in> set h. \<not> isspace c" by (intro ballI) (drule each, simp)
  show "filter (\<lambda>c. c \<noteq> CHR 0x09 \<and> c \<noteq> CHR 0x0A \<and> c \<noteq> CHR 0x0D) h = h" by (rule filter_True) (intro ballI, drule each, simp)
qed

lemma plain_path:
  assumes "set p \<subseteq> set path_chars"
  shows "CHR '':'' \<notin> set p" "CHR '';'' \<notin> set p" "\<forall>c \<in> set p. c \<notin> set ''?''" "\<forall>c \<in> set p. c \<notin> set ''#''"
    "\<forall>c \<in> set p. \<not> isspace c" "filter (\<lambda>c. c \<noteq> CHR 0x09 \<and> c \<noteq> CHR 0x0A \<and> c \<noteq> CHR 0x0D) p = p"
proof -
  have all: "\<forall>c \<in> set path_chars. c \<notin> {CHR '':'', CHR '';'', CHR ''?'', CHR ''#'', CHR 0x09, CHR 0x0A, CHR 0x0D} \<and> \<not> isspace c"
    by code_simp
  then have each: "c \<notin> {CHR '':'', CHR '';'', CHR ''?'', CHR ''#'', CHR 0x09, CHR 0x0A, CHR 0x0D} \<and> \<not> isspace c" if "c \<in> set p" for c
    using assms that by blast
  show "CHR '':'' \<notin> set p" "CHR '';'' \<notin> set p" using each [of "CHR '':''"] each [of "CHR '';''"] by (simp_all only: insertI1 insertI2 simp_thms) auto
  show "\<forall>c \<in> set p. c \<notin> set ''?''" "\<forall>c \<in> set p. c \<notin> set ''#''" by (intro ballI, drule each, simp)+
  show "\<forall>c \<in> set p. \<not> isspace c" by (intro ballI) (drule each, simp)
  show "filter (\<lambda>c. c \<noteq> CHR 0x09 \<and> c \<noteq> CHR 0x0A \<and> c \<noteq> CHR 0x0D) p = p" by (rule filter_True) (intro ballI, drule each, simp)
qed

lemma no_double_slash:
  assumes x: "CHR '':'' \<notin> set x" and y: "CHR '':'' \<notin> set y" and "\<not> startswith y ''/''"
  shows "\<not> contains (x @ CHR '':'' # y) ''://''"
proof
  assume "contains (x @ CHR '':'' # y) ''://''"
  then obtain a b where eq: "x @ CHR '':'' # y = a @ CHR '':'' # ''//'' @ b" by (auto simp: contains_def dest: cut_Some)
  have "count_list (x @ CHR '':'' # y) CHR '':'' = 1" using x y by (simp add: count_list_0_iff)
  then have "CHR '':'' \<notin> set a" unfolding eq by (simp add: count_list_0_iff)
  then have "y = ''//'' @ b" using eq x by (metis append_Cons append_eq_append_conv2 cut_at_char option.inject prod.inject)
  then show False using assms(3) by (simp add: startswith_def)
qed

lemma parse_path:
  assumes "plain_remote h p" and "slash \<in> {[], ''/''}" and "suffix \<in> {[], ''.git''}"
  shows "without_git (strip_chars ''/'' (slash @ p @ suffix)) = p"
proof -
  have p: "p \<noteq> []" "hd p \<noteq> CHR ''/''" "last p \<noteq> CHR ''/''" "\<not> endswith p ''.git''" using assms(1) by (simp_all add: plain_remote_def)
  have "lstrip_chars ''/'' (slash @ p @ suffix) = p @ suffix"
    using p(1,2) assms(2) by (cases p) (auto simp: lstrip_chars_def)
  moreover have "rstrip_chars ''/'' (p @ suffix) = p @ suffix"
    using p(1,3) assms(3) by (cases p rule: rev_cases) (auto simp: rstrip_chars_def)
  ultimately have "strip_chars ''/'' (slash @ p @ suffix) = p @ suffix" by (simp add: strip_chars_def)
  then show ?thesis using p(4) assms(3) by (auto simp: without_git_def endswith_iff)
qed

lemma urlparse_plain:
  assumes h: "set h \<subseteq> set host_chars" and q: "set q \<subseteq> set path_chars"
    and "scheme \<in> {''https'', ''ssh''}" and "user \<in> {[], ''git'' @ [CHR 0x40]}"
  shows "urlparse (scheme @ ''://'' @ user @ h @ ''/'' @ q) = Inr (h, ''/'' @ q)"
proof -
  note H = plain_host [OF h] and Q = plain_path [OF q]
  let ?url = "scheme @ ''://'' @ user @ h @ ''/'' @ q"
  have clean: "filter (\<lambda>c. c \<noteq> CHR 0x09 \<and> c \<noteq> CHR 0x0A \<and> c \<noteq> CHR 0x0D) ?url = ?url"
    using assms(3,4) by (elim insertE emptyE) (simp_all add: H(10) Q(6))
  have "cut_at '':'' ?url = Some (scheme, ''//'' @ user @ h @ ''/'' @ q)"
    using cut_at_char [of "CHR '':''" scheme "''//'' @ user @ h @ ''/'' @ q"] assms(3) by (elim insertE emptyE) simp_all
  moreover have "scheme \<noteq> [] \<and> ascii_letter (hd scheme) \<and> (\<forall>c \<in> set scheme. scheme_char c)" "lower scheme = scheme"
    using assms(3) by (elim insertE emptyE; simp; code_simp)+
  ultimately have sch: "split_scheme ?url = (scheme, ''//'' @ user @ h @ ''/'' @ q)"
    unfolding split_scheme_def by simp
  have netloc: "before ''/?#'' (drop 2 (''//'' @ user @ h @ ''/'' @ q)) = user @ h"
    using before_at [of "user @ h" "''/?#''" "CHR ''/''" q] H(6) assms(4) by (elim insertE emptyE) simp_all
  have tail: "drop (2 + length (user @ h)) (''//'' @ user @ h @ ''/'' @ q) = ''/'' @ q" by simp
  have path: "before ''?'' (before ''#'' (''/'' @ q)) = ''/'' @ q" "split_params (''/'' @ q) = ''/'' @ q"
    using before_absent [of "''/'' @ q" "''#''"] before_absent [of "''/'' @ q" "''?''"] split_params_absent [of "''/'' @ q"] Q(2-4)
    by simp_all
  have "after_last CHR 0x40 (user @ h) = h"
    using after_last_char(1) [OF H(2), of "''git''"] after_last_char(2) [OF H(2)] assms(4) by (elim insertE emptyE) simp_all
  then have host: "hostname_of (user @ h) = h"
    using cut_at_absent [OF H(3)] cut_at_absent [OF H(5)] before_absent [OF H(7)] H(8) by (simp add: hostname_of_def)
  have br: "CHR ''['' \<notin> set (user @ h)" "CHR '']'' \<notin> set (user @ h)" using H(3,4) assms(4) by (elim insertE emptyE; simp)+
  show ?thesis
    unfolding urlparse_def clean Let_def sch
    using netloc path host br by (simp add: startswith_def)
qed

text \<open>
  Every usual form of a remote means the same repository: the SSH shorthand, an SSH URL and HTTPS URLs with and
  without \<open>.git\<close> are parsed to the same host and path.
\<close>

theorem remote_forms_agree:
  assumes "plain_remote h p"
  shows "parse_remote (''git'' @ [CHR 0x40] @ h @ '':'' @ p @ ''.git'') = Inr \<lparr>re_host = h, re_path = p\<rparr> \<and>
    parse_remote (''ssh://git'' @ [CHR 0x40] @ h @ ''/'' @ p @ ''.git'') = Inr \<lparr>re_host = h, re_path = p\<rparr> \<and>
    parse_remote (''https://'' @ h @ ''/'' @ p) = Inr \<lparr>re_host = h, re_path = p\<rparr> \<and>
    parse_remote (''https://'' @ h @ ''/'' @ p @ ''.git'') = Inr \<lparr>re_host = h, re_path = p\<rparr>"
proof -
  have hp: "h \<noteq> []" "set h \<subseteq> set host_chars" "p \<noteq> []" "set p \<subseteq> set path_chars" "hd p \<noteq> CHR ''/''"
    using assms by (simp_all add: plain_remote_def)
  note H = plain_host [OF hp(2)] and P = plain_path [OF hp(4)]
  have git: "set ''.git'' \<subseteq> set path_chars" by code_simp
  have url: "parse_remote (scheme @ ''://'' @ user @ h @ ''/'' @ p @ suffix) = Inr \<lparr>re_host = h, re_path = p\<rparr>"
    if "scheme \<in> {''https'', ''ssh''}" "user \<in> {[], ''git'' @ [CHR 0x40]}" "suffix \<in> {[], ''.git''}" for scheme user suffix
  proof -
    let ?url = "scheme @ ''://'' @ user @ h @ ''/'' @ p @ suffix"
    have q: "set (p @ suffix) \<subseteq> set path_chars" using hp(4) git that(3) by auto
    have "\<forall>c \<in> set (p @ suffix). \<not> isspace c" using plain_path(5) [OF q] .
    then have "\<forall>c \<in> set ?url. \<not> isspace c"
      using H(9) that(1,2) by (elim insertE emptyE) (simp_all add: isspace_def code_def ball_Un)
    then have st: "strip ?url = ?url" by (rule strip_no_space)
    have "cut_at ''://'' ?url \<noteq> None" using that(1) by (elim insertE emptyE) (simp_all add: startswith_def)
    then have sep: "contains ?url ''://''" unfolding contains_def .
    have ne: "?url \<noteq> []" by simp
    show ?thesis
      using urlparse_plain [OF hp(2) q that(1,2)] parse_path [OF assms, of "''/''" suffix] that(3) hp(1,3)
      unfolding parse_remote_def Let_def st using ne sep by simp
  qed
  have "parse_remote (''git'' @ [CHR 0x40] @ h @ '':'' @ p @ ''.git'') = Inr \<lparr>re_host = h, re_path = p\<rparr>"
  proof -
    let ?url = "(''git'' @ [CHR 0x40] @ h) @ CHR '':'' # p @ ''.git''"
    have "\<forall>c \<in> set ?url. \<not> isspace c"
      using H(9) P(5) by (simp add: isspace_def code_def ball_Un)
    then have st: "strip ?url = ?url" by (rule strip_no_space)
    have "\<not> contains ?url ''://''" by (rule no_double_slash) (use H(1) P(1) hp(3,5) in \<open>cases p; auto simp: startswith_def\<close>)+
    moreover have "cut_at '':'' ?url = Some (''git'' @ [CHR 0x40] @ h, p @ ''.git'')" by (rule cut_at_char) (use H(1) in auto)
    moreover have "after_last CHR 0x40 (''git'' @ [CHR 0x40] @ h) = h" using after_last_char(1) [OF H(2), of "''git''"] by simp
    ultimately have "parse_remote ?url = Inr \<lparr>re_host = h, re_path = p\<rparr>"
      using parse_path [OF assms, of "[]" "''.git''"] hp(1,3) unfolding parse_remote_def Let_def st by simp
    then show ?thesis by simp
  qed
  then show ?thesis
    using url [of "''ssh''" "''git'' @ [CHR 0x40]" "''.git''"] url [of "''https''" "[]" "[]"] url [of "''https''" "[]" "''.git''"] by simp
qed

theorem remote_forms_agree_witness:
  "parse_remote (''git'' @ [CHR 0x40] @ ''github.com:o/r.git'') = parse_remote ''https://github.com/o/r''"
  using remote_forms_agree [of "''github.com''" "''o/r''"]
  by (simp add: plain_remote_def host_chars_def path_chars_def endswith_def)

end
