(* ===== verification/Environment.thy ===== *)
theory Environment
  imports PyValue Runners
begin

text \<open>
  Execution environments (\<open>environment/descriptor.py\<close>, \<open>builder.py\<close>, \<open>bundle.py\<close>): the environment a repository declares,
  the image built from it and the portable harness bundle. The files of a checkout are read through a
  record of operations; \<open>yaml.safe_load\<close> is a parameter; the position in a JSON error is not kept.
\<close>

section \<open>Descriptors\<close>

text \<open>
  \<open>rf_glob d\<close>: the paths \<open>d.glob("*/devcontainer.json")\<close>; \<open>rf_read\<close>: \<open>read_text(encoding="utf-8")\<close>.
\<close>

record repo_files =
  rf_resolve :: "string \<Rightarrow> string"
  rf_is_file :: "string \<Rightarrow> bool"
  rf_is_dir :: "string \<Rightarrow> bool"
  rf_glob :: "string \<Rightarrow> string list"
  rf_read :: "string \<Rightarrow> exn + string"

record descriptor =
  ed_kind :: string
  ed_path :: "string option"
  ed_image :: "string option"
  ed_dockerfile :: "string option"
  ed_context :: "string option"
  ed_detail :: string

definition new_descriptor :: "string \<Rightarrow> string option \<Rightarrow> string \<Rightarrow> descriptor" where
  "new_descriptor kind path detail =
     \<lparr>ed_kind = kind, ed_path = path, ed_image = None, ed_dockerfile = None, ed_context = None, ed_detail = detail\<rparr>"

definition has_image :: "descriptor \<Rightarrow> bool" where
  "has_image d \<longleftrightarrow> truthy (ed_image d)"

definition has_build :: "descriptor \<Rightarrow> bool" where
  "has_build d \<longleftrightarrow> ed_dockerfile d \<noteq> None"

definition DEV_CONTAINER_LOCATIONS :: "string list" where
  "DEV_CONTAINER_LOCATIONS = [''.devcontainer/devcontainer.json'', ''.devcontainer.json'']"

definition ANSIBLE_EE_FILES :: "string list" where
  "ANSIBLE_EE_FILES = [''execution-environment.yml'', ''execution-environment.yaml'', ''execution_environment.yml'',
     ''execution_environment.yaml'']"

definition CONTAINERFILE_FILES :: "string list" where
  "CONTAINERFILE_FILES = [''Containerfile'', ''Dockerfile'']"

definition TOOL_VERSION_FILES :: "string list" where
  "TOOL_VERSION_FILES = [''mise.toml'', ''.mise.toml'', ''.tool-versions'']"

text \<open>\<open>path.parent\<close> and \<open>path.name\<close> of an absolute path.\<close>

definition path_name :: "string \<Rightarrow> string" where
  "path_name p = after_last CHR ''/'' p"

definition path_parent :: "string \<Rightarrow> string" where
  "path_parent p =
     (let dir = take (length p - length (path_name p)) p in if length dir \<le> 1 then dir else butlast dir)"

definition is_within :: "string \<Rightarrow> string \<Rightarrow> bool" where
  "is_within repo p \<longleftrightarrow> p = repo \<or> startswith p (if endswith repo ''/'' then repo else repo @ ''/'')"

section \<open>JSON with comments\<close>

fun skip_block :: "string \<Rightarrow> string" where
  "skip_block (x # y # r) = (if x = CHR ''*'' \<and> y = CHR ''/'' then r else skip_block (y # r))"
| "skip_block _ = []"

lemma skip_block_length: "length (skip_block s) \<le> length s"
  by (induction s rule: skip_block.induct) auto

text \<open>The loop of \<open>_strip_jsonc\<close>: whether it is inside a string and after a backslash there.\<close>

function strip_from :: "bool \<Rightarrow> bool \<Rightarrow> string \<Rightarrow> string" where
  "strip_from in_string escape [] = []"
| "strip_from in_string escape (c # cs) =
     (if in_string then
        c # (if escape then strip_from True False cs
             else if c = backslash then strip_from True True cs
             else if c = dquote then strip_from False False cs
             else strip_from True False cs)
      else if c = dquote then c # strip_from True escape cs
      else if c = CHR ''/'' \<and> startswith cs ''/'' then
        strip_from False escape (dropWhile (\<lambda>x. x \<noteq> CHR 0x0D \<and> x \<noteq> CHR 0x0A) (tl cs))
      else if c = CHR ''/'' \<and> startswith cs ''*'' then strip_from False escape (skip_block (tl cs))
      else c # strip_from False escape cs)"
  by pat_completeness auto
termination
  by (relation "measure (\<lambda>(i, e, s). length s)")
    (auto intro: le_less_trans [OF length_dropWhile_le] le_less_trans [OF skip_block_length] simp: less_Suc_eq_le
      intro!: le_imp_less_Suc order.trans [OF length_dropWhile_le] order.trans [OF skip_block_length])

declare strip_from.simps [simp del]

definition strip_jsonc :: "string \<Rightarrow> string" where
  "strip_jsonc text = strip_from False False text"

definition load_jsonc :: "string \<Rightarrow> exn + json" where
  "load_jsonc text =
     (case json_loads text of
        Inl (JSONDecodeError _) \<Rightarrow> json_loads (strip_jsonc text)
      | r \<Rightarrow> r)"

section \<open>The finders\<close>

text \<open>\<open>except (OSError, ValueError)\<close> and \<open>except (OSError, yaml.YAMLError)\<close>.\<close>

definition is_os_or_value_error :: "exn \<Rightarrow> bool" where
  "is_os_or_value_error e \<longleftrightarrow>
     (case e of OSError _ \<Rightarrow> True | FileNotFoundError _ \<Rightarrow> True | ValueError _ \<Rightarrow> True | JSONDecodeError _ \<Rightarrow> True | _ \<Rightarrow> False)"

definition is_os_or_yaml_error :: "exn \<Rightarrow> bool" where
  "is_os_or_yaml_error e \<longleftrightarrow>
     (case e of OSError _ \<Rightarrow> True | FileNotFoundError _ \<Rightarrow> True | YAMLError _ \<Rightarrow> True | _ \<Rightarrow> False)"

definition features_note :: "(string, json) dict \<Rightarrow> string" where
  "features_note data =
     (case dict_get data ''features'' of
        Some (JObj fs) \<Rightarrow> if fs \<noteq> [] then show_int (int (length fs)) @ '' dev container feature(s)'' else []
      | _ \<Rightarrow> [])"

text \<open>A stripped text value, if it is one and not blank.\<close>

definition named :: "json \<Rightarrow> string option" where
  "named v = (case v of JStr s \<Rightarrow> if strip s \<noteq> [] then Some (strip s) else None | _ \<Rightarrow> None)"

text \<open>\<open>a or b\<close> on JSON values.\<close>

definition j_or :: "json \<Rightarrow> json \<Rightarrow> json" where
  "j_or a b = (if j_true a then a else b)"

definition devcontainer_build :: "repo_files \<Rightarrow> (string, json) dict \<Rightarrow> string \<Rightarrow> (string \<times> string) option" where
  "devcontainer_build F data directory =
     (let build = get_or data ''build'' JNull;
          locate = (\<lambda>p. rf_resolve F (path_join directory p));
          nested = (case build of
             JObj b \<Rightarrow>
               (case named (j_or (get_or b ''dockerfile'' JNull) (get_or b ''dockerFile'' JNull)) of
                  Some f \<Rightarrow> Some (locate f, locate (py_str (j_or (get_or b ''context'' JNull) (JStr ''.''))))
                | None \<Rightarrow> None)
           | _ \<Rightarrow> None)
      in case (named build, nested) of
           (Some f, _) \<Rightarrow> Some (locate f, rf_resolve F directory)
         | (None, Some r) \<Rightarrow> Some r
         | (None, None) \<Rightarrow>
             (case named (get_or data ''dockerFile'' JNull) of
                Some f \<Rightarrow> Some (locate f, locate (py_str (j_or (get_or data ''context'' JNull) (JStr ''.''))))
              | None \<Rightarrow> None))"

definition parse_devcontainer :: "repo_files \<Rightarrow> string \<Rightarrow> string \<Rightarrow> exn + descriptor" where
  "parse_devcontainer F path repo =
     (case bindR (rf_read F path) load_jsonc of
        Inl e \<Rightarrow> if is_os_or_value_error e then Inr (new_descriptor ''devcontainer'' (Some path) (''unreadable: '' @ exn_text e)) else Inl e
      | Inr (JObj data) \<Rightarrow>
          (case named (get_or data ''image'' JNull) of
             Some img \<Rightarrow> Inr ((new_descriptor ''devcontainer'' (Some path) (features_note data))\<lparr>ed_image := Some img\<rparr>)
           | None \<Rightarrow>
               (case devcontainer_build F data (path_parent path) of
                  None \<Rightarrow> Inr (new_descriptor ''devcontainer'' (Some path) ''no image or build'')
                | Some (dockerfile, context) \<Rightarrow>
                    if \<not> (is_within repo dockerfile \<and> is_within repo context)
                    then Inr (new_descriptor ''devcontainer'' (Some path) ''build path outside the repository'')
                    else let detail = ''build '' @ path_name dockerfile; features = features_note data in
                      Inr ((new_descriptor ''devcontainer'' (Some path)
                              (if features \<noteq> [] then detail @ '' ('' @ features @ '')'' else detail))
                             \<lparr>ed_dockerfile := Some dockerfile, ed_context := Some context\<rparr>)))
      | Inr _ \<Rightarrow> Inr (new_descriptor ''devcontainer'' (Some path) ''not a JSON object''))"

definition first_file :: "repo_files \<Rightarrow> string \<Rightarrow> string list \<Rightarrow> string option" where
  "first_file F repo names = List.find (rf_is_file F) (map (path_join repo) names)"

text \<open>\<open>sorted\<close> compares paths part by part.\<close>

definition sorted_paths :: "string list \<Rightarrow> string list" where
  "sorted_paths ps = sort_key (split_on CHR ''/'') ps"

definition find_devcontainer :: "repo_files \<Rightarrow> string \<Rightarrow> exn + descriptor option" where
  "find_devcontainer F repo =
     (case first_file F repo DEV_CONTAINER_LOCATIONS of
        Some candidate \<Rightarrow> bindR (parse_devcontainer F candidate repo) (\<lambda>d. Inr (Some d))
      | None \<Rightarrow>
          let dir = path_join repo ''.devcontainer'' in
          if rf_is_dir F dir then
            (case sorted_paths (rf_glob F dir) of
               candidate # _ \<Rightarrow> bindR (parse_devcontainer F candidate repo) (\<lambda>d. Inr (Some d))
             | [] \<Rightarrow> Inr None)
          else Inr None)"

definition parse_ansible_ee :: "(string \<Rightarrow> exn + json) \<Rightarrow> repo_files \<Rightarrow> string \<Rightarrow> exn + descriptor" where
  "parse_ansible_ee safe_load F path =
     (case bindR (rf_read F path) safe_load of
        Inl e \<Rightarrow> if is_os_or_yaml_error e then Inr (new_descriptor ''ansible-ee'' (Some path) (''unreadable: '' @ exn_text e)) else Inl e
      | Inr (JObj data) \<Rightarrow>
          (let base = (case get_or data ''images'' JNull of JObj images \<Rightarrow> get_or images ''base_image'' JNull | _ \<Rightarrow> JNull);
               name = (case base of JObj b \<Rightarrow> get_or b ''name'' JNull | _ \<Rightarrow> JNull)
           in case named name of
                Some img \<Rightarrow> Inr ((new_descriptor ''ansible-ee'' (Some path) [])\<lparr>ed_image := Some img\<rparr>)
              | None \<Rightarrow> Inr (new_descriptor ''ansible-ee'' (Some path) ''no images.base_image.name''))
      | Inr _ \<Rightarrow> Inr (new_descriptor ''ansible-ee'' (Some path) ''not a mapping''))"

definition find_ansible_ee :: "(string \<Rightarrow> exn + json) \<Rightarrow> repo_files \<Rightarrow> string \<Rightarrow> exn + descriptor option" where
  "find_ansible_ee safe_load F repo =
     (case first_file F repo ANSIBLE_EE_FILES of
        Some candidate \<Rightarrow> bindR (parse_ansible_ee safe_load F candidate) (\<lambda>d. Inr (Some d))
      | None \<Rightarrow> Inr None)"

definition find_containerfile :: "repo_files \<Rightarrow> string \<Rightarrow> descriptor option" where
  "find_containerfile F repo =
     map_option (\<lambda>c. (new_descriptor ''containerfile'' (Some c) [])\<lparr>ed_dockerfile := Some c, ed_context := Some repo\<rparr>)
       (first_file F repo CONTAINERFILE_FILES)"

definition find_tool_versions :: "repo_files \<Rightarrow> string \<Rightarrow> descriptor option" where
  "find_tool_versions F repo =
     map_option (\<lambda>c. new_descriptor ''mise'' (Some c) ''tool versions; a base image must be provisioned'')
       (first_file F repo TOOL_VERSION_FILES)"

definition detect :: "(string \<Rightarrow> exn + json) \<Rightarrow> repo_files \<Rightarrow> string \<Rightarrow> exn + descriptor" where
  "detect safe_load F repo =
     (let base = rf_resolve F repo in
      bindR (find_devcontainer F base) (\<lambda>d1.
        case d1 of Some d \<Rightarrow> Inr d | None \<Rightarrow>
        bindR (find_ansible_ee safe_load F base) (\<lambda>d2.
          case d2 of Some d \<Rightarrow> Inr d | None \<Rightarrow>
          (case find_containerfile F base of Some d \<Rightarrow> Inr d | None \<Rightarrow>
           (case find_tool_versions F base of Some d \<Rightarrow> Inr d | None \<Rightarrow> Inr (new_descriptor ''none'' None []))))))"

section \<open>Building an image (builder.py)\<close>

record image_builder =
  ib_container_binary :: string
  ib_devcontainer_binary :: string

definition checked :: "'w machine \<Rightarrow> string list \<Rightarrow> string \<Rightarrow> ('w, unit) prog" where
  "checked M argv what =
     bindE (m_run M argv [] None) (\<lambda>r.
       if cm_returncode r \<noteq> 0
       then raise (EnvironmentBuildError (what @ '' failed: '' @
              take 500 (strip (if cm_stderr r \<noteq> [] then cm_stderr r else cm_stdout r))))
       else ret ())"

definition build_dockerfile :: "'w machine \<Rightarrow> image_builder \<Rightarrow> descriptor \<Rightarrow> string \<Rightarrow> ('w, string) prog" where
  "build_dockerfile M B d image_name =
     (case ed_dockerfile d of
        None \<Rightarrow> raise AssertionError
      | Some dockerfile \<Rightarrow>
          let context = (case ed_context d of Some c \<Rightarrow> c | None \<Rightarrow> path_parent dockerfile) in
          seqE (checked M [ib_container_binary B, ''build'', ''-t'', image_name, ''-f'', dockerfile, context] ''container build'')
            (ret image_name))"

definition build_devcontainer :: "'w machine \<Rightarrow> image_builder \<Rightarrow> string \<Rightarrow> string \<Rightarrow> string option \<Rightarrow> ('w, string) prog" where
  "build_devcontainer M B workspace image_name feature =
     seqE (checked M
             ([ib_devcontainer_binary B, ''build'', ''--workspace-folder'', workspace, ''--image-name'', image_name] @
              (if truthy feature then [''--additional-features'', json_dumps (JObj [(the feature, JObj [])])] else []))
             ''dev container build'')
       (ret image_name)"

definition build_environment ::
  "'w machine \<Rightarrow> image_builder \<Rightarrow> descriptor \<Rightarrow> string \<Rightarrow> string \<Rightarrow> string option \<Rightarrow> ('w, string) prog" where
  "build_environment M B d workspace image_name feature =
     (if ed_kind d = ''devcontainer'' then build_devcontainer M B workspace image_name feature
      else if has_build d then build_dockerfile M B d image_name
      else raise (EnvironmentBuildError (ed_kind d @ '' descriptor at '' @
             (case ed_path d of None \<Rightarrow> ''None'' | Some p \<Rightarrow> p) @ '' has no image or build'')))"

section \<open>The image of a session (worker_factory.py)\<close>

definition env_flag :: "(string, string) dict \<Rightarrow> string \<Rightarrow> bool" where
  "env_flag env name \<longleftrightarrow> lower (strip (or_else (dict_get env name) [])) \<in> {''1'', ''true'', ''yes''}"

definition environment_image ::
  "'w machine \<Rightarrow> descriptor \<Rightarrow> string \<Rightarrow> (string, string) dict \<Rightarrow> ('w, string option \<times> bool) prog" where
  "environment_image M d root_path env =
     (let stripped = strip (or_else (dict_get env ''DEAR_AGENT_HARNESS_FEATURE'') []);
          feature = (if stripped = [] then None else Some stripped)
      in if has_image d \<and> feature = None then ret (ed_image d, False)
         else if ed_kind d \<noteq> ''devcontainer'' \<and> \<not> has_build d then ret (None, False)
         else if \<not> env_flag env ''DEAR_AGENT_BUILD_ENVIRONMENT'' then ret (None, False)
         else bindE (build_environment M
                       \<lparr>ib_container_binary = or_else (dict_get env ''DEAR_AGENT_CONTAINER_BINARY'') ''podman'',
                        ib_devcontainer_binary = ''devcontainer''\<rparr>
                       d root_path (or_else (dict_get env ''DEAR_AGENT_ENVIRONMENT_IMAGE'') ''dear-agent-env:latest'') feature)
                (\<lambda>img. ret (Some img, feature \<noteq> None)))"

section \<open>The harness bundle (bundle.py)\<close>

record harness_bundle =
  hb_image :: string
  hb_files :: "(string \<times> string) list"
  hb_interpreter :: string
  hb_binary :: string
  hb_cache_dir :: string
  hb_container_binary :: string
  hb_bundle_dir :: string
  hb_bin_dir :: string

definition OPENCODE_FILES :: "(string \<times> string) list" where
  "OPENCODE_FILES =
     [(''/usr/local/bin/opencode'', ''opencode''), (''/lib/ld-musl-x86_64.so.1'', ''ld-musl-x86_64.so.1''),
      (''/usr/lib/libstdc++.so.6'', ''libstdc++.so.6''), (''/usr/lib/libgcc_s.so.1'', ''libgcc_s.so.1'')]"

definition hb_ready :: "harness_bundle \<Rightarrow> string" where
  "hb_ready H = path_join (hb_cache_dir H) ''.ready''"

definition hb_root :: "harness_bundle \<Rightarrow> string" where
  "hb_root H = path_join (hb_cache_dir H) ''root''"

definition hb_shim :: "harness_bundle \<Rightarrow> string" where
  "hb_shim H = path_join (path_join (hb_cache_dir H) ''bin'') (hb_binary H)"

definition shim_text :: "harness_bundle \<Rightarrow> string" where
  "shim_text H =
     ''#!/bin/sh'' @ newline @ ''LD_LIBRARY_PATH='' @ hb_bundle_dir H @ '' exec '' @ hb_bundle_dir H @ ''/'' @ hb_interpreter H @
     '' '' @ hb_bundle_dir H @ ''/'' @ hb_binary H @ '' '' @ dquote # [CHR ''$'', CHR 0x40] @ dquote # newline"

text \<open>\<open>chmod p\<close> adds the execute bits of \<open>p\<close>.\<close>

definition write_shim :: "'w machine \<Rightarrow> (string \<Rightarrow> ('w, unit) prog) \<Rightarrow> harness_bundle \<Rightarrow> ('w, unit) prog" where
  "write_shim M chmod H = seqE (m_write_text M (hb_shim H) (shim_text H)) (chmod (hb_shim H))"

fun copy_files :: "'w machine \<Rightarrow> harness_bundle \<Rightarrow> string \<Rightarrow> (string \<times> string) list \<Rightarrow> ('w, unit) prog" where
  "copy_files M H container [] = ret ()"
| "copy_files M H container ((source, name) # items) =
     bindE (m_run M [hb_container_binary H, ''cp'', container @ '':'' @ source, path_join (hb_root H) name] [] None) (\<lambda>r.
       if cm_returncode r \<noteq> 0
       then raise (RuntimeError (let err = strip (cm_stderr r) in if err \<noteq> [] then err else ''cannot copy '' @ py_repr source))
       else copy_files M H container items)"

definition ensure_bundle :: "'w machine \<Rightarrow> (string \<Rightarrow> ('w, unit) prog) \<Rightarrow> harness_bundle \<Rightarrow> ('w, unit) prog" where
  "ensure_bundle M chmod H =
     bindE (asks (m_exists M (hb_ready H))) (\<lambda>ready.
       if ready then ret ()
       else seqE (m_mkdir M (hb_root H)) (seqE (m_mkdir M (path_join (hb_cache_dir H) ''bin''))
         (bindE (m_run M [hb_container_binary H, ''create'', hb_image H] [] None) (\<lambda>created.
           if cm_returncode created \<noteq> 0
           then raise (RuntimeError (let err = strip (cm_stderr created) in
                  if err \<noteq> [] then err else ''cannot create '' @ py_repr (hb_image H)))
           else let container = strip (cm_stdout created) in
             seqE (finallyE (copy_files M H container (hb_files H))
                     (seqE (m_run M [hb_container_binary H, ''rm'', ''-f'', container] [] None) (ret ())))
               (seqE (write_shim M chmod H) (m_write_text M (hb_ready H) (''ok'' @ newline)))))))"

definition bundle_mounts :: "harness_bundle \<Rightarrow> mount list" where
  "bundle_mounts H =
     [\<lparr>mn_host = hb_root H, mn_container = hb_bundle_dir H, mn_readonly = True, mn_relabel = True\<rparr>,
      \<lparr>mn_host = hb_shim H, mn_container = hb_bin_dir H @ ''/'' @ hb_binary H, mn_readonly = True, mn_relabel = True\<rparr>]"

text \<open>\<open>home\<close> is \<open>os.path.expanduser("~")\<close>.\<close>

definition default_bundle_cache_dir :: "(string, string) dict \<Rightarrow> string \<Rightarrow> string" where
  "default_bundle_cache_dir env home =
     or_else (dict_get env ''DEAR_AGENT_HARNESS_BUNDLE_CACHE'') (path_join home ''.cache/dear-agent/harness'')"

definition opencode_bundle :: "string \<Rightarrow> string option \<Rightarrow> string \<Rightarrow> string \<Rightarrow> harness_bundle" where
  "opencode_bundle img cache_dir default_dir container_binary =
     \<lparr>hb_image = img, hb_files = OPENCODE_FILES, hb_interpreter = ''ld-musl-x86_64.so.1'', hb_binary = ''opencode'',
      hb_cache_dir = (case cache_dir of Some d \<Rightarrow> d | None \<Rightarrow> path_join default_dir ''opencode''),
      hb_container_binary = container_binary, hb_bundle_dir = ''/opt/dear-agent/harness'', hb_bin_dir = ''/usr/local/bin''\<rparr>"

section \<open>What a comment leaves\<close>

lemma dquote_backslash [simp]: "dquote \<noteq> backslash" "backslash \<noteq> dquote"
  by (simp_all add: dquote_def backslash_def)

lemma backslash_char: "backslash = CHR 0x5C"
  by code_simp

lemma hex_digit_plain:
  assumes "k < 16" shows "hex_digit k \<noteq> dquote \<and> hex_digit k \<noteq> backslash"
proof -
  have "hex_val dquote = None" "hex_val backslash = None" by code_simp+
  then show ?thesis using hex_val_digit [OF assms] by auto
qed

lemma strip_plain:
  "\<forall>c \<in> set p. c \<noteq> dquote \<and> c \<noteq> CHR ''/'' \<Longrightarrow> strip_from False e (p @ r) = p @ strip_from False e r"
  by (induction p) (simp_all add: strip_from.simps)

lemma strip_esc: "strip_from True False (json_esc c @ r) = json_esc c @ strip_from True False r"
proof -
  have hex: "strip_from True False (backslash # x # t @ r) = backslash # x # t @ strip_from True False r"
    if "\<forall>c \<in> set t. c \<noteq> dquote \<and> c \<noteq> backslash" for x t
  proof -
    have "strip_from True False (t @ r) = t @ strip_from True False r" using that
      by (induction t) (simp_all add: strip_from.simps)
    then show ?thesis by (simp add: strip_from.simps)
  qed
  let ?n = "code c"
  consider "?n = 34 \<or> ?n = 92" | "?n \<in> {8, 9, 10, 12, 13}" | "32 \<le> ?n \<and> ?n \<le> 126" "?n \<noteq> 34" "?n \<noteq> 92"
    | "?n \<notin> {8, 9, 10, 12, 13, 34, 92}" "\<not> (32 \<le> ?n \<and> ?n \<le> 126)"
    by auto
  then show ?thesis
  proof cases
    case 1 then show ?thesis using hex [of "[]" c] by (auto simp: json_esc_def Let_def)
  next
    case 2 then show ?thesis using hex [of "[]"] by (auto simp: json_esc_def Let_def)
  next
    case 3
    then have "c \<noteq> dquote" "c \<noteq> backslash" by (auto simp: code_def dquote_def backslash_def)
    with 3 show ?thesis by (auto simp: json_esc_def Let_def strip_from.simps)
  next
    case 4
    have "?n < 256" by (simp add: code_def)
    then have "?n div 16 < 16" "?n mod 16 < 16" by auto
    from this [THEN hex_digit_plain] have "\<forall>x \<in> set [CHR ''0'', CHR ''0'', hex_digit (?n div 16), hex_digit (?n mod 16)]. x \<noteq> dquote \<and> x \<noteq> backslash"
      by (simp add: dquote_char backslash_char)
    from hex [OF this] 4 show ?thesis by (auto simp: json_esc_def Let_def)
  qed
qed

lemma strip_str: "strip_from False False (dumps_str s @ r) = dumps_str s @ strip_from False False r"
proof -
  have "strip_from True False (concat (map json_esc s) @ dquote # r) = concat (map json_esc s) @ dquote # strip_from False False r"
  proof (induction s)
    case Nil show ?case by (simp add: strip_from.simps)
  next
    case (Cons c s) then show ?case by (simp add: strip_esc)
  qed
  then show ?thesis by (simp add: dumps_str_def strip_from.simps)
qed

lemma strip_join:
  assumes "\<And>x r. x \<in> set xs \<Longrightarrow> strip_from False False (f x @ r) = f x @ strip_from False False r"
  shows "strip_from False False (join '', '' (map f xs) @ r) = join '', '' (map f xs) @ strip_from False False r"
  using assms
proof (induction xs rule: induct_list012)
  case (3 x y xs)
  have "strip_from False False ('', '' @ t) = '', '' @ strip_from False False t" for t
    by (rule strip_plain) (simp add: dquote_char)
  then show ?case using 3 by simp
qed simp_all

lemma strip_dumps:
  "json_plain v \<Longrightarrow> strip_from False False (json_dumps v @ r) = json_dumps v @ strip_from False False r"
proof (induction v arbitrary: r)
  case (JArr vs)
  have "strip_from False False (join '', '' (map json_dumps vs) @ t) = join '', '' (map json_dumps vs) @ strip_from False False t" for t
    using JArr by (intro strip_join) auto
  then show ?case using strip_plain [of "''[''"] strip_plain [of "'']''"] by (simp add: dquote_char)
next
  case (JObj kvs)
  let ?f = "\<lambda>(k, v). dumps_str k @ '': '' @ json_dumps v"
  have "strip_from False False (?f p @ t) = ?f p @ strip_from False False t" if p: "p \<in> set kvs" for p t
  proof -
    obtain k v where kv: "p = (k, v)" by (cases p)
    have "json_plain v" using JObj.prems p kv by fastforce
    then have "strip_from False False (json_dumps v @ t) = json_dumps v @ strip_from False False t"
      using p kv by (intro JObj.IH [of "(k, v)" v]) simp_all
    moreover have "strip_from False False ('': '' @ t) = '': '' @ strip_from False False t" for t
      by (rule strip_plain) (simp add: dquote_char)
    ultimately show ?thesis by (simp add: kv strip_str)
  qed
  then have "strip_from False False (join '', '' (map ?f kvs) @ t) = join '', '' (map ?f kvs) @ strip_from False False t" for t
    by (rule strip_join)
  then show ?case using strip_plain [of "[CHR 0x7B]"] strip_plain [of "[CHR 0x7D]"] by (simp add: dquote_char)
next
  case (JInt i)
  have "\<forall>c \<in> set (show_int i). c \<noteq> dquote \<and> c \<noteq> CHR ''/''"
  proof
    fix c assume "c \<in> set (show_int i)"
    then have "c = CHR ''-'' \<or> is_digit c"
      using digits_all [of c] by (auto simp: show_int_def split: if_splits)
    then show "c \<noteq> dquote \<and> c \<noteq> CHR ''/''" by (auto simp: dquote_char is_digit_def code_def)
  qed
  then show ?case by (simp add: strip_plain)
next
  case (JStr s) show ?case by (simp add: strip_str)
next
  case JNull show ?case using strip_plain [of "''null''"] by (simp add: dquote_char)
next
  case (JBool b) show ?case
    using strip_plain [of "''true''"] strip_plain [of "''false''"] by (cases b) (simp_all add: dquote_char)
next
  case (JFloat s)
  have "\<forall>c \<in> set s. c \<noteq> dquote \<and> c \<noteq> CHR ''/''"
    using float_chars [of s dquote] float_chars [of s "CHR ''/''"] JFloat by (auto simp: dquote_char is_digit_def code_def)
  then show ?case by (simp add: strip_plain)
qed

text \<open>A line of comment, and a comment block.\<close>

definition comment_line :: "string \<Rightarrow> string" where
  "comment_line c = ''//'' @ c @ newline"

lemma strip_comment_line:
  assumes "CHR 0x0A \<notin> set c" "CHR 0x0D \<notin> set c"
  shows "strip_from False False (comment_line c @ r) = newline @ strip_from False False r"
proof -
  have "dropWhile (\<lambda>x. x \<noteq> CHR 0x0D \<and> x \<noteq> CHR 0x0A) (c @ newline @ r) = newline @ r"
    using assms by (subst dropWhile_append2) (auto simp: newline_def)
  then show ?thesis
    using strip_plain [of newline False r]
    by (simp add: comment_line_def strip_from.simps startswith_def dquote_char newline_def)
qed

lemma strip_comment_lines:
  assumes "\<forall>c \<in> set cs. CHR 0x0A \<notin> set c \<and> CHR 0x0D \<notin> set c"
  shows "strip_from False False (concat (map comment_line cs) @ r) = concat (map (\<lambda>_. newline) cs) @ strip_from False False r"
  using assms by (induction cs) (simp_all add: strip_comment_line)

lemma loads_slash: "json_loads (CHR ''/'' # t) = Inl (JSONDecodeError ''Expecting value'')"
  by (simp add: json_loads_def skip_ws_other json_ws_def code_def load_simps scan_literal_def literals_def startswith_def
    scan_number_def scan_digits_def is_digit_def dquote_char)

text \<open>
  Comments do not change what a dev container file says: a document preceded by lines of comment, and followed
  by one, is read as the document alone, whatever the comments contain.
\<close>

theorem jsonc_comments_ignored:
  assumes "\<forall>c \<in> set cs. CHR 0x0A \<notin> set c \<and> CHR 0x0D \<notin> set c" and "cs \<noteq> []" and "json_plain v"
    and "CHR 0x0A \<notin> set d \<and> CHR 0x0D \<notin> set d"
  shows "load_jsonc (concat (map comment_line cs) @ json_dumps v @ ''//'' @ d) = Inr v"
proof -
  let ?text = "concat (map comment_line cs) @ json_dumps v @ ''//'' @ d"
  have no_line: "dropWhile (\<lambda>x. x \<noteq> CHR 0x0D \<and> x \<noteq> CHR 0x0A) d = []"
    using assms(4) by (auto simp: dropWhile_eq_Nil_conv)
  have "strip_from False False (''//'' @ d) = []"
    by (simp add: strip_from.simps startswith_def dquote_char no_line)
  then have strip: "strip_jsonc ?text = concat (map (\<lambda>_. newline) cs) @ json_dumps v"
    using assms(1,3) by (simp add: strip_jsonc_def strip_comment_lines strip_dumps)
  have "skip_ws (concat (map (\<lambda>_. newline) cs) @ json_dumps v) = json_dumps v" for cs :: "string list"
    using skip_ws_dumps [OF assms(3), of "[]"] by (induction cs) (simp_all add: newline_def skip_ws_other json_ws_def code_def)
  then have loaded: "json_loads (strip_jsonc ?text) = Inr v"
    unfolding strip using load_dumps [OF assms(3), of "[]"] by (simp add: json_loads_def ends_value_def skip_ws_def)
  obtain c cs' where "cs = c # cs'" using assms(2) by (cases cs) auto
  then obtain t where "?text = CHR ''/'' # t" by (simp add: comment_line_def)
  then have "load_jsonc ?text = json_loads (strip_jsonc ?text)"
    using loads_slash [of t] by (simp add: load_jsonc_def)
  with loaded show ?thesis by simp
qed

section \<open>Builds stay inside the checkout\<close>

lemma first_file_within:
  assumes "first_file F base names = Some p" and "\<forall>n \<in> set names. \<not> startswith n ''/''"
  shows "is_within base p"
proof -
  obtain i where "i < length names" "p = path_join base (names ! i)"
    using assms(1) unfolding first_file_def find_Some_iff by auto
  then obtain n where "n \<in> set names" "p = path_join base n" using nth_mem by blast
  then show ?thesis using assms(2) by (auto simp: is_within_def path_join_def startswith_def)
qed

lemma parse_devcontainer_inside:
  assumes "parse_devcontainer F path base = Inr d" and "ed_dockerfile d = Some p"
  shows "is_within base p \<and> (\<exists>c. ed_context d = Some c \<and> is_within base c)"
  using assms
  by (auto simp: parse_devcontainer_def new_descriptor_def Let_def split: sum.splits json.splits option.splits if_splits prod.splits)

lemma parse_ansible_no_build: "parse_ansible_ee safe_load F path = Inr d \<Longrightarrow> ed_dockerfile d = None"
  by (auto simp: parse_ansible_ee_def new_descriptor_def Let_def split: sum.splits json.splits option.splits if_splits)


text \<open>
  The rejection of a dev container whose build leaves the checkout has no effect when builds are enabled:
  the descriptor has neither image nor recipe, and its image is built from the checkout all the same.
\<close>

theorem rejected_descriptor_is_built:
  assumes "first_file F (rf_resolve F dir) DEV_CONTAINER_LOCATIONS = Some path"
    and "bindR (rf_read F path) load_jsonc = Inr (JObj data)" and "named (get_or data ''image'' JNull) = None"
    and "devcontainer_build F data (path_parent path) = Some (recipe, folder)"
    and "\<not> (is_within (rf_resolve F dir) recipe \<and> is_within (rf_resolve F dir) folder)"
    and "env_flag env ''DEAR_AGENT_BUILD_ENVIRONMENT''" and "dict_get env ''DEAR_AGENT_HARNESS_FEATURE'' = None"
    and "dict_get env ''DEAR_AGENT_ENVIRONMENT_IMAGE'' = Some img" and "img \<noteq> []"
    and "m_run M [''devcontainer'', ''build'', ''--workspace-folder'', dir, ''--image-name'', img] [] None w = (Inr r, w')"
    and "cm_returncode r = 0"
  shows "\<exists>d. detect safe_load F dir = Inr d \<and> ed_detail d = ''build path outside the repository'' \<and>
    \<not> has_image d \<and> \<not> has_build d \<and> environment_image M d dir env w = (Inr (Some img, False), w')"
proof -
  let ?d = "new_descriptor ''devcontainer'' (Some path) ''build path outside the repository''"
  have "parse_devcontainer F path (rf_resolve F dir) = Inr ?d"
    using assms(2-5) by (simp add: parse_devcontainer_def)
  then have "detect safe_load F dir = Inr ?d"
    using assms(1) by (simp add: detect_def find_devcontainer_def Let_def)
  have built: "checked M [''devcontainer'', ''build'', ''--workspace-folder'', dir, ''--image-name'', img] ''dev container build'' w = (Inr (), w')"
    using assms(10,11) by (simp add: checked_def bindE_def)
  have no_feature: "strip [] = []" by code_simp
  from built have "environment_image M ?d dir env w = (Inr (Some img, False), w')"
    using assms(6-9)
    by (simp add: environment_image_def new_descriptor_def has_image_def truthy_def or_else_def build_environment_def
      build_devcontainer_def seqE_def no_feature bindE_Inr)
  with \<open>detect safe_load F dir = Inr ?d\<close> show ?thesis by (intro exI [of _ ?d]) (auto simp: new_descriptor_def has_image_def has_build_def truthy_def)
qed

section \<open>The marker of the bundle\<close>

lemma keeps_not: "keeps (\<lambda>w w'. P w \<longrightarrow> P w') p \<Longrightarrow> p w = (r, w') \<Longrightarrow> P w \<Longrightarrow> P w'"
  using keepsD by fastforce

lemma copy_files_keeps:
  assumes "transp R" "reflp R" and "\<And>argv cwd e. keeps R (m_run M argv cwd e)"
  shows "keeps R (copy_files M H container items)"
proof (induction items)
  case Nil show ?case unfolding copy_files.simps by (rule keeps_ret(1) [OF assms(2)])
next
  case (Cons i items)
  then show ?case by (cases i) (auto intro!: keeps_bind assms keeps_ret)
qed

text \<open>A program that leaves \<open>P\<close> true exactly when it returns.\<close>

definition marks :: "('s \<Rightarrow> bool) \<Rightarrow> ('s, 'a) prog \<Rightarrow> bool" where
  "marks P p \<longleftrightarrow> (\<forall>s r s'. \<not> P s \<longrightarrow> p s = (r, s') \<longrightarrow> (P s' \<longleftrightarrow> \<not> isl r))"

lemma marks_raise: "marks P (raise e)"
  by (simp add: marks_def)

lemma marks_bind:
  assumes "keeps (\<lambda>s s'. P s' = P s) p" and "\<And>x. marks P (f x)"
  shows "marks P (bindE p f)"
  unfolding marks_def
proof (intro allI impI)
  fix s r s' assume "\<not> P s" "bindE p f s = (r, s')"
  from this(2) show "P s' \<longleftrightarrow> \<not> isl r"
  proof (cases rule: bindE_cases)
    case (raised e) then show ?thesis using assms(1) \<open>\<not> P s\<close> by (fastforce dest: keepsD)
  next
    case (went_on x s1)
    then have "\<not> P s1" using assms(1) \<open>\<not> P s\<close> by (fastforce dest: keepsD)
    then show ?thesis using went_on(2) assms(2) [of x] unfolding marks_def by blast
  qed
qed

text \<open>
  The marker of the bundle cache tells the truth, when writing it is what creates it: starting without it,
  \<open>ensure\<close> leaves it there exactly when it returns without an exception, and then a second \<open>ensure\<close> does nothing.
\<close>

theorem bundle_marker_sound:
  assumes "\<And>argv cwd e w r w'. m_run M argv cwd e w = (r, w') \<Longrightarrow> m_exists M (hb_ready H) w' = m_exists M (hb_ready H) w"
    and "\<And>p w r w'. m_mkdir M p w = (r, w') \<Longrightarrow> m_exists M (hb_ready H) w' = m_exists M (hb_ready H) w"
    and "\<And>p w r w'. chmod p w = (r, w') \<Longrightarrow> m_exists M (hb_ready H) w' = m_exists M (hb_ready H) w"
    and "\<And>p t w r w'. m_write_text M p t w = (r, w') \<Longrightarrow>
      m_exists M (hb_ready H) w' = (m_exists M (hb_ready H) w \<or> (p = hb_ready H \<and> r = Inr ()))"
    and "\<not> startswith (hb_binary H) ''/''" and "\<not> m_exists M (hb_ready H) w" and "ensure_bundle M chmod H w = (r, w1)"
  shows "(m_exists M (hb_ready H) w1 \<longleftrightarrow> r = Inr ()) \<and> (r = Inr () \<longrightarrow> ensure_bundle M chmod H w1 = (Inr (), w1))"
proof -
  define R where "R = (\<lambda>w w'. m_exists M (hb_ready H) w' = m_exists M (hb_ready H) w)"
  have R: "transp R" "reflp R" by (auto simp: R_def transp_def reflp_def)
  have shim: "hb_shim H \<noteq> hb_ready H"
    using assms(5) by (auto simp: hb_shim_def hb_ready_def path_join_def startswith_def endswith_def)
  have run: "keeps R (m_run M argv cwd e)" for argv cwd e
    using assms(1) by (auto simp: keeps_def R_def prod_eq_iff)
  have mk: "keeps R (m_mkdir M p)" for p using assms(2) by (auto simp: keeps_def R_def prod_eq_iff)
  have wr: "keeps R (write_shim M chmod H)"
    unfolding write_shim_def using assms(3,4) shim
    by (intro keeps_seq R) (auto simp: keeps_def R_def prod_eq_iff)
  have steps: "keeps R (finallyE (copy_files M H c (hb_files H)) (seqE (m_run M argv [] None) (ret ())))" for c argv
    by (intro keeps_finally keeps_seq R copy_files_keeps run keeps_ret)
  have last: "marks (m_exists M (hb_ready H)) (m_write_text M (hb_ready H) t)" for t
    using assms(4) unfolding marks_def by (metis (full_types) isl_def old.unit.exhaust sum.collapse(2) sum.distinct(1))
  define body where "body = seqE (m_mkdir M (hb_root H)) (seqE (m_mkdir M (path_join (hb_cache_dir H) ''bin''))
         (bindE (m_run M [hb_container_binary H, ''create'', hb_image H] [] None) (\<lambda>created.
           if cm_returncode created \<noteq> 0
           then raise (RuntimeError (let err = strip (cm_stderr created) in
                  if err \<noteq> [] then err else ''cannot create '' @ py_repr (hb_image H)))
           else let container = strip (cm_stdout created) in
             seqE (finallyE (copy_files M H container (hb_files H))
                     (seqE (m_run M [hb_container_binary H, ''rm'', ''-f'', container] [] None) (ret ())))
               (seqE (write_shim M chmod H) (m_write_text M (hb_ready H) (''ok'' @ newline))))))"
  have "marks (m_exists M (hb_ready H)) body"
    unfolding body_def seqE_def [of "m_mkdir M p" for p] seqE_def [of "finallyE p q" for p q]
      seqE_def [of "write_shim M chmod H"] Let_def if_distrib [of "marks P" for P] 
    using mk run steps wr last unfolding R_def seqE_def
    by (intro marks_bind) (auto intro!: marks_bind marks_raise)
  moreover have "ensure_bundle M chmod H w = body w"
    using assms(6) by (simp add: ensure_bundle_def body_def)
  ultimately have "m_exists M (hb_ready H) w1 \<longleftrightarrow> r = Inr ()"
    using assms(6,7) unfolding marks_def by (metis (full_types) isl_def old.unit.exhaust sum.collapse(2) sum.distinct(1))
  then show ?thesis by (simp add: ensure_bundle_def)
qed

section \<open>Instances\<close>

text \<open>A checkout with one file, a dev container, and a machine on which every command succeeds.\<close>

definition one_file :: "string \<Rightarrow> string \<Rightarrow> repo_files" where
  "one_file path content =
     \<lparr>rf_resolve = (\<lambda>p. if p = ''/repo/.devcontainer/../../etc/Dockerfile'' then ''/etc/Dockerfile'' else p),
      rf_is_file = (\<lambda>p. p = path), rf_is_dir = (\<lambda>p. False), rf_glob = (\<lambda>p. []), rf_read = (\<lambda>p. Inr content)\<rparr>"

definition shelf :: "string list machine" where
  "shelf =
     \<lparr>m_run = (\<lambda>argv cwd e w. (Inr \<lparr>cm_returncode = 0, cm_stdout = ''c1'', cm_stderr = []\<rparr>, w)),
      m_resolve = (\<lambda>p w. p), m_exists = (\<lambda>p w. p \<in> set w), m_mkdir = (\<lambda>p w. (Inr (), w)), m_rmtree = (\<lambda>p w. w),
      m_environ = [], m_timed_run = (\<lambda>argv cwd e n w. (Inl (OSError ''no''), w)), m_which = (\<lambda>b w. None),
      m_expanduser = (\<lambda>p. p), m_listdir = (\<lambda>p w. []), m_read_text = (\<lambda>p w. Inr []),
      m_write_text = (\<lambda>p t w. (Inr (), p # w)), m_uuid = (\<lambda>w. ([], w))\<rparr>"

theorem jsonc_comments_ignored_witness:
  "load_jsonc (concat (map comment_line ['' a comment with a '' @ [dquote]]) @ json_dumps (JObj [(''image'', JStr ''a//b'')]) @ ''//'' @ ''end'')
     = Inr (JObj [(''image'', JStr ''a//b'')])"
  by (rule jsonc_comments_ignored) (simp_all add: dquote_char)

definition recipe_text :: "string \<Rightarrow> string" where
  "recipe_text file = json_dumps (JObj [(''dockerFile'', JStr file)])"

definition containerfile_at :: "string \<Rightarrow> descriptor" where
  "containerfile_at dir =
     (new_descriptor ''containerfile'' (Some (dir @ ''/Containerfile'')) [])
       \<lparr>ed_dockerfile := Some (dir @ ''/Containerfile''), ed_context := Some dir\<rparr>"


theorem rejected_descriptor_is_built_witness:
  "\<exists>d. detect (\<lambda>_. Inr JNull)
        (one_file ''/repo/.devcontainer/devcontainer.json'' (recipe_text ''../../etc/Dockerfile'')) ''/repo'' = Inr d \<and>
      ed_detail d = ''build path outside the repository'' \<and> \<not> has_image d \<and> \<not> has_build d \<and>
      environment_image shelf d ''/repo'' [(''DEAR_AGENT_BUILD_ENVIRONMENT'', ''1''), (''DEAR_AGENT_ENVIRONMENT_IMAGE'', ''env:1'')] [] =
        (Inr (Some ''env:1'', False), [])"
  by (rule rejected_descriptor_is_built
      [where path = "''/repo/.devcontainer/devcontainer.json''" and data = "[(''dockerFile'', JStr ''../../etc/Dockerfile'')]"
        and recipe = "''/etc/Dockerfile''" and folder = "''/repo/.devcontainer/.''"
        and r = "\<lparr>cm_returncode = 0, cm_stdout = ''c1'', cm_stderr = []\<rparr>"]) code_simp+

theorem bundle_marker_sound_witness:
  "\<exists>w1. ensure_bundle shelf (\<lambda>p. ret ()) (opencode_bundle ''img'' None ''/cache'' ''podman'') [] = (Inr (), w1) \<and>
     m_exists shelf ''/cache/opencode/.ready'' w1 \<and>
     ensure_bundle shelf (\<lambda>p. ret ()) (opencode_bundle ''img'' None ''/cache'' ''podman'') w1 = (Inr (), w1)"
proof -
  let ?H = "opencode_bundle ''img'' None ''/cache'' ''podman''" and ?ch = "\<lambda>p. ret () :: string list \<Rightarrow> _"
  have "isl (fst (ensure_bundle shelf ?ch ?H [])) = False" by code_simp
  then obtain w1 where run: "ensure_bundle shelf ?ch ?H [] = (Inr (), w1)"
    by (cases "ensure_bundle shelf ?ch ?H []"; cases "fst (ensure_bundle shelf ?ch ?H [])") auto
  have "(m_exists shelf (hb_ready ?H) w1 \<longleftrightarrow> Inr () = (Inr () :: exn + unit)) \<and>
      (Inr () = (Inr () :: exn + unit) \<longrightarrow> ensure_bundle shelf ?ch ?H w1 = (Inr (), w1))"
    by (rule bundle_marker_sound [where w = "[]", OF _ _ _ _ _ _ run]) (auto simp: shelf_def opencode_bundle_def startswith_def)
  moreover have "hb_ready ?H = ''/cache/opencode/.ready''" by code_simp
  ultimately show ?thesis using run by auto
qed

end
