(* ===== verification/Wiring.thy ===== *)
theory Wiring
  imports Environment Worker Review Forge
begin

text \<open>
  How a runner is put together from its environment (\<open>worker_factory.py\<close>): the harness and the session it
  runs in, the routing table, the transport and the worker's own settings. The environment of the process is an
  argument, so that the temporary change of \<open>DEAR_AGENT_HARNESS\<close> is a changed argument; what is built is described by
  its configuration. The connection the JMAP client opens is left out.
\<close>

section \<open>The session of a harness\<close>

text \<open>
  \<open>NoSandbox\<close>, the sandbox the caller gave, or a container. \<open>Given\<close> is the sandbox passed to \<open>build_worker\<close> or \<open>default_sandbox\<close>.
\<close>

datatype session = Unconfined | Given | Contained container_config

text \<open>
  What the construction uses of the system: the machine, \<open>chmod\<close>, the files of a checkout, \<open>yaml.safe_load\<close> and
  the default cache directory.
\<close>

record 'w site =
  si_machine :: "'w machine"
  si_chmod :: "string \<Rightarrow> ('w, unit) prog"
  si_files :: "'w \<Rightarrow> repo_files"
  si_safe_load :: "string \<Rightarrow> exn + json"
  si_cache_dir :: string

definition BUNDLE_HOME :: string where "BUNDLE_HOME = ''/dear-agent-home''"

definition auto_inject :: "harness_info \<Rightarrow> string option \<Rightarrow> bool \<Rightarrow> bool" where
  "auto_inject info img auto \<longleftrightarrow> auto \<and> truthy img \<and> hi_id info = ''opencode'' \<and> img \<noteq> hi_image info"

text \<open>\<open>replace\<close> checks the new object like the constructor does.\<close>

definition maybe_inject_bundle ::
  "'w site \<Rightarrow> (string, string) dict \<Rightarrow> session \<Rightarrow> harness_info \<Rightarrow> string option \<Rightarrow> bool \<Rightarrow> ('w, session) prog" where
  "maybe_inject_bundle S env session info img auto =
     (let requested = lower (strip (env_default env ''DEAR_AGENT_HARNESS_BUNDLE'' [])) \<in> {''1'', ''true'', ''yes''} in
      if \<not> (requested \<or> auto_inject info img auto) then ret session
      else case session of
        Contained c \<Rightarrow>
          if hi_id info \<noteq> ''opencode'' then raise (RuntimeError ''the harness bundle is only implemented for opencode today'')
          else
            let bundle_image = (if truthy (dict_get env ''DEAR_AGENT_HARNESS_BUNDLE_IMAGE'')
                                then dict_get env ''DEAR_AGENT_HARNESS_BUNDLE_IMAGE'' else hi_image info) in
            if \<not> truthy bundle_image then raise (RuntimeError ''no image to build the harness bundle from'')
            else
              let B = opencode_bundle (the bundle_image) None (default_bundle_cache_dir env (si_cache_dir S)) (cc_binary c) in
              seqE (ensure_bundle (si_machine S) (si_chmod S) B)
                (case container_new (c\<lparr>cc_mounts := cc_mounts c @ bundle_mounts B, cc_container_home := BUNDLE_HOME,
                        cc_extra_args := cc_extra_args c @ [''--tmpfs'', BUNDLE_HOME, ''--env'', ''HOME='' @ BUNDLE_HOME]\<rparr>) of
                   Inl e \<Rightarrow> raise e
                 | Inr c' \<Rightarrow> ret (Contained c'))
      | _ \<Rightarrow> raise (RuntimeError ''DEAR_AGENT_HARNESS_BUNDLE requires DEAR_AGENT_ISOLATION=podman''))"

definition maybe_install_harness :: "session \<Rightarrow> harness_info \<Rightarrow> string option \<Rightarrow> bool \<Rightarrow> exn + session" where
  "maybe_install_harness session info img auto =
     (case session of
        Contained c \<Rightarrow>
          if hi_install info = [] then Inr session
          else if \<not> auto \<or> \<not> truthy img \<or> img = hi_image info then Inr session
          else (case container_new (c\<lparr>cc_setup := cc_setup c @ hi_install info\<rparr>) of Inl e \<Rightarrow> Inl e | Inr c' \<Rightarrow> Inr (Contained c'))
      | _ \<Rightarrow> Inr session)"

text \<open>The selected harness, with the binary the operator names instead of its own.\<close>

definition chosen_harness :: "'w machine \<Rightarrow> (string, string) dict \<Rightarrow> 'w \<Rightarrow> exn + harness_info" where
  "chosen_harness M env w =
     bindR (select_harness (list_harnesses env) (dict_get env ''DEAR_AGENT_HARNESS'') (\<lambda>b. m_which M b w)) (\<lambda>info.
       let override = dict_get env ''DEAR_AGENT_HARNESS_BINARY'' in
       Inr (if truthy override \<and> hi_id info \<noteq> ''command'' then info\<lparr>hi_binary := the override\<rparr> else info))"

definition declared_image ::
  "'w site \<Rightarrow> (string, string) dict \<Rightarrow> string option \<Rightarrow> ('w, string option \<times> bool) prog" where
  "declared_image S env repo_path =
     (if truthy repo_path \<and> \<not> truthy (dict_get env ''DEAR_AGENT_HARNESS_IMAGE'')
      then bindE (asks (\<lambda>w. detect (si_safe_load S) (si_files S w) (the repo_path))) (\<lambda>r.
             case r of Inl e \<Rightarrow> raise e | Inr d \<Rightarrow> environment_image (si_machine S) d (the repo_path) env)
      else ret (None, False))"

definition podman_isolation :: "(string, string) dict \<Rightarrow> bool" where
  "podman_isolation env \<longleftrightarrow> lower (strip (env_default env ''DEAR_AGENT_ISOLATION'' ''bwrap'')) = ''podman''"

definition first_session :: "(string, string) dict \<Rightarrow> harness_info \<Rightarrow> exn + session" where
  "first_session env info =
     (if podman_isolation env
      then bindR (container_sandbox info env) (\<lambda>c. Inr (Contained c))
      else if hi_id info \<noteq> ''opencode'' then Inr Unconfined else Inr Given)"

definition known_runner :: "harness_info \<Rightarrow> exn + unit" where
  "known_runner info =
     (if hi_id info \<in> {''command'', ''claude'', ''codex'', ''opencode''} then Inr ()
      else Inl (RuntimeError (''unknown harness '' @ py_repr (hi_id info))))"

text \<open>The runner is the one of the returned harness with the given model in the returned session (\<open>build_runner_for\<close>).\<close>

definition build_runner_and_session ::
  "'w site \<Rightarrow> (string, string) dict \<Rightarrow> string option \<Rightarrow> ('w, harness_info \<times> session) prog" where
  "build_runner_and_session S env repo_path =
     bindE (asks (chosen_harness (si_machine S) env)) (\<lambda>chosen.
       case chosen of Inl e \<Rightarrow> raise e | Inr info \<Rightarrow>
       bindE (declared_image S env repo_path) (\<lambda>(img, baked).
         let env' = (if truthy img then dict_set ''DEAR_AGENT_HARNESS_IMAGE'' (the img) env else env) in
         bindE (liftR (first_session env' info)) (\<lambda>s0.
         bindE (maybe_inject_bundle S env s0 info img (\<not> baked)) (\<lambda>s1.
         bindE (liftR (maybe_install_harness s1 info img (\<not> baked))) (\<lambda>s2.
         seqE (liftR (known_runner info)) (ret (info, s2)))))))"

section \<open>Sandbox, worktrees and routing\<close>

text \<open>\<open>default_sandbox\<close>: bubblewrap when it is there (\<open>True\<close>), \<open>NoSandbox\<close> otherwise.\<close>

definition default_sandbox :: "'w machine \<Rightarrow> (string, string) dict \<Rightarrow> 'w \<Rightarrow> bool" where
  "default_sandbox M env w \<longleftrightarrow> env_default env ''DEAR_AGENT_SANDBOX'' ''bwrap'' = ''bwrap'' \<and> m_which M ''bwrap'' w \<noteq> None"

definition default_worktrees_root :: "(string, string) dict \<Rightarrow> string \<Rightarrow> string" where
  "default_worktrees_root env tempdir = env_default env ''DEAR_AGENT_WORKTREES_ROOT'' (path_join tempdir ''dear-agent-worktrees'')"

definition route_entry :: "string \<Rightarrow> string \<times> string" where
  "route_entry entry =
     (case cut_at '':'' entry of
        None \<Rightarrow> (entry, entry)
      | Some (class_name, harness) \<Rightarrow> (class_name, if harness = [] then class_name else harness))"

fun route_entries ::
  "'w site \<Rightarrow> (string, string) dict \<Rightarrow> string list \<Rightarrow> (string, harness_info \<times> session) dict \<Rightarrow>
     ('w, (string, harness_info \<times> session) dict) prog" where
  "route_entries S env [] runners = ret runners"
| "route_entries S env (raw # entries) runners =
     (let entry = strip raw in
      if entry = [] then route_entries S env entries runners
      else let (class_name, harness) = route_entry entry in
        bindE (build_runner_and_session S (dict_set ''DEAR_AGENT_HARNESS'' harness env) None) (\<lambda>r.
          route_entries S env entries (dict_set (strip class_name) r runners)))"

record routing_plan =
  rp_runners :: "(string, harness_info \<times> session) dict"
  rp_default :: string

definition build_routing_runner :: "'w site \<Rightarrow> (string, string) dict \<Rightarrow> ('w, routing_plan option) prog" where
  "build_routing_runner S env =
     (let spec = dict_get env ''DEAR_AGENT_HARNESSES'' in
      if \<not> truthy spec then ret None
      else bindE (route_entries S env (split_on (CHR '','') (the spec)) []) (\<lambda>runners.
        ret (Some \<lparr>rp_runners = runners, rp_default = env_default env ''DEAR_AGENT_HARNESS_DEFAULT'' ''hosted''\<rparr>)))"

section \<open>Transports and stores\<close>

datatype transport_config =
    MemoryBackend
  | JmapBackend string "string option" string string
  | ImapBackend string string string int bool string int string string bool bool string string string
  | AgentmailBackend string string "string option"

definition required :: "(string, string) dict \<Rightarrow> string \<Rightarrow> string \<Rightarrow> exn + string" where
  "required env name message =
     (case dict_get env name of Some v \<Rightarrow> if v \<noteq> [] then Inr v else Inl (RuntimeError message) | None \<Rightarrow> Inl (RuntimeError message))"

definition int_of_text :: "string \<Rightarrow> exn + int" where
  "int_of_text s =
     (case py_int s of None \<Rightarrow> Inl (ValueError (''invalid literal for int() with base 10: '' @ py_repr s)) | Some n \<Rightarrow> Inr n)"

text \<open>
  \<open>build_transport\<close>. JMAP: token, account, session URL, mailbox; IMAP: host, user, password, port, TLS of the
  mailbox, the same and STARTTLS of the outgoing server, then mailbox, archive and sender; AgentMail: token, base URL, inbox.
\<close>

definition build_transport :: "(string, string) dict \<Rightarrow> string option \<Rightarrow> exn + transport_config" where
  "build_transport env backend =
     (let kind = or_else backend (env_default env ''DEAR_AGENT_BACKEND'' ''memory'') in
      if kind = ''memory'' then Inr MemoryBackend
      else if kind = ''jmap'' then
        bindR (required env ''FASTMAIL_API_TOKEN'' ''FASTMAIL_API_TOKEN is required for the jmap backend'') (\<lambda>token.
          Inr (JmapBackend token (dict_get env ''FASTMAIL_ACCOUNT_ID'')
                 (env_default env ''FASTMAIL_SESSION_URL'' ''https://api.fastmail.com/jmap/session'')
                 (env_default env ''DEAR_AGENT_MAILBOX'' ''Dear Agent'')))
      else if kind = ''imap'' then
        bindR (required env ''DEAR_AGENT_IMAP_HOST'' ''DEAR_AGENT_IMAP_HOST is required for the imap backend'') (\<lambda>host.
          let user = env_default env ''DEAR_AGENT_IMAP_USER'' []; password = env_default env ''DEAR_AGENT_IMAP_PASSWORD'' [] in
          bindR (int_of_text (env_default env ''DEAR_AGENT_IMAP_PORT'' ''993'')) (\<lambda>port.
          bindR (int_of_text (env_default env ''DEAR_AGENT_SMTP_PORT'' ''587'')) (\<lambda>smtp_port.
            Inr (ImapBackend host user password port (lower (env_default env ''DEAR_AGENT_IMAP_SSL'' ''true'') \<noteq> ''false'')
                   (env_default env ''DEAR_AGENT_SMTP_HOST'' host) smtp_port
                   (env_default env ''DEAR_AGENT_SMTP_USER'' user) (env_default env ''DEAR_AGENT_SMTP_PASSWORD'' password)
                   (lower (env_default env ''DEAR_AGENT_SMTP_STARTTLS'' ''true'') \<noteq> ''false'')
                   (lower (env_default env ''DEAR_AGENT_SMTP_SSL'' ''false'') = ''true'')
                   (env_default env ''DEAR_AGENT_IMAP_MAILBOX'' ''INBOX'')
                   (env_default env ''DEAR_AGENT_IMAP_DONE_MAILBOX'' ''Dear-Agent-Done'')
                   (env_default env ''DEAR_AGENT_SMTP_FROM'' user)))))
      else if kind = ''agentmail'' then
        bindR (required env ''AGENTMAIL_API_TOKEN'' ''AGENTMAIL_API_TOKEN is required for the agentmail backend'') (\<lambda>token.
          Inr (AgentmailBackend token (env_default env ''AGENTMAIL_BASE_URL'' ''https://api.agentmail.to/v0'')
                 (case dict_get env ''DEAR_AGENT_MAILBOX'' of Some v \<Rightarrow> if v = [] then None else Some v | None \<Rightarrow> None)))
      else Inl (RuntimeError (''unknown backend '' @ py_repr kind)))"

text \<open>Where a store lives: in the database, in a file or in the process.\<close>

datatype store_config = DatabaseStore string | FileStore string | ProcessStore

definition queue_backend :: "(string, string) dict \<Rightarrow> string" where
  "queue_backend env = lower (strip (env_default env ''DEAR_AGENT_QUEUE'' ''memory''))"

definition database_url :: "(string, string) dict \<Rightarrow> exn + store_config" where
  "database_url env =
     bindR (required env ''DEAR_AGENT_DATABASE_URL'' ''DEAR_AGENT_DATABASE_URL is required for the postgres queue'')
       (\<lambda>dsn. Inr (DatabaseStore dsn))"

definition build_queue :: "(string, string) dict \<Rightarrow> exn + store_config" where
  "build_queue env =
     (if queue_backend env = ''memory'' then Inr ProcessStore
      else if queue_backend env = ''postgres'' then database_url env
      else Inl (RuntimeError (''unknown queue backend '' @ py_repr (queue_backend env))))"

definition build_event_log :: "(string, string) dict \<Rightarrow> exn + store_config" where
  "build_event_log env = (if queue_backend env = ''postgres'' then database_url env else Inr ProcessStore)"

definition build_policy_store :: "(string, string) dict \<Rightarrow> exn + store_config" where
  "build_policy_store env = (if queue_backend env = ''postgres'' then database_url env else Inr ProcessStore)"

definition build_approval_store :: "(string, string) dict \<Rightarrow> exn + store_config" where
  "build_approval_store env =
     (if queue_backend env = ''postgres'' then database_url env
      else case dict_get env ''DEAR_AGENT_APPROVALS_FILE'' of
             Some path \<Rightarrow> if path \<noteq> [] then Inr (FileStore path) else Inr ProcessStore
           | None \<Rightarrow> Inr ProcessStore)"

section \<open>The worker\<close>

text \<open>The runner: delegated over a directory with a timeout, routed, or one harness in its session.\<close>

datatype runner_plan =
    Delegated string string
  | Routed routing_plan
  | Single harness_info session "string option"

record worker_plan =
  wp_runner :: runner_plan
  wp_session :: "session option"
  wp_approvals :: store_config
  wp_events :: store_config
  wp_verify_allowed :: "string list list"
  wp_forge :: forge
  wp_push_key :: "string option"
  wp_worktrees_root :: string
  wp_reviewer :: "model_reviewer option"
  wp_debate_rounds :: int
  wp_max_attempts :: int
  wp_budget :: error_budget
  wp_policies :: store_config

definition plan_local ::
  "'w site \<Rightarrow> (string, string) dict \<Rightarrow> string \<Rightarrow> string option \<Rightarrow> ('w, runner_plan \<times> session option) prog" where
  "plan_local S env repo_path model =
     bindE (build_routing_runner S env) (\<lambda>routing.
       case routing of
         Some r \<Rightarrow> ret (Routed r, Some Given)
       | None \<Rightarrow>
           bindE (build_runner_and_session S env (Some repo_path)) (\<lambda>(info, session).
             ret (Single info session (if hi_accepts_model info then model else None), Some session)))"

definition plan_runner ::
  "'w site \<Rightarrow> (string, string) dict \<Rightarrow> string \<Rightarrow> string option \<Rightarrow> ('w, runner_plan \<times> session option) prog" where
  "plan_runner S env repo_path model =
     (let dir = or_else (dict_get env ''DEAR_AGENT_HARNESS_DIR'') []; timeout = env_default env ''DEAR_AGENT_HARNESS_TIMEOUT'' ''3600'' in
      if dir = [] then plan_local S env repo_path model
      else if is_float timeout then ret (Delegated dir timeout, None)
      else raise (ValueError (''could not convert string to float: '' @ py_repr timeout)))"

text \<open>\<open>tempdir\<close>: the directory for temporary files.\<close>

definition build_worker ::
  "'w site \<Rightarrow> (string, string) dict \<Rightarrow> string \<Rightarrow> string \<Rightarrow> string option \<Rightarrow> ('w, worker_plan) prog" where
  "build_worker S env tempdir repo_path model =
     bindE (plan_runner S env repo_path model) (\<lambda>(rn, session).
     bindE (liftR (build_approval_store env)) (\<lambda>approvals.
     bindE (liftR (build_event_log env)) (\<lambda>events.
     bindE (liftR (build_forge env)) (\<lambda>fg.
     bindE (liftR (build_reviewer env)) (\<lambda>reviewer.
     bindE (liftR (int_of_text (env_default env ''DEAR_AGENT_DEBATE_ROUNDS'' ''1''))) (\<lambda>rounds.
     bindE (liftR (int_of_text (env_default env ''DEAR_AGENT_MAX_ATTEMPTS'' ''3''))) (\<lambda>attempts.
     bindE (case error_budget_from_env env of None \<Rightarrow> raise (ValueError ''invalid literal for int() with base 10'') | Some b \<Rightarrow> ret b) (\<lambda>budget.
     bindE (liftR (build_policy_store env)) (\<lambda>policies.
       ret \<lparr>wp_runner = rn, wp_session = session, wp_approvals = approvals, wp_events = events,
            wp_verify_allowed = allowed_from_env (dict_get env ''DEAR_AGENT_VERIFY_ALLOW''), wp_forge = fg,
            wp_push_key = (case dict_get env ''DEAR_AGENT_GIT_PUSH_KEY'' of Some k \<Rightarrow> if k = [] then None else Some k | None \<Rightarrow> None),
            wp_worktrees_root = default_worktrees_root env tempdir, wp_reviewer = reviewer, wp_debate_rounds = rounds,
            wp_max_attempts = attempts, wp_budget = budget, wp_policies = policies\<rparr>)))))))))"

section \<open>What the choice of isolation means\<close>

lemma inject_kind:
  assumes "maybe_inject_bundle S env s0 info img auto w = (Inr s1, w')"
  shows "s1 = s0 \<or> (\<exists>c c'. s0 = Contained c \<and> s1 = Contained c' \<and> cc_image c' = cc_image c)"
  using assms
  by (auto simp: maybe_inject_bundle_def Let_def container_new_def seqE_def elim!: bindE_cases
      split: if_splits session.splits sum.splits option.splits)

lemma install_kind:
  assumes "maybe_install_harness s0 info img auto = Inr s1"
  shows "s1 = s0 \<or> (\<exists>c c'. s0 = Contained c \<and> s1 = Contained c' \<and> cc_image c' = cc_image c)"
  using assms by (auto simp: maybe_install_harness_def container_new_def split: if_splits session.splits sum.splits option.splits)

lemma build_steps:
  assumes "build_runner_and_session S env repo_path w = (Inr (info, s), w')"
  obtains img baked s0 s1 w1 w2 where "chosen_harness (si_machine S) env w = Inr info"
    and "declared_image S env repo_path w = (Inr (img, baked), w1)"
    and "first_session (if truthy img then dict_set ''DEAR_AGENT_HARNESS_IMAGE'' (the img) env else env) info = Inr s0"
    and "maybe_inject_bundle S env s0 info img (\<not> baked) w1 = (Inr s1, w2)"
    and "maybe_install_harness s1 info img (\<not> baked) = Inr s" and "w' = w2"
proof -
  show thesis
    using assms that
    by (auto simp: build_runner_and_session_def Let_def seqE_def elim!: bindE_cases split: sum.splits prod.splits)
qed

lemma contained_image:
  assumes "container_sandbox info env = Inr c"
  shows "cc_image c = (if truthy (dict_get env ''DEAR_AGENT_HARNESS_IMAGE'')
    then the (dict_get env ''DEAR_AGENT_HARNESS_IMAGE'') else the (hi_image info))"
  using assms
  by (auto simp: container_sandbox_def Let_def container_new_def split: if_splits sum.splits option.splits)

text \<open>
  The operator's choice of isolation decides where the harness runs: under \<open>podman\<close> the session is a
  container, of the image the operator names, else of the one the repository declares, else of the harness's own;
  otherwise OpenCode gets the sandbox it is given and every other harness none, whatever the repository declares.
\<close>

theorem isolation_respected:
  assumes "build_runner_and_session S env repo_path w = (Inr (info, s), w')"
  shows "if podman_isolation env
    then \<exists>c img baked w1. s = Contained c \<and> declared_image S env repo_path w = (Inr (img, baked), w1) \<and>
      cc_image c = (if truthy (dict_get env ''DEAR_AGENT_HARNESS_IMAGE'') then the (dict_get env ''DEAR_AGENT_HARNESS_IMAGE'')
        else if truthy img then the img else the (hi_image info))
    else s = (if hi_id info = ''opencode'' then Given else Unconfined)"
proof -
  obtain img baked s0 s1 w1 w2 where img: "declared_image S env repo_path w = (Inr (img, baked), w1)" and
    s0: "first_session (if truthy img then dict_set ''DEAR_AGENT_HARNESS_IMAGE'' (the img) env else env) info = Inr s0" and
    s1: "maybe_inject_bundle S env s0 info img (\<not> baked) w1 = (Inr s1, w2)" "maybe_install_harness s1 info img (\<not> baked) = Inr s"
    using assms by (rule build_steps)
  have podman: "podman_isolation (dict_set ''DEAR_AGENT_HARNESS_IMAGE'' v env) = podman_isolation env" for v
    by (simp add: podman_isolation_def env_default_def)
  have named: "truthy (dict_get env ''DEAR_AGENT_HARNESS_IMAGE'') \<Longrightarrow> \<not> truthy img"
    using img by (auto simp: declared_image_def truthy_def split: if_splits)
  from s1 have kept: "s = s0 \<or> (\<exists>c c'. s0 = Contained c \<and> s = Contained c' \<and> cc_image c' = cc_image c)"
    by (auto dest!: inject_kind install_kind)
  show ?thesis
  proof (cases "podman_isolation env")
    case True
    then obtain c where "container_sandbox info (if truthy img then dict_set ''DEAR_AGENT_HARNESS_IMAGE'' (the img) env else env) = Inr c"
        "s0 = Contained c"
      using s0 podman by (auto simp: first_session_def bindR_Inr split: if_splits)
    then have "cc_image c = (if truthy (dict_get env ''DEAR_AGENT_HARNESS_IMAGE'') then the (dict_get env ''DEAR_AGENT_HARNESS_IMAGE'')
        else if truthy img then the img else the (hi_image info))"
      using named by (auto dest!: contained_image simp: truthy_def split: if_splits option.splits)
    then show ?thesis using True kept img \<open>s0 = Contained c\<close> by auto
  next
    case False
    then have "s0 = (if hi_id info = ''opencode'' then Given else Unconfined)"
      using s0 podman by (auto simp: first_session_def split: if_splits)
    with False kept show ?thesis by (auto split: if_splits)
  qed
qed

lemma opencode_default:
  obtains info where "select_harness (list_harnesses env) None which = Inr info" "hi_id info = ''opencode''"
    "hi_image info = Some ''ghcr.io/anomalyco/opencode:latest''"
proof -
  have name: "lower (strip DEFAULT_HARNESS) = ''opencode''" by code_simp
  have "\<exists>info. dict_get (by_id (list_harnesses env)) ''opencode'' = Some info \<and> hi_id info = ''opencode'' \<and>
      hi_image info = Some ''ghcr.io/anomalyco/opencode:latest''"
    by (simp add: by_id_def list_harnesses_def Let_def new_info_def)
  then show thesis using that by (auto simp: select_harness_def name Let_def)
qed

text \<open>
  With the default settings a repository that declares an image cannot be worked on at all: the bundle is
  injected automatically for the declared image, and the default isolation refuses a bundle.
\<close>

theorem declared_image_breaks_default_setup:
  assumes "detect (si_safe_load S) (si_files S w) path = Inr d" and "ed_image d = Some img" and "img \<noteq> []"
    and "img \<noteq> ''ghcr.io/anomalyco/opencode:latest''" and "path \<noteq> []"
    and "\<forall>n \<in> {''DEAR_AGENT_HARNESS'', ''DEAR_AGENT_HARNESS_IMAGE'', ''DEAR_AGENT_HARNESS_FEATURE'', ''DEAR_AGENT_ISOLATION''}.
      dict_get env n = None"
  shows "build_runner_and_session S env (Some path) w =
    (Inl (RuntimeError ''DEAR_AGENT_HARNESS_BUNDLE requires DEAR_AGENT_ISOLATION=podman''), w)"
proof -
  have no: "dict_get env ''DEAR_AGENT_HARNESS'' = None" "dict_get env ''DEAR_AGENT_HARNESS_IMAGE'' = None"
    "dict_get env ''DEAR_AGENT_HARNESS_FEATURE'' = None" "dict_get env ''DEAR_AGENT_ISOLATION'' = None"
    using assms(6) by (simp_all only: ball_simps insert_iff simp_thms)
  obtain i0 where i0: "select_harness (list_harnesses env) None (\<lambda>b. m_which (si_machine S) b w) = Inr i0"
      "hi_id i0 = ''opencode''" "hi_image i0 = Some ''ghcr.io/anomalyco/opencode:latest''"
    by (rule opencode_default)
  define info where "info = (if truthy (dict_get env ''DEAR_AGENT_HARNESS_BINARY'')
    then i0\<lparr>hi_binary := the (dict_get env ''DEAR_AGENT_HARNESS_BINARY'')\<rparr> else i0)"
  have info: "chosen_harness (si_machine S) env w = Inr info" "hi_id info = ''opencode''"
    "hi_image info = Some ''ghcr.io/anomalyco/opencode:latest''"
    using i0 no(1) by (simp_all add: chosen_harness_def info_def Let_def)
  have strip_nil: "strip [] = []" by code_simp
  have img: "declared_image S env (Some path) w = (Inr (Some img, False), w)"
    using assms(1-3,5) no(2,3) strip_nil by (simp add: declared_image_def truthy_def environment_image_def or_else_def has_image_def)
  have not_podman: "lower (strip ''bwrap'') \<noteq> ''podman''" by code_simp
  have "first_session (dict_set ''DEAR_AGENT_HARNESS_IMAGE'' img env) info = Inr Given"
    using no(4) info(2) not_podman by (simp add: first_session_def podman_isolation_def env_default_def)
  moreover have "maybe_inject_bundle S env Given info (Some img) True w =
      (Inl (RuntimeError ''DEAR_AGENT_HARNESS_BUNDLE requires DEAR_AGENT_ISOLATION=podman''), w)"
    using assms(3,4) info(2,3) by (simp add: maybe_inject_bundle_def auto_inject_def truthy_def Let_def)
  ultimately show ?thesis
    using info(1) assms(3) img by (simp add: build_runner_and_session_def bindE_def truthy_def)
qed

section \<open>Instances\<close>

definition shelf_site :: "string list site" where
  "shelf_site =
     \<lparr>si_machine = shelf, si_chmod = (\<lambda>p. ret ()),
      si_files = (\<lambda>w. one_file ''/repo/.devcontainer.json'' (json_dumps (JObj [(''image'', JStr ''env:1'')]))),
      si_safe_load = (\<lambda>t. Inr JNull), si_cache_dir = ''/cache''\<rparr>"

theorem declared_image_breaks_default_setup_witness:
  "build_runner_and_session shelf_site [] (Some ''/repo'') [] =
     (Inl (RuntimeError ''DEAR_AGENT_HARNESS_BUNDLE requires DEAR_AGENT_ISOLATION=podman''), [])"
  by (rule declared_image_breaks_default_setup
      [where d = "(new_descriptor ''devcontainer'' (Some ''/repo/.devcontainer.json'') [])\<lparr>ed_image := Some ''env:1''\<rparr>" and img = "''env:1''"])
    (code_simp, simp_all add: new_descriptor_def)

theorem isolation_respected_witness:
  "\<exists>info s w'. build_runner_and_session shelf_site [(''DEAR_AGENT_ISOLATION'', ''podman'')] (Some ''/repo'') [] = (Inr (info, s), w') \<and>
     (\<exists>c. s = Contained c \<and> cc_image c = ''env:1'')"
proof -
  let ?env = "[(''DEAR_AGENT_ISOLATION'', ''podman'')]" and ?b = "build_runner_and_session shelf_site"
  have "isl (fst (?b ?env (Some ''/repo'') [])) = False" by code_simp
  then obtain info s w' where built: "?b ?env (Some ''/repo'') [] = (Inr (info, s), w')"
    by (cases "?b ?env (Some ''/repo'') []"; cases "fst (?b ?env (Some ''/repo'') [])") auto
  have "podman_isolation ?env" by code_simp
  moreover have "declared_image shelf_site ?env (Some ''/repo'') [] = (Inr (Some ''env:1'', False), [])" by code_simp
  ultimately have "\<exists>c. s = Contained c \<and> cc_image c = ''env:1''"
    using isolation_respected [OF built] by (auto simp: truthy_def)
  with built show ?thesis by blast
qed

end
