(* ===== verification/Inbound.thy ===== *)
theory Inbound
  imports PyValue ControlPlane
begin

text \<open>
  The HTTP entry point (\<open>http_server.py\<close>, \<open>inbound.py\<close>, \<open>observability/health.py\<close>): a request
  becomes a health view or one ingest pass of the control plane behind the webhook's own gate, and the server answers
  a bounded number of requests at a time. The two decodings of a body, strict for \<open>json.loads\<close> and lenient for the
  signature, are parameters that keep ASCII texts. A \<open>sender\<close>, \<open>subject\<close> or \<open>thread_id\<close> that is neither text nor null
  raises here, where the code passes it on to the gate.
\<close>

section \<open>The payload\<close>

text \<open>\<open>int(x)\<close> of a number written with a fraction or an exponent, as it is written.\<close>

definition int_of_float :: "string \<Rightarrow> exn + int" where
  "int_of_float text =
     (if text \<in> {''Infinity'', ''-Infinity''} then Inl (OtherError ''cannot convert float infinity to integer'')
      else if text = ''NaN'' then Inl (ValueError ''cannot convert float NaN to integer'')
      else
        let neg = startswith text ''-''; body = lower (if neg then tl text else text);
            mantissa = takeWhile (\<lambda>c. c \<noteq> CHR ''e'') body; expo = drop (Suc (length mantissa)) body;
            (whole, frac) = (case cut_at ''.'' mantissa of None \<Rightarrow> (mantissa, []) | Some p \<Rightarrow> p);
            scale = (case py_int expo of None \<Rightarrow> 0 | Some e \<Rightarrow> e) - int (length frac);
            m = int (nat_of_digits (whole @ frac));
            n = (if m = 0 then 0
                 else if scale \<ge> 0 then m * 10 ^ nat scale
                 else m div 10 ^ nat (- scale))
        in if n \<ge> 2 ^ 1024 then Inl (OtherError ''cannot convert float infinity to integer'')
           else Inr (if neg then - n else n))"

text \<open>\<open>int(v or 0)\<close>.\<close>

definition int_or_zero :: "json \<Rightarrow> exn + int" where
  "int_or_zero v =
     (if \<not> j_true v then Inr 0
      else case v of
        JInt i \<Rightarrow> Inr i
      | JBool b \<Rightarrow> Inr 1
      | JFloat t \<Rightarrow> int_of_float t
      | JStr s \<Rightarrow>
          (case py_int s of None \<Rightarrow> Inl (ValueError (''invalid literal for int() with base 10: '' @ py_repr s)) | Some n \<Rightarrow> Inr n)
      | _ \<Rightarrow> Inl (TypeError (''int() argument must be a string, a bytes-like object or a real number, not '' @ py_repr (type_name v))))"

definition parse_attachment :: "(string, json) dict \<Rightarrow> exn + attachment" where
  "parse_attachment d =
     bindR (int_or_zero (get_or d ''size'' (JInt 0))) (\<lambda>n.
       Inr \<lparr>at_name = py_str (get_or d ''name'' (JStr [])), at_content_type = py_str (get_or d ''content_type'' (JStr [])), at_size = n\<rparr>)"

text \<open>The elements of a value that are dictionaries; only lists have any.\<close>

definition dict_elements :: "json \<Rightarrow> exn + (string, json) dict list" where
  "dict_elements v =
     (case v of
        JArr vs \<Rightarrow> Inr (List.map_filter (\<lambda>x. case x of JObj d \<Rightarrow> Some d | _ \<Rightarrow> None) vs)
      | JObj _ \<Rightarrow> Inr []
      | JStr _ \<Rightarrow> Inr []
      | _ \<Rightarrow> Inl (TypeError (py_repr (type_name v) @ '' object is not iterable'')))"

definition text_or_null :: "json \<Rightarrow> exn + string option" where
  "text_or_null v =
     (case v of JNull \<Rightarrow> Inr None | JStr s \<Rightarrow> Inr (Some s) | _ \<Rightarrow> Inl (TypeError (''expected str, not '' @ type_name v)))"

definition parse_fields :: "time \<Rightarrow> (string, json) dict \<Rightarrow> exn + raw_message" where
  "parse_fields now data =
     (case get_or data ''id'' JNull of
        JStr transport_id \<Rightarrow>
          if transport_id = [] then Inl (InboundError (py_repr ''id'' @ '' is required and must be a non-empty string''))
          else (case get_or data ''body'' (JStr []) of
            JStr body \<Rightarrow>
              (case get_or data ''headers'' (JObj []) of
                 JObj headers \<Rightarrow>
                   bindR (dict_elements (get_or data ''attachments'' (JArr []))) (\<lambda>items.
                   bindR (mapR parse_attachment items) (\<lambda>attachments.
                   bindR (text_or_null (get_or data ''thread_id'' JNull)) (\<lambda>thread.
                   bindR (text_or_null (get_or data ''sender'' JNull)) (\<lambda>sender.
                   bindR (text_or_null (get_or data ''subject'' JNull)) (\<lambda>subject.
                     Inr \<lparr>rm_transport_id = transport_id, rm_thread_id = thread, rm_sender = sender, rm_subject = subject,
                          rm_body = body, rm_attachments = attachments,
                          rm_headers = map (\<lambda>(k, v). (k, py_str v)) headers, rm_received_at = now\<rparr>)))))
               | _ \<Rightarrow> Inl (InboundError (py_repr ''headers'' @ '' must be an object'')))
          | _ \<Rightarrow> Inl (InboundError (py_repr ''body'' @ '' must be a string'')))
      | _ \<Rightarrow> Inl (InboundError (py_repr ''id'' @ '' is required and must be a non-empty string'')))"

definition parse_message :: "(string \<Rightarrow> exn + string) \<Rightarrow> time \<Rightarrow> string \<Rightarrow> exn + raw_message" where
  "parse_message strict now payload =
     (case bindR (strict (body_or_empty payload)) json_loads of
        Inl (JSONDecodeError _) \<Rightarrow> Inl (InboundError ''body is not valid JSON'')
      | Inl e \<Rightarrow> Inl e
      | Inr (JObj data) \<Rightarrow> parse_fields now data
      | Inr _ \<Rightarrow> Inl (InboundError ''body must be a JSON object''))"

section \<open>The webhook\<close>

record ('q, 'a, 'e, 't, 'p) webhook =
  wh_plane :: "('q, 'a, 'e, 't, 'p) plane"
  wh_recipient :: "string option"
  wh_strict :: "string \<Rightarrow> exn + string"
  wh_lenient :: "string \<Rightarrow> string"

record ('q, 'a, 'e, 't, 'p) webhook_state =
  ws_plane :: "('q, 'a, 'e, 't, 'p) plane_state"
  ws_gate :: "gate option"

type_synonym response = "int \<times> json"

definition error_body :: "string \<Rightarrow> json" where
  "error_body text = JObj [(''error'', JStr text)]"

definition ids_json :: "string list \<Rightarrow> json" where
  "ids_json ids = JArr (map JStr ids)"

definition on_plane ::
  "(('q, 'a, 'e, 't, 'p) plane_state, 'r) prog \<Rightarrow> (('q, 'a, 'e, 't, 'p) webhook_state, 'r) prog" where
  "on_plane p = on_part ws_plane (\<lambda>c s. s\<lparr>ws_plane := c\<rparr>) p"

definition gate_admit ::
  "('q, 'a, 'e, 't, 'p) webhook \<Rightarrow> string \<Rightarrow> (string, string) dict \<Rightarrow> string option \<Rightarrow>
    (('q, 'a, 'e, 't, 'p) webhook_state, unit) prog" where
  "gate_admit W body headers sender =
     bindE (asks ws_gate) (\<lambda>gate.
       case gate of
         None \<Rightarrow> ret ()
       | Some g \<Rightarrow> bindE (on_plane (reading (wh_plane W))) (\<lambda>now.
           on_part (\<lambda>s. g) (\<lambda>g' s. s\<lparr>ws_gate := Some g'\<rparr>)
             (admit (cp_hmac (wh_plane W)) (wh_lenient W body) headers sender now)))"

text \<open>\<open>InboundWebhook.__call__\<close>.\<close>

definition webhook_call ::
  "('q, 'a, 'e, 't, 'p) webhook \<Rightarrow> string \<Rightarrow> (string, string) dict \<Rightarrow>
    (('q, 'a, 'e, 't, 'p) webhook_state, response) prog" where
  "webhook_call W body headers =
     bindE (on_plane (reading (wh_plane W))) (\<lambda>now.
       case parse_message (wh_strict W) now body of
         Inl (InboundError text) \<Rightarrow> ret (400, error_body text)
       | Inl e \<Rightarrow> raise e
       | Inr message \<Rightarrow>
           bindE (attempt (gate_admit W body headers (rm_sender message))) (\<lambda>admitted.
             case admitted of
               Inl e \<Rightarrow> if is_AuthError e then ret (401, error_body (exn_text e)) else raise e
             | Inr _ \<Rightarrow>
                 bindE (on_plane (ingest (wh_plane W) [message] (wh_recipient W))) (\<lambda>report.
                   if ir_denied report \<noteq> [] then ret (403, error_body ''sender is not allowed'')
                   else ret (202, JObj
                     [(''accepted'', ids_json (ir_accepted report)), (''rejected'', ids_json (ir_rejected report)),
                      (''decided'', ids_json (ir_decided report)), (''suspicious'', ids_json (ir_suspicious report))]))))"

section \<open>Health\<close>

definition COUNTED_STATES :: "task_state list" where
  "COUNTED_STATES = [QUEUED, RUNNING, ACTION, DONE, FAILED, REJECTED]"

record health_status =
  hs_ok :: bool
  hs_checked_at :: time
  hs_counts :: "(string, int) dict"
  hs_details :: "(string, int) dict"

definition queue_depth :: "health_status \<Rightarrow> int" where
  "queue_depth h = (case dict_get (hs_counts h) (state_value QUEUED) of None \<Rightarrow> 0 | Some n \<Rightarrow> n)"

definition running_tasks :: "health_status \<Rightarrow> int" where
  "running_tasks h = (case dict_get (hs_counts h) (state_value RUNNING) of None \<Rightarrow> 0 | Some n \<Rightarrow> n)"

definition STALL_MARGIN :: duration where "STALL_MARGIN = 300 * 1000000"

definition health_check :: "int \<Rightarrow> duration \<Rightarrow> 'q queue_ops \<Rightarrow> 'q \<Rightarrow> time \<Rightarrow> health_status" where
  "health_check max_running margin Q q moment =
     (let counts = map (\<lambda>st. (state_value st, int (length (q_list Q st 1000 q)))) COUNTED_STATES;
          active = (case dict_get counts (state_value RUNNING) of None \<Rightarrow> 0 | Some n \<Rightarrow> n);
          stalled = length (filter (\<lambda>t. case t_lease_until t of None \<Rightarrow> False | Some l \<Rightarrow> l \<le> moment + margin)
                      (q_list Q RUNNING 1000 q))
      in \<lparr>hs_ok = (active \<le> max_running), hs_checked_at = moment, hs_counts = counts,
          hs_details = [(''max_running'', max_running), (''stalled'', int stalled)]\<rparr>)"

text \<open>\<open>isoformat\<close> is the one of \<open>datetime\<close>.\<close>

definition health_json :: "(time \<Rightarrow> string) \<Rightarrow> health_status \<Rightarrow> json" where
  "health_json isoformat h =
     JObj ([(''ok'', JBool (hs_ok h)), (''checked_at'', JStr (isoformat (hs_checked_at h))),
            (''counts'', JObj (map (\<lambda>(k, n). (k, JInt n)) (hs_counts h)))] @
           map (\<lambda>(k, n). (k, JInt n)) (hs_details h))"

section \<open>The server\<close>

record 's server =
  sv_health :: "('s, json) prog"
  sv_inbound :: "(string \<Rightarrow> (string, string) dict \<Rightarrow> ('s, response) prog) option"
  sv_max_body_bytes :: int

definition not_found :: response where "not_found = (404, error_body ''not found'')"

definition path_of :: "string \<Rightarrow> string" where
  "path_of target = takeWhile (\<lambda>c. c \<noteq> CHR ''?'') target"

definition do_GET :: "'s server \<Rightarrow> string \<Rightarrow> ('s, response) prog" where
  "do_GET V target =
     (if path_of target = ''/health'' then bindE (sv_health V) (\<lambda>h. ret (200, h)) else ret not_found)"

text \<open>\<open>length_header\<close>: the \<open>Content-Length\<close>; \<open>input\<close>: what the client sends after its headers.\<close>

definition do_POST ::
  "'s server \<Rightarrow> string \<Rightarrow> string option \<Rightarrow> (string, string) dict \<Rightarrow> string \<Rightarrow> ('s, response) prog" where
  "do_POST V target length_header headers input =
     (if path_of target \<noteq> ''/inbound'' then ret not_found
      else case sv_inbound V of
        None \<Rightarrow> ret (503, error_body ''inbound webhook is not configured'')
      | Some handler \<Rightarrow>
          (case (if truthy length_header then py_int (the length_header) else Some 0) of
             None \<Rightarrow> ret (400, error_body ''invalid Content-Length'')
           | Some n \<Rightarrow>
               if n < 0 then ret (400, error_body ''invalid Content-Length'')
               else if n > sv_max_body_bytes V then ret (413, error_body ''request body too large'')
               else handler (take (nat n) input) headers))"

section \<open>The slots\<close>

text \<open>
  \<open>process_request\<close> takes a slot and starts a thread, or gives the slot back when that fails; the thread gives
  it back when it ends.
\<close>

record slots =
  sl_free :: nat
  sl_starting :: nat
  sl_active :: nat

inductive slot_step :: "slots \<Rightarrow> slots \<Rightarrow> bool" where
  acquire: "0 < sl_free s \<Longrightarrow> slot_step s (s\<lparr>sl_free := sl_free s - 1, sl_starting := Suc (sl_starting s)\<rparr>)"
| started: "0 < sl_starting s \<Longrightarrow> slot_step s (s\<lparr>sl_starting := sl_starting s - 1, sl_active := Suc (sl_active s)\<rparr>)"
| not_started: "0 < sl_starting s \<Longrightarrow> slot_step s (s\<lparr>sl_starting := sl_starting s - 1, sl_free := Suc (sl_free s)\<rparr>)"
| finished: "0 < sl_active s \<Longrightarrow> slot_step s (s\<lparr>sl_active := sl_active s - 1, sl_free := Suc (sl_free s)\<rparr>)"

definition idle_slots :: "nat \<Rightarrow> slots" where
  "idle_slots n = \<lparr>sl_free = n, sl_starting = 0, sl_active = 0\<rparr>"

inductive_cases slot_stepE: "slot_step s s'"

section \<open>What reaches the plane\<close>

text \<open>
  C18. The webhook fails closed. It answers 202 or 403 only for a request its gate has admitted, with the very body
  and the sender of the payload; a request it refuses (400, 401) or breaks on before the gate has let it in leaves the
  queue, the approvals, the events, the outgoing mail and the policies as they were.
\<close>

definition same_collaborators ::
  "('q, 'a, 'e, 't, 'p) plane_state \<Rightarrow> ('q, 'a, 'e, 't, 'p) plane_state \<Rightarrow> bool" where
  "same_collaborators s s' \<longleftrightarrow>
     ps_queue s' = ps_queue s \<and> ps_approvals s' = ps_approvals s \<and> ps_events s' = ps_events s \<and>
     ps_transport s' = ps_transport s \<and> ps_policies s' = ps_policies s \<and> ps_gate s' = ps_gate s"

definition gate_admits ::
  "('q, 'a, 'e, 't, 'p) webhook \<Rightarrow> string \<Rightarrow> (string, string) dict \<Rightarrow> ('q, 'a, 'e, 't, 'p) webhook_state \<Rightarrow> bool" where
  "gate_admits W body headers s \<longleftrightarrow>
     (let now = cp_clock (wh_plane W) (ps_tick (ws_plane s)); later = cp_clock (wh_plane W) (Suc (ps_tick (ws_plane s))) in
      case parse_message (wh_strict W) now body of
        Inl e \<Rightarrow> False
      | Inr m \<Rightarrow>
          (case ws_gate s of
             None \<Rightarrow> True
           | Some g \<Rightarrow> fst (admit (cp_hmac (wh_plane W)) (wh_lenient W body) headers (rm_sender m) later g) = Inr ()))"

lemma webhook_refuses:
  assumes "webhook_call W body headers s = (r, s')" and "\<not> gate_admits W body headers s"
  shows "same_collaborators (ws_plane s) (ws_plane s') \<and>
    (case r of Inl e \<Rightarrow> True | Inr (status, payload) \<Rightarrow> status \<in> {400, 401})"
  using assms
  by (auto simp: webhook_call_def gate_admits_def gate_admit_def Let_def on_plane_def on_part_def reading_def
      bindE_def attempt_def same_collaborators_def split: sum.splits option.splits exn.splits prod.splits if_splits)

theorem webhook_fails_closed:
  assumes "webhook_call W body headers s = (r, s')"
  shows "if gate_admits W body headers s
    then \<exists>m p0 report p1. parse_message (wh_strict W) (cp_clock (wh_plane W) (ps_tick (ws_plane s))) body = Inr m \<and>
      same_collaborators (ws_plane s) p0 \<and> ingest (wh_plane W) [m] (wh_recipient W) p0 = (report, p1) \<and> ws_plane s' = p1 \<and>
      (case (report, r) of (Inl e, Inl e') \<Rightarrow> e' = e
       | (Inr rep, Inr (status, payload)) \<Rightarrow> status = (if ir_denied rep = [] then 202 else 403) | _ \<Rightarrow> False)
    else same_collaborators (ws_plane s) (ws_plane s') \<and>
      (case r of Inl e \<Rightarrow> True | Inr (status, payload) \<Rightarrow> status \<in> {400, 401})"
proof (cases "gate_admits W body headers s")
  case False
  then show ?thesis using webhook_refuses [OF assms] by simp
next
  case True
  let ?now = "cp_clock (wh_plane W) (ps_tick (ws_plane s))" and ?s1 = "ws_plane s\<lparr>ps_tick := Suc (ps_tick (ws_plane s))\<rparr>"
  obtain m where m: "parse_message (wh_strict W) ?now body = Inr m"
    using True by (auto simp: gate_admits_def Let_def split: sum.splits)
  obtain s2 where admitted: "gate_admit W body headers (rm_sender m) (s\<lparr>ws_plane := ?s1\<rparr>) = (Inr (), s2)"
      and same: "same_collaborators (ws_plane s) (ws_plane s2)"
  proof (cases "ws_gate s")
    case None
    then show ?thesis using that by (simp add: gate_admit_def same_collaborators_def)
  next
    case (Some g)
    obtain g' where "admit (cp_hmac (wh_plane W)) (wh_lenient W body) headers (rm_sender m)
        (cp_clock (wh_plane W) (Suc (ps_tick (ws_plane s)))) g = (Inr (), g')"
      using True m Some by (auto simp: gate_admits_def Let_def prod_eq_iff)
    then show ?thesis using Some that
      by (simp add: gate_admit_def on_plane_def on_part_def reading_def bindE_def same_collaborators_def)
  qed
  obtain report p1 where run: "ingest (wh_plane W) [m] (wh_recipient W) (ws_plane s2) = (report, p1)" by fastforce
  have "webhook_call W body headers s = bindE (on_plane (ingest (wh_plane W) [m] (wh_recipient W))) (\<lambda>report.
                   if ir_denied report \<noteq> [] then ret (403, error_body ''sender is not allowed'')
                   else ret (202, JObj
                     [(''accepted'', ids_json (ir_accepted report)), (''rejected'', ids_json (ir_rejected report)),
                      (''decided'', ids_json (ir_decided report)), (''suspicious'', ids_json (ir_suspicious report))])) s2"
    using m admitted by (simp add: webhook_call_def on_plane_def on_part_def reading_def bindE_def attempt_def)
  with assms run have "ws_plane s' = p1 \<and> (case (report, r) of (Inl e, Inl e') \<Rightarrow> e' = e
       | (Inr rep, Inr (status, payload)) \<Rightarrow> status = (if ir_denied rep = [] then 202 else 403) | _ \<Rightarrow> False)"
    by (cases report) (auto simp: on_plane_def on_part_def bindE_def split: if_splits)
  with m same run show ?thesis
    unfolding if_P [OF True]
    by (intro exI [of _ m] exI [of _ "ws_plane s2"] exI [of _ report] exI [of _ p1] conjI) (elim conjE, assumption)+
qed

text \<open>
  A malformed payload is not always answered with 400: \<open>"attachments": null\<close> raises \<open>TypeError\<close> out of the
  webhook, before any signature is looked at.
\<close>

theorem malformed_payload_escapes:
  assumes "body = json_dumps (JObj [(''id'', JStr ''m''), (''attachments'', JNull)])" and "wh_strict W body = Inr body"
  shows "\<exists>s'. webhook_call W body headers s = (Inl (TypeError (py_repr ''NoneType'' @ '' object is not iterable'')), s')"
proof -
  have "json_loads body = Inr (JObj [(''id'', JStr ''m''), (''attachments'', JNull)])"
    unfolding assms(1) by (rule loads_dumps_plain) simp
  moreover have "body_or_empty body = body" by (simp add: assms(1) body_or_empty_def)
  ultimately have "parse_message (wh_strict W) now body = Inl (TypeError (py_repr ''NoneType'' @ '' object is not iterable''))" for now
    using assms(2) by (simp add: parse_message_def parse_fields_def get_or_def dict_elements_def)
  then show ?thesis by (simp add: webhook_call_def on_plane_def on_part_def reading_def bindE_def)
qed

text \<open>
  The server hands the webhook only requests for its path, whose body is within the limit and is what the client
  sent; it answers every other one itself with 400, 404, 413 or 503 and changes nothing.
\<close>

theorem post_guarded:
  assumes "do_POST V target len headers input s = (r, s')"
  shows "(\<exists>status payload. r = Inr (status, payload) \<and> status \<in> {400, 404, 413, 503} \<and> s' = s) \<or>
    (\<exists>handler n. path_of target = ''/inbound'' \<and> sv_inbound V = Some handler \<and> n \<le> nat (sv_max_body_bytes V) \<and>
       handler (take n input) headers s = (r, s'))"
  using assms by (auto simp: do_POST_def not_found_def intro: nat_mono split: if_splits option.splits)

theorem slots_bounded:
  assumes "slot_step\<^sup>*\<^sup>* (idle_slots n) s"
  shows "sl_starting s + sl_active s \<le> n \<and> (sl_starting s = 0 \<and> sl_active s = 0 \<longrightarrow> s = idle_slots n) \<and>
    (0 < n \<longrightarrow> (\<exists>s'. slot_step s s'))"
proof -
  have total: "sl_free s + sl_starting s + sl_active s = n"
    using assms by (induction rule: rtranclp_induct) (auto simp: idle_slots_def elim!: slot_stepE)
  have "\<exists>s'. slot_step s s'" if "0 < n"
  proof -
    have "0 < sl_free s \<or> 0 < sl_starting s \<or> 0 < sl_active s" using total that by linarith
    then show ?thesis by (auto intro: acquire started finished)
  qed
  with total show ?thesis by (cases s) (auto simp: idle_slots_def)
qed

section \<open>What the health view counts\<close>

definition in_state :: "store \<Rightarrow> task_state \<Rightarrow> string set" where
  "in_state m st = {i. \<exists>t. m i = Some t \<and> t_state t = st}"

context task_queue
begin

lemma list_card:
  assumes "invar q" and "0 \<le> limit"
  shows "int (length (q_list Q st limit q)) = min limit (int (card (in_state (store q) st)))"
proof -
  let ?L = "q_list Q st limit q" and ?S = "in_state (store q) st"
  have ok: "store_ok (store q)" using assms(1) by (rule invar_store)
  have "?S \<subseteq> dom (store q)" by (auto simp: in_state_def)
  then have fin: "finite ?S" using ok by (auto simp: store_ok_def intro: finite_subset)
  have sound: "t \<in> set ?L \<Longrightarrow> store q (t_id t) = Some t \<and> t_state t = st" for t
    using list_sound [OF assms] by blast
  then have "inj_on t_id (set ?L)" by (metis inj_onI option.inject)
  then have card: "card (t_id ` set ?L) = length ?L"
    using list_distinct [OF assms] by (simp add: card_image distinct_card)
  have sub: "t_id ` set ?L \<subseteq> ?S" using sound by (auto simp: in_state_def)
  then have le: "length ?L \<le> card ?S" using card fin by (metis card_mono)
  show ?thesis
  proof (cases "int (length ?L) = limit")
    case True then show ?thesis using le by simp
  next
    case False
    have "?S \<subseteq> t_id ` set ?L"
    proof
      fix i assume "i \<in> ?S"
      then obtain t where t: "store q i = Some t" "t_state t = st" by (auto simp: in_state_def)
      then have "t \<in> set ?L" using list_complete [OF assms t] False by blast
      moreover have "t_id t = i" using ok t(1) by (rule store_okD)
      ultimately show "i \<in> t_id ` set ?L" by blast
    qed
    then have "card ?S = length ?L" using sub card by (metis subset_antisym)
    then show ?thesis using list_length [OF assms, of st] by simp
  qed
qed

end

text \<open>
  The health view tells the truth about the durable queue up to its window of 1000: each count is the number of
  tasks in that state or 1000 if there are more, and while the limit of running tasks is below the window the view is
  healthy exactly when no more tasks run than the limit.
\<close>

theorem health_counts_tasks:
  assumes "pg_inv q" and "max_running < 1000"
  shows "(\<forall>st \<in> set COUNTED_STATES. dict_get (hs_counts (health_check max_running margin (pg_ops coll) q now)) (state_value st) =
      Some (min 1000 (int (card (in_state (pg_store q) st))))) \<and>
    (hs_ok (health_check max_running margin (pg_ops coll) q now) \<longleftrightarrow> int (card (in_state (pg_store q) RUNNING)) \<le> max_running)"
proof -
  have card: "int (length (q_list (pg_ops coll) st 1000 q)) = min 1000 (int (card (in_state (pg_store q) st)))" for st
    by (rule pgq.list_card [OF assms(1)]) simp
  show ?thesis
    unfolding health_check_def Let_def health_status.simps card
    using assms(2) by (simp add: COUNTED_STATES_def min_le_iff_disj)
qed

section \<open>Instances\<close>

definition ex_webhook :: "(pg_table, pg_approvals, memory_log, memory_transport, project_policy list) webhook" where
  "ex_webhook = \<lparr>wh_plane = ex_plane, wh_recipient = None, wh_strict = Inr, wh_lenient = (\<lambda>b. b)\<rparr>"

definition ex_webhook_state :: "(pg_table, pg_approvals, memory_log, memory_transport, project_policy list) webhook_state" where
  "ex_webhook_state = \<lparr>ws_plane = ex_state\<lparr>ps_gate := None\<rparr>, ws_gate = Some (SenderAllowlist [''ann@x.io''])\<rparr>"

definition ex_payload :: string where
  "ex_payload = json_dumps (JObj [(''id'', JStr ''m1''), (''sender'', JStr ''eve@y.io''), (''body'', JStr ''hello'')])"

text \<open>Eve is not on the list: 401, and nothing is stored.\<close>

theorem webhook_fails_closed_witness:
  "\<exists>r s'. webhook_call ex_webhook ex_payload [] ex_webhook_state = (r, s') \<and>
     same_collaborators (ws_plane ex_webhook_state) (ws_plane s') \<and>
     (case r of Inl e \<Rightarrow> True | Inr (status, payload) \<Rightarrow> status \<in> {400, 401})"
proof -
  obtain r s' where call: "webhook_call ex_webhook ex_payload [] ex_webhook_state = (r, s')" by fastforce
  have "\<not> gate_admits ex_webhook ex_payload [] ex_webhook_state" by code_simp
  with webhook_fails_closed [OF call] call show ?thesis by auto
qed

theorem malformed_payload_escapes_witness:
  "\<exists>s'. webhook_call ex_webhook (json_dumps (JObj [(''id'', JStr ''m''), (''attachments'', JNull)])) [] ex_webhook_state =
     (Inl (TypeError (py_repr ''NoneType'' @ '' object is not iterable'')), s')"
  by (rule malformed_payload_escapes) (simp_all add: ex_webhook_def)

definition ex_server :: "nat server" where
  "ex_server = \<lparr>sv_health = ret JNull, sv_inbound = Some (\<lambda>body headers n. (Inr (202, JStr body), Suc n)), sv_max_body_bytes = 4\<rparr>"

theorem post_guarded_witness:
  "\<exists>status payload. fst (do_POST ex_server ''/inbound'' (Some ''5'') [] ''hello'' 0) = Inr (status, payload) \<and> status \<in> {400, 404, 413, 503} \<and>
     snd (do_POST ex_server ''/inbound'' (Some ''5'') [] ''hello'' 0) = 0"
proof -
  define res where "res = do_POST ex_server ''/inbound'' (Some ''5'') [] ''hello'' 0"
  have kept: "snd res = 0" unfolding res_def by code_simp
  have "do_POST ex_server ''/inbound'' (Some ''5'') [] ''hello'' 0 = (fst res, snd res)" by (simp add: res_def)
  from post_guarded [OF this] kept show ?thesis
    unfolding res_def [symmetric] by (auto simp: ex_server_def)
qed

theorem slots_bounded_witness:
  "sl_starting \<lparr>sl_free = 1, sl_starting = 0, sl_active = 1\<rparr> + sl_active \<lparr>sl_free = 1, sl_starting = 0, sl_active = 1\<rparr> \<le> 2"
proof -
  have "slot_step (idle_slots 2) \<lparr>sl_free = 1, sl_starting = 1, sl_active = 0\<rparr>"
    using acquire [of "idle_slots 2"] by (simp add: idle_slots_def)
  moreover have "slot_step \<lparr>sl_free = 1, sl_starting = 1, sl_active = 0\<rparr> \<lparr>sl_free = 1, sl_starting = 0, sl_active = 1\<rparr>"
    using started [of "\<lparr>sl_free = 1, sl_starting = 1, sl_active = 0\<rparr>"] by simp
  ultimately have "slot_step\<^sup>*\<^sup>* (idle_slots 2) \<lparr>sl_free = 1, sl_starting = 0, sl_active = 1\<rparr>" by simp
  from slots_bounded [OF this] show ?thesis by simp
qed

theorem health_counts_tasks_witness:
  "hs_ok (health_check 1 STALL_MARGIN (pg_ops (\<lambda>i. i)) [] 0) \<and> in_state (pg_store []) RUNNING = {}"
proof -
  have none: "in_state (pg_store []) RUNNING = {}" by (simp add: in_state_def pg_store_def)
  with health_counts_tasks [of "[]" 1 STALL_MARGIN "\<lambda>i. i" 0] show ?thesis by simp
qed

end
