(* ===== verification/Deciders.thy ===== *)
theory Deciders
  imports Review Forge Runners Decision
begin

text \<open>
  The deciders over HTTP (\<open>decision/openai.py\<close>, \<open>jev.py\<close>) and their construction (\<open>decision/factory.py\<close>).
  Their answers keep what the model sent, so that numbers that are none and values of another type are visible; a
  finite float is a rational, the rounding of a double is not modelled.
\<close>

section \<open>Floats\<close>

datatype fl = Fin rat | PosInf | NegInf | NaN

definition fl_sign :: "bool \<Rightarrow> fl \<Rightarrow> fl" where
  "fl_sign neg f =
     (if neg then (case f of Fin r \<Rightarrow> Fin (- r) | PosInf \<Rightarrow> NegInf | NegInf \<Rightarrow> PosInf | NaN \<Rightarrow> NaN) else f)"

definition pow10 :: "int \<Rightarrow> rat" where
  "pow10 e = (if 0 \<le> e then 10 ^ nat e else 1 / 10 ^ nat (- e))"

text \<open>\<open>float(text)\<close>, or \<open>None\<close> where it raises \<open>ValueError\<close>.\<close>

definition float_of_text :: "string \<Rightarrow> fl option" where
  "float_of_text text =
     (if \<not> is_float text then None
      else
        let s = lower (strip text); neg = startswith s ''-''; u = unsigned s in
        if u \<in> {''inf'', ''infinity''} then Some (fl_sign neg PosInf)
        else if u = ''nan'' then Some NaN
        else
          let mantissa = takeWhile (\<lambda>c. c \<noteq> CHR ''e'') u; expo = drop (Suc (length mantissa)) u;
              (whole, frac) = (case cut_at ''.'' mantissa of None \<Rightarrow> (mantissa, []) | Some p \<Rightarrow> p);
              digits = filter is_digit (whole @ frac);
              r = of_nat (nat_of_digits digits) *
                  pow10 ((case py_int expo of None \<Rightarrow> 0 | Some e \<Rightarrow> e) - int (length (filter is_digit frac)))
          in Some (fl_sign neg (if r \<ge> 2 ^ 1024 then PosInf else Fin r)))"

text \<open>\<open>_as_float\<close>.\<close>

definition as_float :: "json \<Rightarrow> exn + fl option" where
  "as_float v =
     (case v of
        JInt i \<Rightarrow> if \<bar>i\<bar> \<ge> 2 ^ 1024 then Inl (OtherError ''int too large to convert to float'') else Inr (Some (Fin (of_int i)))
      | JFloat t \<Rightarrow> Inr (float_of_text t)
      | JStr s \<Rightarrow> Inr (float_of_text s)
      | _ \<Rightarrow> Inr None)"

section \<open>Answers as they are sent\<close>

text \<open>A number of the decider's own, or the value that was sent.\<close>

datatype wire_value = Num fl | Sent json

record wire_answer =
  wa_kind :: decision_kind
  wa_choice :: json
  wa_score :: "wire_value option"
  wa_noul :: "wire_value option"
  wa_confidence :: "wire_value option"
  wa_probabilities :: "(string, fl) dict + json"

type_synonym wire_decision = "(string, wire_answer) dict"
type_synonym 'w wire_decider = "string \<Rightarrow> questions \<Rightarrow> ('w, wire_decision) prog"

definition plain_answer :: "decision_kind \<Rightarrow> wire_answer" where
  "plain_answer k = \<lparr>wa_kind = k, wa_choice = JNull, wa_score = None, wa_noul = None, wa_confidence = None,
     wa_probabilities = Inl []\<rparr>"

definition wire_given :: "json \<Rightarrow> wire_value option" where
  "wire_given v = (if v = JNull then None else Some (Sent v))"

text \<open>The number a value is in arithmetic and comparisons, where a boolean counts as 0 or 1, or \<open>None\<close> where they raise \<open>TypeError\<close>.\<close>

fun wire_num :: "wire_value \<Rightarrow> fl option" where
  "wire_num (Num f) = Some f"
| "wire_num (Sent v) =
     (case v of
        JInt i \<Rightarrow> Some (Fin (of_int i))
      | JBool b \<Rightarrow> Some (Fin (if b then 1 else 0))
      | JFloat t \<Rightarrow> float_of_text t
      | _ \<Rightarrow> None)"

fun wire_type :: "wire_value \<Rightarrow> string" where
  "wire_type (Num f) = ''float''"
| "wire_type (Sent v) = type_name v"

fun too_large :: "wire_value \<Rightarrow> bool" where
  "too_large (Sent (JInt i)) = (\<bar>i\<bar> \<ge> 2 ^ 1024)"
| "too_large _ = False"

definition kind_value :: "decision_kind \<Rightarrow> string" where
  "kind_value k = (case k of CHOICE \<Rightarrow> ''choice'' | SCORE \<Rightarrow> ''score'' | NOUL \<Rightarrow> ''noul'')"

definition criteria_json :: "criteria \<Rightarrow> json" where
  "criteria_json c = (case c of CDict d \<Rightarrow> JObj (map (\<lambda>(k, v). (k, JStr v)) d) | CList l \<Rightarrow> JArr (map JStr l))"

text \<open>The dictionary of a question; the same in both protocols.\<close>

definition question_json :: "question \<Rightarrow> json" where
  "question_json q =
     JObj ([(''type'', JStr (kind_value (qu_kind q))), (''instructions'', JStr (qu_instructions q))] @
           (case qu_criteria q of None \<Rightarrow> [] | Some c \<Rightarrow> [(''criteria'', criteria_json c)]))"

definition questions_json :: "questions \<Rightarrow> json" where
  "questions_json qs = JObj (map (\<lambda>(i, q). (i, question_json q)) qs)"

section \<open>The OpenAI-compatible decider\<close>

text \<open>\<open>json.dumps(v, indent=2)\<close> at a nesting of \<open>n\<close> spaces.\<close>

fun json_indent :: "nat \<Rightarrow> json \<Rightarrow> string" where
  "json_indent n (JArr vs) =
     (if vs = [] then ''[]''
      else ''['' @ newline @ join (CHR '','' # newline) (map (\<lambda>v. replicate (n + 2) CHR '' '' @ json_indent (n + 2) v) vs) @
           newline @ replicate n CHR '' '' @ '']'')"
| "json_indent n (JObj kvs) =
     (if kvs = [] then [CHR 0x7B, CHR 0x7D]
      else [CHR 0x7B] @ newline @
           join (CHR '','' # newline) (map (\<lambda>(k, v). replicate (n + 2) CHR '' '' @ dumps_str k @ '': '' @ json_indent (n + 2) v) kvs) @
           newline @ replicate n CHR '' '' @ [CHR 0x7D])"
| "json_indent n v = json_dumps v"

definition decider_system_prompt :: string where
  "decider_system_prompt =
     ''You are a decision model, not a chat model. You receive a STATE and typed QUESTIONS and '' @
     ''reply with ONE JSON object and nothing else. For every question, return an object with '' @
     ''exactly the requested answer field.'' @ newline @
     ''- choice: '' @ [CHR 0x7B] @ dumps_str ''choice'' @ '': <one of the listed keys>, '' @ dumps_str ''confidence'' @ '': <0.0-1.0>'' @ [CHR 0x7D] @ newline @
     ''- score: '' @ [CHR 0x7B] @ dumps_str ''score'' @ '': <number within the rubric range, fractional allowed>, '' @
     dumps_str ''confidence'' @ '': <0.0-1.0>'' @ [CHR 0x7D] @ newline @
     ''- noul: '' @ [CHR 0x7B] @ dumps_str ''noul'' @ '': <probability the statement is true, 0.0-1.0>'' @ [CHR 0x7D] @ newline @
     ''Never invent options. Never add prose. Confidence is your own certainty, not the '' @
     ''probability the answer is correct.''"

record openai_decider =
  od_api_key :: string
  od_model :: string
  od_base_url :: string
  od_extra_headers :: "(string, string) dict"

definition user_prompt :: "string \<Rightarrow> questions \<Rightarrow> string" where
  "user_prompt state qs =
     ''QUESTIONS (JSON):'' @ newline @ json_indent 0 (questions_json qs) @ newline @ newline @ ''STATE:'' @ newline @ state @
     newline @ newline @ ''Reply with one JSON object keyed by question id.''"

definition openai_request :: "openai_decider \<Rightarrow> string \<Rightarrow> questions \<Rightarrow> http_request" where
  "openai_request D state qs =
     \<lparr>hq_url = rstrip_chars ''/'' (od_base_url D) @ ''/chat/completions'',
      hq_data = Some (json_dumps (JObj
        [(''model'', JStr (od_model D)),
         (''messages'', JArr [JObj [(''role'', JStr ''system''), (''content'', JStr decider_system_prompt)],
                              JObj [(''role'', JStr ''user''), (''content'', JStr (user_prompt state qs))]]),
         (''response_format'', JObj [(''type'', JStr ''json_object'')]), (''temperature'', JInt 0), (''stream'', JBool False)])),
      hq_headers = fold (\<lambda>(k, v). dict_set k v) (od_extra_headers D)
        [(''Authorization'', ''Bearer '' @ od_api_key D), (''Content-Type'', ''application/json''), (''Accept'', ''application/json'')],
      hq_method = ''POST''\<rparr>"

definition openai_answer :: "question \<Rightarrow> (string, json) dict \<Rightarrow> exn + wire_answer" where
  "openai_answer q entry =
     bindR (as_float (get_or entry ''confidence'' JNull)) (\<lambda>c.
       let confidence = map_option Num c in
       case qu_kind q of
         CHOICE \<Rightarrow>
           (let choice = get_or entry ''choice'' JNull;
                allowed = (case qu_criteria q of Some (CDict d) \<Rightarrow> Some (dict_keys d) | _ \<Rightarrow> None);
                bad = DecisionError (''choice '' @ py_repr_json choice @ '' is not one of '' @
                        py_repr_list (case allowed of None \<Rightarrow> [] | Some ks \<Rightarrow> ks))
            in case choice of
                 JStr s \<Rightarrow>
                   if (case allowed of None \<Rightarrow> False | Some ks \<Rightarrow> s \<notin> set ks) then Inl bad
                   else Inr ((plain_answer CHOICE)\<lparr>wa_choice := choice, wa_confidence := confidence\<rparr>)
               | _ \<Rightarrow> Inl bad)
       | SCORE \<Rightarrow>
           bindR (as_float (get_or entry ''score'' JNull)) (\<lambda>s.
             case s of
               None \<Rightarrow> Inl (DecisionError ''score answer is missing a number'')
             | Some f \<Rightarrow> Inr ((plain_answer SCORE)\<lparr>wa_score := Some (Num f), wa_confidence := confidence\<rparr>))
       | NOUL \<Rightarrow>
           bindR (as_float (get_or entry ''noul'' JNull)) (\<lambda>n.
             let bad = DecisionError (''noul must be a probability in [0,1], got '' @ py_repr_json (get_or entry ''noul'' JNull)) in
             case n of
               Some (Fin r) \<Rightarrow> if 0 \<le> r \<and> r \<le> 1 then Inr ((plain_answer NOUL)\<lparr>wa_noul := Some (Num (Fin r))\<rparr>) else Inl bad
             | _ \<Rightarrow> Inl bad))"

fun each_answer ::
  "string \<Rightarrow> (question \<Rightarrow> (string, json) dict \<Rightarrow> exn + wire_answer) \<Rightarrow> (string, json) dict \<Rightarrow> questions \<Rightarrow> wire_decision \<Rightarrow>
     exn + wire_decision" where
  "each_answer who f data [] answers = Inr answers"
| "each_answer who f data ((i, q) # qs) answers =
     (case get_or data i JNull of
        JObj entry \<Rightarrow> bindR (f q entry) (\<lambda>a. each_answer who f data qs (dict_set i a answers))
      | _ \<Rightarrow> Inl (DecisionError (who @ '' omitted answer '' @ py_repr i)))"

definition openai_parse :: "json \<Rightarrow> questions \<Rightarrow> exn + wire_decision" where
  "openai_parse payload qs =
     (case chat_content payload of
        Inl _ \<Rightarrow> Inl (DecisionError (''decider response has no content: '' @ py_str payload))
      | Inr (JStr content) \<Rightarrow>
          (case json_loads (strip_fence content) of
             Inl (JSONDecodeError _) \<Rightarrow> Inl (DecisionError (''decider content is not JSON: '' @ py_repr (take 200 content)))
           | Inl e \<Rightarrow> Inl e
           | Inr (JObj data) \<Rightarrow> each_answer ''decider'' openai_answer data qs []
           | Inr _ \<Rightarrow> Inl (DecisionError ''decider content is not a JSON object''))
      | Inr _ \<Rightarrow> Inl (DecisionError ''decider content is not a string''))"

text \<open>The request both deciders make, with the errors they name.\<close>

definition ask_model :: "'w http \<Rightarrow> string \<Rightarrow> string \<Rightarrow> http_request \<Rightarrow> ('w, json) prog" where
  "ask_model urlopen who nonjson req =
     bindE (attempt (bindE (urlopen req) (\<lambda>(_, body). liftR (json_loads (body_or_empty body))))) (\<lambda>r.
       case r of
         Inl (HTTPError n _ detail) \<Rightarrow> raise (DecisionError (who @ '' '' @ show_int n @ '': '' @ detail))
       | Inl (URLError reason) \<Rightarrow> raise (DecisionError (who @ '' unreachable: '' @ reason))
       | Inl (JSONDecodeError _) \<Rightarrow> raise (DecisionError nonjson)
       | Inl e \<Rightarrow> raise e
       | Inr payload \<Rightarrow> ret payload)"

definition openai_decide :: "'w http \<Rightarrow> openai_decider \<Rightarrow> 'w wire_decider" where
  "openai_decide urlopen D state qs =
     bindE (ask_model urlopen ''decider'' ''decider returned non-JSON'' (openai_request D state qs))
       (\<lambda>payload. liftR (openai_parse payload qs))"

section \<open>The System One decider\<close>

record jev_decider =
  jd_api_key :: string
  jd_model :: string
  jd_endpoint :: string

definition jev_request :: "jev_decider \<Rightarrow> string \<Rightarrow> questions \<Rightarrow> http_request" where
  "jev_request D state qs =
     \<lparr>hq_url = jd_endpoint D,
      hq_data = Some (json_dumps (JObj [(''state'', JStr state), (''model'', JStr (jd_model D)), (''questions'', questions_json qs)])),
      hq_headers = [(''Authorization'', ''Bearer '' @ jd_api_key D), (''Content-Type'', ''application/json''), (''Accept'', ''application/json'')],
      hq_method = ''POST''\<rparr>"

definition jev_answer :: "question \<Rightarrow> (string, json) dict \<Rightarrow> exn + wire_answer" where
  "jev_answer q entry =
     (let confidence = wire_given (get_or entry ''confidence'' JNull);
          sent = get_or entry ''probabilities'' JNull; probabilities = (if j_true sent then Inr sent else Inl [])
      in Inr (case qu_kind q of
             CHOICE \<Rightarrow> (plain_answer CHOICE)\<lparr>wa_choice := get_or entry ''choice'' JNull, wa_confidence := confidence,
                wa_probabilities := probabilities\<rparr>
           | SCORE \<Rightarrow> (plain_answer SCORE)\<lparr>wa_score := wire_given (get_or entry ''score'' JNull), wa_confidence := confidence,
                wa_probabilities := probabilities\<rparr>
           | NOUL \<Rightarrow> (plain_answer NOUL)\<lparr>wa_noul := wire_given (get_or entry ''noul'' JNull)\<rparr>))"

definition jev_parse :: "json \<Rightarrow> questions \<Rightarrow> exn + wire_decision" where
  "jev_parse payload qs =
     bindR (as_dict ''get'' payload) (\<lambda>d.
       case get_or d ''answers'' JNull of
         JObj raw \<Rightarrow> each_answer ''jev'' jev_answer raw qs []
       | _ \<Rightarrow> Inl (DecisionError (''jev response has no answers: '' @ py_str payload)))"

definition jev_decide :: "'w http \<Rightarrow> jev_decider \<Rightarrow> 'w wire_decider" where
  "jev_decide urlopen D state qs =
     bindE (ask_model urlopen ''jev'' ''jev returned non-JSON'' (jev_request D state qs)) (\<lambda>payload. liftR (jev_parse payload qs))"

section \<open>Falling back (factory.py)\<close>

definition fl_at_least :: "fl \<Rightarrow> rat \<Rightarrow> bool" where
  "fl_at_least f r \<longleftrightarrow> (case f of Fin x \<Rightarrow> r \<le> x | PosInf \<Rightarrow> True | _ \<Rightarrow> False)"

definition distance_from_half :: "fl \<Rightarrow> fl" where
  "distance_from_half f = (case f of Fin x \<Rightarrow> Fin \<bar>x - 5/10\<bar> | NaN \<Rightarrow> NaN | _ \<Rightarrow> PosInf)"

text \<open>\<open>_confident\<close>, with the \<open>TypeError\<close> of a comparison with a value that is no number.\<close>

definition wire_confident :: "wire_decision \<Rightarrow> string \<Rightarrow> rat \<Rightarrow> exn + bool" where
  "wire_confident d question_id threshold =
     (case dict_get d question_id of
        None \<Rightarrow> Inr False
      | Some a \<Rightarrow>
          (case (if wa_kind a = NOUL then wa_noul a else None) of
             Some v \<Rightarrow>
               (case wire_num v of
                  None \<Rightarrow> Inl (TypeError (''unsupported operand type(s) for -: '' @ py_repr (wire_type v) @ '' and '' @ py_repr ''float''))
                | Some f \<Rightarrow>
                    if too_large v then Inl (OtherError ''int too large to convert to float'')
                    else Inr (fl_at_least (distance_from_half f) (threshold - 5/10)))
           | None \<Rightarrow>
               (case wa_confidence a of
                  None \<Rightarrow> Inr False
                | Some v \<Rightarrow>
                    (case wire_num v of
                       Some f \<Rightarrow> Inr (fl_at_least f threshold)
                     | None \<Rightarrow> Inl (TypeError ([CHR 0x27] @ ''>='' @ [CHR 0x27] @ '' not supported between instances of '' @
                                   py_repr (wire_type v) @ '' and '' @ py_repr ''float''))))))"

fun uncertain_of :: "wire_decision \<Rightarrow> rat \<Rightarrow> string list \<Rightarrow> exn + string list" where
  "uncertain_of d threshold [] = Inr []"
| "uncertain_of d threshold (i # is) =
     bindR (wire_confident d i threshold) (\<lambda>c. bindR (uncertain_of d threshold is) (\<lambda>us. Inr (if c then us else i # us)))"

text \<open>An answer of the rules.\<close>

definition wire_of :: "answer \<Rightarrow> wire_answer" where
  "wire_of a =
     \<lparr>wa_kind = an_kind a, wa_choice = optional_str (an_choice a), wa_score = map_option (\<lambda>r. Num (Fin r)) (an_score a),
      wa_noul = map_option (\<lambda>r. Num (Fin r)) (an_noul a), wa_confidence = map_option (\<lambda>r. Num (Fin r)) (an_confidence a),
      wa_probabilities = Inl (map (\<lambda>(k, r). (k, Fin r)) (an_probabilities a))\<rparr>"

definition wire_decision_of :: "decision \<Rightarrow> wire_decision" where
  "wire_decision_of d = map (\<lambda>(i, a). (i, wire_of a)) d"

fun wire_replace :: "wire_decision \<Rightarrow> wire_decision \<Rightarrow> string list \<Rightarrow> wire_decision" where
  "wire_replace answers fallback [] = answers"
| "wire_replace answers fallback (i # is) =
     wire_replace (case dict_get fallback i of None \<Rightarrow> answers | Some a \<Rightarrow> dict_set i a answers) fallback is"

definition fallback_wire :: "'w wire_decider \<Rightarrow> decider \<Rightarrow> rat \<Rightarrow> 'w wire_decider" where
  "fallback_wire primary fallback threshold state qs =
     bindE (attempt (primary state qs)) (\<lambda>r.
       case r of
         Inl (DecisionError _) \<Rightarrow> liftR (map_sum id wire_decision_of (fallback state qs))
       | Inl e \<Rightarrow> raise e
       | Inr d \<Rightarrow>
           bindE (liftR (uncertain_of d threshold (dict_keys qs))) (\<lambda>uncertain.
             if uncertain \<noteq> []
             then bindE (liftR (fallback state qs)) (\<lambda>f. ret (wire_replace d (wire_decision_of f) uncertain))
             else ret d))"

section \<open>The catalog and the built decider\<close>

definition DEFAULT_OPENAI_BASE_URL :: string where "DEFAULT_OPENAI_BASE_URL = ''https://openrouter.ai/api/v1''"
definition JEV_ENDPOINT :: string where "JEV_ENDPOINT = ''https://api.typesafe.ai/v1/systemone''"
definition JEV_MODEL :: string where "JEV_MODEL = ''jev-latest''"

definition LOCAL_HOSTS :: "string list" where
  "LOCAL_HOSTS = [''127.0.0.1'', ''localhost'', ''0.0.0.0'', ''::1'']"

definition endpoint_is_local :: "string \<Rightarrow> exn + bool" where
  "endpoint_is_local endpoint = bindR (urlparse endpoint) (\<lambda>(host, path). Inr (host \<in> set LOCAL_HOSTS))"

definition rules_info :: decider_info where
  "rules_info = \<lparr>di_id = ''rules'', di_protocol = ''rules'', di_endpoint = [], di_model = [], di_native_types = False, di_local = True,
     di_free = True, di_api_key_env = None\<rparr>"

definition system_one_info :: "(string, string) dict \<Rightarrow> decider_info option" where
  "system_one_info env =
     (if \<not> truthy (dict_get env ''TYPESAFE_API_KEY'') then None
      else Some \<lparr>di_id = ''jev'', di_protocol = ''system-one'', di_endpoint = env_default env ''DEAR_AGENT_DECIDER_ENDPOINT'' JEV_ENDPOINT,
             di_model = env_default env ''DEAR_AGENT_DECIDER_MODEL'' JEV_MODEL, di_native_types = True, di_local = False, di_free = False,
             di_api_key_env = Some ''TYPESAFE_API_KEY''\<rparr>)"

definition openai_info :: "(string, string) dict \<Rightarrow> exn + decider_info option" where
  "openai_info env =
     (let base = dict_get env ''DEAR_AGENT_DECIDER_BASE_URL'';
          key = (if truthy (dict_get env ''OPENROUTER_API_KEY'') then Some ''OPENROUTER_API_KEY'' else None)
      in if base = None \<and> key = None then Inr None
         else let endpoint = or_else base DEFAULT_OPENAI_BASE_URL in
           bindR (endpoint_is_local endpoint) (\<lambda>local.
             Inr (Some \<lparr>di_id = ''openai-compat'', di_protocol = ''openai-compat'', di_endpoint = endpoint,
                        di_model = env_default env ''DEAR_AGENT_DECIDER_MODEL'' [], di_native_types = False, di_local = local,
                        di_free = False, di_api_key_env = key\<rparr>)))"

definition list_deciders :: "(string, string) dict \<Rightarrow> exn + decider_info list" where
  "list_deciders env =
     bindR (openai_info env) (\<lambda>emulated.
       Inr ([rules_info] @ (case system_one_info env of None \<Rightarrow> [] | Some i \<Rightarrow> [i]) @ (case emulated of None \<Rightarrow> [] | Some i \<Rightarrow> [i])))"

datatype built_decider = Rules | SystemOne jev_decider | OpenAICompatible openai_decider

definition decider_key :: "(string, string) dict \<Rightarrow> decider_info \<Rightarrow> exn + string" where
  "decider_key env info =
     (case di_api_key_env info of
        None \<Rightarrow> Inr []
      | Some name \<Rightarrow>
          if truthy (dict_get env name) then Inr (the (dict_get env name))
          else Inl (DecisionError (name @ '' is required for decider '' @ py_repr (di_id info))))"

definition referer_headers :: "(string, string) dict \<Rightarrow> (string, string) dict" where
  "referer_headers env =
     (if truthy (dict_get env ''DEAR_AGENT_DECIDER_REFERER'')
      then [(''HTTP-Referer'', the (dict_get env ''DEAR_AGENT_DECIDER_REFERER'')), (''X-Title'', ''Dear Agent'')] else [])"

definition text_or :: "string \<Rightarrow> string \<Rightarrow> string" where
  "text_or a b = (if a = [] then b else a)"

definition decider_for :: "(string, string) dict \<Rightarrow> decider_info \<Rightarrow> exn + built_decider" where
  "decider_for env info =
     (if di_protocol info = ''rules'' then Inr Rules
      else if di_protocol info = ''system-one'' then
        bindR (decider_key env info) (\<lambda>key.
          Inr (SystemOne \<lparr>jd_api_key = key, jd_model = text_or (di_model info) JEV_MODEL, jd_endpoint = text_or (di_endpoint info) JEV_ENDPOINT\<rparr>))
      else if di_protocol info = ''openai-compat'' then
        if di_model info = [] then Inl (DecisionError ''DEAR_AGENT_DECIDER_MODEL is required for an openai-compat decider'')
        else bindR (decider_key env info) (\<lambda>key.
          Inr (OpenAICompatible \<lparr>od_api_key = text_or key ''local'', od_model = di_model info,
                 od_base_url = text_or (di_endpoint info) DEFAULT_OPENAI_BASE_URL, od_extra_headers = referer_headers env\<rparr>))
      else Inl (DecisionError (''unsupported decider protocol '' @ py_repr (di_protocol info))))"

definition normalize_name :: "string \<Rightarrow> string" where
  "normalize_name name = (let n = lower (strip name) in if n = ''openrouter'' then ''openai-compat'' else n)"

text \<open>Where decisions are logged: nowhere, in the database or in a file.\<close>

definition decision_log_target :: "(string, string) dict \<Rightarrow> exn + string option" where
  "decision_log_target env =
     (let target = dict_get env ''DEAR_AGENT_DECIDER_LOG'' in
      if \<not> truthy target then Inr None
      else if target = Some ''postgres'' \<and> \<not> truthy (dict_get env ''DEAR_AGENT_DATABASE_URL'')
      then Inl (DecisionError ''DEAR_AGENT_DATABASE_URL is required for DEAR_AGENT_DECIDER_LOG=postgres'')
      else Inr target)"

record decider_setup =
  bs_info :: decider_info
  bs_decider :: built_decider
  bs_threshold :: "fl option"
  bs_log :: "string option"

text \<open>\<open>build_decider\<close>; \<open>bs_threshold\<close> is the threshold of the fallback wrapped around a decider that is not the rules.\<close>

definition build_decider :: "(string, string) dict \<Rightarrow> exn + decider_setup option" where
  "build_decider env =
     (let requested = normalize_name (env_default env ''DEAR_AGENT_DECIDER'' ''rules'') in
      if requested = ''none'' then Inr None
      else let threshold = env_default env ''DEAR_AGENT_DECIDER_THRESHOLD'' ''0.5'' in
        case float_of_text threshold of
          None \<Rightarrow> Inl (ValueError (''could not convert string to float: '' @ py_repr threshold))
        | Some thr \<Rightarrow>
            let native = (lower (env_default env ''DEAR_AGENT_DECIDER_REQUIRE_NATIVE'' []) = ''true'') in
            bindR (list_deciders env) (\<lambda>infos.
              if requested \<notin> set (map di_id infos)
              then Inl (DecisionError (''decider '' @ py_repr requested @ '' is not configured''))
              else bindR (select_decider \<lparr>dp_preferred = Some requested, dp_require_native = native\<rparr> (Inr infos)) (\<lambda>info.
                bindR (decider_for env info) (\<lambda>d.
                  bindR (decision_log_target env) (\<lambda>log.
                    Inr (Some \<lparr>bs_info = info, bs_decider = d, bs_threshold = (if d = Rules then None else Some thr), bs_log = log\<rparr>))))))"

section \<open>Typed answers\<close>

text \<open>What an answer to a question may be.\<close>

definition answers_question :: "question \<Rightarrow> wire_answer \<Rightarrow> bool" where
  "answers_question q a \<longleftrightarrow>
     wa_kind a = qu_kind q \<and>
     (case qu_kind q of
        CHOICE \<Rightarrow> \<exists>s. wa_choice a = JStr s \<and> (case qu_criteria q of Some (CDict d) \<Rightarrow> dict_has d s | _ \<Rightarrow> True)
      | SCORE \<Rightarrow> \<exists>f. wa_score a = Some (Num f)
      | NOUL \<Rightarrow> \<exists>r. wa_noul a = Some (Num (Fin r)) \<and> 0 \<le> r \<and> r \<le> 1) \<and>
     (\<forall>v. wa_confidence a = Some v \<longrightarrow> (\<exists>f. v = Num f))"

lemma openai_answer_typed:
  assumes "openai_answer q entry = Inr a" shows "answers_question q a"
proof -
  obtain c where c: "as_float (get_or entry ''confidence'' JNull) = Inr c"
    using assms by (auto simp: openai_answer_def bindR_Inr)
  show ?thesis
  proof (cases "qu_kind q")
    case CHOICE
    then obtain s where s: "get_or entry ''choice'' JNull = JStr s"
        and a: "a = (plain_answer CHOICE)\<lparr>wa_choice := JStr s, wa_confidence := map_option Num c\<rparr>"
        and ok: "case qu_criteria q of Some (CDict d) \<Rightarrow> s \<in> set (dict_keys d) | _ \<Rightarrow> True"
      using assms c by (auto simp: openai_answer_def Let_def split: json.splits option.splits criteria.splits if_splits)
    have "case qu_criteria q of Some (CDict d) \<Rightarrow> dict_has d s | _ \<Rightarrow> True" using ok by (simp only: dict_has_iff_keys)
    then show ?thesis using CHOICE by (auto simp: a answers_question_def plain_answer_def)
  next
    case SCORE
    then obtain f where "a = (plain_answer SCORE)\<lparr>wa_score := Some (Num f), wa_confidence := map_option Num c\<rparr>"
      using assms c by (auto simp: openai_answer_def Let_def bindR_Inr split: option.splits)
    with SCORE show ?thesis by (auto simp: answers_question_def plain_answer_def)
  next
    case NOUL
    then obtain n where n: "as_float (get_or entry ''noul'' JNull) = Inr n"
      using assms c by (auto simp: openai_answer_def Let_def bindR_Inr)
    with NOUL assms c obtain r where "a = (plain_answer NOUL)\<lparr>wa_noul := Some (Num (Fin r))\<rparr>" "0 \<le> r" "r \<le> 1"
      by (cases n; cases "the n") (auto simp: openai_answer_def Let_def split: if_splits)
    with NOUL show ?thesis by (auto simp: answers_question_def plain_answer_def)
  qed
qed

lemma each_answer_get:
  assumes "each_answer who f data qs answers = Inr d" and "distinct (dict_keys qs)"
  shows "case dict_get qs i of
      None \<Rightarrow> dict_get d i = dict_get answers i
    | Some q \<Rightarrow> \<exists>e a. get_or data i JNull = JObj e \<and> f q e = Inr a \<and> dict_get d i = Some a"
  using assms
proof (induction qs arbitrary: answers)
  case (Cons p qs)
  obtain j q where p: "p = (j, q)" by (cases p)
  obtain e a where e: "get_or data j JNull = JObj e" "f q e = Inr a" "each_answer who f data qs (dict_set j a answers) = Inr d"
    using Cons.prems(1) p by (auto simp: bindR_Inr split: json.splits)
  have qs: "distinct (dict_keys qs)" "dict_get qs j = None" using Cons.prems(2) p by (auto simp: map_of_eq_None_iff)
  show ?case
  proof (cases "i = j")
    case True then show ?thesis using Cons.IH [OF e(3) qs(1)] e(1,2) qs(2) p by simp
  next
    case False then show ?thesis using Cons.IH [OF e(3) qs(1)] p by (simp split: option.splits)
  qed
qed simp


section \<open>The fallback\<close>

lemma wire_decision_get: "dict_get (wire_decision_of d) i = map_option wire_of (dict_get d i)"
  by (simp add: wire_decision_of_def dict_get_map_values)

lemma wire_confident_of: "wire_confident (wire_decision_of d) i thr = Inr (confident d i thr)"
  by (auto simp: wire_confident_def wire_decision_get confident_def wire_of_def fl_at_least_def distance_from_half_def split: option.splits)

lemma uncertain_wire: "uncertain_of (wire_decision_of d) thr is = Inr (filter (\<lambda>i. \<not> confident d i thr) is)"
  by (induction "is") (simp_all add: wire_confident_of)

lemma wire_set: "wire_decision_of (dict_set i a d) = dict_set i (wire_of a) (wire_decision_of d)"
  by (induction d) (auto simp: wire_decision_of_def)

lemma wire_replace_of: "wire_replace (wire_decision_of d) (wire_decision_of f) is = wire_decision_of (replace_answers d f is)"
  by (induction "is" arbitrary: d) (auto simp: wire_decision_get wire_set [symmetric] split: option.split)


text \<open>
  An outage can stop the caller after all: the fallback catches decision errors only, so an error of the connection
  that is no \<open>URLError\<close>, such as a read that times out, is raised to the caller instead of being answered by the rules.
\<close>

theorem outage_escapes_fallback:
  assumes "urlopen (openai_request D state qs) w = (Inl (OSError t), w')"
  shows "fallback_wire (openai_decide urlopen D) fallback thr state qs w = (Inl (OSError t), w')"
proof -
  have "openai_decide urlopen D state qs w = (Inl (OSError t), w')"
    using assms by (simp add: openai_decide_def ask_model_def bindE_def attempt_def)
  then show ?thesis by (simp add: fallback_wire_def)
qed

text \<open>The same for a System One answer that is no object, and for a confidence that is no number.\<close>

lemma jev_escapes:
  assumes "urlopen (jev_request J state qs) w = (Inr (200, ''[]''), w')"
  shows "\<exists>e. fallback_wire (jev_decide urlopen J) fallback thr state qs w = (Inl (AttributeError e), w')"
proof -
  have "json_loads (body_or_empty ''[]'') = Inr (JArr [])" by code_simp
  then have "\<exists>e. jev_decide urlopen J state qs w = (Inl (AttributeError e), w')"
    using assms by (simp add: jev_decide_def ask_model_def jev_parse_def as_dict_def bindE_def attempt_def)
  then show ?thesis by (auto simp: fallback_wire_def)
qed

text \<open>
  A choice with its labels in a list is not checked: whatever text the model sends is accepted as the answer.
\<close>

theorem listed_choice_unchecked:
  assumes "qu_kind q = CHOICE" and "qu_criteria q = Some (CList labels)"
  shows "\<exists>a. openai_answer q [(''choice'', JStr s)] = Inr a \<and> wa_choice a = JStr s"
  using assms by (simp add: openai_answer_def get_or_def as_float_def plain_answer_def Let_def)

lemma listed_has_name:
  assumes "list_deciders env = Inr infos" and "i \<in> set infos" shows "di_id i \<noteq> []"
proof -
  obtain e where e: "openai_info env = Inr e"
    and infos: "infos = [rules_info] @ (case system_one_info env of None \<Rightarrow> [] | Some i \<Rightarrow> [i]) @ (case e of None \<Rightarrow> [] | Some i \<Rightarrow> [i])"
    using assms(1) by (auto simp: list_deciders_def bindR_Inr)
  have "di_id x \<noteq> []" if "e = Some x" for x
    using e that by (auto simp: openai_info_def Let_def bindR_Inr split: if_split_asm)
  moreover have "di_id x \<noteq> []" if "system_one_info env = Some x" for x
    using that by (auto simp: system_one_info_def split: if_split_asm)
  ultimately show ?thesis using assms(2) infos by (auto simp: rules_info_def split: option.splits)
qed

text \<open>
  Without \<open>DEAR_AGENT_DECIDER_REQUIRE_NATIVE\<close> the decider that is built is the one that was asked for, and it is
  wrapped in the fallback unless it is the rules.
\<close>

theorem requested_decider_is_built:
  assumes "build_decider env = Inr (Some b)" and "lower (env_default env ''DEAR_AGENT_DECIDER_REQUIRE_NATIVE'' []) \<noteq> ''true''"
  shows "di_id (bs_info b) = normalize_name (env_default env ''DEAR_AGENT_DECIDER'' ''rules'') \<and>
    (bs_decider b = Rules \<longleftrightarrow> bs_threshold b = None) \<and> decider_for env (bs_info b) = Inr (bs_decider b)"
proof -
  let ?req = "normalize_name (env_default env ''DEAR_AGENT_DECIDER'' ''rules'')"
  let ?p = "\<lparr>dp_preferred = Some ?req, dp_require_native = False\<rparr>"
  have "?req \<noteq> ''none''" using assms(1) by (auto simp: build_decider_def)
  then obtain thr where thr: "float_of_text (env_default env ''DEAR_AGENT_DECIDER_THRESHOLD'' ''0.5'') = Some thr"
    using assms(1) by (cases "float_of_text (env_default env ''DEAR_AGENT_DECIDER_THRESHOLD'' ''0.5'')") (simp_all add: build_decider_def Let_def)
  obtain infos where infos: "list_deciders env = Inr infos"
    using assms(1) \<open>?req \<noteq> ''none''\<close> thr by (cases "list_deciders env") (simp_all add: build_decider_def Let_def)
  have listed: "?req \<in> set (map di_id infos)"
    using assms(1) \<open>?req \<noteq> ''none''\<close> thr infos by (simp add: build_decider_def Let_def split: if_split_asm)
  then have "bindR (select_decider ?p (Inr infos)) (\<lambda>info. bindR (decider_for env info) (\<lambda>d. bindR (decision_log_target env) (\<lambda>log.
        Inr (Some \<lparr>bs_info = info, bs_decider = d, bs_threshold = (if d = Rules then None else Some thr), bs_log = log\<rparr>)))) = Inr (Some b)"
    using assms \<open>?req \<noteq> ''none''\<close> thr infos by (simp add: build_decider_def Let_def)
  then obtain log where sel: "select_decider ?p (Inr infos) = Inr (bs_info b)" "decider_for env (bs_info b) = Inr (bs_decider b)"
      "b = \<lparr>bs_info = bs_info b, bs_decider = bs_decider b, bs_threshold = (if bs_decider b = Rules then None else Some thr), bs_log = log\<rparr>"
    by (auto simp: bindR_Inr)
  obtain j where j: "j \<in> set infos" "di_id j = ?req" using listed by auto
  then have "?req \<noteq> []" using listed_has_name [OF infos] by metis
  then have "Some (di_id (bs_info b)) = Some ?req"
    using rank_correct [of ?p infos] sel(1) bexI [where x = j and A = "set infos" and P = "\<lambda>j. di_id j = ?req"] j
    by (simp add: usable_def truthy_def cong: if_cong)
  then have "di_id (bs_info b) = ?req" by simp
  moreover have "bs_decider b = Rules \<longleftrightarrow> bs_threshold b = None" by (subst sel(3), subst sel(3)) simp
  ultimately show ?thesis using sel(2) by blast
qed


section \<open>Witnesses\<close>

definition ex_questions :: questions where
  "ex_questions = [(''kind'', \<lparr>qu_kind = CHOICE, qu_instructions = ''What is it?'', qu_criteria = Some (CDict [(''bug'', ''a defect''), (''idea'', ''a wish'')])\<rparr>)]"

definition ex_openai :: openai_decider where
  "ex_openai = \<lparr>od_api_key = ''k'', od_model = ''m'', od_base_url = ''http://localhost/v1'', od_extra_headers = []\<rparr>"

definition ex_reply :: string where
  "ex_reply = json_dumps (JObj [(''choices'', JArr [JObj [(''message'', JObj [(''content'',
     JStr (json_dumps (JObj [(''kind'', JObj [(''choice'', JStr ''bug'')])])))])]])])"

definition ex_http :: "unit http" where
  "ex_http req = ret (200, ex_reply)"

definition ex_timeout :: "unit http" where
  "ex_timeout req = raise (OSError ''The read operation timed out'')"

lemma ex_openai_answers:
  "openai_decide ex_http ex_openai [] ex_questions () = (Inr [(''kind'', (plain_answer CHOICE)\<lparr>wa_choice := JStr ''bug''\<rparr>)], ())"
  by code_simp


definition ex_spec :: decider where
  "ex_spec state qs = Inl (DecisionError ''unreachable'')"


theorem outage_escapes_fallback_witness:
  "fallback_wire (openai_decide ex_timeout ex_openai) (rule_decide HOSTED_SIGNALS) (1/2) [] ex_questions () = (Inl (OSError ''The read operation timed out''), ())"
  by (rule outage_escapes_fallback) (simp add: ex_timeout_def)

theorem listed_choice_unchecked_witness:
  "\<exists>a. openai_answer \<lparr>qu_kind = CHOICE, qu_instructions = [], qu_criteria = Some (CList [''bug'', ''idea''])\<rparr> [(''choice'', JStr ''neither'')] = Inr a \<and>
     wa_choice a = JStr ''neither''"
  by (rule listed_choice_unchecked [where labels = "[''bug'', ''idea'']"]) simp_all

definition ex_env :: "(string, string) dict" where
  "ex_env = [(''DEAR_AGENT_DECIDER'', '' Jev''), (''TYPESAFE_API_KEY'', ''k'')]"

definition ex_setup :: decider_setup where
  "ex_setup = \<lparr>bs_info = \<lparr>di_id = ''jev'', di_protocol = ''system-one'', di_endpoint = JEV_ENDPOINT, di_model = JEV_MODEL,
       di_native_types = True, di_local = False, di_free = False, di_api_key_env = Some ''TYPESAFE_API_KEY''\<rparr>,
     bs_decider = SystemOne \<lparr>jd_api_key = ''k'', jd_model = JEV_MODEL, jd_endpoint = JEV_ENDPOINT\<rparr>,
     bs_threshold = Some (Fin (1/2)), bs_log = None\<rparr>"

lemma ex_env_builds: "build_decider ex_env = Inr (Some ex_setup)"
  by code_simp

theorem requested_decider_is_built_witness:
  "build_decider ex_env = Inr (Some ex_setup) \<and> di_id (bs_info ex_setup) = ''jev'' \<and>
    decider_for ex_env (bs_info ex_setup) = Inr (bs_decider ex_setup)"
proof -
  have "lower (env_default ex_env ''DEAR_AGENT_DECIDER_REQUIRE_NATIVE'' []) \<noteq> ''true''" by code_simp
  moreover have "normalize_name (env_default ex_env ''DEAR_AGENT_DECIDER'' ''rules'') = ''jev''" by code_simp
  ultimately show ?thesis using requested_decider_is_built [OF ex_env_builds] ex_env_builds by simp
qed

end
