(* ===== verification/DecisionLog.thy ===== *)
theory DecisionLog
  imports Deciders
begin

text \<open>
  The log of decisions (\<open>decision/log.py\<close>): records, the file of JSON lines, the database table, the calibration
  of a threshold, and the decider that logs (\<open>LoggingDecider\<close>). What is read back is any JSON value: the fields
  of a record are not checked. A float of the decider is written with the parameter \<open>float_repr\<close>, the text of a
  double. Both stores are shown to be one list of records.
\<close>

section \<open>Records\<close>

record decision_record =
  dr_at :: json
  dr_state :: json
  dr_questions :: json
  dr_answers :: json
  dr_label :: json

definition wire_json :: "(fl \<Rightarrow> string) \<Rightarrow> wire_value option \<Rightarrow> json" where
  "wire_json float_repr v = (case v of None \<Rightarrow> JNull | Some (Num f) \<Rightarrow> JFloat (float_repr f) | Some (Sent j) \<Rightarrow> j)"

text \<open>\<open>asdict(answer)\<close>.\<close>

definition answer_json :: "(fl \<Rightarrow> string) \<Rightarrow> wire_answer \<Rightarrow> json" where
  "answer_json float_repr a =
     JObj [(''kind'', JStr (kind_value (wa_kind a))), (''choice'', wa_choice a), (''score'', wire_json float_repr (wa_score a)),
           (''noul'', wire_json float_repr (wa_noul a)), (''confidence'', wire_json float_repr (wa_confidence a)),
           (''probabilities'',
             case wa_probabilities a of
               Inl d \<Rightarrow> JObj (map (\<lambda>(k, f). (k, JFloat (float_repr f))) d) | Inr j \<Rightarrow> j)]"

definition from_decision :: "(fl \<Rightarrow> string) \<Rightarrow> string \<Rightarrow> string \<Rightarrow> questions \<Rightarrow> wire_decision \<Rightarrow> decision_record" where
  "from_decision float_repr now state qs d =
     \<lparr>dr_at = JStr now, dr_state = JStr state,
      dr_questions = JObj (map (\<lambda>(i, q). (i,
        JObj [(''kind'', JStr (kind_value (qu_kind q))), (''instructions'', JStr (qu_instructions q)),
              (''criteria'', case qu_criteria q of None \<Rightarrow> JNull | Some c \<Rightarrow> criteria_json c)])) qs),
      dr_answers = JObj (map (\<lambda>(i, a). (i, answer_json float_repr a)) d),
      dr_label = JNull\<rparr>"

definition record_json :: "decision_record \<Rightarrow> json" where
  "record_json r =
     JObj [(''at'', dr_at r), (''state'', dr_state r), (''questions'', dr_questions r), (''answers'', dr_answers r),
           (''label'', dr_label r)]"

section \<open>The file\<close>

text \<open>The file, if it exists, and the error that creating its directory or opening it for writing raises, if any.\<close>

record log_file =
  lf_text :: "string option"
  lf_denied :: "exn option"

definition record_line :: "decision_record \<Rightarrow> string" where
  "record_line r = json_dumps (record_json r) @ newline"

definition file_record :: "decision_record \<Rightarrow> (log_file, unit) prog" where
  "file_record r =
     bindE (asks lf_denied) (\<lambda>denied.
       case denied of
         Some e \<Rightarrow> raise e
       | None \<Rightarrow> modify (\<lambda>f. f\<lparr>lf_text := Some ((case lf_text f of None \<Rightarrow> [] | Some t \<Rightarrow> t) @ record_line r)\<rparr>))"

definition record_of_json :: "json \<Rightarrow> exn + decision_record" where
  "record_of_json data =
     bindR (item data ''at'') (\<lambda>a. bindR (item data ''state'') (\<lambda>state. bindR (item data ''questions'') (\<lambda>questions.
       bindR (item data ''answers'') (\<lambda>answers. bindR (as_dict ''get'' data) (\<lambda>d.
         Inr \<lparr>dr_at = a, dr_state = state, dr_questions = questions, dr_answers = answers, dr_label = get_or d ''label'' JNull\<rparr>)))))"

fun read_lines :: "string list \<Rightarrow> exn + decision_record list" where
  "read_lines [] = Inr []"
| "read_lines (line # ls) =
     (if strip line = [] then read_lines ls
      else bindR (json_loads line) (\<lambda>data. bindR (record_of_json data) (\<lambda>r. bindR (read_lines ls) (\<lambda>rs. Inr (r # rs)))))"

definition file_read :: "(log_file, decision_record list) prog" where
  "file_read = bindE (asks lf_text) (\<lambda>t. case t of None \<Rightarrow> ret [] | Some s \<Rightarrow> liftR (read_lines (splitlines s)))"

definition file_write_all :: "decision_record list \<Rightarrow> (log_file, unit) prog" where
  "file_write_all rs =
     bindE (asks lf_denied) (\<lambda>denied.
       case denied of
         Some e \<Rightarrow> raise e
       | None \<Rightarrow> modify (\<lambda>f. f\<lparr>lf_text := Some (concat (map record_line rs))\<rparr>))"

definition set_label :: "nat \<Rightarrow> string \<Rightarrow> decision_record list \<Rightarrow> decision_record list" where
  "set_label i l rs = rs[i := (rs ! i)\<lparr>dr_label := JStr l\<rparr>]"

definition file_label :: "int \<Rightarrow> string \<Rightarrow> (log_file, bool) prog" where
  "file_label index l =
     bindE file_read (\<lambda>rs.
       if \<not> (0 \<le> index \<and> index < int (length rs)) then ret False
       else seqE (file_write_all (set_label (nat index) l rs)) (ret True))"

section \<open>The table\<close>

text \<open>
  The rows with their generated ids, and whether the connection's transaction is aborted: a statement that fails aborts
  it, and every later statement is refused until it is rolled back, which no method does. The parameters are what a text column and a \<open>jsonb\<close> column hold for a value
  that is inserted, or the error of the database.
\<close>

record log_table =
  lt_rows :: "(nat \<times> decision_record) list"
  lt_next :: nat
  lt_aborted :: bool

record log_columns =
  lc_text :: "json \<Rightarrow> exn + json"
  lc_jsonb :: "string \<Rightarrow> exn + json"

definition row_of :: "log_columns \<Rightarrow> decision_record \<Rightarrow> exn + decision_record" where
  "row_of C r =
     bindR (lc_text C (dr_at r)) (\<lambda>a. bindR (lc_text C (dr_state r)) (\<lambda>state.
       bindR (lc_jsonb C (json_dumps (dr_questions r))) (\<lambda>questions. bindR (lc_jsonb C (json_dumps (dr_answers r))) (\<lambda>answers.
         bindR (if dr_label r = JNull then Inr JNull else lc_text C (dr_label r)) (\<lambda>l.
           Inr \<lparr>dr_at = a, dr_state = state, dr_questions = questions, dr_answers = answers, dr_label = l\<rparr>)))))"

definition statements :: "(log_table, 'a) prog \<Rightarrow> (log_table, 'a) prog" where
  "statements p t =
     (if lt_aborted t
      then (Inl (OtherError ''current transaction is aborted, commands ignored until end of transaction block''), t)
      else case p t of (Inl e, t') \<Rightarrow> (Inl e, t'\<lparr>lt_aborted := True\<rparr>) | (Inr x, t') \<Rightarrow> (Inr x, t'))"

definition table_record :: "log_columns \<Rightarrow> decision_record \<Rightarrow> (log_table, unit) prog" where
  "table_record C r =
     statements (bindE (liftR (row_of C r)) (\<lambda>row.
       modify (\<lambda>t. t\<lparr>lt_rows := lt_rows t @ [(lt_next t, row)], lt_next := Suc (lt_next t)\<rparr>)))"

definition ordered_rows :: "log_table \<Rightarrow> (nat \<times> decision_record) list" where
  "ordered_rows t = sort_key fst (lt_rows t)"

definition table_read :: "(log_table, decision_record list) prog" where
  "table_read = statements (asks (\<lambda>t. map snd (ordered_rows t)))"

definition table_label :: "log_columns \<Rightarrow> int \<Rightarrow> string \<Rightarrow> (log_table, bool) prog" where
  "table_label C index l =
     statements (if index < 0 then raise (OtherError ''OFFSET must not be negative'')
      else bindE (asks (\<lambda>t. drop (nat index) (ordered_rows t))) (\<lambda>rows.
        case rows of
          [] \<Rightarrow> ret False
        | (i, _) # _ \<Rightarrow>
            bindE (liftR (lc_text C (JStr l))) (\<lambda>held.
              seqE (modify (\<lambda>t. t\<lparr>lt_rows := map (\<lambda>(j, r). (j, if j = i then r\<lparr>dr_label := held\<rparr> else r)) (lt_rows t)\<rparr>))
                (ret True))))"

section \<open>Calibration\<close>

record confidence_band =
  cb_label :: string
  cb_lower :: rat
  cb_upper :: rat
  cb_count :: nat
  cb_correct :: nat

record calibration_report =
  cr_question :: string
  cr_total :: nat
  cr_labeled :: nat
  cr_correct :: nat
  cr_bands :: "confidence_band list"
  cr_threshold :: "rat option"

text \<open>\<open>==\<close> on values: numbers of all types compare by value, dictionaries without regard to order.\<close>

fun same_number :: "json \<Rightarrow> json \<Rightarrow> bool" where
  "same_number v w =
     (case (wire_num (Sent v), wire_num (Sent w)) of (Some f, Some g) \<Rightarrow> f = g \<and> f \<noteq> NaN | _ \<Rightarrow> False)"

fun py_equal :: "json \<Rightarrow> json \<Rightarrow> bool"
  and py_equal_list :: "json list \<Rightarrow> json list \<Rightarrow> bool"
  and py_equal_in :: "(string \<times> json) list \<Rightarrow> (string, json) dict \<Rightarrow> bool" where
  "py_equal (JArr xs) w = (case w of JArr ys \<Rightarrow> py_equal_list xs ys | _ \<Rightarrow> False)"
| "py_equal (JObj d) w = (case w of JObj e \<Rightarrow> length d = length e \<and> py_equal_in d e | _ \<Rightarrow> False)"
| "py_equal (JStr s) w = (w = JStr s)"
| "py_equal JNull w = (w = JNull)"
| "py_equal v w = same_number v w"
| "py_equal_list [] ys = (ys = [])"
| "py_equal_list (x # xs) ys = (case ys of [] \<Rightarrow> False | y # ys' \<Rightarrow> py_equal x y \<and> py_equal_list xs ys')"
| "py_equal_in [] e = True"
| "py_equal_in ((k, v) # d) e = (case dict_get e k of None \<Rightarrow> False | Some w \<Rightarrow> py_equal v w \<and> py_equal_in d e)"

text \<open>\<open>float(v)\<close>.\<close>

definition float_of :: "json \<Rightarrow> exn + fl" where
  "float_of v =
     (if too_large (Sent v) then Inl (OtherError ''int too large to convert to float'')
      else case v of
        JStr s \<Rightarrow> (case float_of_text s of None \<Rightarrow> Inl (ValueError (''could not convert string to float: '' @ py_repr s)) | Some f \<Rightarrow> Inr f)
      | _ \<Rightarrow> (case wire_num (Sent v) of
                None \<Rightarrow> Inl (TypeError (''float() argument must be a string or a real number, not '' @ py_repr (type_name v)))
              | Some f \<Rightarrow> Inr f))"

definition bucket_index :: "fl \<Rightarrow> rat list \<Rightarrow> nat" where
  "bucket_index confidence edges =
     fold (\<lambda>(i, edge) index. if fl_at_least confidence edge then i else index) (enumerate 0 edges) 0"

record tally =
  ta_total :: nat
  ta_labeled :: nat
  ta_correct :: nat
  ta_buckets :: "(fl \<times> bool) list list"

definition tally_record :: "rat list \<Rightarrow> string \<Rightarrow> decision_record \<Rightarrow> tally \<Rightarrow> exn + tally" where
  "tally_record edges question_id r T =
     bindR (as_dict ''get'' (dr_answers r)) (\<lambda>answers.
       case get_or answers question_id JNull of
         JObj answer \<Rightarrow>
           (let T1 = T\<lparr>ta_total := Suc (ta_total T)\<rparr> in
            if dr_label r = JNull then Inr T1
            else let confidence = get_or answer ''confidence'' JNull in
              if confidence = JNull then Inr T1
              else let correct = py_equal (get_or answer ''choice'' JNull) (dr_label r);
                       T2 = T1\<lparr>ta_labeled := Suc (ta_labeled T1), ta_correct := ta_correct T1 + (if correct then 1 else 0)\<rparr>
                in bindR (float_of confidence) (\<lambda>f.
                     let i = bucket_index f edges in
                     if i < length (ta_buckets T2)
                     then Inr (T2\<lparr>ta_buckets := (ta_buckets T2)[i := ta_buckets T2 ! i @ [(f, correct)]]\<rparr>)
                     else Inl (IndexError ''list index out of range'')))
       | _ \<Rightarrow> Inr T)"

fun tally_records :: "rat list \<Rightarrow> string \<Rightarrow> decision_record list \<Rightarrow> tally \<Rightarrow> exn + tally" where
  "tally_records edges question_id [] T = Inr T"
| "tally_records edges question_id (r # rs) T = bindR (tally_record edges question_id r T) (tally_records edges question_id rs)"

definition hits :: "(fl \<times> bool) list \<Rightarrow> nat" where
  "hits entries = length (filter snd entries)"

definition make_band :: "(rat \<Rightarrow> string) \<Rightarrow> rat list \<Rightarrow> (fl \<times> bool) list list \<Rightarrow> nat \<Rightarrow> confidence_band" where
  "make_band two_digits edges buckets i =
     (let edge = edges ! i; upper = (if i + 1 < length edges then edges ! (i + 1) else 1); entries = buckets ! i in
      \<lparr>cb_label = two_digits edge @ ''-'' @ two_digits upper, cb_lower = edge, cb_upper = upper, cb_count = length entries,
       cb_correct = hits entries\<rparr>)"

text \<open>\<open>_recommend\<close>, from an index on.\<close>

fun recommend_from :: "rat list \<Rightarrow> (fl \<times> bool) list list \<Rightarrow> rat \<Rightarrow> rat option" where
  "recommend_from [] buckets target = None"
| "recommend_from (edge # edges) buckets target =
     (let above = concat buckets in
      if above \<noteq> [] \<and> of_nat (hits above) / of_nat (length above) \<ge> target then Some edge
      else recommend_from edges (tl buckets) target)"

definition calibrate_records ::
  "(rat \<Rightarrow> string) \<Rightarrow> decision_record list \<Rightarrow> string \<Rightarrow> rat list \<Rightarrow> rat \<Rightarrow> exn + calibration_report" where
  "calibrate_records two_digits rs question_id bands target =
     (let edges = sort (remdups bands) in
      bindR (tally_records edges question_id rs
              \<lparr>ta_total = 0, ta_labeled = 0, ta_correct = 0, ta_buckets = replicate (length edges) []\<rparr>) (\<lambda>T.
        Inr \<lparr>cr_question = question_id, cr_total = ta_total T, cr_labeled = ta_labeled T, cr_correct = ta_correct T,
             cr_bands = map (make_band two_digits edges (ta_buckets T)) [0..<length edges],
             cr_threshold = recommend_from edges (ta_buckets T) target\<rparr>))"

section \<open>The decider that logs\<close>

fun is_OSError :: "exn \<Rightarrow> bool" where
  "is_OSError (OSError _) = True"
| "is_OSError (FileNotFoundError _) = True"
| "is_OSError (URLError _) = True"
| "is_OSError (HTTPError _ _ _) = True"
| "is_OSError _ = False"

text \<open>The decider acts on a world, the log on its own part of the state.\<close>

definition logging_decide ::
  "(fl \<Rightarrow> string) \<Rightarrow> ('w \<Rightarrow> string) \<Rightarrow> (decision_record \<Rightarrow> ('l, unit) prog) \<Rightarrow> 'w wire_decider \<Rightarrow> ('w \<times> 'l) wire_decider" where
  "logging_decide float_repr now log_record decider state qs =
     bindE (on_part fst (\<lambda>w (_, l). (w, l)) (decider state qs)) (\<lambda>d.
       bindE (asks (now \<circ> fst)) (\<lambda>t.
         bindE (attempt (on_part snd (\<lambda>l (w, _). (w, l)) (log_record (from_decision float_repr t state qs d)))) (\<lambda>r.
           case r of
             Inl e \<Rightarrow> if is_OSError e then ret d else raise e
           | Inr _ \<Rightarrow> ret d)))"


section \<open>A store of decisions\<close>

text \<open>
  What both stores promise while they can be written: they hold a list of records, in the form \<open>form\<close> a record
  has once it is stored; a label is stored as \<open>held\<close>.
\<close>

locale decision_store =
  fixes store_record :: "decision_record \<Rightarrow> ('s, unit) prog"
    and store_read :: "('s, decision_record list) prog"
    and store_label :: "int \<Rightarrow> string \<Rightarrow> ('s, bool) prog"
    and holds :: "'s \<Rightarrow> decision_record list \<Rightarrow> bool"
    and storable :: "decision_record \<Rightarrow> bool"
    and form :: "decision_record \<Rightarrow> decision_record"
    and labelable :: "string \<Rightarrow> bool"
    and held :: "string \<Rightarrow> json"
  assumes record_law: "holds s rs \<Longrightarrow> storable r \<Longrightarrow> \<exists>s'. store_record r s = (Inr (), s') \<and> holds s' (rs @ [form r])"
    and read_law: "holds s rs \<Longrightarrow> store_read s = (Inr rs, s)"
    and label_law: "holds s rs \<Longrightarrow> labelable l \<Longrightarrow> i < length rs \<Longrightarrow>
      \<exists>s'. store_label (int i) l s = (Inr True, s') \<and> holds s' (rs[i := (rs ! i)\<lparr>dr_label := held l\<rparr>])"
    and no_label_law: "holds s rs \<Longrightarrow> length rs \<le> i \<Longrightarrow> store_label (int i) l s = (Inr False, s)"

datatype log_op = Record decision_record | Label nat string

text \<open>A sequence of calls on a store, and what it means for the list of records.\<close>

fun run_ops :: "(decision_record \<Rightarrow> ('s, unit) prog) \<Rightarrow> (int \<Rightarrow> string \<Rightarrow> ('s, bool) prog) \<Rightarrow> log_op list \<Rightarrow> ('s, unit) prog" where
  "run_ops rec lab [] = ret ()"
| "run_ops rec lab (Record r # os) = bindE (rec r) (\<lambda>_. run_ops rec lab os)"
| "run_ops rec lab (Label i l # os) = bindE (lab (int i) l) (\<lambda>_. run_ops rec lab os)"

fun list_ops :: "(decision_record \<Rightarrow> decision_record) \<Rightarrow> (string \<Rightarrow> json) \<Rightarrow> log_op list \<Rightarrow> decision_record list \<Rightarrow> decision_record list" where
  "list_ops form held [] rs = rs"
| "list_ops form held (Record r # os) rs = list_ops form held os (rs @ [form r])"
| "list_ops form held (Label i l # os) rs =
     list_ops form held os (if i < length rs then rs[i := (rs ! i)\<lparr>dr_label := held l\<rparr>] else rs)"

fun op_ok :: "(decision_record \<Rightarrow> bool) \<Rightarrow> (string \<Rightarrow> bool) \<Rightarrow> log_op \<Rightarrow> bool" where
  "op_ok storable labelable (Record r) = storable r"
| "op_ok storable labelable (Label i l) = labelable l"

context decision_store
begin

lemma ops_hold:
  assumes "holds s rs" and "\<forall>p \<in> set os. op_ok storable labelable p"
  shows "\<exists>s'. run_ops store_record store_label os s = (Inr (), s') \<and> holds s' (list_ops form held os rs)"
  using assms
proof (induction os arbitrary: s rs)
  case (Cons p os)
  show ?case
  proof (cases p)
    case (Record r)
    then obtain s1 where s1: "store_record r s = (Inr (), s1)" "holds s1 (rs @ [form r])"
      using record_law [OF Cons.prems(1), of r] Cons.prems(2) by auto
    then show ?thesis using Record Cons.IH [OF s1(2)] Cons.prems(2) by (simp add: bindE_Inr)
  next
    case (Label i l)
    show ?thesis
    proof (cases "i < length rs")
      case True
      then obtain s1 where s1: "store_label (int i) l s = (Inr True, s1)" "holds s1 (rs[i := (rs ! i)\<lparr>dr_label := held l\<rparr>])"
        using label_law [OF Cons.prems(1), of l i] Label Cons.prems(2) by auto
      then show ?thesis using Label True Cons.IH [OF s1(2)] Cons.prems(2) by (simp add: bindE_Inr)
    next
      case False
      then have "store_label (int i) l s = (Inr False, s)" using no_label_law [OF Cons.prems(1)] by simp
      then show ?thesis using Label False Cons.IH [OF Cons.prems(1)] Cons.prems(2) by (simp add: bindE_Inr)
    qed
  qed
qed simp

lemma ops_read:
  assumes "holds s rs" and "\<forall>p \<in> set os. op_ok storable labelable p"
  shows "fst (bindE (run_ops store_record store_label os) (\<lambda>_. store_read) s) = Inr (list_ops form held os rs)"
proof -
  obtain s' where "run_ops store_record store_label os s = (Inr (), s')" "holds s' (list_ops form held os rs)"
    using ops_hold [OF assms] by blast
  then show ?thesis by (simp add: bindE_Inr read_law)
qed

end

subsection \<open>The table\<close>

definition table_holds :: "log_table \<Rightarrow> decision_record list \<Rightarrow> bool" where
  "table_holds t rs \<longleftrightarrow>
     \<not> lt_aborted t \<and> map snd (lt_rows t) = rs \<and> sorted (map fst (lt_rows t)) \<and> distinct (map fst (lt_rows t)) \<and>
     set (map fst (lt_rows t)) \<subseteq> {..<lt_next t}"

definition row_storable :: "log_columns \<Rightarrow> decision_record \<Rightarrow> bool" where
  "row_storable C r \<longleftrightarrow> (\<exists>row. row_of C r = Inr row)"

definition stored_row :: "log_columns \<Rightarrow> decision_record \<Rightarrow> decision_record" where
  "stored_row C r = (case row_of C r of Inr row \<Rightarrow> row | Inl _ \<Rightarrow> r)"

definition label_storable :: "log_columns \<Rightarrow> string \<Rightarrow> bool" where
  "label_storable C l \<longleftrightarrow> (\<exists>v. lc_text C (JStr l) = Inr v)"

definition stored_label :: "log_columns \<Rightarrow> string \<Rightarrow> json" where
  "stored_label C l = (case lc_text C (JStr l) of Inr v \<Rightarrow> v | Inl _ \<Rightarrow> JStr l)"

lemma ordered_table: "table_holds t rs \<Longrightarrow> ordered_rows t = lt_rows t"
  by (simp add: table_holds_def ordered_rows_def sorted_sort_id sort_key_id_if_sorted)

lemma update_by_key:
  assumes "distinct (map fst xs)" and "i < length xs"
  shows "map (\<lambda>(j, r). (j, if j = fst (xs ! i) then f r else r)) xs = xs[i := (fst (xs ! i), f (snd (xs ! i)))]"
proof (rule nth_equalityI)
  fix k assume k: "k < length (map (\<lambda>(j, r). (j, if j = fst (xs ! i) then f r else r)) xs)"
  then have "fst (xs ! k) = fst (xs ! i) \<longleftrightarrow> k = i"
    using assms nth_eq_iff_index_eq [OF assms(1), of k i] by simp
  then show "map (\<lambda>(j, r). (j, if j = fst (xs ! i) then f r else r)) xs ! k = xs[i := (fst (xs ! i), f (snd (xs ! i)))] ! k"
    using k by (auto simp: nth_list_update split_beta)
qed simp

lemma table_holds_rows:
  assumes "table_holds t rs" and "map fst new = map fst (lt_rows t)"
  shows "table_holds (t\<lparr>lt_rows := new\<rparr>) (map snd new)"
  using assms(1) unfolding table_holds_def by (simp del: set_map add: assms(2))

lemma table_label_at:
  assumes "\<not> lt_aborted t" and "ordered_rows t = lt_rows t" and "lc_text C (JStr l) = Inr v" and "i < length (lt_rows t)"
  shows "table_label C (int i) l t =
    (Inr True, t\<lparr>lt_rows := map (\<lambda>(j, r). (j, if j = fst (lt_rows t ! i) then r\<lparr>dr_label := v\<rparr> else r)) (lt_rows t)\<rparr>)"
proof -
  obtain j r where jr: "lt_rows t ! i = (j, r)" by fastforce
  then have "drop i (lt_rows t) = (j, r) # drop (Suc i) (lt_rows t)" using assms(4) by (simp add: Cons_nth_drop_Suc flip: jr)
  then show ?thesis using assms(1-3) jr by (simp add: table_label_def statements_def bindE_def seqE_def)
qed

interpretation table_log: decision_store "table_record C" table_read "table_label C" table_holds "row_storable C" "stored_row C"
  "label_storable C" "stored_label C" for C
proof unfold_locales
  fix s rs r assume h: "table_holds s rs" and "row_storable C r"
  then obtain row where row: "row_of C r = Inr row" by (auto simp: row_storable_def)
  have below: "\<forall>i \<in> set (map fst (lt_rows s)). i < lt_next s" using h by (auto simp: table_holds_def)
  let ?t = "s\<lparr>lt_rows := lt_rows s @ [(lt_next s, row)], lt_next := Suc (lt_next s)\<rparr>"
  have "table_record C r s = (Inr (), ?t)"
    using h row by (simp add: table_record_def statements_def table_holds_def bindE_def)
  moreover have "table_holds ?t (rs @ [stored_row C r])"
    using h row below unfolding table_holds_def
    by (intro conjI) (simp_all add: stored_row_def sorted_append less_imp_le subset_iff less_Suc_eq, force+)
  ultimately show "\<exists>s'. table_record C r s = (Inr (), s') \<and> table_holds s' (rs @ [stored_row C r])" by blast
next
  fix s rs assume "table_holds s rs"
  then show "table_read s = (Inr rs, s)"
    using ordered_table by (auto simp: table_read_def statements_def table_holds_def)
next
  fix s rs l i assume h: "table_holds s rs" and "label_storable C l" and i: "i < length rs"
  then obtain v where v: "lc_text C (JStr l) = Inr v" by (auto simp: label_storable_def)
  let ?rows = "lt_rows s"
  have len: "length ?rows = length rs" using h by (auto simp: table_holds_def)
  let ?new = "?rows[i := (fst (?rows ! i), (snd (?rows ! i))\<lparr>dr_label := v\<rparr>)]"
  have up: "map (\<lambda>(j, r). (j, if j = fst (?rows ! i) then r\<lparr>dr_label := v\<rparr> else r)) ?rows = ?new"
    using h i len by (intro update_by_key) (auto simp: table_holds_def)
  have keys: "map fst ?new = map fst ?rows" using i len by (simp add: map_update list_update_same_conv)
  have "table_label C (int i) l s = (Inr True, s\<lparr>lt_rows := ?new\<rparr>)"
    using table_label_at [of s C l v i] h v i len ordered_table [OF h] unfolding up by (simp add: table_holds_def)
  moreover have "table_holds (s\<lparr>lt_rows := ?new\<rparr>) (rs[i := (rs ! i)\<lparr>dr_label := stored_label C l\<rparr>])"
  proof -
    have "rs = map snd ?rows" using h by (simp add: table_holds_def)
    then have rs': "map snd ?new = rs[i := (rs ! i)\<lparr>dr_label := stored_label C l\<rparr>]"
      using v i by (simp add: stored_label_def map_update)
    show ?thesis using table_holds_rows [OF h keys] unfolding rs' .
  qed
  ultimately show "\<exists>s'. table_label C (int i) l s = (Inr True, s') \<and> table_holds s' (rs[i := (rs ! i)\<lparr>dr_label := stored_label C l\<rparr>])"
    by blast
next
  fix s rs l i assume h: "table_holds s rs" and "length rs \<le> i"
  then have "drop i (lt_rows s) = []" by (auto simp: table_holds_def)
  then show "table_label C (int i) l s = (Inr False, s)"
    using h ordered_table [OF h] by (simp add: table_label_def statements_def table_holds_def)
qed


subsection \<open>The file\<close>

definition plain_record :: "decision_record \<Rightarrow> bool" where
  "plain_record r \<longleftrightarrow> json_plain (record_json r)"

definition file_holds :: "log_file \<Rightarrow> decision_record list \<Rightarrow> bool" where
  "file_holds f rs \<longleftrightarrow>
     lf_denied f = None \<and> (\<forall>r \<in> set rs. plain_record r) \<and>
     (lf_text f = Some (concat (map record_line rs)) \<or> lf_text f = None \<and> rs = [])"

lemma splitlines_acc_line:
  assumes "\<forall>c \<in> set w. \<not> islinebreak c"
  shows "splitlines_acc acc (w @ CHR 0x0A # t) = (rev acc @ w) # splitlines_acc [] t"
  using assms
proof (induction w arbitrary: acc)
  case Nil
  have "islinebreak CHR 0x0A" by (simp add: islinebreak_def code_def)
  then show ?case by (cases t) simp_all
next
  case (Cons c w)
  have "islinebreak CHR 0x0D" by (simp add: islinebreak_def code_def)
  with Cons.prems have "c \<noteq> CHR 0x0D" "\<not> islinebreak c" by auto
  then show ?case using Cons.IH [of "c # acc"] Cons.prems by (cases "w @ CHR 0x0A # t") auto
qed

lemma splitlines_lines:
  "\<forall>w \<in> set ws. \<forall>c \<in> set w. \<not> islinebreak c \<Longrightarrow> splitlines (concat (map (\<lambda>w. w @ newline) ws)) = ws"
  by (induction ws) (simp_all add: splitlines_def newline_def splitlines_acc_line)

lemma record_back: "record_of_json (record_json r) = Inr r"
  by (simp add: record_of_json_def record_json_def item_def as_dict_def get_or_def)

lemma read_lines_records: "\<forall>r \<in> set rs. plain_record r \<Longrightarrow> read_lines (map (json_dumps \<circ> record_json) rs) = Inr rs"
proof (induction rs)
  case (Cons r rs)
  have "strip (json_dumps (record_json r)) \<noteq> []"
    by (simp add: record_json_def strip_def lstrip_def rstrip_def isspace_def code_def dropWhile_eq_Nil_conv)
  then show ?case using Cons by (simp add: loads_dumps_plain plain_record_def record_back)
qed simp

lemma read_records:
  assumes "\<forall>r \<in> set rs. plain_record r"
  shows "read_lines (splitlines (concat (map record_line rs))) = Inr rs"
proof -
  have "\<forall>w \<in> set (map (json_dumps \<circ> record_json) rs). \<forall>c \<in> set w. \<not> islinebreak c"
    using assms by (auto simp: plain_record_def dest: not_break [OF dumps_printable, rotated])
  from splitlines_lines [OF this] have "splitlines (concat (map record_line rs)) = map (json_dumps \<circ> record_json) rs"
    by (simp add: record_line_def [abs_def] comp_def)
  then show ?thesis using read_lines_records [OF assms] by simp
qed

interpretation file_log: decision_store file_record file_read file_label file_holds plain_record id "\<lambda>_. True" JStr
proof unfold_locales
  fix s rs r assume "file_holds s rs" "plain_record r"
  then show "\<exists>s'. file_record r s = (Inr (), s') \<and> file_holds s' (rs @ [id r])"
    by (auto simp: file_record_def file_holds_def)
next
  fix s rs assume "file_holds s rs"
  then show "file_read s = (Inr rs, s)" by (auto simp: file_read_def file_holds_def read_records)
next
  fix s rs l i assume h: "file_holds s rs" and i: "i < length rs"
  then have rd: "file_read s = (Inr rs, s)" by (auto simp: file_read_def file_holds_def read_records)
  have "plain_record ((rs ! i)\<lparr>dr_label := JStr l\<rparr>)"
    using h i by (simp add: file_holds_def plain_record_def record_json_def)
  then show "\<exists>s'. file_label (int i) l s = (Inr True, s') \<and> file_holds s' (rs[i := (rs ! i)\<lparr>dr_label := JStr l\<rparr>])"
    using h i rd by (auto simp: file_label_def seqE_def bindE_def file_write_all_def set_label_def file_holds_def
        dest!: set_update_subset_insert [THEN subsetD])
next
  fix s rs l i assume "file_holds s rs" "length rs \<le> i"
  then show "file_label (int i) l s = (Inr False, s)"
    by (auto simp: file_label_def bindE_def file_read_def file_holds_def read_records)
qed


text \<open>
  C19. The file of decisions is a list of records: after any sequence of records and labels, reading it gives the list with
  every record in order, unchanged but for the labels set on it.
\<close>

theorem decision_file_is_a_list:
  assumes "\<forall>p \<in> set os. op_ok plain_record (\<lambda>_. True) p" and "lf_denied f = None" and "lf_text f = None"
  shows "fst (bindE (run_ops file_record file_label os) (\<lambda>_. file_read) f) = Inr (list_ops id JStr os [])"
  using assms by (intro file_log.ops_read) (simp_all add: file_holds_def)

text \<open>The table is the same list, of the values its columns hold.\<close>

lemma decision_table_is_a_list:
  assumes "\<forall>p \<in> set os. op_ok (row_storable C) (label_storable C) p"
  shows "fst (bindE (run_ops (table_record C) (table_label C) os) (\<lambda>_. table_read) \<lparr>lt_rows = [], lt_next = n, lt_aborted = False\<rparr>) =
    Inr (list_ops (stored_row C) (stored_label C) os [])"
  using assms by (intro table_log.ops_read) (simp_all add: table_holds_def)

section \<open>Calibration adds up\<close>

lemma hits_append [simp]: "hits (xs @ ys) = hits xs + hits ys" and hits_Nil [simp]: "hits [] = 0"
  by (simp_all add: hits_def)

lemma hits_le: "hits xs \<le> length xs"
  by (simp add: hits_def)

lemma bucket_grows:
  "i < length bs \<Longrightarrow> length (concat (bs[i := bs ! i @ [x]])) = Suc (length (concat bs))"
  "i < length bs \<Longrightarrow> hits (concat (bs[i := bs ! i @ [x]])) = hits (concat bs) + (if snd x then 1 else 0)"
  by (induction bs arbitrary: i) (auto simp: nth_Cons hits_def split: nat.splits)

definition tally_ok :: "nat \<Rightarrow> nat \<Rightarrow> tally \<Rightarrow> bool" where
  "tally_ok bands n T \<longleftrightarrow>
     length (ta_buckets T) = bands \<and> ta_total T \<le> n \<and> ta_labeled T \<le> ta_total T \<and>
     ta_labeled T = length (concat (ta_buckets T)) \<and> ta_correct T = hits (concat (ta_buckets T))"

lemma tally_record_ok:
  assumes "tally_record edges q r T = Inr T'" and "tally_ok bands n T" shows "tally_ok bands (Suc n) T'"
proof -
  obtain answers where a: "as_dict ''get'' (dr_answers r) = Inr answers"
    using assms(1) by (auto simp: tally_record_def bindR_Inr)
  show ?thesis
  proof (cases "get_or answers q JNull")
    case (JObj answer)
    let ?c = "get_or answer ''confidence'' JNull"
    show ?thesis
    proof (cases "dr_label r = JNull \<or> ?c = JNull")
      case True
      then have "T' = T\<lparr>ta_total := Suc (ta_total T)\<rparr>" using assms(1) a JObj by (auto simp: tally_record_def Let_def split: if_split_asm)
      then show ?thesis using assms(2) by (simp add: tally_ok_def)
    next
      case False
      then obtain f where f: "float_of ?c = Inr f" using assms(1) a JObj by (auto simp: tally_record_def Let_def bindR_Inr)
      let ?i = "bucket_index f edges"
      let ?hit = "py_equal (get_or answer ''choice'' JNull) (dr_label r)"
      have i: "?i < length (ta_buckets T)"
        using assms(1) a JObj False f by (auto simp: tally_record_def Let_def split: if_split_asm)
      have "T' = T\<lparr>ta_total := Suc (ta_total T), ta_labeled := Suc (ta_labeled T), ta_correct := ta_correct T + (if ?hit then 1 else 0),
          ta_buckets := (ta_buckets T)[?i := ta_buckets T ! ?i @ [(f, ?hit)]]\<rparr>"
        using assms(1) a JObj False f i by (simp add: tally_record_def Let_def)
      then show ?thesis using assms(2) bucket_grows [OF i, of "(f, ?hit)"] by (simp add: tally_ok_def)
    qed
  qed (use assms a in \<open>auto simp: tally_record_def tally_ok_def\<close>)
qed

lemma tally_records_ok:
  "tally_records edges q rs T = Inr T' \<Longrightarrow> tally_ok bands n T \<Longrightarrow> tally_ok bands (n + length rs) T'"
proof (induction rs arbitrary: T n)
  case (Cons r rs)
  then obtain T1 where "tally_record edges q r T = Inr T1" "tally_records edges q rs T1 = Inr T'" by (auto simp: bindR_Inr)
  from Cons.IH [OF this(2) tally_record_ok [OF this(1) Cons.prems(2)]] show ?case by simp
qed simp

text \<open>What the threshold is earned by: answers at or above it of which the target's share is correct.\<close>

definition earned :: "rat \<Rightarrow> nat \<Rightarrow> nat \<Rightarrow> bool" where
  "earned target right all \<longleftrightarrow> 0 < all \<and> target \<le> of_nat right / of_nat all"

definition bands_earn :: "rat \<Rightarrow> confidence_band list \<Rightarrow> bool" where
  "bands_earn target bs \<longleftrightarrow> earned target (sum_list (map cb_correct bs)) (sum_list (map cb_count bs))"

lemma recommend_first:
  assumes "length buckets = length edges"
  shows "case recommend_from edges buckets target of
      None \<Rightarrow> \<forall>k < length edges. \<not> earned target (hits (concat (drop k buckets))) (length (concat (drop k buckets)))
    | Some e \<Rightarrow> \<exists>k < length edges. e = edges ! k \<and> earned target (hits (concat (drop k buckets))) (length (concat (drop k buckets))) \<and>
        (\<forall>j < k. \<not> earned target (hits (concat (drop j buckets))) (length (concat (drop j buckets))))"
  using assms
proof (induction edges arbitrary: buckets)
  case (Cons e es)
  then obtain b bs where b: "buckets = b # bs" "length bs = length es" by (cases buckets) auto
  define P where "P k \<longleftrightarrow> earned target (hits (concat (drop k buckets))) (length (concat (drop k buckets)))" for k
  have Ps: "P (Suc k) \<longleftrightarrow> earned target (hits (concat (drop k bs))) (length (concat (drop k bs)))" for k by (simp add: P_def b)
  have P0: "recommend_from (e # es) buckets target = (if P 0 then Some e else recommend_from es bs target)"
    by (simp add: P_def earned_def b Let_def)
  have goal: "case recommend_from (e # es) buckets target of None \<Rightarrow> \<forall>k < length (e # es). \<not> P k
      | Some x \<Rightarrow> \<exists>k < length (e # es). x = (e # es) ! k \<and> P k \<and> (\<forall>j < k. \<not> P j)"
  proof (cases "P 0")
    case True then show ?thesis unfolding P0 by (auto intro!: exI [of _ 0])
  next
    case False
    note IH = Cons.IH [OF b(2), folded Ps]
    show ?thesis
    proof (cases "recommend_from es bs target")
      case None with IH False show ?thesis unfolding P0 by (auto simp: less_Suc_eq_0_disj)
    next
      case (Some x)
      with IH obtain k where "k < length es" "x = es ! k" "P (Suc k)" "\<forall>j < k. \<not> P (Suc j)" by auto
      with Some False show ?thesis unfolding P0 by (auto simp: Ex_less_Suc2 All_less_Suc2)
    qed
  qed
  then show ?case unfolding P_def .
qed simp

lemma band_sums:
  assumes "length buckets = length edges"
  shows "sum_list (map cb_count (drop k (map (make_band f edges buckets) [0..<length edges]))) = length (concat (drop k buckets))"
    and "sum_list (map cb_correct (drop k (map (make_band f edges buckets) [0..<length edges]))) = hits (concat (drop k buckets))"
proof -
  have m: "map (g \<circ> (!) buckets) [0..<length edges] = map g buckets" for g :: "(fl \<times> bool) list \<Rightarrow> nat"
    using assms by (metis map_map map_nth)
  have h: "sum_list (map hits bs) = hits (concat bs)" for bs by (induction bs) simp_all
  have "map cb_count (map (make_band f edges buckets) [0..<length edges]) = map length buckets"
    "map cb_correct (map (make_band f edges buckets) [0..<length edges]) = map hits buckets"
    using m [of length] m [of hits] by (simp_all add: make_band_def Let_def comp_def)
  then show "sum_list (map cb_count (drop k (map (make_band f edges buckets) [0..<length edges]))) = length (concat (drop k buckets))"
    "sum_list (map cb_correct (drop k (map (make_band f edges buckets) [0..<length edges]))) = hits (concat (drop k buckets))"
    unfolding drop_map [symmetric] by (simp_all only: drop_map length_concat h)
qed

text \<open>
  A calibration adds up: every answer it counts is in one band, it counts no more answers than there are records and no
  more correct ones than answers, and the threshold it recommends is the lowest edge from which on the answers of all
  bands together reach the target, or none where no edge does.
\<close>

theorem calibration_adds_up:
  assumes "calibrate_records two_digits rs q bands target = Inr R"
  shows "cr_correct R \<le> cr_labeled R \<and> cr_labeled R \<le> cr_total R \<and> cr_total R \<le> length rs \<and>
    sum_list (map cb_count (cr_bands R)) = cr_labeled R \<and> sum_list (map cb_correct (cr_bands R)) = cr_correct R \<and>
    map cb_lower (cr_bands R) = sort (remdups bands) \<and>
    (case cr_threshold R of
       None \<Rightarrow> \<forall>k < length (cr_bands R). \<not> bands_earn target (drop k (cr_bands R))
     | Some e \<Rightarrow> \<exists>k < length (cr_bands R). e = sort (remdups bands) ! k \<and> bands_earn target (drop k (cr_bands R)) \<and>
         (\<forall>j < k. \<not> bands_earn target (drop j (cr_bands R))))"
proof -
  let ?edges = "sort (remdups bands)"
  obtain T where T: "tally_records ?edges q rs \<lparr>ta_total = 0, ta_labeled = 0, ta_correct = 0, ta_buckets = replicate (length ?edges) []\<rparr> = Inr T"
    and R: "R = \<lparr>cr_question = q, cr_total = ta_total T, cr_labeled = ta_labeled T, cr_correct = ta_correct T,
      cr_bands = map (make_band two_digits ?edges (ta_buckets T)) [0..<length ?edges], cr_threshold = recommend_from ?edges (ta_buckets T) target\<rparr>"
    using assms by (auto simp: calibrate_records_def Let_def bindR_Inr)
  have "tally_ok (length ?edges) 0 \<lparr>ta_total = 0, ta_labeled = 0, ta_correct = 0, ta_buckets = replicate (length ?edges) []\<rparr>"
    by (simp add: tally_ok_def concat_replicate_trivial)
  from tally_records_ok [OF T this] have ok: "tally_ok (length ?edges) (length rs) T" by simp
  then have len: "length (ta_buckets T) = length ?edges" by (simp add: tally_ok_def)
  let ?bands = "map (make_band two_digits ?edges (ta_buckets T)) [0..<length ?edges]"
  have earn: "bands_earn target (drop k ?bands) \<longleftrightarrow>
      earned target (hits (concat (drop k (ta_buckets T)))) (length (concat (drop k (ta_buckets T))))" for k
    unfolding bands_earn_def band_sums [OF len] ..
  have lower: "map cb_lower ?bands = ?edges"
    by (intro nth_equalityI) (simp_all add: make_band_def Let_def)
  have rec: "case recommend_from ?edges (ta_buckets T) target of
      None \<Rightarrow> \<forall>k < length ?edges. \<not> bands_earn target (drop k ?bands)
    | Some e \<Rightarrow> \<exists>k < length ?edges. e = ?edges ! k \<and> bands_earn target (drop k ?bands) \<and>
        (\<forall>j < k. \<not> bands_earn target (drop j ?bands))"
    using recommend_first [OF len, of target] unfolding earn .
  have sums: "sum_list (map cb_count ?bands) = ta_labeled T" "sum_list (map cb_correct ?bands) = ta_correct T"
    using band_sums [OF len, of 0] ok by (simp_all only: drop_0 tally_ok_def)
  have "ta_correct T \<le> ta_labeled T" "ta_labeled T \<le> ta_total T" "ta_total T \<le> length rs"
    using ok hits_le by (auto simp: tally_ok_def)
  then show ?thesis using sums lower rec unfolding R by (simp only: calibration_report.simps length_map length_upt diff_zero simp_thms)
qed


section \<open>Logging and deciding\<close>

text \<open>
  A log that cannot be written does not change decisions: with the file, or any log that raises nothing but
  \<open>OSError\<close>, the caller gets the answers of the decider, or its exception with nothing logged.
\<close>

theorem file_log_is_advisory:
  assumes "\<And>e. lf_denied f = Some e \<Longrightarrow> is_OSError e" and "decider s qs w = (x, w')"
  shows "\<exists>f'. logging_decide float_repr now file_record decider s qs (w, f) = (x, w', f') \<and> ((\<exists>e. x = Inl e) \<longrightarrow> f' = f) \<and>
    lf_denied f' = lf_denied f"
proof (cases x)
  case (Inl e) with assms(2) show ?thesis by (simp add: logging_decide_def on_part_def bindE_def)
next
  case (Inr d)
  with assms show ?thesis
    by (cases "lf_denied f") (simp_all add: logging_decide_def on_part_def bindE_def file_record_def attempt_def)
qed

text \<open>
  A record the database refuses stops all later decisions: the error reaches the caller, and since nothing rolls the
  transaction back, every decision after it raises as well, whatever the decider answers.
\<close>

theorem refused_record_stops_decisions:
  assumes "decider s qs w = (Inr d, w1)" and "row_of C (from_decision float_repr (now w1) s qs d) = Inl (OtherError e)"
    and "\<not> lt_aborted t"
  shows "\<exists>t1. logging_decide float_repr now (table_record C) decider s qs (w, t) = (Inl (OtherError e), w1, t1) \<and>
    (\<forall>s2 qs2 w2. \<exists>e2 w3. logging_decide float_repr now (table_record C) decider s2 qs2 (w2, t1) = (Inl e2, w3, t1))"
proof -
  let ?t1 = "t\<lparr>lt_aborted := True\<rparr>"
  have "logging_decide float_repr now (table_record C) decider s qs (w, t) = (Inl (OtherError e), w1, ?t1)"
    using assms by (simp add: logging_decide_def on_part_def bindE_def table_record_def statements_def attempt_def)
  moreover have "\<exists>e2 w3. logging_decide float_repr now (table_record C) decider s2 qs2 (w2, ?t1) = (Inl e2, w3, ?t1)" for s2 qs2 w2
  proof -
    obtain x w3 where "decider s2 qs2 w2 = (x, w3)" by fastforce
    then show ?thesis
      by (cases x) (simp_all add: logging_decide_def on_part_def bindE_def table_record_def statements_def attempt_def)
  qed
  ultimately show ?thesis by blast
qed

section \<open>Witnesses\<close>

definition ex_record :: "string \<Rightarrow> string \<Rightarrow> decision_record" where
  "ex_record choice confidence =
     \<lparr>dr_at = JStr ''t'', dr_state = JStr ''s'', dr_questions = JObj [],
      dr_answers = JObj [(''model'', JObj [(''choice'', JStr choice), (''confidence'', JFloat confidence)])], dr_label = JStr ''hosted''\<rparr>"

lemma ex_record_plain: "plain_record (ex_record ''local'' ''0.6'')"
  by code_simp

theorem decision_file_is_a_list_witness:
  "fst (bindE (run_ops file_record file_label [Record (ex_record ''local'' ''0.6''), Label 0 ''local'', Label 1 ''x'']) (\<lambda>_. file_read)
      \<lparr>lf_text = None, lf_denied = None\<rparr>) = Inr [(ex_record ''local'' ''0.6'')\<lparr>dr_label := JStr ''local''\<rparr>]"
  by (subst decision_file_is_a_list) (simp_all add: ex_record_plain)

definition ex_bands :: "rat list" where
  "ex_bands = [1/2, 7/10, 9/10]"

text \<open>One wrong answer at 0.6 and three right ones at 0.95: the lowest band is recommended, though all its answers are wrong.\<close>

definition ex_log :: "decision_record list" where
  "ex_log = [ex_record ''local'' ''0.6'', ex_record ''hosted'' ''0.95'', ex_record ''hosted'' ''0.95'', ex_record ''hosted'' ''0.95'']"

definition ex_report :: calibration_report where
  "ex_report = \<lparr>cr_question = ''model'', cr_total = 4, cr_labeled = 4, cr_correct = 3,
     cr_bands = [\<lparr>cb_label = ''-'', cb_lower = 1/2, cb_upper = 7/10, cb_count = 1, cb_correct = 0\<rparr>,
                 \<lparr>cb_label = ''-'', cb_lower = 7/10, cb_upper = 9/10, cb_count = 0, cb_correct = 0\<rparr>,
                 \<lparr>cb_label = ''-'', cb_lower = 9/10, cb_upper = 1, cb_count = 3, cb_correct = 3\<rparr>],
     cr_threshold = Some (1/2)\<rparr>"

lemma ex_float_parts:
  "is_float ''0.6''" "lower (strip ''0.6'') = ''0.6''" "unsigned ''0.6'' = ''0.6''" "nat_of_digits ''06'' = 6"
  "is_float ''0.95''" "lower (strip ''0.95'') = ''0.95''" "unsigned ''0.95'' = ''0.95''" "nat_of_digits ''095'' = 95" "py_int [] = None"
  by code_simp+

lemma ex_floats: "float_of_text ''0.6'' = Some (Fin (3/5))" "float_of_text ''0.95'' = Some (Fin (19/20))"
  by (simp_all add: float_of_text_def ex_float_parts startswith_def is_digit_def code_def pow10_def fl_sign_def)

lemma ex_edges: "sort (remdups ex_bands) = [1/2, 7/10, 9/10]"
  by (simp add: ex_bands_def)

lemma ex_buckets:
  "bucket_index (Fin (3/5)) [1/2, 7/10, 9/10] = 0" "bucket_index (Fin (19/20)) [1/2, 7/10, 9/10] = 2"
  by (simp_all add: bucket_index_def fl_at_least_def)

lemma ex_tally:
  "tally_record [1/2, 7/10, 9/10] ''model'' (ex_record ''local'' ''0.6'') \<lparr>ta_total = n, ta_labeled = k, ta_correct = h, ta_buckets = [x, y, z]\<rparr> =
    Inr \<lparr>ta_total = Suc n, ta_labeled = Suc k, ta_correct = h, ta_buckets = [x @ [(Fin (3/5), False)], y, z]\<rparr>"
  "tally_record [1/2, 7/10, 9/10] ''model'' (ex_record ''hosted'' ''0.95'') \<lparr>ta_total = n, ta_labeled = k, ta_correct = h, ta_buckets = [x, y, z]\<rparr> =
    Inr \<lparr>ta_total = Suc n, ta_labeled = Suc k, ta_correct = Suc h, ta_buckets = [x, y, z @ [(Fin (19/20), True)]]\<rparr>"
  by (simp_all only: tally_record_def) (simp_all add: ex_record_def as_dict_def get_or_def Let_def float_of_def ex_floats ex_buckets)

lemma ex_recommend: "recommend_from [1/2, 7/10, 9/10] [[(a, False)], [], [(b, True), (c, True), (d, True)]] (3/4) = Some (1/2)"
  by (simp add: hits_def Let_def)

lemma ex_calibration: "calibrate_records (\<lambda>_. []) ex_log ''model'' ex_bands (3/4) = Inr ex_report"
  unfolding calibrate_records_def Let_def ex_edges
  by (simp add: ex_log_def ex_tally del: recommend_from.simps)
    (simp add: ex_recommend ex_report_def make_band_def hits_def upt_rec Let_def del: recommend_from.simps)

theorem calibration_adds_up_witness:
  "calibrate_records (\<lambda>_. []) ex_log ''model'' ex_bands (3/4) = Inr ex_report \<and> cr_labeled ex_report \<le> length ex_log"
  using calibration_adds_up [OF ex_calibration] ex_calibration by (auto intro: order.trans)

text \<open>
  The recommended threshold can lie in a band that fails the target: only the share of correct answers from the edge on
  counts, so a high band can pay for a low one.
\<close>

theorem failing_band_is_recommended:
  "\<exists>R b. calibrate_records (\<lambda>_. []) ex_log ''model'' ex_bands (3/4) = Inr R \<and> b \<in> set (cr_bands R) \<and>
    cr_threshold R = Some (cb_lower b) \<and> 0 < cb_count b \<and> cb_correct b = 0"
  by (intro exI [of _ ex_report] exI [of _ "hd (cr_bands ex_report)"] conjI, rule ex_calibration) (simp_all add: ex_report_def)

theorem file_log_is_advisory_witness:
  "\<exists>f'. logging_decide (\<lambda>_. ''0.5'') (\<lambda>_. ''now'') file_record (openai_decide ex_http ex_openai) [] ex_questions
      ((), \<lparr>lf_text = None, lf_denied = Some (OSError ''read-only'')\<rparr>) =
      (Inr [(''kind'', (plain_answer CHOICE)\<lparr>wa_choice := JStr ''bug''\<rparr>)], (), f')"
  using file_log_is_advisory [where decider = "openai_decide ex_http ex_openai" and f = "\<lparr>lf_text = None, lf_denied = Some (OSError ''read-only'')\<rparr>" and float_repr = "\<lambda>_. ''0.5''" and now = "\<lambda>_. ''now''",
      OF _ ex_openai_answers] by auto

theorem refused_record_stops_decisions_witness:
  "\<exists>t1. logging_decide (\<lambda>_. ''0.5'') (\<lambda>_. ''now'') (table_record \<lparr>lc_text = Inr, lc_jsonb = (\<lambda>_. Inl (OtherError ''NUL''))\<rparr>)
      (openai_decide ex_http ex_openai) [] ex_questions ((), \<lparr>lt_rows = [], lt_next = 1, lt_aborted = False\<rparr>) = (Inl (OtherError ''NUL''), (), t1)"
proof -
  have "row_of \<lparr>lc_text = Inr, lc_jsonb = (\<lambda>_. Inl (OtherError ''NUL''))\<rparr> r = Inl (OtherError ''NUL'')" for r
    by (simp add: row_of_def)
  from refused_record_stops_decisions [where decider = "openai_decide ex_http ex_openai" and now = "\<lambda>_. ''now''" and float_repr = "\<lambda>_. ''0.5''" and C = "\<lparr>lc_text = Inr, lc_jsonb = (\<lambda>_. Inl (OtherError ''NUL''))\<rparr>",
      OF ex_openai_answers this, of "\<lparr>lt_rows = [], lt_next = 1, lt_aborted = False\<rparr>"]
  show ?thesis by auto
qed

end
