(* ===== verification/Resilient.thy ===== *)
theory Resilient
  imports Policy PyEffect
begin

text \<open>
  The database connection that reconnects (\<open>db.py\<close>) and the policy store's transaction over it
  (\<open>policy.py\<close>). The driver and the server are modelled by what the code relies on: a connection sees
  a private copy of the committed data until it commits, an error other than a lost connection aborts its
  transaction, and a lost connection loses the copy. When the server is lost is a parameter: for the k-th call
  whether it is, whether a new connection is refused, and whether a commit was done before its answer was lost.
\<close>

section \<open>The connection\<close>

datatype 'd session = Closed | Live 'd | Aborted

record 'd database =
  db_committed :: 'd
  db_session :: "'d session"
  db_calls :: nat

record faults =
  fa_lost :: "nat \<Rightarrow> bool"
  fa_refused :: "nat \<Rightarrow> bool"
  fa_landed :: "nat \<Rightarrow> bool"

type_synonym ('d, 'a) statement = "'d \<Rightarrow> (exn + 'a) \<times> 'd"

definition operational_error :: exn where
  "operational_error = OtherError ''OperationalError''"

text \<open>\<open>_live\<close>.\<close>

definition live :: "faults \<Rightarrow> ('d database, unit) prog" where
  "live F s =
     (case db_session s of
        Closed \<Rightarrow>
          if fa_refused F (db_calls s) then (Inl operational_error, s\<lparr>db_calls := Suc (db_calls s)\<rparr>)
          else (Inr (), s\<lparr>db_session := Live (db_committed s), db_calls := Suc (db_calls s)\<rparr>)
      | _ \<Rightarrow> (Inr (), s))"

definition reconnect :: "('d database, unit) prog" where
  "reconnect = modify (\<lambda>s. s\<lparr>db_session := Closed\<rparr>)"

text \<open>\<open>execute\<close> of the driver's cursor; \<open>None\<close> is \<open>OperationalError\<close> or \<open>InterfaceError\<close>.\<close>

definition driver_execute :: "faults \<Rightarrow> ('d, 'a) statement \<Rightarrow> ('d database, 'a option) prog" where
  "driver_execute F stmt s =
     (let s1 = s\<lparr>db_calls := Suc (db_calls s)\<rparr> in
      if fa_lost F (db_calls s) then (Inr None, s1\<lparr>db_session := Closed\<rparr>)
      else case db_session s of
        Closed \<Rightarrow> (Inr None, s1)
      | Aborted \<Rightarrow> (Inl (OtherError ''InFailedSqlTransaction''), s1)
      | Live d \<Rightarrow>
          (case stmt d of
             (Inl e, _) \<Rightarrow> (Inl e, s1\<lparr>db_session := Aborted\<rparr>)
           | (Inr x, d') \<Rightarrow> (Inr (Some x), s1\<lparr>db_session := Live d'\<rparr>)))"

text \<open>\<open>_ResilientCursor.execute\<close>: a statement that fails with the connection is run once more on a new one.\<close>

definition resilient_execute :: "faults \<Rightarrow> ('d, 'a) statement \<Rightarrow> ('d database, 'a) prog" where
  "resilient_execute F stmt =
     bindE (driver_execute F stmt) (\<lambda>r.
       case r of
         Some x \<Rightarrow> ret x
       | None \<Rightarrow> seqE reconnect (seqE (live F) (bindE (driver_execute F stmt) (\<lambda>r2.
           case r2 of Some x \<Rightarrow> ret x | None \<Rightarrow> raise operational_error))))"

text \<open>\<open>commit\<close>: an aborted transaction is rolled back by it, without an error.\<close>

definition driver_commit :: "faults \<Rightarrow> ('d database, unit) prog" where
  "driver_commit F s =
     (let k = db_calls s; s1 = s\<lparr>db_calls := Suc k\<rparr> in
      case db_session s of
        Closed \<Rightarrow> (Inl operational_error, s1)
      | Aborted \<Rightarrow> if fa_lost F k then (Inl operational_error, s1\<lparr>db_session := Closed\<rparr>) else (Inr (), s1\<lparr>db_session := Live (db_committed s)\<rparr>)
      | Live d \<Rightarrow>
          if fa_lost F k
          then (Inl operational_error, s1\<lparr>db_session := Closed, db_committed := (if fa_landed F k then d else db_committed s)\<rparr>)
          else (Inr (), s1\<lparr>db_committed := d\<rparr>))"

definition resilient_commit :: "faults \<Rightarrow> ('d database, unit) prog" where
  "resilient_commit F = seqE (live F) (driver_commit F)"

text \<open>The shape of the stores' methods: a cursor, its statements, a commit.\<close>

definition in_cursor :: "faults \<Rightarrow> ('d database, 'a) prog \<Rightarrow> ('d database, 'a) prog" where
  "in_cursor F body = seqE (live F) (bindE body (\<lambda>x. seqE (resilient_commit F) (ret x)))"

section \<open>Replacing the policies\<close>

definition delete_policies :: "(project_policy list, unit) statement" where
  "delete_policies rows = (Inr (), [])"

definition insert_policy :: "project_policy \<Rightarrow> (project_policy list, unit) statement" where
  "insert_policy p rows =
     (if pp_project p \<in> set (map pp_project rows) then (Inl (OtherError ''UniqueViolation''), rows) else (Inr (), rows @ [p]))"

fun insert_policies :: "faults \<Rightarrow> project_policy list \<Rightarrow> (project_policy list database, unit) prog" where
  "insert_policies F [] = ret ()"
| "insert_policies F (p # ps) = seqE (resilient_execute F (insert_policy p)) (insert_policies F ps)"

definition store_policies :: "faults \<Rightarrow> project_policy list \<Rightarrow> (project_policy list database, unit) prog" where
  "store_policies F ps = in_cursor F (seqE (resilient_execute F delete_policies) (insert_policies F ps))"

section \<open>One statement is atomic\<close>

text \<open>Between two calls of a method nothing is pending.\<close>

definition idle_session :: "'d database \<Rightarrow> bool" where
  "idle_session s \<longleftrightarrow> db_session s = Closed \<or> db_session s = Live (db_committed s)"

lemma live_idle:
  assumes "idle_session s"
  shows "(\<exists>s1. live F s = (Inr (), s1) \<and> db_session s1 = Live (db_committed s) \<and> db_committed s1 = db_committed s) \<or>
    (\<exists>s1. live F s = (Inl operational_error, s1) \<and> db_committed s1 = db_committed s)"
  using assms by (auto simp: live_def idle_session_def)

lemma driver_execute_live:
  assumes "db_session s = Live d"
  shows "(\<exists>s1. driver_execute F stmt s = (Inr None, s1) \<and> db_session s1 = Closed \<and> db_committed s1 = db_committed s) \<or>
    (\<exists>s1. driver_execute F stmt s = (case fst (stmt d) of
        Inl e \<Rightarrow> (Inl e, s1\<lparr>db_session := Aborted\<rparr>) | Inr x \<Rightarrow> (Inr (Some x), s1\<lparr>db_session := Live (snd (stmt d))\<rparr>)) \<and>
      db_committed s1 = db_committed s)"
  using assms by (cases "stmt d") (auto simp: driver_execute_def Let_def split: sum.split)

lemma resilient_execute_fresh:
  assumes "db_session s = Live (db_committed s)"
  shows "(\<exists>e s1. resilient_execute F stmt s = (Inl e, s1) \<and> db_committed s1 = db_committed s) \<or>
    (\<exists>x s1. resilient_execute F stmt s = (Inr x, s1) \<and> stmt (db_committed s) = (Inr x, snd (stmt (db_committed s))) \<and>
      db_session s1 = Live (snd (stmt (db_committed s))) \<and> db_committed s1 = db_committed s)"
proof -
  let ?d = "db_committed s"
  have done': "(\<exists>e s2. resilient_execute F stmt s = (Inl e, s2) \<and> db_committed s2 = ?d) \<or>
      (\<exists>x s2. resilient_execute F stmt s = (Inr x, s2) \<and> stmt ?d = (Inr x, snd (stmt ?d)) \<and>
        db_session s2 = Live (snd (stmt ?d)) \<and> db_committed s2 = ?d)"
    if "driver_execute F stmt s = (case fst (stmt ?d) of
        Inl e \<Rightarrow> (Inl e, s1\<lparr>db_session := Aborted\<rparr>) | Inr x \<Rightarrow> (Inr (Some x), s1\<lparr>db_session := Live (snd (stmt ?d))\<rparr>))"
      and "db_committed s1 = ?d" for s1
    using that by (cases "stmt ?d"; cases "fst (stmt ?d)") (auto simp: resilient_execute_def bindE_def)
  have again: "(\<exists>e s2. resilient_execute F stmt s = (Inl e, s2) \<and> db_committed s2 = ?d) \<or>
      (\<exists>x s2. resilient_execute F stmt s = (Inr x, s2) \<and> stmt ?d = (Inr x, snd (stmt ?d)) \<and>
        db_session s2 = Live (snd (stmt ?d)) \<and> db_committed s2 = ?d)"
    if e1: "driver_execute F stmt s = (Inr None, s1)" and s1: "db_committed s1 = ?d" for s1
  proof -
    let ?s1 = "s1\<lparr>db_session := Closed\<rparr>"
    have "resilient_execute F stmt s = seqE (live F) (bindE (driver_execute F stmt) (\<lambda>r2.
           case r2 of Some x \<Rightarrow> ret x | None \<Rightarrow> raise operational_error)) ?s1"
      by (simp add: resilient_execute_def bindE_Inr [where p = "driver_execute F stmt", OF e1] reconnect_def)
    moreover have "idle_session ?s1" by (simp add: idle_session_def)
    note live_idle [OF this, of F]
    ultimately show ?thesis
    proof (elim disjE exE conjE)
      fix s2 assume r: "resilient_execute F stmt s = seqE (live F) (bindE (driver_execute F stmt) (\<lambda>r2.
           case r2 of Some x \<Rightarrow> ret x | None \<Rightarrow> raise operational_error)) ?s1"
        and l: "live F ?s1 = (Inr (), s2)" "db_session s2 = Live (db_committed ?s1)" "db_committed s2 = db_committed ?s1"
      from l(2) s1 have d2: "db_session s2 = Live ?d" by simp
      from driver_execute_live [OF d2, of F stmt] show ?thesis
        using l(3) s1 unfolding r seqE_Inr [where p = "live F", OF l(1)]
        by (cases "stmt ?d"; cases "fst (stmt ?d)") (auto simp: bindE_def)
    next
      fix s2 assume r: "resilient_execute F stmt s = seqE (live F) (bindE (driver_execute F stmt) (\<lambda>r2.
           case r2 of Some x \<Rightarrow> ret x | None \<Rightarrow> raise operational_error)) ?s1"
        and l: "live F ?s1 = (Inl operational_error, s2)" "db_committed s2 = db_committed ?s1"
      then show ?thesis using s1 by (auto simp: seqE_Inl)
    qed
  qed
  from driver_execute_live [OF assms, of F stmt] show ?thesis using done' again by blast
qed

text \<open>
  A method of one statement is atomic and is done at most once, whenever the connection is lost: it returns only after
  its effect is committed, and if it raises, the data is unchanged or has the whole effect (a commit whose answer is lost).
\<close>

theorem single_statement_atomic:
  assumes "idle_session s" and "in_cursor F (resilient_execute F stmt) s = (r, s')"
  shows "(case r of
      Inr x \<Rightarrow> stmt (db_committed s) = (Inr x, db_committed s') \<and> idle_session s'
    | Inl e \<Rightarrow> db_committed s' = db_committed s \<or> db_committed s' = snd (stmt (db_committed s)))"
  using live_idle [OF assms(1), of F]
proof (elim disjE exE conjE)
  fix s1 assume "live F s = (Inl operational_error, s1)" "db_committed s1 = db_committed s"
  then show ?thesis using assms(2) by (auto simp: in_cursor_def seqE_Inl)
next
  fix s1 assume l: "live F s = (Inr (), s1)" and d: "db_session s1 = Live (db_committed s)" "db_committed s1 = db_committed s"
  then have f: "db_session s1 = Live (db_committed s1)" by simp
  from resilient_execute_fresh [OF f, of F stmt] show ?thesis
  proof (elim disjE exE conjE)
    fix e s2 assume "resilient_execute F stmt s1 = (Inl e, s2)" "db_committed s2 = db_committed s1"
    then show ?thesis using assms(2) d by (auto simp: in_cursor_def seqE_Inr [where p = "live F", OF l] bindE_def)
  next
    fix x s2 assume x: "resilient_execute F stmt s1 = (Inr x, s2)" "stmt (db_committed s1) = (Inr x, snd (stmt (db_committed s1)))"
      "db_session s2 = Live (snd (stmt (db_committed s1)))" "db_committed s2 = db_committed s1"
    have "live F s2 = (Inr (), s2)" using x(3) by (simp add: live_def)
    then show ?thesis using assms(2) x d l
      by (auto simp: in_cursor_def bindE_def seqE_def resilient_commit_def driver_commit_def Let_def idle_session_def
          split: if_split_asm)
  qed
qed


section \<open>Many statements are not\<close>

definition reachable :: faults where
  "reachable = \<lparr>fa_lost = (\<lambda>_. False), fa_refused = (\<lambda>_. False), fa_landed = (\<lambda>_. False)\<rparr>"

lemma live_simp: "db_session s = Live d \<Longrightarrow> live F s = (Inr (), s)"
  by (simp add: live_def)

lemma execute_simp:
  assumes "db_session s = Live d" and "\<not> fa_lost F (db_calls s)" and "stmt d = (Inr x, d')"
  shows "resilient_execute F stmt s = (Inr x, s\<lparr>db_calls := Suc (db_calls s), db_session := Live d'\<rparr>)"
  using assms by (simp add: resilient_execute_def driver_execute_def bindE_def)

lemma inserts_done:
  assumes "db_session s = Live rows" and "\<forall>k \<ge> db_calls s. \<not> fa_lost F k" and "insert_rows ps rows = Some rows'"
  shows "insert_policies F ps s = (Inr (), s\<lparr>db_calls := db_calls s + length ps, db_session := Live rows'\<rparr>)"
  using assms
proof (induction ps arbitrary: s rows)
  case Nil then show ?case by simp
next
  case (Cons p ps)
  have new: "pp_project p \<notin> set (map pp_project rows)" and rest: "insert_rows ps (rows @ [p]) = Some rows'"
    using Cons.prems(3) by (auto split: if_split_asm)
  let ?s1 = "s\<lparr>db_calls := Suc (db_calls s), db_session := Live (rows @ [p])\<rparr>"
  have e: "resilient_execute F (insert_policy p) s = (Inr (), ?s1)"
    using Cons.prems new by (intro execute_simp [where d = rows]) (simp_all add: insert_policy_def)
  have "insert_policies F ps ?s1 = (Inr (), ?s1\<lparr>db_calls := db_calls ?s1 + length ps, db_session := Live rows'\<rparr>)"
    using Cons.prems rest by (intro Cons.IH) simp_all
  then show ?case by (simp add: seqE_Inr [where p = "resilient_execute F (insert_policy p)", OF e])
qed

lemma commit_simp:
  assumes "db_session s = Live d" and "\<not> fa_lost F (db_calls s)"
  shows "resilient_commit F s = (Inr (), s\<lparr>db_calls := Suc (db_calls s), db_committed := d\<rparr>)"
  using assms by (simp add: resilient_commit_def seqE_def bindE_def live_simp driver_commit_def)

text \<open>
  While the server can be reached, replacing the policies commits the rows the transaction is specified to leave.
\<close>

theorem policies_replaced:
  assumes "idle_session s" and "distinct (map pp_project ps)"
  shows "fst (store_policies reachable ps s) = fst (pgp_replace_all ps (db_committed s)) \<and>
    db_committed (snd (store_policies reachable ps s)) = snd (pgp_replace_all ps (db_committed s))"
proof -
  have no: "\<not> fa_lost reachable k" "\<not> fa_refused reachable k" for k by (simp_all add: reachable_def)
  from live_idle [OF assms(1), of reachable] no obtain s1 where l: "live reachable s = (Inr (), s1)" "db_session s1 = Live (db_committed s)"
    using assms(1) by (auto simp: live_def idle_session_def split: session.splits)
  let ?s2 = "s1\<lparr>db_calls := Suc (db_calls s1), db_session := Live []\<rparr>"
  have e: "resilient_execute reachable delete_policies s1 = (Inr (), ?s2)"
    using l(2) no by (intro execute_simp) (simp_all add: delete_policies_def)
  let ?s3 = "?s2\<lparr>db_calls := db_calls ?s2 + length ps, db_session := Live ps\<rparr>"
  have i: "insert_policies reachable ps ?s2 = (Inr (), ?s3)"
    using no insert_rows_distinct [of "[]" ps] assms(2) by (intro inserts_done) simp_all
  have "store_policies reachable ps s = (Inr (), ?s3\<lparr>db_calls := Suc (db_calls ?s3), db_committed := ps\<rparr>)"
    using l e i commit_simp [of ?s3 ps reachable] no by (simp add: store_policies_def in_cursor_def seqE_def bindE_def)
  then show ?thesis using insert_rows_distinct [of "[]" ps] assms(2) by (simp add: pgp_replace_all_def)
qed


section \<open>Witnesses\<close>

definition ex_database :: "project_policy list database" where
  "ex_database = \<lparr>db_committed = [ex_policy], db_session = Live [ex_policy], db_calls = 0\<rparr>"

definition ex_other :: project_policy where
  "ex_other = ex_policy\<lparr>pp_project := ''q''\<rparr>"

definition ex_faults :: faults where
  "ex_faults = \<lparr>fa_lost = (\<lambda>k. k = 1), fa_refused = (\<lambda>_. False), fa_landed = (\<lambda>_. False)\<rparr>"


theorem policies_replaced_witness:
  "db_committed (snd (store_policies reachable [ex_other] ex_database)) = [ex_other]"
  using policies_replaced [of ex_database "[ex_other]"]
  by (simp add: ex_database_def idle_session_def pgp_replace_all_def)

lemma ex_single: "in_cursor ex_faults (resilient_execute ex_faults (insert_policy ex_other)) ex_database =
    (Inl operational_error, \<lparr>db_committed = [ex_policy], db_session = Closed, db_calls = 2\<rparr>)"
  by (simp add: ex_database_def ex_faults_def in_cursor_def seqE_def bindE_def live_def resilient_execute_def driver_execute_def
      insert_policy_def ex_other_def ex_policy_def resilient_commit_def driver_commit_def)

theorem single_statement_atomic_witness:
  "[ex_policy] = db_committed ex_database \<or> [ex_policy] = snd (insert_policy ex_other (db_committed ex_database))"
proof -
  have "idle_session ex_database" by (simp add: idle_session_def ex_database_def)
  from single_statement_atomic [OF this ex_single] show ?thesis by simp
qed

end
