(* ===== verification/PolicyFiles.thy ===== *)
theory PolicyFiles
  imports Policy PyValue
begin

text \<open>
  Policies written as markdown files with a YAML front matter (\<open>parse_policy\<close>, \<open>load_policies\<close> and \<open>sync_policies\<close>
  of \<open>policy.py\<close>). \<open>yaml.safe_load\<close> is a parameter, its documents JSON values. The fields that are not converted to
  text keep the value they have in the file.
\<close>

record policy_file =
  pf_project :: string
  pf_enabled :: bool
  pf_repos :: "string list"
  pf_base_branch :: json
  pf_harness :: json
  pf_model :: json
  pf_verify_allow :: "string list"
  pf_source :: "string option"

text \<open>\<open>text.partition("---")[2]\<close>, and what comes before the next \<open>---\<close>.\<close>

definition after_dashes :: "string \<Rightarrow> string" where
  "after_dashes text = (case cut_at ''---'' text of None \<Rightarrow> [] | Some (_, r) \<Rightarrow> r)"

definition before_dashes :: "string \<Rightarrow> string" where
  "before_dashes text = (case cut_at ''---'' text of None \<Rightarrow> text | Some (a, _) \<Rightarrow> a)"

text \<open>\<open>tuple(str(item) for item in (v or []))\<close>: a text gives its characters, a dictionary its keys.\<close>

definition texts_of :: "json \<Rightarrow> exn + string list" where
  "texts_of v =
     (if \<not> j_true v then Inr []
      else case v of
        JArr vs \<Rightarrow> Inr (map py_str vs)
      | JStr s \<Rightarrow> Inr (map (\<lambda>c. [c]) s)
      | JObj d \<Rightarrow> Inr (dict_keys d)
      | _ \<Rightarrow> Inl (TypeError (py_repr (type_name v) @ '' object is not iterable'')))"

definition parse_policy :: "(string \<Rightarrow> exn + json) \<Rightarrow> string \<Rightarrow> string option \<Rightarrow> exn + policy_file" where
  "parse_policy safe_load text source =
     (if \<not> startswith (lstrip text) ''---'' then Inl (ValueError ''policy markdown must start with a YAML front matter block'')
      else bindR (safe_load (before_dashes (after_dashes text))) (\<lambda>v.
        case (if j_true v then v else JObj []) of
          JObj data \<Rightarrow>
            (case dict_get data ''project'' of
               None \<Rightarrow> Inl (ValueError (''policy front matter needs a '' @ py_repr ''project''))
             | Some project \<Rightarrow>
                 bindR (texts_of (get_or data ''repos'' JNull)) (\<lambda>repos.
                   bindR (texts_of (get_or data ''verify_allow'' JNull)) (\<lambda>verify_allow.
                     Inr \<lparr>pf_project = py_str project, pf_enabled = j_true (get_or data ''enabled'' (JBool True)), pf_repos = repos,
                          pf_base_branch = get_or data ''base_branch'' JNull, pf_harness = get_or data ''harness'' JNull,
                          pf_model = get_or data ''model'' JNull, pf_verify_allow = verify_allow, pf_source = source\<rparr>)))
        | _ \<Rightarrow> Inl (ValueError (''policy front matter needs a '' @ py_repr ''project''))))"

text \<open>The directory, if it exists: its files by path, in the order the file system lists them.\<close>

type_synonym policy_directory = "(string \<times> string) list option"

definition load_policies :: "(string \<Rightarrow> exn + json) \<Rightarrow> string \<Rightarrow> policy_directory \<Rightarrow> exn + policy_file list" where
  "load_policies safe_load root_path dir =
     (case dir of
        None \<Rightarrow> Inl (FileNotFoundError (''policy directory '' @ root_path @ '' does not exist''))
      | Some files \<Rightarrow>
          mapR (\<lambda>(path, text). parse_policy safe_load text (Some path))
            (sort_key fst (filter (\<lambda>(path, _). endswith path ''.md'') files)))"

text \<open>The policy a store is given, for a file whose optional fields are texts.\<close>

definition text_field :: "json \<Rightarrow> string option" where
  "text_field v = (case v of JStr s \<Rightarrow> Some s | _ \<Rightarrow> None)"

definition policy_of_file :: "policy_file \<Rightarrow> project_policy" where
  "policy_of_file p =
     \<lparr>pp_project = pf_project p, pp_enabled = pf_enabled p, pp_repos = pf_repos p, pp_base_branch = text_field (pf_base_branch p),
      pp_harness = text_field (pf_harness p), pp_model = text_field (pf_model p), pp_verify_allow = pf_verify_allow p,
      pp_source = pf_source p\<rparr>"

definition sync_policies ::
  "(string \<Rightarrow> exn + json) \<Rightarrow> string \<Rightarrow> policy_directory \<Rightarrow> 'p policy_ops \<Rightarrow> ('p, policy_file list) prog" where
  "sync_policies safe_load root_path dir P =
     bindE (liftR (load_policies safe_load root_path dir)) (\<lambda>policies.
       seqE (p_replace_all P (map policy_of_file policies)) (ret policies))"

section \<open>All or nothing\<close>

context policy_store
begin

lemma sync_exact:
  assumes "pinv s" and "load_policies safe_load root_path dir = Inr ps" and "distinct (map pf_project ps)"
  shows "\<exists>s'. sync_policies safe_load root_path dir P s = (Inr ps, s') \<and> set (p_list P s') = policy_of_file ` set ps"
proof -
  have "distinct (map pp_project (map policy_of_file ps))" using assms(3) by (simp add: policy_of_file_def comp_def)
  from replace_ok [OF assms(1) this] show ?thesis
    using assms(2) by (cases "p_replace_all P (map policy_of_file ps) s") (auto simp: sync_policies_def seqE_def bindE_def)
qed

end

text \<open>
  A synchronisation takes all files or none: a file that cannot be read as a policy leaves the store as it was, and
  otherwise the database has exactly the policies of the files.
\<close>

theorem sync_takes_all_or_none:
  assumes "distinct (map pp_project rows)"
  shows "case load_policies safe_load root_path dir of
      Inl e \<Rightarrow> sync_policies safe_load root_path dir (pg_policy_ops coll) rows = (Inl e, rows)
    | Inr ps \<Rightarrow> distinct (map pf_project ps) \<longrightarrow>
        (\<exists>rows'. sync_policies safe_load root_path dir (pg_policy_ops coll) rows = (Inr ps, rows') \<and>
          set rows' = policy_of_file ` set ps)"
proof (cases "load_policies safe_load root_path dir")
  case (Inl e) then show ?thesis by (simp add: sync_policies_def bindE_def)
next
  case (Inr ps)
  then show ?thesis using pgpol.sync_exact [OF assms Inr, of coll] by (auto simp: pg_policy_ops_def pgp_list_def)
qed

section \<open>Patterns as text\<close>

lemma star_matches: "fnmatch s ''*''"
  by (induction s) (simp_all add: fnmatch.simps)

lemma star_normal: "normalize_repo ''*'' = ''*''"
  by code_simp

text \<open>
  Patterns given as a text instead of a list are split into characters, so that a text with a star is a policy for every
  repository.
\<close>

theorem text_pattern_covers_everything:
  assumes "parse_policy safe_load text source = Inr p" and "safe_load (before_dashes (after_dashes text)) = Inr (JObj data)"
    and "dict_get data ''repos'' = Some (JStr s)" and "CHR ''*'' \<in> set s"
  shows "policy_matches (policy_of_file p) repo"
proof -
  have "data \<noteq> []" "s \<noteq> []" using assms(3,4) by auto
  then have "pf_repos p = map (\<lambda>c. [c]) s"
    using assms(1-3) by (auto simp: parse_policy_def bindR_Inr texts_of_def get_or_def split: if_split_asm option.splits)
  then have "''*'' \<in> set (pf_repos p)" using assms(4) by simp
  then show ?thesis by (auto simp: policy_matches_def policy_of_file_def Let_def star_normal star_matches intro!: bexI [of _ "''*''"])
qed

lemma startswith_long: "length sub \<le> length xs \<Longrightarrow> startswith (xs @ ys) sub = startswith xs sub"
  by (simp add: startswith_def)

lemma cut_dashes: "cut_at ''---'' (a @ ''--'') = None \<Longrightarrow> cut_at ''---'' (a @ ''---'' @ b) = Some (a, b)"
proof (induction a)
  case Nil show ?case by (simp add: startswith_def)
next
  case (Cons c a)
  have "startswith (((c # a) @ ''--'') @ CHR ''-'' # b) ''---'' = startswith ((c # a) @ ''--'') ''---''"
    by (rule startswith_long) simp
  then have "\<not> startswith (c # a @ ''---'' @ b) ''---''" using Cons.prems by (auto split: if_split_asm)
  moreover have "cut_at ''---'' (a @ ''--'') = None" using Cons.prems by (auto split: if_split_asm option.splits)
  ultimately show ?case using Cons.IH by simp
qed

lemma no_dashes: "cut_at ''---'' (a @ ''--'') = None \<Longrightarrow> cut_at ''---'' a = None"
proof (rule ccontr)
  assume none: "cut_at ''---'' (a @ ''--'') = None" and "cut_at ''---'' a \<noteq> None"
  then obtain x y where "a = x @ ''---'' @ y" using contains_iff [of a "''---''"] by (auto simp: contains_def)
  then have "a @ ''--'' = x @ ''---'' @ (y @ ''--'')" by simp
  then have "contains (a @ ''--'') ''---''" unfolding contains_iff by blast
  with none show False by (simp add: contains_def)
qed

text \<open>
  The front matter ends at the next three dashes wherever they are, also inside a value: what follows them, such as
  \<open>enabled: false\<close>, is not read.
\<close>

theorem front_matter_ends_at_dashes:
  assumes "cut_at ''---'' (a @ ''--'') = None"
  shows "parse_policy safe_load (''---'' @ a @ ''---'' @ b) source = parse_policy safe_load (''---'' @ a) source"
proof -
  have "after_dashes (''---'' @ t) = t" for t by (simp add: after_dashes_def startswith_def)
  moreover have "before_dashes (a @ ''---'' @ b) = a" using cut_dashes [OF assms] by (simp add: before_dashes_def)
  moreover have "before_dashes a = a" using no_dashes [OF assms] by (simp add: before_dashes_def)
  moreover have "startswith (lstrip (''---'' @ t)) ''---''" for t by (simp add: lstrip_def isspace_def code_def startswith_def)
  ultimately show ?thesis by (simp only: parse_policy_def)
qed

section \<open>Witnesses\<close>

definition ex_text :: string where
  "ex_text = ''---'' @ newline @ ''project: lab'' @ newline @ ''repos: acme/*'' @ newline @ ''---'' @ newline"

definition ex_load :: "string \<Rightarrow> exn + json" where
  "ex_load s = Inr (JObj [(''project'', JStr ''lab''), (''repos'', JStr ''acme/*'')])"

definition ex_file :: policy_file where
  "ex_file = \<lparr>pf_project = ''lab'', pf_enabled = True, pf_repos = [''a'', ''c'', ''m'', ''e'', ''/'', ''*''], pf_base_branch = JNull,
     pf_harness = JNull, pf_model = JNull, pf_verify_allow = [], pf_source = None\<rparr>"

lemma ex_parse: "parse_policy ex_load ex_text None = Inr ex_file"
  by code_simp

theorem text_pattern_covers_everything_witness:
  "policy_matches (policy_of_file ex_file) ''other/secret''"
  by (rule text_pattern_covers_everything [OF ex_parse, where data = "[(''project'', JStr ''lab''), (''repos'', JStr ''acme/*'')]" and s = "''acme/*''"])
    (simp_all add: ex_load_def)

theorem front_matter_ends_at_dashes_witness:
  "parse_policy ex_load (''---project: a'' @ ''---'' @ ''b'') None = parse_policy ex_load ''---project: a'' None"
proof -
  have "cut_at ''---'' (''project: a'' @ ''--'') = None" by code_simp
  from front_matter_ends_at_dashes [OF this, of ex_load "''b''" None] show ?thesis by simp
qed

theorem sync_takes_all_or_none_witness:
  "sync_policies ex_load ''p'' None (pg_policy_ops id) [] = (Inl (FileNotFoundError ''policy directory p does not exist''), [])"
proof -
  have "distinct (map pp_project ([] :: project_policy list))" by simp
  from sync_takes_all_or_none [OF this, of ex_load "''p''" None id] show ?thesis by (simp add: load_policies_def)
qed

end
