(* ===== verification/EventStream.thy ===== *)
theory EventStream
  imports ControlPlane PyValue
begin

text \<open>
  The stream of server-sent events of a JMAP server (\<open>jmap/eventsource.py\<close>) and the ingest pass it triggers
  (\<open>jmap/trigger.py\<close>). The lines of the stream are a list; the generator and its consumer, which take turns, are
  one recursion over it.
\<close>

section \<open>Events\<close>

definition crlf :: "char list" where
  "crlf = [CHR 0x0D, CHR 0x0A]"

definition with_event :: "string \<Rightarrow> json \<Rightarrow> exn + json" where
  "with_event event payload =
     (if event = [] then Inr payload
      else bindR (as_dict ''setdefault'' payload) (\<lambda>d.
        Inr (JObj (if dict_has d ''_event'' then d else d @ [(''_event'', JStr event)]))))"

definition parse_payload :: "string \<Rightarrow> string list \<Rightarrow> exn + json" where
  "parse_payload event lines_of_data =
     (case json_loads (join newline lines_of_data) of
        Inl (JSONDecodeError _) \<Rightarrow> Inl (EventSourceError (''event data is not JSON: '' @ py_repr (join newline lines_of_data)))
      | Inl e \<Rightarrow> Inl e
      | Inr payload \<Rightarrow> with_event event payload)"

text \<open>\<open>line.partition(":")\<close> and the space after the colon.\<close>

definition field_of :: "string \<Rightarrow> string \<times> string" where
  "field_of line =
     (case cut_at '':'' line of
        None \<Rightarrow> (line, [])
      | Some (name, value) \<Rightarrow> (name, if startswith value '' '' then tl value else value))"

text \<open>
  \<open>EventSourceListener.run\<close> over \<open>parse_events\<close>: the handler's result says whether to stop (it is \<open>False\<close>); the value is
  the list of events delivered so far.
\<close>

fun listen :: "(json \<Rightarrow> ('s, bool) prog) \<Rightarrow> string \<Rightarrow> string list \<Rightarrow> string list \<Rightarrow> json list \<Rightarrow> ('s, json list) prog" where
  "listen on_event event data [] delivered = ret delivered"
| "listen on_event event data (raw # ls) delivered =
     (let line = rstrip_chars crlf raw in
      if line = [] then
        if data = [] then listen on_event [] [] ls delivered
        else bindE (liftR (parse_payload event data)) (\<lambda>payload.
          bindE (on_event payload) (\<lambda>stop.
            if stop then ret (delivered @ [payload]) else listen on_event [] [] ls (delivered @ [payload])))
      else if startswith line '':'' then listen on_event event data ls delivered
      else case field_of line of
        (name, value) \<Rightarrow>
          if name = ''data'' then listen on_event event (data @ [value]) ls delivered
          else if name = ''event'' then listen on_event value data ls delivered
          else listen on_event event data ls delivered)"

definition run_listener :: "(json \<Rightarrow> ('s, bool) prog) \<Rightarrow> string list \<Rightarrow> ('s, json list) prog" where
  "run_listener on_event ls = listen on_event [] [] ls []"

section \<open>The trigger\<close>

text \<open>\<open>word in v\<close>.\<close>

definition contains_text :: "string \<Rightarrow> json \<Rightarrow> exn + bool" where
  "contains_text w v =
     (case v of
        JObj d \<Rightarrow> Inr (dict_has d w)
      | JArr vs \<Rightarrow> Inr (JStr w \<in> set vs)
      | JStr s \<Rightarrow> Inr (contains s w)
      | _ \<Rightarrow> Inl (TypeError (''argument of type '' @ py_repr (type_name v) @ '' is not iterable'')))"

fun any_contains :: "string \<Rightarrow> json list \<Rightarrow> exn + bool" where
  "any_contains w [] = Inr False"
| "any_contains w (v # vs) = bindR (contains_text w v) (\<lambda>b. if b then Inr True else any_contains w vs)"

definition touches_email :: "json \<Rightarrow> exn + bool" where
  "touches_email event =
     bindR (as_dict ''get'' event) (\<lambda>d.
       if get_or d ''@type'' JNull \<noteq> JStr ''StateChange'' then Inr False
       else bindR (as_dict ''values'' (get_or d ''changed'' (JObj []))) (\<lambda>changed. any_contains ''Email'' (dict_values changed)))"

text \<open>\<open>IngestOnChange\<close> over the transport of its control plane; it never stops the listener.\<close>

definition plane_poll :: "('q, 'a, 'e, 't, 'p) plane \<Rightarrow> (('q, 'a, 'e, 't, 'p) plane_state, raw_message list) prog" where
  "plane_poll P = on_part ps_transport (\<lambda>t s. s\<lparr>ps_transport := t\<rparr>) (tr_poll (cp_transport P))"

definition ingest_on_change ::
  "('q, 'a, 'e, 't, 'p) plane \<Rightarrow> string option \<Rightarrow> json \<Rightarrow> (('q, 'a, 'e, 't, 'p) plane_state, bool) prog" where
  "ingest_on_change P recipient event =
     bindE (liftR (touches_email event)) (\<lambda>email.
       if \<not> email then ret False
       else bindE (plane_poll P) (\<lambda>messages. bindE (ingest P messages recipient) (\<lambda>report. ret False)))"

section \<open>The stream delivers what was sent\<close>

record sent_event =
  se_name :: string
  se_data :: "string list"

definition no_break_end :: "string \<Rightarrow> bool" where
  "no_break_end s \<longleftrightarrow> CHR 0x0A \<notin> set s \<and> CHR 0x0D \<notin> set s"

definition render_event :: "sent_event \<Rightarrow> string list" where
  "render_event e =
     (if se_name e = [] then [] else [''event: '' @ se_name e @ newline]) @
     map (\<lambda>c. ''data: '' @ c @ newline) (se_data e) @ [newline]"

definition event_ok :: "sent_event \<Rightarrow> bool" where
  "event_ok e \<longleftrightarrow> no_break_end (se_name e) \<and> (\<forall>c \<in> set (se_data e). no_break_end c) \<and> se_data e \<noteq> []"

text \<open>What the handler is to see: the events in order, up to the one that stops it.\<close>

fun deliver :: "(json \<Rightarrow> ('s, bool) prog) \<Rightarrow> (exn + json) list \<Rightarrow> json list \<Rightarrow> ('s, json list) prog" where
  "deliver on_event [] delivered = ret delivered"
| "deliver on_event (p # ps) delivered =
     bindE (liftR p) (\<lambda>payload. bindE (on_event payload) (\<lambda>stop.
       if stop then ret (delivered @ [payload]) else deliver on_event ps (delivered @ [payload])))"

lemma strip_line: "no_break_end s \<Longrightarrow> rstrip_chars crlf (s @ newline) = s"
proof -
  assume s: "no_break_end s"
  have "dropWhile (\<lambda>c. c \<in> set crlf) (rev s) = rev s"
    using s by (cases "rev s") (auto simp: no_break_end_def crlf_def dest: arg_cong [of _ _ set])
  then show ?thesis by (simp add: rstrip_chars_def newline_def crlf_def)
qed

lemma listen_data:
  assumes "no_break_end c"
  shows "listen on_event event data ((''data: '' @ c @ newline) # ls) delivered = listen on_event event (data @ [c]) ls delivered"
proof -
  have "rstrip_chars crlf ((''data: '' @ c) @ newline) = ''data: '' @ c"
    using assms by (intro strip_line) (simp add: no_break_end_def)
  then show ?thesis by (simp add: field_of_def startswith_def)
qed

lemma listen_name:
  assumes "no_break_end c"
  shows "listen on_event event data ((''event: '' @ c @ newline) # ls) delivered = listen on_event c data ls delivered"
proof -
  have "rstrip_chars crlf ((''event: '' @ c) @ newline) = ''event: '' @ c"
    using assms by (intro strip_line) (simp add: no_break_end_def)
  then show ?thesis by (simp add: field_of_def startswith_def)
qed

lemma listen_all_data:
  "\<forall>c \<in> set cs. no_break_end c \<Longrightarrow>
    listen on_event event data (map (\<lambda>c. ''data: '' @ c @ newline) cs @ ls) delivered = listen on_event event (data @ cs) ls delivered"
proof (induction cs arbitrary: data)
  case (Cons c cs)
  then show ?case using listen_data [of c on_event event data "map (\<lambda>c. ''data: '' @ c @ newline) cs @ ls" delivered] by simp
qed simp

lemma listen_blank:
  "data \<noteq> [] \<Longrightarrow> listen on_event event data (newline # ls) delivered =
    bindE (liftR (parse_payload event data)) (\<lambda>payload. bindE (on_event payload) (\<lambda>stop.
      if stop then ret (delivered @ [payload]) else listen on_event [] [] ls (delivered @ [payload])))"
  by (simp add: rstrip_chars_def newline_def crlf_def)

lemma listen_event:
  assumes "event_ok e"
  shows "listen on_event [] [] (render_event e @ ls) delivered =
    bindE (liftR (parse_payload (se_name e) (se_data e))) (\<lambda>payload. bindE (on_event payload) (\<lambda>stop.
      if stop then ret (delivered @ [payload]) else listen on_event [] [] ls (delivered @ [payload])))"
proof -
  have "listen on_event [] [] (render_event e @ ls) delivered =
      listen on_event (se_name e) [] (map (\<lambda>c. ''data: '' @ c @ newline) (se_data e) @ newline # ls) delivered"
  proof (cases "se_name e = []")
    case True then show ?thesis by (simp add: render_event_def del: listen.simps)
  next
    case False
    then have "render_event e @ ls =
        (''event: '' @ se_name e @ newline) # (map (\<lambda>c. ''data: '' @ c @ newline) (se_data e) @ newline # ls)"
      by (simp add: render_event_def)
    then show ?thesis using assms by (simp only: listen_name event_ok_def)
  qed
  also have "\<dots> = listen on_event (se_name e) (se_data e) (newline # ls) delivered"
    using assms by (subst listen_all_data) (simp_all add: event_ok_def del: listen.simps)
  also have "\<dots> = bindE (liftR (parse_payload (se_name e) (se_data e))) (\<lambda>payload. bindE (on_event payload) (\<lambda>stop.
      if stop then ret (delivered @ [payload]) else listen on_event [] [] ls (delivered @ [payload])))"
    using assms by (intro listen_blank) (simp add: event_ok_def)
  finally show ?thesis .
qed

lemma listen_tail:
  "\<forall>raw \<in> set ls. rstrip_chars crlf raw \<noteq> [] \<Longrightarrow> listen on_event event data ls delivered = ret delivered"
  by (induction ls arbitrary: event data) (simp_all add: Let_def split: prod.split)

text \<open>
  C31. The listener hands over exactly the events of the stream: each event that was sent, whatever lines its data has, reaches
  the handler once and in order, until one stops it or cannot be read, and an event the stream breaks off in does not.
\<close>

theorem stream_delivers_sent:
  assumes "\<forall>e \<in> set es. event_ok e" and "\<forall>raw \<in> set rest. rstrip_chars crlf raw \<noteq> []"
  shows "run_listener on_event (concat (map render_event es) @ rest) =
    deliver on_event (map (\<lambda>e. parse_payload (se_name e) (se_data e)) es) []"
proof -
  have "listen on_event [] [] (concat (map render_event es) @ rest) delivered =
      deliver on_event (map (\<lambda>e. parse_payload (se_name e) (se_data e)) es) delivered" for delivered
    using assms(1)
  proof (induction es arbitrary: delivered)
    case Nil show ?case by (simp only: list.map concat.simps append_Nil deliver.simps listen_tail [OF assms(2)])
  next
    case (Cons e es)
    then have "event_ok e" by simp
    have IH: "listen on_event [] [] (concat (map render_event es) @ rest) d =
        deliver on_event (map (\<lambda>e. parse_payload (se_name e) (se_data e)) es) d" for d
      using Cons by simp
    show ?case
      unfolding list.map concat.simps append_assoc listen_event [OF \<open>event_ok e\<close>] deliver.simps IH ..
  qed
  then show ?thesis by (simp add: run_listener_def)
qed

text \<open>
  A change that does not concern mail changes nothing, and one that does runs one ingest pass over what the transport has.
\<close>

theorem trigger_ingests_on_mail:
  "case touches_email event of
     Inl e \<Rightarrow> ingest_on_change P recipient event s = (Inl e, s)
   | Inr False \<Rightarrow> ingest_on_change P recipient event s = (Inr False, s)
   | Inr True \<Rightarrow> snd (ingest_on_change P recipient event s) =
       (case plane_poll P s of (Inl _, s1) \<Rightarrow> s1 | (Inr ms, s1) \<Rightarrow> snd (ingest P ms recipient s1))"
  by (simp add: ingest_on_change_def bindE_def split: sum.split bool.split prod.split)

text \<open>
  One event that is JSON but no object ends the listener: with the trigger as the handler, it raises \<open>AttributeError\<close>
  instead of being ignored, and the events behind it are lost.
\<close>

theorem listener_dies_on_scalar_event:
  assumes "\<nexists>d. v = JObj d" and "json_plain v"
  shows "\<exists>e. run_listener (ingest_on_change P recipient) (render_event \<lparr>se_name = [], se_data = [json_dumps v]\<rparr> @ ls) s = (Inl (AttributeError e), s)"
proof -
  have "touches_email v = Inl (AttributeError (py_repr (type_name v) @ '' object has no attribute '' @ py_repr ''get''))"
    using assms(1) by (cases v) (simp_all add: touches_email_def as_dict_def)
  moreover have "event_ok \<lparr>se_name = [], se_data = [json_dumps v]\<rparr>"
    using dumps_printable [OF assms(2), of "CHR 0x0A"] dumps_printable [OF assms(2), of "CHR 0x0D"]
    by (auto simp: event_ok_def no_break_end_def plain_char_def code_def)
  moreover have "parse_payload [] [json_dumps v] = Inr v"
    by (simp add: parse_payload_def loads_dumps_plain [OF assms(2)] with_event_def)
  ultimately show ?thesis
    by (simp add: run_listener_def listen_event ingest_on_change_def bindE_def del: listen.simps)
qed

section \<open>Witnesses\<close>

definition ex_stream :: "sent_event list" where
  "ex_stream = [\<lparr>se_name = ''state'', se_data = [''{'', ''}'']\<rparr>]"

definition ex_handler :: "json \<Rightarrow> (nat, bool) prog" where
  "ex_handler v = seqE (modify Suc) (ret False)"

theorem stream_delivers_sent_witness:
  "run_listener ex_handler (concat (map render_event ex_stream) @ [''data: x'']) 0 = (Inr [JObj [(''_event'', JStr ''state'')]], 1)"
proof -
  have "\<forall>e \<in> set ex_stream. event_ok e" by (simp add: ex_stream_def event_ok_def no_break_end_def)
  moreover have "\<forall>raw \<in> set [''data: x'']. rstrip_chars crlf raw \<noteq> []" by (simp add: rstrip_chars_def crlf_def)
  ultimately have "run_listener ex_handler (concat (map render_event ex_stream) @ [''data: x'']) =
      deliver ex_handler (map (\<lambda>e. parse_payload (se_name e) (se_data e)) ex_stream) []"
    by (rule stream_delivers_sent)
  moreover have "parse_payload ''state'' [''{'', ''}''] = Inr (JObj [(''_event'', JStr ''state'')])" by code_simp
  ultimately show ?thesis by (simp add: ex_stream_def ex_handler_def seqE_def bindE_def)
qed

theorem listener_dies_on_scalar_event_witness:
  "\<exists>e. run_listener (ingest_on_change ex_plane None) (render_event \<lparr>se_name = [], se_data = [json_dumps (JInt 1)]\<rparr> @ []) ex_state =
    (Inl (AttributeError e), ex_state)"
  by (rule listener_dies_on_scalar_event) simp_all

end
