(* ===== verification/AgentMail.thy ===== *)
theory AgentMail
  imports Inbound Forge EventStream
begin

text \<open>
  The AgentMail transport (\<open>transports/agentmail.py\<close>) over an HTTP parameter. \<open>parseaddr\<close> of \<open>email.utils\<close>,
  \<open>datetime.fromisoformat\<close> and the clock are parameters. A field of a message that must be text for the
  normalizer and is not raises here.
\<close>

section \<open>The client\<close>

record agentmail =
  am_token :: string
  am_base_url :: string
  am_inbox_id :: string
  am_done_label :: string

definition RECEIVED_LABEL :: string where "RECEIVED_LABEL = ''received''"
definition DEFAULT_DONE_LABEL :: string where "DEFAULT_DONE_LABEL = ''dear-agent-done''"

text \<open>\<open>urlencode(params, doseq=True)\<close> of texts.\<close>

definition quote_plus :: "string \<Rightarrow> string" where
  "quote_plus s = join ''+'' (map quote_all (split_on CHR '' '' s))"

definition urlencode :: "(string \<times> string) list \<Rightarrow> string" where
  "urlencode params = join ''&'' (map (\<lambda>(k, v). quote_plus k @ ''='' @ quote_plus v) params)"

definition agentmail_request ::
  "'w http \<Rightarrow> agentmail \<Rightarrow> string \<Rightarrow> string \<Rightarrow> (string \<times> string) list \<Rightarrow> json option \<Rightarrow> ('w, json) prog" where
  "agentmail_request urlopen A verb path params body =
     bindE (attempt (urlopen
         \<lparr>hq_url = am_base_url A @ path @ (if params = [] then [] else ''?'' @ urlencode params),
          hq_data = map_option json_dumps body,
          hq_headers = [(''Authorization'', ''Bearer '' @ am_token A), (''Content-Type'', ''application/json''), (''Accept'', ''application/json'')],
          hq_method = verb\<rparr>)) (\<lambda>r.
       case r of
         Inl (HTTPError n _ detail) \<Rightarrow>
           raise (AgentMailError (verb @ '' '' @ path @ '' -> '' @ show_int n @ '': b'' @ py_repr (take 200 detail)))
       | Inl (URLError reason) \<Rightarrow> raise (AgentMailError (verb @ '' '' @ path @ '' failed: '' @ reason))
       | Inl e \<Rightarrow> raise e
       | Inr (_, raw) \<Rightarrow> if raw = [] then ret (JObj []) else liftR (json_loads raw))"

definition messages_path :: "string \<Rightarrow> string" where
  "messages_path inbox_id = ''/inboxes/'' @ quote_all inbox_id @ ''/messages''"

definition message_path :: "string \<Rightarrow> string \<Rightarrow> string" where
  "message_path inbox_id message_id = messages_path inbox_id @ ''/'' @ quote_all message_id"

definition default_inbox_id :: "'w http \<Rightarrow> agentmail \<Rightarrow> ('w, string) prog" where
  "default_inbox_id urlopen A =
     bindE (agentmail_request urlopen A ''GET'' ''/inboxes'' [] None) (\<lambda>v.
       bindE (liftR (as_dict ''get'' v)) (\<lambda>d.
         let inboxes = get_or d ''inboxes'' JNull in
         if \<not> j_true inboxes then raise (AgentMailError ''the AgentMail account has no inbox'')
         else liftR (bindR (first_item inboxes) (\<lambda>x. bindR (item x ''inbox_id'') (\<lambda>i. Inr (py_str i))))))"

text \<open>The elements of a list; other iterables are not expected from the API.\<close>

definition elements :: "json \<Rightarrow> exn + json list" where
  "elements v =
     (if \<not> j_true v then Inr []
      else case v of JArr vs \<Rightarrow> Inr vs | _ \<Rightarrow> Inl (TypeError (py_repr (type_name v) @ '' object is not a list'')))"

definition list_messages :: "'w http \<Rightarrow> agentmail \<Rightarrow> string list \<Rightarrow> int \<Rightarrow> ('w, json list) prog" where
  "list_messages urlopen A labels limit =
     bindE (agentmail_request urlopen A ''GET'' (messages_path (am_inbox_id A))
         ((''limit'', show_int limit) # map (\<lambda>l. (''labels'', l)) labels) None) (\<lambda>v.
       liftR (bindR (as_dict ''get'' v) (\<lambda>d. elements (get_or d ''messages'' JNull))))"

definition get_message :: "'w http \<Rightarrow> agentmail \<Rightarrow> string \<Rightarrow> ('w, json) prog" where
  "get_message urlopen A message_id = agentmail_request urlopen A ''GET'' (message_path (am_inbox_id A) message_id) [] None"

definition update_labels :: "'w http \<Rightarrow> agentmail \<Rightarrow> string \<Rightarrow> string list \<Rightarrow> string list \<Rightarrow> ('w, json) prog" where
  "update_labels urlopen A message_id adds removes =
     agentmail_request urlopen A ''PATCH'' (message_path (am_inbox_id A) message_id) []
       (Some (JObj ((if adds \<noteq> [] then [(''add_labels'', JArr (map JStr adds))] else []) @
                    (if removes \<noteq> [] then [(''remove_labels'', JArr (map JStr removes))] else []))))"

definition am_reply :: "'w http \<Rightarrow> agentmail \<Rightarrow> string \<Rightarrow> string \<Rightarrow> string \<Rightarrow> ('w, json) prog" where
  "am_reply urlopen A message_id text recipient =
     agentmail_request urlopen A ''POST'' (message_path (am_inbox_id A) message_id @ ''/reply'') []
       (Some (JObj ([(''text'', JStr text)] @ (if recipient \<noteq> [] then [(''to'', JStr recipient)] else []))))"

definition am_send :: "'w http \<Rightarrow> agentmail \<Rightarrow> string \<Rightarrow> string \<Rightarrow> string \<Rightarrow> ('w, json) prog" where
  "am_send urlopen A recipient subject text =
     agentmail_request urlopen A ''POST'' (messages_path (am_inbox_id A) @ ''/send'') []
       (Some (JObj [(''to'', JStr recipient), (''subject'', JStr subject), (''text'', JStr text)]))"

section \<open>Reading a message\<close>

text \<open>\<open>x or y\<close> on values.\<close>

definition or_value :: "json \<Rightarrow> json \<Rightarrow> json" where
  "or_value v w = (if j_true v then v else w)"

definition first_address :: "(string \<Rightarrow> string) \<Rightarrow> json \<Rightarrow> string option" where
  "first_address address_of v =
     (let x = (case v of JArr vs \<Rightarrow> (case vs of [] \<Rightarrow> JNull | y # _ \<Rightarrow> y) | _ \<Rightarrow> v) in
      if \<not> j_true x then None
      else Some (let a = address_of (py_str x) in if a = [] then py_str x else a))"

definition zulu :: "string \<Rightarrow> string" where
  "zulu s = concat (map (\<lambda>c. if c = CHR ''Z'' then ''+00:00'' else [c]) s)"

definition parse_time :: "(string \<Rightarrow> time option) \<Rightarrow> time \<Rightarrow> json \<Rightarrow> time" where
  "parse_time fromisoformat now v =
     (case v of
        JStr s \<Rightarrow> if s = [] then now else (case fromisoformat (zulu s) of None \<Rightarrow> now | Some t \<Rightarrow> t)
      | _ \<Rightarrow> now)"

definition mail_attachment :: "json \<Rightarrow> exn + attachment" where
  "mail_attachment v =
     bindR (as_dict ''get'' v) (\<lambda>a.
       bindR (int_or_zero (get_or a ''size'' JNull)) (\<lambda>n.
         Inr \<lparr>at_name = py_str (or_value (get_or a ''filename'' JNull) (JStr ''attachment'')),
              at_content_type = py_str (or_value (get_or a ''content_type'' JNull) (JStr ''application/octet-stream'')),
              at_size = n\<rparr>))"

definition mail_body :: "(string, json) dict \<Rightarrow> exn + string" where
  "mail_body d =
     (case or_value (get_or d ''text'' JNull) (or_value (get_or d ''extracted_text'' JNull) (JStr [])) of
        JStr s \<Rightarrow> Inr s | v \<Rightarrow> Inl (TypeError (''expected str, not '' @ type_name v)))"

definition mail_headers :: "(string, json) dict \<Rightarrow> exn + (string, string) dict" where
  "mail_headers d =
     bindR (as_dict ''items'' (or_value (get_or d ''headers'' JNull) (JObj []))) (\<lambda>h. Inr (map (\<lambda>(k, v). (k, py_str v)) h))"

definition to_raw ::
  "(string \<Rightarrow> string) \<Rightarrow> (string \<Rightarrow> time option) \<Rightarrow> time \<Rightarrow> json \<Rightarrow> exn + raw_message" where
  "to_raw address_of fromisoformat now message =
     bindR (as_dict ''get'' message) (\<lambda>d.
     bindR (elements (get_or d ''attachments'' JNull)) (\<lambda>items.
     bindR (mapR mail_attachment items) (\<lambda>attachments.
     bindR (mail_body d) (\<lambda>body.
     bindR (text_or_null (get_or d ''thread_id'' JNull)) (\<lambda>thread.
     bindR (text_or_null (get_or d ''subject'' JNull)) (\<lambda>subject.
     bindR (mail_headers d) (\<lambda>headers.
       Inr \<lparr>rm_transport_id = py_str (or_value (get_or d ''message_id'' JNull) (get_or d ''id'' JNull)),
            rm_thread_id = thread,
            rm_sender = first_address address_of (or_value (get_or d ''from_'' JNull) (get_or d ''from'' JNull)),
            rm_subject = subject, rm_body = body, rm_attachments = attachments, rm_headers = headers,
            rm_received_at = parse_time fromisoformat now (or_value (get_or d ''timestamp'' JNull) (get_or d ''created_at'' JNull))\<rparr>)))))))"

section \<open>The transport\<close>

text \<open>The listed messages without the label of handled ones.\<close>

fun fresh_messages :: "string \<Rightarrow> json list \<Rightarrow> exn + json list" where
  "fresh_messages done_label [] = Inr []"
| "fresh_messages done_label (m # ms) =
     bindR (as_dict ''get'' m) (\<lambda>d.
       bindR (contains_text done_label (or_value (get_or d ''labels'' JNull) (JArr []))) (\<lambda>handled.
         bindR (fresh_messages done_label ms) (\<lambda>rest. Inr (if handled then rest else m # rest))))"

definition mail_time :: "json \<Rightarrow> string" where
  "mail_time m =
     (case m of
        JObj d \<Rightarrow> py_str (or_value (get_or d ''timestamp'' JNull) (or_value (get_or d ''created_at'' JNull) (JStr [])))
      | _ \<Rightarrow> [])"

definition full_message :: "'w http \<Rightarrow> agentmail \<Rightarrow> json \<Rightarrow> ('w, json) prog" where
  "full_message urlopen A message =
     bindE (liftR (as_dict ''get'' message)) (\<lambda>d.
       let message_id = get_or d ''message_id'' JNull in
       if \<not> j_true message_id then ret message
       else bindE (attempt (get_message urlopen A (py_str message_id))) (\<lambda>r.
         case r of Inl _ \<Rightarrow> ret message | Inr full \<Rightarrow> ret full))"

fun map_prog :: "('x \<Rightarrow> ('w, 'y) prog) \<Rightarrow> 'x list \<Rightarrow> ('w, 'y list) prog" where
  "map_prog f [] = ret []"
| "map_prog f (x # xs) = bindE (f x) (\<lambda>y. bindE (map_prog f xs) (\<lambda>ys. ret (y # ys)))"

definition read_message ::
  "'w http \<Rightarrow> ('w \<Rightarrow> time) \<Rightarrow> (string \<Rightarrow> string) \<Rightarrow> (string \<Rightarrow> time option) \<Rightarrow> agentmail \<Rightarrow> json \<Rightarrow> ('w, raw_message) prog" where
  "read_message urlopen clock address_of fromisoformat A m =
     bindE (full_message urlopen A m) (\<lambda>full. bindE (asks clock) (\<lambda>now. liftR (to_raw address_of fromisoformat now full)))"

definition agentmail_poll ::
  "'w http \<Rightarrow> ('w \<Rightarrow> time) \<Rightarrow> (string \<Rightarrow> string) \<Rightarrow> (string \<Rightarrow> time option) \<Rightarrow> agentmail \<Rightarrow> int \<Rightarrow> ('w, raw_message list) prog" where
  "agentmail_poll urlopen clock address_of fromisoformat A limit =
     bindE (list_messages urlopen A [RECEIVED_LABEL] limit) (\<lambda>messages.
       bindE (liftR (fresh_messages (am_done_label A) messages)) (\<lambda>fresh.
         map_prog (read_message urlopen clock address_of fromisoformat A) (sort_key mail_time fresh)))"

fun agentmail_ack :: "'w http \<Rightarrow> agentmail \<Rightarrow> raw_message list \<Rightarrow> ('w, unit) prog" where
  "agentmail_ack urlopen A [] = ret ()"
| "agentmail_ack urlopen A (m # ms) =
     seqE (attempt (update_labels urlopen A (rm_transport_id m) [am_done_label A] [])) (agentmail_ack urlopen A ms)"

definition agentmail_send :: "'w http \<Rightarrow> agentmail \<Rightarrow> outbound \<Rightarrow> ('w, json) prog" where
  "agentmail_send urlopen A m =
     (case dict_get (ob_headers m) ''to'' of
        None \<Rightarrow> raise (ValueError (''outbound message needs a '' @ py_repr ''to'' @ '' header''))
      | Some recipient \<Rightarrow>
          if recipient = [] then raise (ValueError (''outbound message needs a '' @ py_repr ''to'' @ '' header''))
          else if truthy (dict_get (ob_headers m) ''in-reply-to'')
          then am_reply urlopen A (the (dict_get (ob_headers m) ''in-reply-to'')) (ob_body m) recipient
          else am_send urlopen A recipient (ob_subject m) (ob_body m))"

section \<open>What is delivered\<close>

lemma fresh_messages_filter:
  "fresh_messages l ms = Inr fr \<Longrightarrow> m \<in> set fr \<longleftrightarrow>
    m \<in> set ms \<and> (\<exists>d. m = JObj d \<and> contains_text l (or_value (get_or d ''labels'' JNull) (JArr [])) = Inr False)"
proof (induction ms arbitrary: fr)
  case (Cons x ms)
  then obtain d h rest where x: "x = JObj d" "contains_text l (or_value (get_or d ''labels'' JNull) (JArr [])) = Inr h"
      "fresh_messages l ms = Inr rest" "fr = (if h then rest else x # rest)"
    by (auto simp: bindR_Inr as_dict_def split: json.splits)
  show ?case using Cons.IH [OF x(3)] x by (cases h) auto
qed simp

lemma map_prog_length: "map_prog f xs w = (Inr ys, w') \<Longrightarrow> length ys = length xs"
  by (induction xs arbitrary: w ys) (auto simp: bindE_def split: prod.splits sum.splits)

lemma map_prog_raises:
  assumes "x \<in> set xs" and "\<And>w. \<exists>e w'. f x w = (Inl e, w')"
  shows "\<exists>e w'. map_prog f xs w = (Inl e, w')"
  using assms(1)
proof (induction xs arbitrary: w)
  case (Cons y ys)
  obtain r w1 where y: "f y w = (r, w1)" by fastforce
  show ?case
  proof (cases r)
    case (Inl e) then show ?thesis using y by (simp add: bindE_def)
  next
    case (Inr v)
    then have "x \<in> set ys" using assms(2) [of w] Cons.prems y by auto
    then show ?thesis using Cons.IH [of w1] y Inr by (auto simp: bindE_def)
  qed
qed simp

text \<open>
  One message blocks the inbox: while a message without an id is listed whose attachment has a size that is no
  number, every poll raises, and no message is delivered, however many others wait.
\<close>

theorem bad_attachment_blocks_inbox:
  assumes "list_messages urlopen A [RECEIVED_LABEL] limit w = (Inr ms, w1)"
    and "JObj d \<in> set ms" and "dict_get d ''message_id'' = None"
    and "contains_text (am_done_label A) (or_value (get_or d ''labels'' JNull) (JArr [])) = Inr False"
    and "dict_get d ''attachments'' = Some (JArr (JObj a # as))" and "dict_get a ''size'' = Some (JStr s)" and "s \<noteq> []" and "py_int s = None"
  shows "\<exists>e w'. agentmail_poll urlopen clock address_of fromisoformat A limit w = (Inl e, w')"
proof (cases "fresh_messages (am_done_label A) ms")
  case (Inl e) then show ?thesis using assms(1) by (simp add: agentmail_poll_def bindE_def)
next
  case (Inr fr)
  have "JObj d \<in> set (sort_key mail_time fr)" using fresh_messages_filter [OF Inr] assms(2,4) by simp
  moreover have "\<exists>e w'. read_message urlopen clock address_of fromisoformat A (JObj d) w = (Inl e, w')" for w
    using assms(3,5-8)
    by (simp add: read_message_def full_message_def bindE_def as_dict_def get_or_def to_raw_def elements_def mail_attachment_def int_or_zero_def)
  ultimately have "\<exists>e w'. map_prog (read_message urlopen clock address_of fromisoformat A) (sort_key mail_time fr) w1 = (Inl e, w')"
    by (rule map_prog_raises)
  then show ?thesis using assms(1) Inr by (simp add: agentmail_poll_def bindE_def)
qed

text \<open>
  A poll delivers one message for every listed message that is not labelled as handled, and acknowledging never raises,
  whatever the API answers.
\<close>

theorem agentmail_delivers_unhandled:
  assumes "agentmail_poll urlopen clock address_of fromisoformat A limit w = (Inr raws, w')"
  shows "(\<exists>ms fr w1. list_messages urlopen A [RECEIVED_LABEL] limit w = (Inr ms, w1) \<and> fresh_messages (am_done_label A) ms = Inr fr \<and>
      length raws = length fr) \<and> fst (agentmail_ack urlopen A raws w') = Inr ()"
proof
  obtain ms w1 fr where "list_messages urlopen A [RECEIVED_LABEL] limit w = (Inr ms, w1)" "fresh_messages (am_done_label A) ms = Inr fr"
      "map_prog (read_message urlopen clock address_of fromisoformat A) (sort_key mail_time fr) w1 = (Inr raws, w')"
    using assms by (auto simp: agentmail_poll_def bindE_def split: prod.splits sum.splits)
  then show "\<exists>ms fr w1. list_messages urlopen A [RECEIVED_LABEL] limit w = (Inr ms, w1) \<and> fresh_messages (am_done_label A) ms = Inr fr \<and>
      length raws = length fr"
    using map_prog_length by fastforce
  show "fst (agentmail_ack urlopen A raws w') = Inr ()"
    by (induction raws arbitrary: w') (simp_all add: seqE_def)
qed

text \<open>
  Messages without an id all get the id \<open>None\<close>, so that for the queue each of them is a redelivery of the first.
\<close>

theorem nameless_messages_share_an_id:
  assumes "to_raw address_of fromisoformat now (JObj d) = Inr m" and "dict_get d ''message_id'' = None" and "dict_get d ''id'' = None"
  shows "rm_transport_id m = ''None''"
  using assms by (auto simp: to_raw_def bindR_Inr as_dict_def get_or_def or_value_def py_str_def)

section \<open>Witnesses\<close>

definition ex_agentmail :: agentmail where
  "ex_agentmail = \<lparr>am_token = ''t'', am_base_url = ''https://api'', am_inbox_id = ''i'', am_done_label = DEFAULT_DONE_LABEL\<rparr>"

definition ex_poison :: "(string, json) dict" where
  "ex_poison = [(''attachments'', JArr [JObj [(''size'', JStr ''big'')]])]"

definition ex_inbox :: "(string, json) dict \<Rightarrow> unit http" where
  "ex_inbox d req = ret (200, json_dumps (JObj [(''messages'', JArr [JObj d])]))"

lemma ex_listed:
  "list_messages (ex_inbox ex_poison) ex_agentmail [RECEIVED_LABEL] 50 () = (Inr [JObj ex_poison], ())"
  "list_messages (ex_inbox [(''text'', JStr ''hi'')]) ex_agentmail [RECEIVED_LABEL] 50 () = (Inr [JObj [(''text'', JStr ''hi'')]], ())"
  by code_simp+

theorem bad_attachment_blocks_inbox_witness:
  "\<exists>e w'. agentmail_poll (ex_inbox ex_poison) (\<lambda>_. 0) id (\<lambda>_. None) ex_agentmail 50 () = (Inl e, w')"
proof (rule bad_attachment_blocks_inbox [OF ex_listed(1), where d = ex_poison and s = "''big''" and a = "[(''size'', JStr ''big'')]" and as = "[]"])
  show "py_int ''big'' = None" by code_simp
  show "contains_text (am_done_label ex_agentmail) (or_value (get_or ex_poison ''labels'' JNull) (JArr [])) = Inr False" by code_simp
qed (simp_all add: ex_poison_def)

definition ex_hi :: raw_message where
  "ex_hi = \<lparr>rm_transport_id = ''None'', rm_thread_id = None, rm_sender = None, rm_subject = None, rm_body = ''hi'', rm_attachments = [],
     rm_headers = [], rm_received_at = 0\<rparr>"

lemma ex_hi_raw: "to_raw id (\<lambda>_. None) 0 (JObj [(''text'', JStr ''hi'')]) = Inr ex_hi"
  by code_simp

lemma ex_poll: "agentmail_poll (ex_inbox [(''text'', JStr ''hi'')]) (\<lambda>_. 0) id (\<lambda>_. None) ex_agentmail 50 () = (Inr [ex_hi], ())"
  by code_simp

theorem agentmail_delivers_unhandled_witness:
  "fst (agentmail_ack (ex_inbox [(''text'', JStr ''hi'')]) ex_agentmail [ex_hi] ()) = Inr ()"
  using agentmail_delivers_unhandled [OF ex_poll] by blast

theorem nameless_messages_share_an_id_witness:
  "rm_transport_id ex_hi = ''None''"
  by (rule nameless_messages_share_an_id [OF ex_hi_raw]) simp_all

end
