(* ===== verification/Jmap.thy ===== *)
theory Jmap
  imports AgentMail
begin

text \<open>
  The JMAP client and transport (\<open>jmap/client.py\<close>, \<open>transports/jmap.py\<close>) over an HTTP parameter. The state
  is the world of the HTTP operation and the client's own fields. \<open>datetime.fromisoformat\<close> is a parameter. An
  answer that has another type than text where the code needs a text (an id, an address) raises here at once,
  where Python raises when the value is used.
\<close>

section \<open>The client's state\<close>

definition CORE :: string where "CORE = ''urn:ietf:params:jmap:core''"
definition MAIL :: string where "MAIL = ''urn:ietf:params:jmap:mail''"
definition SUBMISSION :: string where "SUBMISSION = ''urn:ietf:params:jmap:submission''"

definition EMAIL_PROPERTIES :: "string list" where
  "EMAIL_PROPERTIES =
     [''messageId'', ''threadId'', ''from'', ''subject'', ''receivedAt'', ''keywords'', ''mailboxIds'', ''bodyValues'', ''hasAttachment'', ''headers'']"

record email_record =
  er_id :: string
  er_message_id :: string
  er_thread_id :: "string option"
  er_sender :: "string option"
  er_subject :: "string option"
  er_received_at :: time
  er_keywords :: "string list"
  er_mailbox_ids :: "string list"
  er_body :: string
  er_has_attachment :: bool
  er_headers :: "(string, string) dict"

record jmap_client =
  jc_token :: string
  jc_account_id :: "string option"
  jc_session_url :: string
  jc_api_url :: string
  jc_event_source_url :: string
  jc_mailboxes :: "(string, string) dict"

type_synonym ('w, 'a) jmap = "('w \<times> jmap_client, 'a) prog"

definition client_is :: "(jmap_client \<Rightarrow> 'a) \<Rightarrow> ('w, 'a) jmap" where
  "client_is f = asks (f \<circ> snd)"

definition set_client :: "(jmap_client \<Rightarrow> jmap_client) \<Rightarrow> ('w, unit) jmap" where
  "set_client f = modify (map_prod id f)"

definition as_text :: "json \<Rightarrow> exn + string" where
  "as_text v = (case v of JStr s \<Rightarrow> Inr s | _ \<Rightarrow> Inl (TypeError (''expected str, not '' @ type_name v)))"

definition account_id :: "('w, string) jmap" where
  "account_id =
     bindE (client_is jc_account_id) (\<lambda>a.
       if truthy a then ret (the a) else raise (JmapError ''client is not connected; call connect() first''))"

definition event_source_url :: "('w, string) jmap" where
  "event_source_url =
     bindE (client_is jc_event_source_url) (\<lambda>u. if u = [] then raise (JmapError ''session exposed no eventSourceUrl'') else ret u)"

section \<open>Requests\<close>

text \<open>\<open>_request\<close>.\<close>

definition jmap_request :: "'w http \<Rightarrow> string \<Rightarrow> string option \<Rightarrow> string \<Rightarrow> ('w, json) jmap" where
  "jmap_request urlopen url data verb =
     bindE (client_is jc_token) (\<lambda>token.
     bindE (attempt (on_part fst (\<lambda>w (_, c). (w, c)) (urlopen
         \<lparr>hq_url = url, hq_data = data,
          hq_headers = [(''Authorization'', ''Bearer '' @ token)] @ (if data \<noteq> None then [(''Content-Type'', ''application/json'')] else []),
          hq_method = verb\<rparr>))) (\<lambda>r.
       case r of
         Inl (HTTPError n _ detail) \<Rightarrow> raise (JmapError (''HTTP '' @ show_int n @ '': '' @ take 500 detail))
       | Inl e \<Rightarrow> raise e
       | Inr (_, body) \<Rightarrow> liftR (json_loads body)))"

definition method_call :: "string \<Rightarrow> (string, json) dict \<Rightarrow> string \<Rightarrow> json" where
  "method_call name arguments call_id = JArr [JArr [JStr name, JObj arguments, JStr call_id]]"

text \<open>The answer to a call among the method responses.\<close>

fun find_response :: "string \<Rightarrow> json list \<Rightarrow> exn + (string, json) dict" where
  "find_response call_id [] = Inl (JmapError (''no response for call id '' @ py_repr call_id))"
| "find_response call_id (v # vs) =
     (case v of
        JArr [name, arguments, response_id] \<Rightarrow>
          if response_id \<noteq> JStr call_id then find_response call_id vs
          else bindR (as_dict ''get'' arguments) (\<lambda>d.
            if name = JStr ''error'' then
              if get_or d ''type'' JNull = JStr ''stateMismatch'' then Inl (StateMismatchError (py_repr_json arguments))
              else Inl (JmapError (call_id @ '': '' @ py_str (get_or d ''type'' (JStr ''error''))))
            else Inr d)
      | _ \<Rightarrow> Inl (ValueError ''not enough values to unpack (expected 3)''))"

definition api_response :: "'w http \<Rightarrow> string \<Rightarrow> (string, json) dict \<Rightarrow> string \<Rightarrow> string list \<Rightarrow> ('w, (string, json) dict) jmap" where
  "api_response urlopen name arguments call_id uses =
     bindE (client_is jc_api_url) (\<lambda>url.
     bindE (jmap_request urlopen url
         (Some (json_dumps (JObj [(''using'', JArr (map JStr uses)), (''methodCalls'', method_call name arguments call_id)]))) ''POST'') (\<lambda>body.
       liftR (bindR (as_dict ''get'' body) (\<lambda>d.
         case get_or d ''methodResponses'' (JArr []) of
           JArr vs \<Rightarrow> find_response call_id vs
         | v \<Rightarrow> Inl (TypeError (py_repr (type_name v) @ '' object is not iterable''))))))"

definition get_dict :: "(string, json) dict \<Rightarrow> string \<Rightarrow> string \<Rightarrow> exn + (string, json) dict" where
  "get_dict d key verb = as_dict verb (get_or d key (JObj []))"

text \<open>The dictionary \<open>d.get(key, {})\<close> that is tested for a key.\<close>

definition get_container :: "(string, json) dict \<Rightarrow> string \<Rightarrow> exn + (string, json) dict" where
  "get_container d key =
     (case get_or d key (JObj []) of
        JObj x \<Rightarrow> Inr x | v \<Rightarrow> Inl (TypeError (''argument of type '' @ py_repr (type_name v) @ '' is not iterable'')))"

section \<open>Connecting\<close>

fun mail_account :: "(string \<times> json) list \<Rightarrow> exn + string option" where
  "mail_account [] = Inr None"
| "mail_account ((account, v) # vs) =
     bindR (as_dict ''get'' v) (\<lambda>d. bindR (contains_text MAIL (get_or d ''accountCapabilities'' (JObj []))) (\<lambda>found.
       if found then Inr (Some account) else mail_account vs))"

definition jmap_connect :: "'w http \<Rightarrow> ('w, unit) jmap" where
  "jmap_connect urlopen =
     bindE (client_is jc_session_url) (\<lambda>url.
     bindE (jmap_request urlopen url None ''GET'') (\<lambda>session.
     bindE (liftR (bindR (item session ''apiUrl'') as_text)) (\<lambda>api_url.
     seqE (set_client (\<lambda>c. c\<lparr>jc_api_url := api_url\<rparr>))
     (bindE (liftR (bindR (as_dict ''get'' session) (\<lambda>d. as_text (get_or d ''eventSourceUrl'' (JStr []))))) (\<lambda>events_url.
     seqE (set_client (\<lambda>c. c\<lparr>jc_event_source_url := events_url\<rparr>))
     (bindE (client_is jc_account_id) (\<lambda>account.
       if truthy account then ret ()
       else bindE (liftR (bindR (as_dict ''get'' session) (\<lambda>d. bindR (get_dict d ''accounts'' ''items'') mail_account))) (\<lambda>found.
         case found of
           None \<Rightarrow> raise (JmapError ''session exposed no mail-capable account'')
         | Some a \<Rightarrow> if a = [] then raise (JmapError ''session exposed no mail-capable account'')
                     else set_client (\<lambda>c. c\<lparr>jc_account_id := Some a\<rparr>)))))))))"

section \<open>Push subscriptions\<close>

definition push_create :: "'w http \<Rightarrow> string list \<Rightarrow> string option \<Rightarrow> string option \<Rightarrow> ('w, string) jmap" where
  "push_create urlopen types url expires =
     bindE account_id (\<lambda>account.
     bindE (api_response urlopen ''PushSubscription/set''
         [(''accountId'', JStr account),
          (''create'', JObj [(''p'', JObj ([(''types'', JArr (map JStr (if types = [] then [''Email''] else types)))] @
              (case url of None \<Rightarrow> [] | Some u \<Rightarrow> [(''url'', JStr u)]) @ (case expires of None \<Rightarrow> [] | Some x \<Rightarrow> [(''expires'', JStr x)])))])]
         ''p'' [CORE, MAIL]) (\<lambda>d.
       liftR (bindR (get_dict d ''created'' ''get'') (\<lambda>created.
         let p = get_or created ''p'' JNull in
         if \<not> j_true p then Inl (JmapError (''PushSubscription/set failed: '' @ py_str (get_or d ''notCreated'' (JObj d))))
         else bindR (item p ''id'') as_text))))"

definition push_destroy :: "'w http \<Rightarrow> string \<Rightarrow> ('w, unit) jmap" where
  "push_destroy urlopen subscription_id =
     bindE account_id (\<lambda>account.
     bindE (api_response urlopen ''PushSubscription/set''
         [(''accountId'', JStr account), (''destroy'', JArr [JStr subscription_id])] ''p'' [CORE, MAIL]) (\<lambda>d.
       liftR (bindR (contains_text subscription_id (get_or d ''destroyed'' (JArr []))) (\<lambda>gone.
         if gone then Inr () else Inl (JmapError (''PushSubscription not destroyed: '' @ py_str (get_or d ''notDestroyed'' (JObj d))))))))"

section \<open>Mail\<close>

definition texts_in :: "json \<Rightarrow> exn + string list" where
  "texts_in v = bindR (elements v) (mapR as_text)"

definition query_ids :: "'w http \<Rightarrow> (string, json) dict \<Rightarrow> int \<Rightarrow> ('w, string list) jmap" where
  "query_ids urlopen cond limit =
     bindE account_id (\<lambda>account.
     bindE (api_response urlopen ''Email/query''
         [(''accountId'', JStr account), (''filter'', JObj cond), (''limit'', JInt limit)] ''q'' [CORE, MAIL]) (\<lambda>d.
       liftR (texts_in (get_or d ''ids'' (JArr [])))))"

text \<open>\<open>_extract_text_body\<close>.\<close>

fun text_chunks :: "(string, json) dict \<Rightarrow> json list \<Rightarrow> exn + string list" where
  "text_chunks values [] = Inr []"
| "text_chunks values (part # parts) =
     bindR (as_dict ''get'' part) (\<lambda>p.
       bindR (as_dict ''get'' (case get_or p ''partId'' JNull of JStr i \<Rightarrow> get_or values i (JObj []) | _ \<Rightarrow> JObj [])) (\<lambda>holder.
         let v = get_or holder ''value'' JNull in
         bindR (if j_true v then bindR (as_text v) (\<lambda>s. Inr [s]) else Inr []) (\<lambda>here.
           bindR (text_chunks values parts) (\<lambda>rest. Inr (here @ rest)))))"

definition extract_text_body :: "(string, json) dict \<Rightarrow> exn + string" where
  "extract_text_body d =
     bindR (as_dict ''get'' (or_value (get_or d ''bodyValues'' JNull) (JObj []))) (\<lambda>values.
       bindR (elements (get_or d ''textBody'' JNull)) (\<lambda>parts.
         bindR (text_chunks values parts) (\<lambda>chunks. Inr (join newline chunks))))"

text \<open>\<open>_to_headers\<close>: duplicates, whatever their case, are joined under the first spelling.\<close>

definition add_header :: "string \<Rightarrow> string \<Rightarrow> (string, string) dict \<Rightarrow> (string, string) dict" where
  "add_header name value headers =
     (case List.find (\<lambda>k. lower k = lower name) (dict_keys headers) of
        None \<Rightarrow> dict_set name value headers
      | Some k \<Rightarrow> dict_set k ((case dict_get headers k of None \<Rightarrow> [] | Some v \<Rightarrow> v) @ newline @ value) headers)"

fun to_headers :: "json list \<Rightarrow> (string, string) dict \<Rightarrow> exn + (string, string) dict" where
  "to_headers [] headers = Inr headers"
| "to_headers (h # hs) headers =
     bindR (as_dict ''get'' h) (\<lambda>d.
       let name = get_or d ''name'' JNull; value = get_or d ''value'' JNull in
       if \<not> j_true name \<or> value = JNull then to_headers hs headers
       else bindR (as_text name) (\<lambda>n. bindR (as_text value) (\<lambda>v. to_headers hs (add_header n v headers))))"

definition switched_on :: "json \<Rightarrow> exn + string list" where
  "switched_on v = bindR (as_dict ''items'' (or_value v (JObj []))) (\<lambda>d. Inr (map fst (filter (\<lambda>(k, on). j_true on) d)))"

definition to_record :: "(string \<Rightarrow> time option) \<Rightarrow> json \<Rightarrow> exn + email_record" where
  "to_record fromisoformat v =
     bindR (as_dict ''get'' v) (\<lambda>d.
     bindR (texts_in (get_or d ''messageId'' JNull)) (\<lambda>message_ids.
     bindR (elements (get_or d ''from'' JNull)) (\<lambda>senders.
     bindR (bindR (item v ''id'') as_text) (\<lambda>i.
     bindR (text_or_null (get_or d ''threadId'' JNull)) (\<lambda>thread.
     bindR (case senders of [] \<Rightarrow> Inr None | x # _ \<Rightarrow> bindR (as_dict ''get'' x) (\<lambda>s. text_or_null (get_or s ''email'' JNull))) (\<lambda>sender.
     bindR (text_or_null (get_or d ''subject'' JNull)) (\<lambda>subject.
     bindR (bindR (item v ''receivedAt'') as_text) (\<lambda>received.
     bindR (case fromisoformat (zulu received) of None \<Rightarrow> Inl (ValueError ''Invalid isoformat string'') | Some t \<Rightarrow> Inr t) (\<lambda>t.
     bindR (switched_on (get_or d ''keywords'' JNull)) (\<lambda>keywords.
     bindR (switched_on (get_or d ''mailboxIds'' JNull)) (\<lambda>mailboxes.
     bindR (extract_text_body d) (\<lambda>body.
     bindR (bindR (elements (get_or d ''headers'' JNull)) (\<lambda>hs. to_headers hs [])) (\<lambda>headers.
       Inr \<lparr>er_id = i, er_message_id = (case message_ids of [] \<Rightarrow> [] | m # _ \<Rightarrow> m), er_thread_id = thread, er_sender = sender,
            er_subject = subject, er_received_at = t, er_keywords = keywords, er_mailbox_ids = mailboxes, er_body = body,
            er_has_attachment = j_true (get_or d ''hasAttachment'' JNull), er_headers = headers\<rparr>)))))))))))))"

definition get_emails :: "'w http \<Rightarrow> (string \<Rightarrow> time option) \<Rightarrow> string list \<Rightarrow> bool \<Rightarrow> ('w, string \<times> email_record list) jmap" where
  "get_emails urlopen fromisoformat ids fetch_body =
     (if ids = [] then ret ([], [])
      else bindE account_id (\<lambda>account.
        bindE (api_response urlopen ''Email/get''
            ([(''accountId'', JStr account), (''ids'', JArr (map JStr ids)),
              (''properties'', JArr (map JStr (EMAIL_PROPERTIES @ (if fetch_body then [''textBody''] else []))))] @
             (if fetch_body then [(''bodyProperties'', JArr [JStr ''partId'', JStr ''type'']), (''fetchTextBodyValues'', JBool True)] else []))
            ''g'' [CORE, MAIL]) (\<lambda>d.
          liftR (bindR (bindR (item (JObj d) ''state'') as_text) (\<lambda>state.
            bindR (bindR (elements (get_or d ''list'' (JArr []))) (mapR (to_record fromisoformat))) (\<lambda>records. Inr (state, records)))))))"

fun any_mismatch :: "json list \<Rightarrow> exn + bool" where
  "any_mismatch [] = Inr False"
| "any_mismatch (v # vs) =
     bindR (as_dict ''get'' v) (\<lambda>d. if get_or d ''type'' JNull = JStr ''stateMismatch'' then Inr True else any_mismatch vs)"

definition update_email :: "'w http \<Rightarrow> string \<Rightarrow> (string, json) dict \<Rightarrow> string \<Rightarrow> ('w, string) jmap" where
  "update_email urlopen email_id patch if_in_state =
     bindE account_id (\<lambda>account.
     bindE (api_response urlopen ''Email/set''
         [(''accountId'', JStr account), (''ifInState'', JStr if_in_state), (''update'', JObj [(email_id, JObj patch)])] ''u'' [CORE, MAIL]) (\<lambda>d.
       liftR (if dict_get d ''updated'' = None
         then bindR (get_dict d ''notUpdated'' ''values'') (\<lambda>failed. bindR (any_mismatch (dict_values failed)) (\<lambda>mismatch.
           if mismatch then Inl (StateMismatchError (py_repr_json (JObj failed)))
           else Inl (JmapError (''update failed: '' @ py_repr_json (JObj failed)))))
         else bindR (item (JObj d) ''newState'') as_text)))"

fun learn_mailboxes :: "json list \<Rightarrow> (string, string) dict \<Rightarrow> (exn + unit) \<times> (string, string) dict" where
  "learn_mailboxes [] known = (Inr (), known)"
| "learn_mailboxes (v # vs) known =
     (case bindR (bindR (item v ''id'') as_text) (\<lambda>i. bindR (bindR (item v ''name'') as_text) (\<lambda>n. Inr (n, i))) of
        Inl e \<Rightarrow> (Inl e, known)
      | Inr (n, i) \<Rightarrow> learn_mailboxes vs (dict_set n i known))"

definition get_or_create_mailbox :: "'w http \<Rightarrow> string \<Rightarrow> ('w, string) jmap" where
  "get_or_create_mailbox urlopen name =
     bindE (client_is jc_mailboxes) (\<lambda>known.
       if dict_has known name then ret (the (dict_get known name))
       else bindE account_id (\<lambda>account.
         bindE (api_response urlopen ''Mailbox/get'' [(''accountId'', JStr account), (''ids'', JNull)] ''m'' [CORE, MAIL]) (\<lambda>d.
         bindE (liftR (elements (get_or d ''list'' (JArr [])))) (\<lambda>boxes.
         seqE (on_part (jc_mailboxes \<circ> snd) (\<lambda>m (w, c). (w, c\<lparr>jc_mailboxes := m\<rparr>)) (learn_mailboxes boxes))
         (bindE (client_is jc_mailboxes) (\<lambda>known2.
           if dict_has known2 name then ret (the (dict_get known2 name))
           else bindE (api_response urlopen ''Mailbox/set''
               [(''accountId'', JStr account), (''create'', JObj [(''m'', JObj [(''name'', JStr name)])])] ''mc'' [CORE, MAIL]) (\<lambda>d2.
             bindE (liftR (bindR (get_container d2 ''created'') (\<lambda>created.
                 case dict_get created ''m'' of
                   None \<Rightarrow> Inl (JmapError (''could not create mailbox '' @ py_repr name @ '': '' @ py_str (get_or d2 ''notCreated'' JNull)))
                 | Some m \<Rightarrow> bindR (item m ''id'') as_text))) (\<lambda>i.
               seqE (set_client (\<lambda>c. c\<lparr>jc_mailboxes := dict_set name i (jc_mailboxes c)\<rparr>)) (ret i)))))))))"

fun first_identity :: "json list \<Rightarrow> exn + string" where
  "first_identity [] = Inl (JmapError ''no sending identity found'')"
| "first_identity (v # vs) =
     bindR (as_dict ''get'' v) (\<lambda>d. if j_true (get_or d ''email'' JNull) then as_text (get_or d ''email'' JNull) else first_identity vs)"

definition identity_email :: "'w http \<Rightarrow> ('w, string) jmap" where
  "identity_email urlopen =
     bindE account_id (\<lambda>account.
     bindE (api_response urlopen ''Identity/get'' [(''accountId'', JStr account), (''ids'', JNull)] ''i'' [CORE, SUBMISSION]) (\<lambda>d.
       liftR (bindR (elements (get_or d ''list'' (JArr []))) first_identity)))"

definition created_item :: "(string, json) dict \<Rightarrow> string \<Rightarrow> string \<Rightarrow> exn + json" where
  "created_item d key failure =
     bindR (get_container d ''created'') (\<lambda>created.
       case dict_get created key of
         None \<Rightarrow> Inl (JmapError (failure @ '': '' @ py_str (get_or d ''notCreated'' JNull))) | Some v \<Rightarrow> Inr v)"

definition submit_mail :: "'w http \<Rightarrow> string \<Rightarrow> string \<Rightarrow> string \<Rightarrow> string option \<Rightarrow> ('w, string) jmap" where
  "submit_mail urlopen recipient subject body in_reply_to =
     bindE (get_or_create_mailbox urlopen ''Sent'') (\<lambda>sent.
     bindE (identity_email urlopen) (\<lambda>from_address.
     bindE account_id (\<lambda>account.
     bindE (api_response urlopen ''Email/set''
         [(''accountId'', JStr account), (''create'', JObj [(''d'', JObj
           ([(''mailboxIds'', JObj [(sent, JBool True)]), (''keywords'', JObj [([CHR 0x24] @ ''draft'', JBool True)]),
             (''from'', JArr [JObj [(''email'', JStr from_address)]]), (''to'', JArr [JObj [(''email'', JStr recipient)]]),
             (''subject'', JStr subject), (''bodyValues'', JObj [(''b'', JObj [(''value'', JStr body)])]),
             (''textBody'', JArr [JObj [(''partId'', JStr ''b''), (''type'', JStr ''text/plain'')]])] @
            (case in_reply_to of None \<Rightarrow> [] | Some m \<Rightarrow> [(''inReplyTo'', JArr [JStr m])])))])] ''d'' [CORE, MAIL]) (\<lambda>d.
     bindE (liftR (bindR (created_item d ''d'' ''could not create draft'') (\<lambda>v. bindR (item v ''id'') as_text))) (\<lambda>email_id.
     bindE (api_response urlopen ''EmailSubmission/set''
         [(''accountId'', JStr account), (''create'', JObj [(''s'', JObj [(''emailId'', JStr email_id)])])] ''s'' [CORE, MAIL, SUBMISSION]) (\<lambda>d2.
     bindE (liftR (created_item d2 ''s'' ''could not submit'')) (\<lambda>_. ret email_id)))))))"

section \<open>The transport\<close>

text \<open>What the transport asks of a mail box, and the JMAP client as one.\<close>

record 'c mailbox_ops =
  mb_query :: "(string, json) dict \<Rightarrow> int \<Rightarrow> ('c, string list) prog"
  mb_get :: "string list \<Rightarrow> bool \<Rightarrow> ('c, string \<times> email_record list) prog"
  mb_mailbox :: "string \<Rightarrow> ('c, string) prog"
  mb_update :: "string \<Rightarrow> (string, json) dict \<Rightarrow> string \<Rightarrow> ('c, string) prog"
  mb_submit :: "string \<Rightarrow> string \<Rightarrow> string \<Rightarrow> string option \<Rightarrow> ('c, string) prog"

definition jmap_ops :: "'w http \<Rightarrow> (string \<Rightarrow> time option) \<Rightarrow> ('w \<times> jmap_client) mailbox_ops" where
  "jmap_ops urlopen fromisoformat =
     \<lparr>mb_query = query_ids urlopen, mb_get = get_emails urlopen fromisoformat, mb_mailbox = get_or_create_mailbox urlopen,
      mb_update = update_email urlopen, mb_submit = submit_mail urlopen\<rparr>"

record jmap_transport =
  jt_mailbox_name :: string
  jt_processed_mailbox_name :: string
  jt_pending_ids :: "(string, string) dict"

type_synonym ('c, 'a) mail_transport = "('c \<times> jmap_transport, 'a) prog"

definition on_mailbox :: "('c, 'a) prog \<Rightarrow> ('c, 'a) mail_transport" where
  "on_mailbox p = on_part fst (\<lambda>c (_, t). (c, t)) p"

definition record_key :: "email_record \<Rightarrow> string" where
  "record_key r = (if er_message_id r = [] then er_id r else er_message_id r)"

definition record_to_raw :: "email_record \<Rightarrow> raw_message" where
  "record_to_raw r =
     \<lparr>rm_transport_id = record_key r, rm_thread_id = er_thread_id r, rm_sender = er_sender r, rm_subject = er_subject r, rm_body = er_body r,
      rm_attachments =
        (if er_has_attachment r then [\<lparr>at_name = ''attachment'', at_content_type = ''application/octet-stream'', at_size = 0\<rparr>] else []),
      rm_headers = er_headers r, rm_received_at = er_received_at r\<rparr>"

definition jmap_poll :: "'c mailbox_ops \<Rightarrow> int \<Rightarrow> ('c, raw_message list) mail_transport" where
  "jmap_poll M limit =
     bindE (asks (jt_mailbox_name \<circ> snd)) (\<lambda>name.
     bindE (on_mailbox (mb_mailbox M name)) (\<lambda>mailbox_id.
     bindE (on_mailbox (mb_query M [(''inMailbox'', JStr mailbox_id), (''notKeyword'', JStr ([CHR 0x24] @ ''dear-agent-seen''))] limit)) (\<lambda>ids.
       if ids = [] then ret []
       else bindE (on_mailbox (mb_get M ids True)) (\<lambda>(state, records).
         let ordered = sort_key (\<lambda>r. (er_received_at r, er_id r)) records in
         seqE (modify (\<lambda>(c, t). (c, t\<lparr>jt_pending_ids := fold (\<lambda>r. dict_set (record_key r) (er_id r)) ordered []\<rparr>)))
           (ret (map record_to_raw ordered))))))"

text \<open>One message of \<open>ack\<close>: the pending id is taken, and whatever the mail box raises is dropped.\<close>

definition file_message :: "'c mailbox_ops \<Rightarrow> string \<Rightarrow> string \<Rightarrow> string \<Rightarrow> ('c, unit) prog" where
  "file_message M source target email_id =
     bindE (attempt (bindE (mb_get M [email_id] False) (\<lambda>(state, records).
       if records = [] then ret []
       else mb_update M email_id [(''mailboxIds/'' @ target, JBool True), (''mailboxIds/'' @ source, JNull)] state))) (\<lambda>_. ret ())"

fun ack_each :: "'c mailbox_ops \<Rightarrow> string \<Rightarrow> string \<Rightarrow> raw_message list \<Rightarrow> ('c, unit) mail_transport" where
  "ack_each M source target [] = ret ()"
| "ack_each M source target (m # ms) =
     bindE (asks (\<lambda>(c, t). dict_get (jt_pending_ids t) (rm_transport_id m))) (\<lambda>pending.
       seqE (modify (\<lambda>(c, t). (c, t\<lparr>jt_pending_ids := filter (\<lambda>(k, _). k \<noteq> rm_transport_id m) (jt_pending_ids t)\<rparr>)))
         (case pending of
            None \<Rightarrow> ack_each M source target ms
          | Some email_id \<Rightarrow> seqE (on_mailbox (file_message M source target email_id)) (ack_each M source target ms)))"

definition jmap_ack :: "'c mailbox_ops \<Rightarrow> raw_message list \<Rightarrow> ('c, unit) mail_transport" where
  "jmap_ack M messages =
     bindE (asks snd) (\<lambda>t.
       if messages = [] \<or> jt_pending_ids t = [] then ret ()
       else bindE (on_mailbox (mb_mailbox M (jt_mailbox_name t))) (\<lambda>source.
         bindE (on_mailbox (mb_mailbox M (jt_processed_mailbox_name t))) (\<lambda>target.
           ack_each M source target messages)))"

definition jmap_send :: "'c mailbox_ops \<Rightarrow> outbound \<Rightarrow> ('c, unit) mail_transport" where
  "jmap_send M m =
     (if ob_thread_id m = None then raise (ValueError ''outbound message needs a thread_id to reply into'')
      else if \<not> truthy (dict_get (ob_headers m) ''to'') then raise (ValueError (''outbound message needs a '' @ py_repr ''to'' @ '' header''))
      else bindE (on_mailbox (mb_submit M (the (dict_get (ob_headers m) ''to'')) (ob_subject m) (ob_body m)
             (dict_get (ob_headers m) ''in-reply-to''))) (\<lambda>_. ret ()))"


section \<open>Headers are all kept\<close>

definition header_keys_ok :: "(string, string) dict \<Rightarrow> bool" where
  "header_keys_ok H \<longleftrightarrow> distinct (map lower (dict_keys H))"

lemma add_header_keeps:
  assumes "header_keys_ok H"
  shows "header_keys_ok (add_header n v H)"
    and "dict_get H k = Some w \<Longrightarrow> \<exists>w'. dict_get (add_header n v H) k = Some w' \<and> (contains w x \<longrightarrow> contains w' x)"
    and "\<exists>k w. dict_get (add_header n v H) k = Some w \<and> lower k = lower n \<and> contains w v"
proof -
  show "header_keys_ok (add_header n v H)"
  proof (cases "List.find (\<lambda>k. lower k = lower n) (dict_keys H)")
    case None
    then have none: "\<forall>k \<in> set (dict_keys H). lower k \<noteq> lower n" by (simp add: find_None_iff)
    then have "n \<notin> set (dict_keys H)" by blast
    then have "dict_keys (dict_set n v H) = dict_keys H @ [n]"
      using dict_has_iff_keys [of H n] by (subst dict_set_fresh) simp_all
    then show ?thesis using None none assms by (auto simp: add_header_def header_keys_ok_def)
  next
    case (Some j)
    then have "dict_has H j" using dict_has_iff_keys [of H j] by (auto simp: find_Some_iff)
    then have keys: "dict_keys (dict_set j u H) = dict_keys H" for u by (rule dict_keys_set_existing)
    show ?thesis using Some assms by (simp only: add_header_def header_keys_ok_def option.case keys)
  qed
  show "\<exists>w'. dict_get (add_header n v H) k = Some w' \<and> (contains w x \<longrightarrow> contains w' x)" if g: "dict_get H k = Some w"
  proof (cases "List.find (\<lambda>k. lower k = lower n) (dict_keys H)")
    case None
    then have "k \<noteq> n" using g dict_has_iff_keys [of H k] by (auto simp: find_None_iff)
    then show ?thesis using None g by (simp add: add_header_def)
  next
    case (Some j)
    show ?thesis
    proof (cases "k = j")
      case True
      have "contains w x \<longrightarrow> contains (w @ newline @ v) x" by (auto simp: contains_iff) (metis append_assoc)
      then show ?thesis using Some True g by (simp add: add_header_def)
    next
      case False then show ?thesis using Some g by (simp add: add_header_def)
    qed
  qed
  show "\<exists>k w. dict_get (add_header n v H) k = Some w \<and> lower k = lower n \<and> contains w v"
  proof (cases "List.find (\<lambda>k. lower k = lower n) (dict_keys H)")
    case None
    have "contains v v" unfolding contains_iff by (intro exI [of _ "[]"]) simp
    then show ?thesis using None by (intro exI [of _ n] exI [of _ v]) (simp add: add_header_def)
  next
    case (Some j)
    then have "lower j = lower n" by (auto simp: find_Some_iff)
    moreover have "contains (u @ newline @ v) v" for u
      unfolding contains_iff by (intro exI [of _ "u @ newline"] exI [of _ "[]"]) simp
    ultimately show ?thesis using Some by (auto simp: add_header_def intro!: exI [of _ j])
  qed
qed

lemma to_headers_collects:
  assumes "to_headers hs H = Inr H'" and "header_keys_ok H"
  shows "header_keys_ok H'"
    and "dict_get H k = Some w \<Longrightarrow> \<exists>w'. dict_get H' k = Some w' \<and> (contains w x \<longrightarrow> contains w' x)"
    and "JObj d \<in> set hs \<Longrightarrow> dict_get d ''name'' = Some (JStr n) \<Longrightarrow> n \<noteq> [] \<Longrightarrow> dict_get d ''value'' = Some (JStr v) \<Longrightarrow>
      \<exists>k w. dict_get H' k = Some w \<and> lower k = lower n \<and> contains w v"
  using assms
proof (induction hs arbitrary: H k w x)
  case (Cons h hs)
  { case 1
    then show ?case using Cons.IH(1) add_header_keeps(1)
      by (auto simp: bindR_Inr Let_def split: if_split_asm)
  next
    case 2
    obtain H1 where H1: "to_headers hs H1 = Inr H'" "H1 = H \<or> (\<exists>n v. H1 = add_header n v H)"
      using "2.prems"(2) by (auto simp: bindR_Inr Let_def split: if_split_asm)
    then have ok: "header_keys_ok H1" using "2.prems"(3) add_header_keeps(1) by auto
    obtain w1 where w1: "dict_get H1 k = Some w1" "contains w x \<longrightarrow> contains w1 x"
      using H1(2) "2.prems"(1,3) add_header_keeps(2) by metis
    then show ?case using Cons.IH(2) [OF w1(1) H1(1) ok] by auto
  next
    case 3
    show ?case
    proof (cases "h = JObj d")
      case True
      then have H1: "to_headers hs (add_header n v H) = Inr H'"
        using "3.prems" by (simp add: as_dict_def get_or_def as_text_def)
      obtain k w where k: "dict_get (add_header n v H) k = Some w" "lower k = lower n" "contains w v"
        using add_header_keeps(3) [OF "3.prems"(6)] by blast
      from Cons.IH(2) [OF k(1) H1 add_header_keeps(1) [OF "3.prems"(6)], where x = v] k(2,3) show ?thesis by auto
    next
      case False
      obtain H1 where H1: "to_headers hs H1 = Inr H'" "H1 = H \<or> (\<exists>n v. H1 = add_header n v H)"
        using "3.prems"(5) by (auto simp: bindR_Inr Let_def split: if_split_asm)
      then have ok: "header_keys_ok H1" using "3.prems"(6) add_header_keeps(1) by auto
      then show ?thesis using Cons.IH(3) [OF _ "3.prems"(2-4) H1(1) ok] "3.prems"(1) False by auto
    qed }
qed simp_all

text \<open>
  C40. No header of a message is lost, which the mail authentication gate relies on: the collected headers have one entry
  per name, whatever its case, and the entry has the value of every header of that name.
\<close>

theorem headers_all_kept:
  assumes "to_headers hs [] = Inr H" and "JObj d \<in> set hs" and "dict_get d ''name'' = Some (JStr n)" and "n \<noteq> []"
    and "dict_get d ''value'' = Some (JStr v)"
  shows "distinct (map lower (dict_keys H)) \<and> (\<exists>k w. dict_get H k = Some w \<and> lower k = lower n \<and> contains w v)"
  using to_headers_collects(1,3) [OF assms(1)] assms(2-) by (auto simp: header_keys_ok_def)

section \<open>Updates\<close>

text \<open>
  A refused update is taken for done: a server that answers with \<open>updated\<close> null, as it may when nothing was updated,
  gets the new state returned to the caller, whatever \<open>notUpdated\<close> says, so that a lost race is not seen.
\<close>

theorem refused_update_succeeds:
  assumes "jc_account_id c = Some a" and "a \<noteq> []"
    and "api_response urlopen ''Email/set'' [(''accountId'', JStr a), (''ifInState'', JStr state), (''update'', JObj [(i, JObj patch)])]
      ''u'' [CORE, MAIL] (w, c) = (Inr d, w', c')"
    and "dict_get d ''updated'' = Some JNull" and "dict_get d ''newState'' = Some (JStr new)"
  shows "update_email urlopen i patch state (w, c) = (Inr new, w', c')"
  using assms by (simp add: update_email_def account_id_def client_is_def truthy_def bindE_def item_def as_text_def)

section \<open>Polling and filing\<close>

lemma pending_has:
  "k \<in> record_key ` set rs \<or> dict_has d k \<Longrightarrow> dict_has (fold (\<lambda>r. dict_set (record_key r) (er_id r)) rs d) k"
  by (induction rs arbitrary: d) auto

text \<open>
  A poll delivers oldest first and remembers for every message it delivers the mail to file.
\<close>

theorem poll_is_ordered_and_tracked:
  assumes "jmap_poll M limit (c, t) = (Inr ms, c', t')"
  shows "sorted (map rm_received_at ms) \<and> (\<forall>m \<in> set ms. dict_has (jt_pending_ids t') (rm_transport_id m))"
proof (cases "ms = []")
  case False
  have "\<exists>records. ms = map record_to_raw (sort_key (\<lambda>r. (er_received_at r, er_id r)) records) \<and>
      jt_pending_ids t' = fold (\<lambda>r. dict_set (record_key r) (er_id r)) (sort_key (\<lambda>r. (er_received_at r, er_id r)) records) []"
    using assms False
    by (auto simp: jmap_poll_def bindE_def on_mailbox_def on_part_def Let_def seqE_def split: prod.splits sum.splits if_split_asm
        simp del: map_is_Nil_conv)
  then obtain records where ms: "ms = map record_to_raw (sort_key (\<lambda>r. (er_received_at r, er_id r)) records)"
    and t': "jt_pending_ids t' = fold (\<lambda>r. dict_set (record_key r) (er_id r)) (sort_key (\<lambda>r. (er_received_at r, er_id r)) records) []"
    by blast
  let ?ord = "sort_key (\<lambda>r. (er_received_at r, er_id r)) records"
  have "sorted (map (\<lambda>r. (er_received_at r, er_id r)) ?ord)" by (rule sorted_sort_key)
  then have "sorted (map er_received_at ?ord)"
    by (simp add: sorted_map) (erule sorted_wrt_mono_rel [rotated], auto simp: less_eq_prod_def less_le)
  then have "sorted (map rm_received_at ms)" by (simp add: ms record_to_raw_def comp_def)
  moreover have "\<forall>m \<in> set ms. dict_has (jt_pending_ids t') (rm_transport_id m)"
  proof
    fix m assume "m \<in> set ms"
    then have "rm_transport_id m \<in> record_key ` set ?ord" by (auto simp: ms record_to_raw_def)
    then show "dict_has (jt_pending_ids t') (rm_transport_id m)" unfolding t' by (intro pending_has) blast
  qed
  ultimately show ?thesis ..
qed simp

lemma file_never_raises: "\<exists>c'. file_message M source target i c = (Inr (), c')"
  by (cases "bindE (mb_get M [i] False) (\<lambda>(state, records).
       if records = [] then ret []
       else mb_update M i [(''mailboxIds/'' @ target, JBool True), (''mailboxIds/'' @ source, JNull)] state) c")
     (simp add: file_message_def bindE_def attempt_def)

lemma ack_each_files:
  assumes "reflp R" and "transp R" and "\<And>i c. i \<in> set (dict_values (jt_pending_ids t)) \<Longrightarrow> R c (snd (file_message M source target i c))"
  shows "\<exists>c' t'. ack_each M source target ms (c, t) = (Inr (), c', t') \<and> R c c'"
  using assms(3)
proof (induction ms arbitrary: c t)
  case Nil then show ?case using assms(1) by (auto simp: reflp_def)
next
  case (Cons m ms)
  let ?t1 = "t\<lparr>jt_pending_ids := filter (\<lambda>(k, _). k \<noteq> rm_transport_id m) (jt_pending_ids t)\<rparr>"
  have sub: "R c (snd (file_message M source target i c))" if "i \<in> set (dict_values (jt_pending_ids ?t1))" for i c
    using Cons.prems that by auto
  show ?case
  proof (cases "dict_get (jt_pending_ids t) (rm_transport_id m)")
    case None
    then show ?thesis using Cons.IH [where t = ?t1 and c = c, OF sub] by (simp add: seqE_def)
  next
    case (Some i)
    obtain c1 where c1: "file_message M source target i c = (Inr (), c1)" using file_never_raises [of M source target i c] by blast
    have "i \<in> set (dict_values (jt_pending_ids t))" using map_of_SomeD [OF Some] by force
    then have "R c c1" using Cons.prems [of i c] c1 by simp
    moreover obtain c' t' where "ack_each M source target ms (c1, ?t1) = (Inr (), c', t')" "R c1 c'" using Cons.IH [where t = ?t1 and c = c1, OF sub] by blast
    ultimately show ?thesis using Some c1 assms(2) by (auto simp: seqE_def bindE_def on_mailbox_def on_part_def dest: transpD)
  qed
qed

text \<open>
  Acknowledging touches only mail the last poll delivered: once the two mail boxes are known it never raises, whatever
  the server answers, and all it does to the mail box is filing mails that are pending.
\<close>

theorem ack_files_only_pending:
  assumes "reflp R" and "transp R"
    and "\<And>i c. i \<in> set (dict_values (jt_pending_ids t)) \<Longrightarrow> R c (snd (file_message M source target i c))"
    and "\<And>c. mb_mailbox M (jt_mailbox_name t) c = (Inr source, c)" and "\<And>c. mb_mailbox M (jt_processed_mailbox_name t) c = (Inr target, c)"
  shows "\<exists>c' t'. jmap_ack M ms (c, t) = (Inr (), c', t') \<and> R c c'"
  using ack_each_files [OF assms(1-3), where ms = ms and c = c] assms(1,4,5)
  by (auto simp: jmap_ack_def bindE_def on_mailbox_def on_part_def reflp_def)


section \<open>Witnesses\<close>

definition ex_header :: "string \<Rightarrow> string \<Rightarrow> (string, json) dict" where
  "ex_header n v = [(''name'', JStr n), (''value'', JStr v)]"

theorem headers_all_kept_witness:
  "\<exists>k w. dict_get [(''Authentication-Results'', ''spf=pass'' @ newline @ ''dkim=pass'')] k = Some w \<and>
    lower k = lower ''authentication-results'' \<and> contains w ''dkim=pass''"
proof -
  have "to_headers [JObj (ex_header ''Authentication-Results'' ''spf=pass''), JObj (ex_header ''authentication-results'' ''dkim=pass'')] [] =
      Inr [(''Authentication-Results'', ''spf=pass'' @ newline @ ''dkim=pass'')]"
    by code_simp
  from headers_all_kept [OF this, of "ex_header ''authentication-results'' ''dkim=pass''" "''authentication-results''" "''dkim=pass''"]
  show ?thesis by (simp add: ex_header_def)
qed

definition ex_client :: jmap_client where
  "ex_client = \<lparr>jc_token = ''t'', jc_account_id = Some ''a'', jc_session_url = ''s'', jc_api_url = ''u'', jc_event_source_url = [],
     jc_mailboxes = []\<rparr>"

definition ex_refusal :: "(string, json) dict" where
  "ex_refusal = [(''updated'', JNull), (''newState'', JStr ''n''), (''notUpdated'', JObj [(''m1'', JObj [(''type'', JStr ''stateMismatch'')])])]"

definition ex_refusing :: "unit http" where
  "ex_refusing req = ret (200, json_dumps (JObj [(''methodResponses'', JArr [JArr [JStr ''Email/set'', JObj ex_refusal, JStr ''u'']])]))"

lemma ex_refused:
  "api_response ex_refusing ''Email/set'' [(''accountId'', JStr ''a''), (''ifInState'', JStr ''s''), (''update'', JObj [(''m1'', JObj [])])]
    ''u'' [CORE, MAIL] ((), ex_client) = (Inr ex_refusal, (), ex_client)"
  by code_simp

theorem refused_update_succeeds_witness:
  "update_email ex_refusing ''m1'' [] ''s'' ((), ex_client) = (Inr ''n'', (), ex_client)"
  by (rule refused_update_succeeds [OF _ _ ex_refused]) (simp_all add: ex_client_def ex_refusal_def)

text \<open>A mail box with the ids of the mails that were filed as its state.\<close>

definition ex_mail_record :: "string \<Rightarrow> time \<Rightarrow> email_record" where
  "ex_mail_record i t = \<lparr>er_id = i, er_message_id = [], er_thread_id = None, er_sender = None, er_subject = None, er_received_at = t,
     er_keywords = [], er_mailbox_ids = [], er_body = [], er_has_attachment = False, er_headers = []\<rparr>"

definition ex_box :: "string list mailbox_ops" where
  "ex_box = \<lparr>mb_query = (\<lambda>f n. ret [''e2'', ''e1'']), mb_get = (\<lambda>ids b. ret (''s'', [ex_mail_record ''e2'' 2, ex_mail_record ''e1'' 1])),
     mb_mailbox = ret, mb_update = (\<lambda>i p st. seqE (modify (\<lambda>l. l @ [i])) (ret ''s'')), mb_submit = (\<lambda>a b c d. ret [])\<rparr>"

definition ex_jmap :: jmap_transport where
  "ex_jmap = \<lparr>jt_mailbox_name = ''in'', jt_processed_mailbox_name = ''done'', jt_pending_ids = []\<rparr>"

lemma ex_jmap_poll: "jmap_poll ex_box 50 ([], ex_jmap) =
    (Inr [record_to_raw (ex_mail_record ''e1'' 1), record_to_raw (ex_mail_record ''e2'' 2)], [],
     ex_jmap\<lparr>jt_pending_ids := [(''e1'', ''e1''), (''e2'', ''e2'')]\<rparr>)"
  by (simp add: jmap_poll_def ex_box_def ex_jmap_def bindE_def on_mailbox_def on_part_def seqE_def ex_mail_record_def record_key_def)

theorem poll_is_ordered_and_tracked_witness:
  "sorted (map rm_received_at [record_to_raw (ex_mail_record ''e1'' 1), record_to_raw (ex_mail_record ''e2'' 2)])"
  using poll_is_ordered_and_tracked [OF ex_jmap_poll] by blast

theorem ack_files_only_pending_witness:
  "\<exists>c' t'. jmap_ack ex_box [record_to_raw (ex_mail_record ''e1'' 1), record_to_raw (ex_mail_record ''e9'' 1)]
      ([], ex_jmap\<lparr>jt_pending_ids := [(''e1'', ''e1'')]\<rparr>) = (Inr (), c', t') \<and> set c' \<subseteq> {''e1''}"
proof -
  let ?R = "\<lambda>c c' :: string list. set c' \<subseteq> set c \<union> {''e1''}"
  have "reflp ?R" "transp ?R" by (auto intro!: reflpI transpI)
  from ack_files_only_pending [OF this, of "ex_jmap\<lparr>jt_pending_ids := [(''e1'', ''e1'')]\<rparr>" ex_box "''in''" "''done''"
      "[record_to_raw (ex_mail_record ''e1'' 1), record_to_raw (ex_mail_record ''e9'' 1)]" "[]"]
  show ?thesis by (simp add: ex_jmap_def ex_box_def file_message_def bindE_def attempt_def seqE_def)
qed

end
