(* ===== verification/Imap.thy ===== *)
theory Imap
  imports Jmap DecisionLog
begin

text \<open>
  Mail over IMAP and SMTP (\<open>imap/client.py\<close>, \<open>smtp/client.py\<close>, \<open>transports/imap.py\<close>). \<open>imaplib\<close> and \<open>smtplib\<close> are
  parameters, records of their calls; so are the parser of \<open>email\<close>, which gives the headers and parts of a message, and
  \<open>parseaddr\<close>, \<open>parsedate_to_datetime\<close>, SHA-256 and the builder of outgoing messages. Bytes are characters below 256.
\<close>

section \<open>The IMAP client\<close>

text \<open>
  Calls of the connection with the status they answer. A fetched message is the list of the parts of the answer,
  \<open>Some\<close> for a tuple with the bytes of a message.
\<close>

record 'w imap_lib =
  ib_open :: "bool \<Rightarrow> string \<Rightarrow> int \<Rightarrow> ('w, unit) prog"
  ib_login :: "string \<Rightarrow> string \<Rightarrow> ('w, unit) prog"
  ib_select :: "string \<Rightarrow> ('w, string) prog"
  ib_create :: "string \<Rightarrow> ('w, unit) prog"
  ib_search :: "('w, string \<times> string list) prog"
  ib_fetch :: "string \<Rightarrow> ('w, string \<times> string option list) prog"
  ib_copy :: "string \<Rightarrow> string \<Rightarrow> ('w, string) prog"
  ib_delete :: "string \<Rightarrow> ('w, unit) prog"
  ib_expunge :: "('w, unit) prog"
  ib_close :: "('w, unit) prog"
  ib_logout :: "('w, unit) prog"

record imap_account =
  ia_host :: string
  ia_user :: string
  ia_password :: string
  ia_port :: int
  ia_ssl :: bool

text \<open>The client: the world of the connection, and whether there is one.\<close>

type_synonym ('w, 'a) imap = "('w \<times> bool, 'a) prog"

definition on_conn :: "('w, 'a) prog \<Rightarrow> ('w, 'a) imap" where
  "on_conn = on_part fst (\<lambda>w (_, b). (w, b))"

definition set_conn :: "bool \<Rightarrow> ('w, unit) imap" where
  "set_conn b = modify (\<lambda>(w, _). (w, b))"

definition require_conn :: "('w, unit) imap" where
  "require_conn = bindE (asks snd) (\<lambda>b. if b then ret () else raise (ImapError ''client is not connected; call connect() first''))"

definition imap_connect :: "'w imap_lib \<Rightarrow> imap_account \<Rightarrow> ('w, unit) imap" where
  "imap_connect L A =
     seqE (on_conn (ib_open L (ia_ssl A) (ia_host A) (ia_port A)))
       (seqE (set_conn True) (on_conn (ib_login L (ia_user A) (ia_password A))))"

definition imap_select :: "'w imap_lib \<Rightarrow> string \<Rightarrow> bool \<Rightarrow> ('w, unit) imap" where
  "imap_select L mailbox create =
     seqE require_conn (bindE (on_conn (ib_select L mailbox)) (\<lambda>status.
       bindE (if status \<noteq> ''OK'' \<and> create then seqE (on_conn (ib_create L mailbox)) (on_conn (ib_select L mailbox)) else ret status) (\<lambda>status2.
         if status2 \<noteq> ''OK'' then raise (ImapError (''cannot select mailbox '' @ py_repr mailbox)) else ret ())))"

definition imap_unread :: "'w imap_lib \<Rightarrow> ('w, string list) imap" where
  "imap_unread L =
     seqE require_conn (bindE (on_conn (ib_search L)) (\<lambda>(status, data).
       if status \<noteq> ''OK'' then raise (ImapError ''SEARCH UNSEEN failed'')
       else ret (case data of [] \<Rightarrow> [] | d # _ \<Rightarrow> split_ws d)))"

definition bytes_repr :: "string \<Rightarrow> string" where
  "bytes_repr b = ''b'' @ py_repr b"

definition imap_fetch :: "'w imap_lib \<Rightarrow> string \<Rightarrow> ('w, string) imap" where
  "imap_fetch L uid =
     seqE require_conn (bindE (on_conn (ib_fetch L uid)) (\<lambda>(status, data).
       if status \<noteq> ''OK'' then raise (ImapError (''FETCH '' @ bytes_repr uid @ '' failed''))
       else case List.find (\<lambda>p. p \<noteq> None) data of
              Some (Some raw) \<Rightarrow> ret raw
            | _ \<Rightarrow> raise (ImapError (''FETCH '' @ bytes_repr uid @ '' returned no body''))))"

definition imap_move :: "'w imap_lib \<Rightarrow> string \<Rightarrow> string \<Rightarrow> ('w, unit) imap" where
  "imap_move L uid target =
     seqE require_conn (bindE (on_conn (ib_copy L uid target)) (\<lambda>status.
       bindE (if status \<noteq> ''OK'' then seqE (on_conn (ib_create L target)) (on_conn (ib_copy L uid target)) else ret status) (\<lambda>status2.
         if status2 \<noteq> ''OK'' then raise (ImapError (''COPY '' @ bytes_repr uid @ '' -> '' @ py_repr target @ '' failed''))
         else seqE (on_conn (ib_delete L uid)) (on_conn (ib_expunge L)))))"

text \<open>\<open>contextlib.suppress(imaplib.IMAP4.error, OSError)\<close>.\<close>

definition is_imap_error :: "exn \<Rightarrow> bool" where
  "is_imap_error e \<longleftrightarrow> is_OSError e \<or> (case e of OtherError m \<Rightarrow> startswith m ''IMAP4.error'' | _ \<Rightarrow> False)"

definition suppress :: "(exn \<Rightarrow> bool) \<Rightarrow> ('s, unit) prog \<Rightarrow> ('s, unit) prog" where
  "suppress caught p = bindE (attempt p) (\<lambda>r. case r of Inl e \<Rightarrow> if caught e then ret () else raise e | Inr _ \<Rightarrow> ret ())"

definition imap_close :: "'w imap_lib \<Rightarrow> ('w, unit) imap" where
  "imap_close L =
     bindE (asks snd) (\<lambda>b.
       if \<not> b then ret ()
       else seqE (suppress is_imap_error (on_conn (ib_close L)))
         (seqE (suppress is_imap_error (on_conn (ib_logout L))) (set_conn False)))"

section \<open>The SMTP client\<close>

record 'w smtp_lib =
  sb_open :: "bool \<Rightarrow> string \<Rightarrow> int \<Rightarrow> ('w, unit) prog"
  sb_starttls :: "('w, unit) prog"
  sb_login :: "string \<Rightarrow> string \<Rightarrow> ('w, unit) prog"
  sb_sendmail :: "string \<Rightarrow> string list \<Rightarrow> string \<Rightarrow> ('w, unit) prog"
  sb_quit :: "('w, unit) prog"

record smtp_account =
  sa_host :: string
  sa_port :: int
  sa_user :: "string option"
  sa_password :: "string option"
  sa_starttls :: bool
  sa_ssl :: bool

text \<open>\<open>send\<close>: \<open>SMTPException\<close> is a class of \<open>OSError\<close>.\<close>

definition smtp_submit :: "'w smtp_lib \<Rightarrow> smtp_account \<Rightarrow> string \<Rightarrow> string \<Rightarrow> string list \<Rightarrow> ('w, unit) prog" where
  "smtp_submit L A raw sender recipients =
     seqE (if sa_starttls A \<and> \<not> sa_ssl A then sb_starttls L else ret ())
       (seqE (if truthy (sa_user A) \<and> truthy (sa_password A) then sb_login L (the (sa_user A)) (the (sa_password A)) else ret ())
         (sb_sendmail L sender recipients raw))"

definition smtp_send :: "'w smtp_lib \<Rightarrow> smtp_account \<Rightarrow> string \<Rightarrow> string \<Rightarrow> string list \<Rightarrow> ('w, unit) prog" where
  "smtp_send L A raw sender recipients =
     seqE (sb_open L (sa_ssl A) (sa_host A) (sa_port A))
       (finallyE
         (bindE (attempt (smtp_submit L A raw sender recipients)) (\<lambda>r.
            case r of Inl e \<Rightarrow> raise (if is_OSError e then SmtpError (exn_text e) else e) | Inr _ \<Rightarrow> ret ()))
         (suppress is_OSError (sb_quit L)))"

section \<open>Messages\<close>

text \<open>
  A part of a message: its text as \<open>get_content\<close> gives it (\<open>None\<close> if that is no text), its decoded payload, and the
  payload as text with replacements. The parts of a message are those \<open>walk\<close> gives, the message itself first.
\<close>

record mime_part =
  mp_multipart :: bool
  mp_filename :: "string option"
  mp_disposition :: "string option"
  mp_content_type :: string
  mp_content :: "exn + string option"
  mp_payload :: "string option"
  mp_lenient :: string

record mime_message =
  mm_items :: "(string \<times> string) list"
  mm_self :: mime_part
  mm_inner :: "mime_part list"

definition header :: "mime_message \<Rightarrow> string \<Rightarrow> string option" where
  "header m name = map_option snd (List.find (\<lambda>(k, _). lower k = lower name) (mm_items m))"

fun is_LookupError :: "exn \<Rightarrow> bool" where
  "is_LookupError (LookupError _) = True"
| "is_LookupError (KeyError _) = True"
| "is_LookupError (IndexError _) = True"
| "is_LookupError _ = False"

fun is_ValueError :: "exn \<Rightarrow> bool" where
  "is_ValueError (ValueError _) = True"
| "is_ValueError (JSONDecodeError _) = True"
| "is_ValueError _ = False"

definition part_text :: "mime_part \<Rightarrow> exn + string option" where
  "part_text p =
     (case mp_content p of
        Inl e \<Rightarrow> if is_LookupError e \<or> is_ValueError e then Inr (if truthy (mp_payload p) then Some (mp_lenient p) else None) else Inl e
      | Inr t \<Rightarrow> Inr t)"

definition is_attached :: "mime_part \<Rightarrow> bool" where
  "is_attached p \<longleftrightarrow> lower (or_else (mp_disposition p) []) = ''attachment'' \<or> truthy (mp_filename p)"

definition part_attachment :: "mime_part \<Rightarrow> attachment" where
  "part_attachment p =
     \<lparr>at_name = or_else (mp_filename p) ''attachment'', at_content_type = mp_content_type p,
      at_size = int (length (or_else (mp_payload p) []))\<rparr>"

fun walk_parts :: "mime_part list \<Rightarrow> string option \<Rightarrow> attachment list \<Rightarrow> exn + string option \<times> attachment list" where
  "walk_parts [] text atts = Inr (text, atts)"
| "walk_parts (p # ps) text atts =
     (if mp_multipart p then walk_parts ps text atts
      else if is_attached p then walk_parts ps text (atts @ [part_attachment p])
      else if text = None \<and> mp_content_type p = ''text/plain'' then bindR (part_text p) (\<lambda>t. walk_parts ps t atts)
      else walk_parts ps text atts)"

definition extract_body :: "mime_message \<Rightarrow> exn + string \<times> attachment list" where
  "extract_body m =
     bindR (walk_parts (mm_self m # mm_inner m) None []) (\<lambda>(text, atts).
       bindR (if text = None then part_text (mm_self m) else Inr text) (\<lambda>t. Inr (or_else t [], atts)))"

definition collect_headers :: "(string \<times> string) list \<Rightarrow> (string, string) dict" where
  "collect_headers items = fold (\<lambda>(k, v). add_header k v) items []"

text \<open>A date with an offset or, when the header has \<open>-0000\<close>, without one; the two cannot be compared.\<close>

datatype stamp = Aware time | Naive time

fun stamp_time :: "stamp \<Rightarrow> time" where
  "stamp_time (Aware t) = t"
| "stamp_time (Naive t) = t"

fun is_aware :: "stamp \<Rightarrow> bool" where
  "is_aware (Aware t) = True"
| "is_aware (Naive t) = False"

text \<open>The library calls on a message.\<close>

record email_lib =
  em_parse :: "string \<Rightarrow> mime_message"
  em_address :: "string \<Rightarrow> string"
  em_date :: "string \<Rightarrow> exn + stamp"
  em_sha256 :: "string \<Rightarrow> string"

fun is_TypeError :: "exn \<Rightarrow> bool" where
  "is_TypeError (TypeError _) = True"
| "is_TypeError _ = False"

definition mail_stamp :: "email_lib \<Rightarrow> time \<Rightarrow> mime_message \<Rightarrow> exn + stamp" where
  "mail_stamp E now m =
     (if truthy (header m ''Date'')
      then case em_date E (the (header m ''Date'')) of
             Inl e \<Rightarrow> if is_TypeError e \<or> is_ValueError e then Inr (Aware now) else Inl e
           | Inr d \<Rightarrow> Inr d
      else Inr (Aware now))"

definition fallback_id :: "email_lib \<Rightarrow> string \<Rightarrow> string" where
  "fallback_id E raw = ''<imap-'' @ take 32 (em_sha256 E raw) @ CHR 0x40 # ''dear-agent>''"

definition or_none :: "string \<Rightarrow> string option" where
  "or_none s = (if s = [] then None else Some s)"

definition parse_mail :: "email_lib \<Rightarrow> time \<Rightarrow> string \<Rightarrow> exn + stamp \<times> raw_message" where
  "parse_mail E now raw =
     (let m = em_parse E raw;
          message_id = strip (or_else (header m ''Message-ID'') []);
          in_reply_to = strip (or_else (header m ''In-Reply-To'') []);
          references = strip (or_else (header m ''References'') []);
          thread_id = (if in_reply_to \<noteq> [] then Some in_reply_to else if references \<noteq> [] then Some (last (split_ws references)) else None)
      in bindR (extract_body m) (\<lambda>(body, atts). bindR (mail_stamp E now m) (\<lambda>d.
           Inr (d,
             \<lparr>rm_transport_id = (if message_id \<noteq> [] then message_id else fallback_id E raw), rm_thread_id = thread_id,
              rm_sender = or_none (em_address E (or_else (header m ''From'') [])), rm_subject = header m ''Subject'', rm_body = body,
              rm_attachments = atts, rm_headers = collect_headers (mm_items m), rm_received_at = stamp_time d\<rparr>))))"

section \<open>The transport\<close>

record 'c imap_ops =
  io_connect :: "('c, unit) prog"
  io_select :: "string \<Rightarrow> ('c, unit) prog"
  io_unread :: "('c, string list) prog"
  io_fetch :: "string \<Rightarrow> ('c, string) prog"
  io_move :: "string \<Rightarrow> string \<Rightarrow> ('c, unit) prog"
  io_close :: "('c, unit) prog"

definition imap_client_ops :: "'w imap_lib \<Rightarrow> imap_account \<Rightarrow> ('w \<times> bool) imap_ops" where
  "imap_client_ops L A =
     \<lparr>io_connect = imap_connect L A, io_select = (\<lambda>mailbox. imap_select L mailbox True), io_unread = imap_unread L,
      io_fetch = imap_fetch L, io_move = imap_move L, io_close = imap_close L\<rparr>"

record imap_transport =
  it_mailbox :: string
  it_done_mailbox :: string
  it_sender :: string

record 'c imap_state =
  is_client :: 'c
  is_pending :: "(string, string) dict"
  is_connected :: bool

definition on_client :: "('c, 'a) prog \<Rightarrow> ('c imap_state, 'a) prog" where
  "on_client = on_part is_client (\<lambda>c s. s\<lparr>is_client := c\<rparr>)"

definition ensure_connected :: "'c imap_ops \<Rightarrow> ('c imap_state, unit) prog" where
  "ensure_connected I =
     bindE (asks is_connected) (\<lambda>b. if b then ret () else seqE (on_client (io_connect I)) (modify (\<lambda>s. s\<lparr>is_connected := True\<rparr>)))"

definition disconnect :: "'c imap_ops \<Rightarrow> ('c imap_state, unit) prog" where
  "disconnect I =
     bindE (asks is_connected) (\<lambda>b. if \<not> b then ret () else seqE (on_client (io_close I)) (modify (\<lambda>s. s\<lparr>is_connected := False\<rparr>)))"

fun fetch_mails ::
  "'c imap_ops \<Rightarrow> email_lib \<Rightarrow> time \<Rightarrow> string list \<Rightarrow> ('c imap_state, (stamp \<times> raw_message) list) prog" where
  "fetch_mails I E now [] = ret []"
| "fetch_mails I E now (uid # uids) =
     bindE (on_client (io_fetch I uid)) (\<lambda>raw. bindE (liftR (parse_mail E now raw)) (\<lambda>p.
       seqE (modify (\<lambda>s. s\<lparr>is_pending := dict_set (rm_transport_id (snd p)) uid (is_pending s)\<rparr>))
         (bindE (fetch_mails I E now uids) (\<lambda>ps. ret (p # ps)))))"

text \<open>\<open>messages.sort(key=...)\<close> on dates: with dates of both kinds some comparison raises.\<close>

definition sort_mails :: "(stamp \<times> raw_message) list \<Rightarrow> exn + raw_message list" where
  "sort_mails ps =
     (if (\<exists>p \<in> set ps. is_aware (fst p)) \<and> (\<exists>p \<in> set ps. \<not> is_aware (fst p))
      then Inl (TypeError (''can'' @ [CHR 0x27] @ ''t compare offset-naive and offset-aware datetimes''))
      else Inr (map snd (sort_key (stamp_time \<circ> fst) ps)))"

definition poll_body :: "'c imap_ops \<Rightarrow> email_lib \<Rightarrow> time \<Rightarrow> imap_transport \<Rightarrow> int \<Rightarrow> ('c imap_state, raw_message list) prog" where
  "poll_body I E now T limit =
     seqE (on_client (io_select I (it_mailbox T)))
       (bindE (on_client (io_unread I)) (\<lambda>uids.
         bindE (fetch_mails I E now (slice_to limit uids)) (\<lambda>ps.
           bindE (liftR (sort_mails ps)) (\<lambda>ms.
             seqE (if ms = [] then disconnect I else ret ()) (ret ms)))))"

definition imap_poll :: "'c imap_ops \<Rightarrow> email_lib \<Rightarrow> time \<Rightarrow> imap_transport \<Rightarrow> int \<Rightarrow> ('c imap_state, raw_message list) prog" where
  "imap_poll I E now T limit =
     seqE (ensure_connected I)
       (bindE (attempt (poll_body I E now T limit)) (\<lambda>r.
         case r of Inl e \<Rightarrow> seqE (disconnect I) (raise e) | Inr ms \<Rightarrow> ret ms))"

fun move_each :: "'c imap_ops \<Rightarrow> imap_transport \<Rightarrow> raw_message list \<Rightarrow> ('c imap_state, unit) prog" where
  "move_each I T [] = ret ()"
| "move_each I T (m # ms) =
     bindE (asks (\<lambda>s. dict_get (is_pending s) (rm_transport_id m))) (\<lambda>found.
       seqE (modify (\<lambda>s. s\<lparr>is_pending := filter (\<lambda>(k, _). k \<noteq> rm_transport_id m) (is_pending s)\<rparr>))
         (seqE (case found of
                  None \<Rightarrow> ret ()
                | Some uid \<Rightarrow> seqE (attempt (on_client (io_move I uid (it_done_mailbox T)))) (ret ()))
            (move_each I T ms)))"

definition imap_ack :: "'c imap_ops \<Rightarrow> imap_transport \<Rightarrow> raw_message list \<Rightarrow> ('c imap_state, unit) prog" where
  "imap_ack I T ms =
     bindE (asks is_pending) (\<lambda>pending.
       if ms = [] \<or> pending = [] then disconnect I
       else finallyE (seqE (on_client (io_select I (it_mailbox T))) (move_each I T ms)) (disconnect I))"

text \<open>\<open>send\<close>; \<open>build\<close> makes a message of its headers and its text, or raises as \<open>EmailMessage\<close> does for a header with a line break.\<close>

definition mail_out_headers :: "imap_transport \<Rightarrow> string \<Rightarrow> outbound \<Rightarrow> string \<Rightarrow> (string \<times> string) list" where
  "mail_out_headers T msgid m recipient =
     [(''From'', it_sender T), (''To'', recipient), (''Subject'', ob_subject m), (''Message-ID'', msgid)] @
     (case dict_get (ob_headers m) ''in-reply-to'' of
        Some r \<Rightarrow> if r \<noteq> [] then [(''In-Reply-To'', r), (''References'', r)] else []
      | None \<Rightarrow> [])"

definition imap_send ::
  "((string \<times> string) list \<Rightarrow> string \<Rightarrow> exn + string) \<Rightarrow> (string \<Rightarrow> string \<Rightarrow> string list \<Rightarrow> ('w, unit) prog) \<Rightarrow> string \<Rightarrow> imap_transport \<Rightarrow>
    outbound \<Rightarrow> ('w, unit) prog" where
  "imap_send build smtp msgid T m =
     (case dict_get (ob_headers m) ''to'' of
        None \<Rightarrow> raise (ValueError (''outbound message needs a '' @ py_repr ''to'' @ '' header''))
      | Some recipient \<Rightarrow>
          if recipient = [] then raise (ValueError (''outbound message needs a '' @ py_repr ''to'' @ '' header''))
          else bindE (liftR (build (mail_out_headers T msgid m recipient) (ob_body m))) (\<lambda>raw. smtp raw (it_sender T) [recipient]))"

section \<open>Connections are given back\<close>

lemma bind_ok: "bindE p f s = (Inr y, s') \<longleftrightarrow> (\<exists>x s1. p s = (Inr x, s1) \<and> f x s1 = (Inr y, s'))"
  by (auto simp: bindE_def split: prod.splits sum.splits)

lemma bind_fails: "bindE p f s = (Inl e, s') \<longleftrightarrow> p s = (Inl e, s') \<or> (\<exists>x s1. p s = (Inr x, s1) \<and> f x s1 = (Inl e, s'))"
  by (auto simp: bindE_def split: prod.splits sum.splits)

lemma disconnect_done:
  assumes "\<And>c. fst (io_close I c) = Inr ()"
  shows "\<exists>s'. disconnect I s = (Inr (), s') \<and> \<not> is_connected s'"
proof -
  obtain c' where "io_close I (is_client s) = (Inr (), c')" using assms [of "is_client s"] by (cases "io_close I (is_client s)") auto
  then show ?thesis by (auto simp: disconnect_def on_client_def on_part_def seqE_def bindE_def)
qed

lemma connected_kept: "fetch_mails I E now uids s = (r, s') \<Longrightarrow> is_connected s' = is_connected s"
proof (induction uids arbitrary: s r)
  case (Cons u us)
  then show ?case
    by (fastforce simp: bindE_def seqE_def on_client_def on_part_def split: prod.splits sum.splits)
qed simp

lemma poll_body_connected:
  assumes "\<And>c. fst (io_close I c) = Inr ()" and "poll_body I E now T limit s = (Inr ms, s')"
  shows "is_connected s' \<longrightarrow> ms \<noteq> []"
proof -
  obtain s1 where "(if ms = [] then disconnect I else ret ()) s1 = (Inr (), s')"
    using assms(2) by (auto simp: poll_body_def seqE_def bind_ok)
  then show ?thesis using disconnect_done [OF assms(1), of s1] by (auto split: if_splits)
qed


lemma suppress_done: "caught e \<Longrightarrow> p s = (Inl e, s') \<Longrightarrow> suppress caught p s = (Inr (), s')" "p s = (Inr (), s') \<Longrightarrow> suppress caught p s = (Inr (), s')"
  by (simp_all add: suppress_def bindE_def attempt_def)

section \<open>Mail is lost when a poll fails\<close>

text \<open>
  What IMAP says of the unread mails of the selected mailbox: a search for unread mails lists only those, fetching \<open>RFC822\<close>
  marks a mail as read, and no call of the client makes a mail unread.
\<close>

definition imap_laws :: "'w imap_lib \<Rightarrow> ('w \<Rightarrow> string set) \<Rightarrow> bool" where
  "imap_laws L unread \<longleftrightarrow>
     (\<forall>w st d ds w'. ib_search L w = (Inr (st, d # ds), w') \<longrightarrow> set (split_ws d) \<subseteq> unread w) \<and>
     (\<forall>u w data w'. ib_fetch L u w = (Inr (''OK'', data), w') \<longrightarrow> u \<notin> unread w') \<and>
     (\<forall>w tls host port user password mb u.
        unread (snd (ib_open L tls host port w)) \<subseteq> unread w \<and> unread (snd (ib_login L user password w)) \<subseteq> unread w \<and>
        unread (snd (ib_select L mb w)) \<subseteq> unread w \<and> unread (snd (ib_create L mb w)) \<subseteq> unread w \<and>
        unread (snd (ib_search L w)) \<subseteq> unread w \<and> unread (snd (ib_fetch L u w)) \<subseteq> unread w \<and>
        unread (snd (ib_close L w)) \<subseteq> unread w \<and> unread (snd (ib_logout L w)) \<subseteq> unread w)"

definition fewer :: "('w \<Rightarrow> string set) \<Rightarrow> 'w \<times> bool \<Rightarrow> 'w \<times> bool \<Rightarrow> bool" where
  "fewer unread c c' \<longleftrightarrow> unread (fst c') \<subseteq> unread (fst c)"

lemma fewer_order: "reflp (fewer unread)" "transp (fewer unread)"
  by (auto simp: fewer_def intro: reflpI transpI)

lemmas keeps_fewer = keeps_bind [OF fewer_order(2)] keeps_seq [OF fewer_order(2)] keeps_ret [OF fewer_order(1)]

lemma fewer_conn: "(\<And>w. unread (snd (p w)) \<subseteq> unread w) \<Longrightarrow> keeps (fewer unread) (on_conn p)"
  by (auto simp: keeps_def fewer_def on_conn_def on_part_def case_prod_unfold)

lemma fewer_set: "keeps (fewer unread) (set_conn b)" "keeps (fewer unread) require_conn"
  by (auto simp: keeps_def fewer_def set_conn_def require_conn_def)

lemma fewer_suppress: "keeps (fewer unread) p \<Longrightarrow> keeps (fewer unread) (suppress caught p)"
  unfolding suppress_def by (intro keeps_fewer) (auto intro: keeps_fewer split: sum.split)

lemma client_reads:
  assumes "imap_laws L unread"
  shows "keeps (fewer unread) (imap_connect L A)" "keeps (fewer unread) (imap_select L mb create)"
    "keeps (fewer unread) (imap_unread L)" "keeps (fewer unread) (imap_fetch L u)" "keeps (fewer unread) (imap_close L)"
proof -
  note ops = fewer_conn fewer_set fewer_suppress keeps_fewer
  show "keeps (fewer unread) (imap_connect L A)" unfolding imap_connect_def
    by (intro ops) (use assms in \<open>simp_all add: imap_laws_def\<close>)
  have "keeps (fewer unread) (if st \<noteq> ''OK'' \<and> create then seqE (on_conn (ib_create L mb)) (on_conn (ib_select L mb)) else ret st)" for st
  proof (cases "st \<noteq> ''OK'' \<and> create")
    case True
    have "keeps (fewer unread) (seqE (on_conn (ib_create L mb)) (on_conn (ib_select L mb)))"
      by (intro ops) (use assms in \<open>simp_all add: imap_laws_def\<close>)
    then show ?thesis using True by simp
  next
    case False then show ?thesis by (auto intro: ops)
  qed
  moreover have "keeps (fewer unread) (on_conn (ib_select L mb))"
    by (intro ops) (use assms in \<open>simp_all add: imap_laws_def\<close>)
  ultimately show "keeps (fewer unread) (imap_select L mb create)" unfolding imap_select_def
    by (intro ops) (use assms in \<open>auto simp: imap_laws_def intro: ops\<close>)
  show "keeps (fewer unread) (imap_unread L)" unfolding imap_unread_def
    by (intro ops) (use assms in \<open>auto simp: imap_laws_def intro: ops\<close>)
  show "keeps (fewer unread) (imap_fetch L u)" unfolding imap_fetch_def
    by (intro ops) (use assms in \<open>auto simp: imap_laws_def intro: ops split: option.split\<close>)
  have "keeps (fewer unread) (suppress is_imap_error (on_conn (ib_close L)))" "keeps (fewer unread) (suppress is_imap_error (on_conn (ib_logout L)))"
    by (intro ops; use assms in \<open>simp add: imap_laws_def\<close>)+
  then show "keeps (fewer unread) (imap_close L)" unfolding imap_close_def
    by (intro ops) (auto intro: ops)
qed

lemma fetch_marks:
  assumes "imap_laws L unread" and "imap_fetch L u c = (Inr raw, c')"
  shows "u \<notin> unread (fst c')"
proof -
  obtain w b where c: "c = (w, b)" by fastforce
  obtain data w' where f: "ib_fetch L u w = (Inr (''OK'', data), w')" "fst c' = w'"
    using assms(2) c by (cases "ib_fetch L u w")
      (auto simp: imap_fetch_def bind_ok seqE_def on_conn_def on_part_def require_conn_def split: if_split_asm option.splits)
  then show ?thesis using assms(1) by (simp add: imap_laws_def)
qed

text \<open>The same on the state of the transport.\<close>

definition batch_read :: "('w \<Rightarrow> string set) \<Rightarrow> ('w \<times> bool) imap_state \<Rightarrow> string set" where
  "batch_read unread s = unread (fst (is_client s))"

lemma fetch_reads:
  assumes "imap_laws L unread" and "fetch_mails (imap_client_ops L A) E now us s = (Inr ps, s')"
  shows "batch_read unread s' \<subseteq> batch_read unread s - set us"
  using assms(2)
proof (induction us arbitrary: s ps)
  case (Cons u us)
  obtain raw c1 where f: "imap_fetch L u (is_client s) = (Inr raw, c1)"
    using Cons.prems by (auto simp: bind_ok on_client_def on_part_def imap_client_ops_def split: prod.splits)
  obtain p where p: "parse_mail E now raw = Inr p"
    using Cons.prems f by (cases "parse_mail E now raw") (auto simp: bindE_def on_client_def on_part_def imap_client_ops_def)
  obtain ps1 where s1: "fetch_mails (imap_client_ops L A) E now us
      (s\<lparr>is_client := c1, is_pending := dict_set (rm_transport_id (snd p)) u (is_pending s)\<rparr>) = (Inr ps1, s')"
    using Cons.prems f p by (auto simp: bind_ok seqE_def on_client_def on_part_def imap_client_ops_def)
  have "unread (fst c1) \<subseteq> unread (fst (is_client s)) - {u}"
    using keepsD [OF client_reads(4) [OF assms(1)] f] fetch_marks [OF assms(1) f] by (auto simp: fewer_def)
  then show ?case using Cons.IH [OF s1] by (auto simp: batch_read_def)
qed simp


section \<open>Headers\<close>

text \<open>A header as JMAP hands it over.\<close>

definition jmap_header :: "string \<times> string \<Rightarrow> json" where
  "jmap_header h = JObj [(''name'', JStr (fst h)), (''value'', JStr (snd h))]"

lemma to_headers_items:
  "\<forall>h \<in> set hs. fst h \<noteq> [] \<Longrightarrow> to_headers (map jmap_header hs) H = Inr (fold (\<lambda>(k, v). add_header k v) hs H)"
  by (induction hs arbitrary: H) (auto simp: jmap_header_def as_dict_def get_or_def as_text_def bindR_def Let_def)

text \<open>
  The mail authentication gate sees the same headers over IMAP and over JMAP: both transports collect the headers of a message to the
  same dictionary.
\<close>

theorem imap_headers_are_jmap_headers:
  assumes "\<forall>h \<in> set items. fst h \<noteq> []"
  shows "to_headers (map jmap_header items) [] = Inr (collect_headers items)"
  using to_headers_items [OF assms] by (simp add: collect_headers_def)

section \<open>Attachments\<close>

lemma walk_attachments:
  "walk_parts ps t as = Inr (t', as') \<Longrightarrow> as' = as @ map part_attachment (filter (\<lambda>p. \<not> mp_multipart p \<and> is_attached p) ps)"
  by (induction ps t as arbitrary: t' as' rule: walk_parts.induct) (auto simp: bindR_Inr split: if_split_asm)

text \<open>
  No attachment of a mail is missed: the message that is delivered has one attachment for each part with a file name or the disposition
  \<open>attachment\<close>, in their order, which is what makes the normalizer refuse it.
\<close>

theorem imap_attachments_complete:
  assumes "parse_mail E now raw = Inr (d, m)"
  shows "rm_attachments m = map part_attachment
      (filter (\<lambda>p. \<not> mp_multipart p \<and> is_attached p) (mm_self (em_parse E raw) # mm_inner (em_parse E raw)))"
proof -
  obtain t where "walk_parts (mm_self (em_parse E raw) # mm_inner (em_parse E raw)) None [] = Inr (t, rm_attachments m)"
    using assms by (auto simp: parse_mail_def extract_body_def bindR_Inr Let_def)
  from walk_attachments [OF this] show ?thesis by simp
qed

section \<open>The password of the outgoing server\<close>

text \<open>The calls that reached the server: an opened connection, with TLS or not, and a session upgraded by STARTTLS if they succeeded.\<close>

datatype smtp_event = Opened bool | StartedTls | LoggedIn | Submitted | Quit

definition then_logs :: "smtp_event \<Rightarrow> ('w, unit) prog \<Rightarrow> ('w \<times> smtp_event list, unit) prog" where
  "then_logs ev p = (\<lambda>(w, es). case p w of (Inl e, w') \<Rightarrow> (Inl e, w', es) | (Inr x, w') \<Rightarrow> (Inr x, w', es @ [ev]))"

definition logs_call :: "smtp_event \<Rightarrow> ('w, unit) prog \<Rightarrow> ('w \<times> smtp_event list, unit) prog" where
  "logs_call ev p = (\<lambda>(w, es). case p w of (r, w') \<Rightarrow> (r, w', es @ [ev]))"

definition recorded_smtp :: "'w smtp_lib \<Rightarrow> ('w \<times> smtp_event list) smtp_lib" where
  "recorded_smtp L =
     \<lparr>sb_open = (\<lambda>tls host port. then_logs (Opened tls) (sb_open L tls host port)), sb_starttls = then_logs StartedTls (sb_starttls L),
      sb_login = (\<lambda>user password. logs_call LoggedIn (sb_login L user password)),
      sb_sendmail = (\<lambda>sender recipients raw. logs_call Submitted (sb_sendmail L sender recipients raw)), sb_quit = logs_call Quit (sb_quit L)\<rparr>"

text \<open>Passwords and mail only go to a server over TLS.\<close>

fun tls_first :: "bool \<Rightarrow> smtp_event list \<Rightarrow> bool" where
  "tls_first tls [] = True"
| "tls_first tls (Opened b # es) = tls_first b es"
| "tls_first tls (StartedTls # es) = tls_first True es"
| "tls_first tls (LoggedIn # es) = (tls \<and> tls_first tls es)"
| "tls_first tls (Submitted # es) = (tls \<and> tls_first tls es)"
| "tls_first tls (Quit # es) = tls_first tls es"

lemma then_logs_cases:
  obtains (failed) e w' where "then_logs ev p (w, es) = (Inl e, w', es)" | (went_on) w' where "then_logs ev p (w, es) = (Inr (), w', es @ [ev])"
  by (cases "p w"; cases "fst (p w)") (auto simp: then_logs_def)

lemma logs_call_cases: obtains r w' where "logs_call ev p (w, es) = (r, w', es @ [ev])"
  by (cases "p w") (auto simp: logs_call_def)

lemma submit_events:
  assumes "sa_starttls A \<or> sa_ssl A"
  shows "\<exists>r w' es. smtp_submit (recorded_smtp L) A raw sender rcpts (w, [Opened (sa_ssl A)]) = (r, w', Opened (sa_ssl A) # es) \<and> tls_first (sa_ssl A) es"
proof -
  have rest: "\<exists>r w' es'. seqE (if truthy (sa_user A) \<and> truthy (sa_password A) then sb_login (recorded_smtp L) (the (sa_user A)) (the (sa_password A)) else ret ())
       (sb_sendmail (recorded_smtp L) sender rcpts raw) (w, es) = (r, w', es @ es') \<and> tls_first True es'" for w es
  proof -
    obtain r1 w1 where l: "sb_login (recorded_smtp L) (the (sa_user A)) (the (sa_password A)) (w, es) = (r1, w1, es @ [LoggedIn])"
      by (rule logs_call_cases [of LoggedIn "sb_login L (the (sa_user A)) (the (sa_password A))" w es]) (simp add: recorded_smtp_def)
    have send: "\<exists>r2 w2. sb_sendmail (recorded_smtp L) sender rcpts raw (w, es) = (r2, w2, es @ [Submitted])" for w es
      by (rule logs_call_cases [of Submitted "sb_sendmail L sender rcpts raw" w es]) (simp add: recorded_smtp_def)
    show ?thesis
    proof (cases "truthy (sa_user A) \<and> truthy (sa_password A)")
      case True
      then show ?thesis using l send [of w1 "es @ [LoggedIn]"] by (cases r1) (auto simp: seqE_def bindE_def)
    next
      case False then show ?thesis using send [of w es] by (auto simp: seqE_def)
    qed
  qed
  show ?thesis
  proof (cases "sa_starttls A \<and> \<not> sa_ssl A")
    case True
    show ?thesis
    proof (rule then_logs_cases [of StartedTls "sb_starttls L" w "[Opened (sa_ssl A)]"])
      fix e w' assume "then_logs StartedTls (sb_starttls L) (w, [Opened (sa_ssl A)]) = (Inl e, w', [Opened (sa_ssl A)])"
      then show ?thesis using True by (auto simp: smtp_submit_def recorded_smtp_def seqE_def bindE_def)
    next
      fix w' assume t: "then_logs StartedTls (sb_starttls L) (w, [Opened (sa_ssl A)]) = (Inr (), w', [Opened (sa_ssl A)] @ [StartedTls])"
      have "sb_starttls (recorded_smtp L) (w, [Opened (sa_ssl A)]) = (Inr (), w', [Opened (sa_ssl A), StartedTls])"
        using t by (simp add: recorded_smtp_def)
      then show ?thesis using True rest [of w' "[Opened (sa_ssl A), StartedTls]"] by (auto simp: smtp_submit_def seqE_Inr)
    qed
  next
    case False
    then have "sa_ssl A" using assms by blast
    then show ?thesis using rest [of w "[Opened (sa_ssl A)]"] by (auto simp: smtp_submit_def seqE_def)
  qed
qed

text \<open>
  C34. With STARTTLS or TLS on, as by default, the password and the mail go out over TLS only, whatever the server answers, and every
  connection that was opened is closed at the end.
\<close>

theorem smtp_secrets_over_tls:
  assumes "sa_starttls A \<or> sa_ssl A" and "smtp_send (recorded_smtp L) A raw sender rcpts (w, []) = (r, w', es)"
  shows "tls_first False es \<and> (es \<noteq> [] \<longrightarrow> last es = Quit)"
proof (rule then_logs_cases [of "Opened (sa_ssl A)" "sb_open L (sa_ssl A) (sa_host A) (sa_port A)" w "[]"])
  fix e w1 assume "then_logs (Opened (sa_ssl A)) (sb_open L (sa_ssl A) (sa_host A) (sa_port A)) (w, []) = (Inl e, w1, [])"
  then show ?thesis using assms(2) by (auto simp: smtp_send_def recorded_smtp_def seqE_def bindE_def)
next
  fix w1 assume "then_logs (Opened (sa_ssl A)) (sb_open L (sa_ssl A) (sa_host A) (sa_port A)) (w, []) = (Inr (), w1, [] @ [Opened (sa_ssl A)])"
  then have o: "sb_open (recorded_smtp L) (sa_ssl A) (sa_host A) (sa_port A) (w, []) = (Inr (), w1, [Opened (sa_ssl A)])"
    by (simp add: recorded_smtp_def)
  obtain r2 w2 es2 where s: "smtp_submit (recorded_smtp L) A raw sender rcpts (w1, [Opened (sa_ssl A)]) = (r2, w2, Opened (sa_ssl A) # es2)"
      "tls_first (sa_ssl A) es2"
    using submit_events [OF assms(1), of L raw sender rcpts w1] by metis
  obtain r3 w3 where q: "sb_quit (recorded_smtp L) (w2, Opened (sa_ssl A) # es2) = (r3, w3, (Opened (sa_ssl A) # es2) @ [Quit])"
    by (rule logs_call_cases [of Quit "sb_quit L" w2 "Opened (sa_ssl A) # es2"]) (simp add: recorded_smtp_def)
  have "es = (Opened (sa_ssl A) # es2) @ [Quit]"
    using assms(2) o s(1) q by (cases r2; cases r3)
      (auto simp: smtp_send_def seqE_def finallyE_def suppress_def bindE_def attempt_def split: if_split_asm)
  moreover have "tls_first b es \<Longrightarrow> tls_first b (es @ [Quit])" for b es
    by (induction b es rule: tls_first.induct) auto
  ultimately show ?thesis using s(2) by simp
qed

section \<open>Witnesses\<close>

text \<open>A server whose state is its unread mails, named by a character each; a mail's text is its name.\<close>

definition ex_imap_lib :: "string imap_lib" where
  "ex_imap_lib =
     \<lparr>ib_open = (\<lambda>_ _ _. ret ()), ib_login = (\<lambda>_ _. ret ()), ib_select = (\<lambda>_. ret ''OK''), ib_create = (\<lambda>_. ret ()),
      ib_search = (\<lambda>w. (Inr (''OK'', [concat (map (\<lambda>c. [c, CHR '' '']) w)]), w)),
      ib_fetch = (\<lambda>u w. (Inr (''OK'', [Some u]), filter (\<lambda>c. [c] \<noteq> u) w)), ib_copy = (\<lambda>_ _. ret ''OK''), ib_delete = (\<lambda>_. ret ()),
      ib_expunge = ret (), ib_close = ret (), ib_logout = ret ()\<rparr>"

definition ex_unread :: "string \<Rightarrow> string set" where
  "ex_unread w = set (map (\<lambda>c. [c]) w)"

lemma listed_words: "set (split_ws_acc [] (concat (map (\<lambda>c. [c, CHR '' '']) w))) \<subseteq> ex_unread w"
proof (induction w)
  case (Cons c w)
  have "isspace (CHR '' '')" by (simp add: isspace_def code_def)
  then show ?case using Cons by (auto simp: ex_unread_def)
qed (simp add: ex_unread_def)

lemma ex_laws: "imap_laws ex_imap_lib ex_unread"
  using listed_words by (auto simp: imap_laws_def ex_imap_lib_def split_ws_def) (auto simp: ex_unread_def)

definition ex_account :: imap_account where
  "ex_account = \<lparr>ia_host = ''h'', ia_user = ''u'', ia_password = ''p'', ia_port = 993, ia_ssl = True\<rparr>"

definition ex_part :: mime_part where
  "ex_part =
     \<lparr>mp_multipart = False, mp_filename = None, mp_disposition = None, mp_content_type = ''text/plain'', mp_content = Inr (Some ''hi''),
      mp_payload = None, mp_lenient = []\<rparr>"

definition ex_email :: email_lib where
  "ex_email =
     \<lparr>em_parse = (\<lambda>raw. \<lparr>mm_items = [(''Date'', raw)], mm_self = ex_part, mm_inner = []\<rparr>), em_address = id,
      em_date = (\<lambda>d. Inr (if d = ''1'' then Aware 5 else Naive 6)), em_sha256 = id\<rparr>"

definition ex_mailbox :: imap_transport where
  "ex_mailbox = \<lparr>it_mailbox = ''INBOX'', it_done_mailbox = ''Done'', it_sender = ''a''\<rparr>"

definition ex_inbox_state :: "(string \<times> bool) imap_state" where
  "ex_inbox_state = \<lparr>is_client = (''12'', False), is_pending = [], is_connected = False\<rparr>"

abbreviation ex_ops :: "(string \<times> bool) imap_ops" where
  "ex_ops \<equiv> imap_client_ops ex_imap_lib ex_account"

lemma ex_mail_listed:
  "seqE (ensure_connected ex_ops) (seqE (on_client (io_select ex_ops (it_mailbox ex_mailbox))) (on_client (io_unread ex_ops))) ex_inbox_state =
    (Inr [''1'', ''2''], \<lparr>is_client = (''12'', True), is_pending = [], is_connected = True\<rparr>)"
  by code_simp

lemma ex_fetched:
  "case fetch_mails ex_ops ex_email 0 (slice_to 50 [''1'', ''2'']) \<lparr>is_client = (''12'', True), is_pending = [], is_connected = True\<rparr> of
     (Inr ps, s2) \<Rightarrow> map fst ps = [Aware 5, Naive 6]
   | _ \<Rightarrow> False"
  by code_simp


text \<open>A mailbox that cannot be selected.\<close>

definition ex_broken :: "unit imap_ops" where
  "ex_broken =
     \<lparr>io_connect = ret (), io_select = (\<lambda>_. raise (ImapError ''gone'')), io_unread = ret [], io_fetch = (\<lambda>_. ret []), io_move = (\<lambda>_ _. ret ()),
      io_close = ret ()\<rparr>"


theorem imap_headers_are_jmap_headers_witness:
  "to_headers [jmap_header (''To'', ''a''), jmap_header (''to'', ''b'')] [] = Inr (collect_headers [(''To'', ''a''), (''to'', ''b'')])"
  using imap_headers_are_jmap_headers [of "[(''To'', ''a''), (''to'', ''b'')]"] by simp

definition ex_patch :: mime_part where
  "ex_patch = ex_part\<lparr>mp_filename := Some ''fix.diff''\<rparr>"

definition ex_attached :: email_lib where
  "ex_attached = ex_email\<lparr>em_parse := (\<lambda>raw. \<lparr>mm_items = [], mm_self = ex_part, mm_inner = [ex_patch]\<rparr>)\<rparr>"

lemma ex_parsed: "case parse_mail ex_attached 0 ''raw'' of Inl _ \<Rightarrow> False | Inr _ \<Rightarrow> True"
  by code_simp

theorem imap_attachments_complete_witness:
  "case parse_mail ex_attached 0 ''raw'' of Inl _ \<Rightarrow> False | Inr (d, m) \<Rightarrow> has_attachments m"
proof -
  obtain d m where p: "parse_mail ex_attached 0 ''raw'' = Inr (d, m)" using ex_parsed by (auto split: sum.splits)
  have "rm_attachments m = [part_attachment ex_patch]"
    using imap_attachments_complete [OF p] by (simp add: ex_attached_def ex_part_def ex_patch_def is_attached_def or_else_def truthy_def lower_def)
  then show ?thesis using p by (simp add: has_attachments_def)
qed

definition ex_smtp :: "unit smtp_lib" where
  "ex_smtp = \<lparr>sb_open = (\<lambda>_ _ _. ret ()), sb_starttls = ret (), sb_login = (\<lambda>_ _. ret ()), sb_sendmail = (\<lambda>_ _ _. ret ()), sb_quit = ret ()\<rparr>"

definition ex_smtp_account :: smtp_account where
  "ex_smtp_account = \<lparr>sa_host = ''h'', sa_port = 587, sa_user = Some ''u'', sa_password = Some ''p'', sa_starttls = True, sa_ssl = False\<rparr>"

lemma ex_sent: "smtp_send (recorded_smtp ex_smtp) ex_smtp_account ''m'' ''a'' [''b''] ((), []) = (Inr (), (), [Opened False, StartedTls, LoggedIn, Submitted, Quit])"
  by code_simp

theorem smtp_secrets_over_tls_witness:
  "tls_first False [Opened False, StartedTls, LoggedIn, Submitted, Quit]"
proof -
  have "sa_starttls ex_smtp_account \<or> sa_ssl ex_smtp_account" by (simp add: ex_smtp_account_def)
  from smtp_secrets_over_tls [OF this ex_sent] show ?thesis by simp
qed

end
