(* ===== verification/Cli.thy ===== *)
theory Cli
  imports Deciders DecisionLog ApprovalService Wiring Inbound Idle EventStream Jmap PolicyFiles Dispatch Worker
begin

text \<open>
  The command line (\<open>cli/commands.py\<close>, \<open>cli/main.py\<close>, \<open>cli/context.py\<close>) and the gates the two entry points of mail
  are built with. A handler is a program on the stores it is given whose value is the exit code with what it prints; no
  handler raises after it has printed. The parser of the arguments is a library: handlers take the parsed arguments, and
  of building the parser the default that is read from the environment is kept. \<open>str_time\<close>, \<open>isoformat\<close>
  and \<open>float_repr\<close> are the texts of times and floats.
\<close>

section \<open>Output\<close>

type_synonym 's handler = "('s, int \<times> string list) prog"

definition exits :: "int \<Rightarrow> string list \<Rightarrow> 's handler" where
  "exits n ls = ret (n, ls)"

definition json_lines :: "json \<Rightarrow> string list" where
  "json_lines v = [json_indent 0 v]"

definition ljust :: "nat \<Rightarrow> string \<Rightarrow> string" where
  "ljust n s = s @ replicate (n - length s) (CHR '' '')"

definition field_lines :: "(string, json) dict \<Rightarrow> string list" where
  "field_lines d = map (\<lambda>(k, v). k @ '': '' @ py_str v) d"

section \<open>Tasks\<close>

definition task_payload :: "(time \<Rightarrow> string) \<Rightarrow> task \<Rightarrow> (string, json) dict" where
  "task_payload str_time t =
     [(''id'', JStr (t_id t)), (''transport_id'', JStr (t_transport_id t)), (''thread_id'', optional_str (t_thread_id t)),
      (''sender'', optional_str (t_sender t)), (''subject'', optional_str (t_subject t)), (''state'', JStr (state_value (t_state t))),
      (''attempts'', JInt (int (t_attempts t))), (''lease_until'', optional_str (map_option str_time (t_lease_until t))),
      (''created_at'', JStr (str_time (t_created_at t))),
      (''repo'', optional_str (map_option sp_repo_url (t_spec t))), (''base'', optional_str (map_option sp_base_branch (t_spec t))),
      (''model'', case t_spec t of None \<Rightarrow> JNull | Some sp \<Rightarrow> optional_str (sp_model_request sp)),
      (''depends_on'', JArr (case t_spec t of None \<Rightarrow> [] | Some sp \<Rightarrow> map JStr (sp_depends_on sp))),
      (''branch'', case t_evidence t of None \<Rightarrow> JNull | Some e \<Rightarrow> optional_str (ev_branch e)),
      (''commit'', case t_evidence t of None \<Rightarrow> JNull | Some e \<Rightarrow> optional_str (ev_commit e)),
      (''pr_url'', case t_evidence t of None \<Rightarrow> JNull | Some e \<Rightarrow> optional_str (ev_pr_url e))]"

definition print_tasks :: "(time \<Rightarrow> string) \<Rightarrow> bool \<Rightarrow> task list \<Rightarrow> string list" where
  "print_tasks str_time as_json ts =
     (if as_json then json_lines (JArr (map (\<lambda>t. JObj (task_payload str_time t)) ts))
      else if ts = [] then [''no tasks'']
      else (ljust 28 ''ID'' @ '' '' @ ljust 9 ''STATE'' @ '' '' @ ljust 4 ''ATT'' @ '' SUBJECT'') #
           map (\<lambda>t. ljust 28 (t_id t) @ '' '' @ ljust 9 (state_value (t_state t)) @ '' '' @ ljust 4 (show_int (int (t_attempts t))) @
             '' '' @ or_else (t_subject t) []) ts)"

definition handle_list :: "'q queue_ops \<Rightarrow> (time \<Rightarrow> string) \<Rightarrow> bool \<Rightarrow> task_state \<Rightarrow> int \<Rightarrow> 'q handler" where
  "handle_list Q str_time as_json st limit =
     bindE (asks (q_list Q st limit)) (\<lambda>ts. exits 0 (print_tasks str_time as_json ts))"

definition no_task :: "string \<Rightarrow> 's handler" where
  "no_task task_id = exits 1 [''no task '' @ py_repr task_id]"

definition handle_show :: "'q queue_ops \<Rightarrow> (time \<Rightarrow> string) \<Rightarrow> bool \<Rightarrow> string \<Rightarrow> 'q handler" where
  "handle_show Q str_time as_json task_id =
     bindE (asks (q_get Q task_id)) (\<lambda>found.
       case found of
         None \<Rightarrow> no_task task_id
       | Some t \<Rightarrow>
           exits 0 (if as_json then json_lines (JObj (task_payload str_time t)) else field_lines (task_payload str_time t)))"

definition handle_events ::
  "'e event_ops \<Rightarrow> (time \<Rightarrow> string) \<Rightarrow> (time \<Rightarrow> string) \<Rightarrow> bool \<Rightarrow> string \<Rightarrow> 'e handler" where
  "handle_events E str_time isoformat as_json task_id =
     bindE (asks (e_read E task_id)) (\<lambda>events.
       exits 0
         (if as_json
          then json_lines (JArr (map (\<lambda>e. JObj [(''at'', JStr (str_time (te_at e))), (''kind'', JStr (te_kind e)),
                 (''data'', JObj (map (\<lambda>(k, v). (k, JStr v)) (te_data e)))]) events))
          else if events = [] then [''no events'']
          else map (\<lambda>e. rstrip (isoformat (te_at e) @ '' '' @ te_kind e @ '' '' @
                 join '' '' (map (\<lambda>(k, v). k @ ''='' @ v) (te_data e)))) events))"

record enqueue_args =
  ea_instructions :: string
  ea_repo :: string
  ea_base :: string
  ea_subject :: "string option"
  ea_model :: "string option"
  ea_verify :: "string option"
  ea_depends_on :: "string option"
  ea_transport_id :: "string option"

text \<open>\<open>hex\<close> is the random id of a task without one, \<open>created\<close> what the constructor of the task reads.\<close>

definition enqueue_task :: "enqueue_args \<Rightarrow> string \<Rightarrow> time \<Rightarrow> exn + task" where
  "enqueue_task a hex created =
     (let transport_id = or_else (ea_transport_id a) (''<manual-'' @ hex @ CHR 0x40 # ''dear-agent.local>'') in
      bindR (if truthy (ea_subject a) then Inr (the (ea_subject a))
             else case splitlines (ea_instructions a) of
                    [] \<Rightarrow> Inl (IndexError ''list index out of range'')
                  | l # _ \<Rightarrow> Inr (take 80 l)) (\<lambda>subject.
        Inr ((new_task transport_id transport_id created)
          \<lparr>t_subject := Some subject,
           t_spec := Some \<lparr>sp_repo_url = ea_repo a, sp_base_branch = ea_base a, sp_instructions = ea_instructions a,
             sp_model_request = ea_model a, sp_verify = ea_verify a,
             sp_depends_on = filter (\<lambda>p. p \<noteq> []) (map strip (split_on (CHR '','') (or_else (ea_depends_on a) [])))\<rparr>\<rparr>)))"

definition handle_enqueue ::
  "'q queue_ops \<Rightarrow> (time \<Rightarrow> string) \<Rightarrow> bool \<Rightarrow> enqueue_args \<Rightarrow> string \<Rightarrow> time \<Rightarrow> time \<Rightarrow> 'q handler" where
  "handle_enqueue Q str_time as_json a hex created now =
     bindE (liftR (enqueue_task a hex created)) (\<lambda>t.
       bindE (\<lambda>q. case q_enqueue Q t QUEUED now q of (r, q') \<Rightarrow> (Inr r, q')) (\<lambda>stored.
         case stored of
           None \<Rightarrow> exits 1 [''task already exists for '' @ t_transport_id t]
         | Some st \<Rightarrow> exits 0 (if as_json then json_lines (JObj (task_payload str_time st)) else [''enqueued '' @ t_id st])))"

definition handle_claim :: "'q queue_ops \<Rightarrow> string \<Rightarrow> int \<Rightarrow> time \<Rightarrow> 'q handler" where
  "handle_claim Q task_id lease_seconds now =
     bindE (asks (q_get Q task_id)) (\<lambda>found.
       case found of
         None \<Rightarrow> no_task task_id
       | Some t \<Rightarrow>
           bindE (\<lambda>q. case q_claim Q t (lease_seconds * 1000000) now q of (b, q') \<Rightarrow> (Inr b, q')) (\<lambda>won.
             if \<not> won then exits 1 [''task '' @ t_id t @ '' is not claimable (state '' @ state_value (t_state t) @ '')'']
             else exits 0 [''claimed '' @ t_id t @ '' for '' @ show_int lease_seconds @ ''s'']))"

definition moved_line :: "task \<Rightarrow> string" where
  "moved_line t = t_id t @ '' -> '' @ state_value (t_state t)"

text \<open>\<open>complete\<close>, \<open>fail\<close>, \<open>requeue\<close> and \<open>cancel\<close>: the target state is the argument.\<close>

definition handle_transition :: "'q queue_ops \<Rightarrow> task_state \<Rightarrow> string \<Rightarrow> time \<Rightarrow> 'q handler" where
  "handle_transition Q target task_id now =
     bindE (asks (q_get Q task_id)) (\<lambda>found.
       case found of
         None \<Rightarrow> no_task task_id
       | Some t \<Rightarrow> bindE (q_transition Q t target None now) (\<lambda>t'. exits 0 [moved_line t']))"

section \<open>Policies\<close>

definition policy_payload :: "project_policy \<Rightarrow> (string, json) dict" where
  "policy_payload p =
     [(''project'', JStr (pp_project p)), (''enabled'', JBool (pp_enabled p)), (''repos'', JArr (map JStr (pp_repos p))),
      (''base_branch'', optional_str (pp_base_branch p)), (''harness'', optional_str (pp_harness p)), (''model'', optional_str (pp_model p)),
      (''verify_allow'', JArr (map JStr (pp_verify_allow p))), (''source'', optional_str (pp_source p))]"

text \<open>The same of a policy as its file has it.\<close>

definition policy_file_payload :: "policy_file \<Rightarrow> (string, json) dict" where
  "policy_file_payload p =
     [(''project'', JStr (pf_project p)), (''enabled'', JBool (pf_enabled p)), (''repos'', JArr (map JStr (pf_repos p))),
      (''base_branch'', pf_base_branch p), (''harness'', pf_harness p), (''model'', pf_model p),
      (''verify_allow'', JArr (map JStr (pf_verify_allow p))), (''source'', optional_str (pf_source p))]"

definition handle_policy_sync ::
  "(string \<Rightarrow> exn + json) \<Rightarrow> string \<Rightarrow> policy_directory \<Rightarrow> 'p policy_ops \<Rightarrow> bool \<Rightarrow> 'p handler" where
  "handle_policy_sync safe_load dir files P as_json =
     bindE (sync_policies safe_load dir files P) (\<lambda>policies.
       exits 0 (if as_json then json_lines (JArr (map (\<lambda>p. JObj (policy_file_payload p)) policies))
                else [''synced '' @ show_int (int (length policies)) @ '' policies from '' @ dir]))"

definition handle_policy_ls :: "'p policy_ops \<Rightarrow> bool \<Rightarrow> 'p handler" where
  "handle_policy_ls P as_json =
     bindE (asks (p_list P)) (\<lambda>policies.
       exits 0
         (if as_json then json_lines (JArr (map (\<lambda>p. JObj (policy_payload p)) policies))
          else if policies = [] then [''no policies'']
          else map (\<lambda>p. pp_project p @ '' enabled='' @ py_str (JBool (pp_enabled p)) @ '' repos='' @ join '','' (pp_repos p)) policies))"

definition handle_policy_show :: "'p policy_ops \<Rightarrow> bool \<Rightarrow> string \<Rightarrow> 'p handler" where
  "handle_policy_show P as_json project =
     bindE (asks (p_get P project)) (\<lambda>found.
       case found of
         None \<Rightarrow> raise (RuntimeError (''no policy for project '' @ py_repr project))
       | Some p \<Rightarrow> exits 0 (if as_json then json_lines (JObj (policy_payload p)) else field_lines (policy_payload p)))"

definition handle_policy_match :: "'p policy_ops \<Rightarrow> string \<Rightarrow> 'p handler" where
  "handle_policy_match P repo =
     bindE (asks (p_for_repo P repo)) (\<lambda>found.
       case found of
         None \<Rightarrow> exits 1 [''no policy matches '' @ repo]
       | Some p \<Rightarrow> exits 0 [repo @ '' -> '' @ pp_project p])"

section \<open>Health and approvals\<close>

definition handle_health :: "'q queue_ops \<Rightarrow> (time \<Rightarrow> string) \<Rightarrow> bool \<Rightarrow> int \<Rightarrow> time \<Rightarrow> 'q handler" where
  "handle_health Q isoformat as_json max_running now =
     bindE (asks (\<lambda>q. health_check max_running STALL_MARGIN Q q now)) (\<lambda>h.
       exits 0
         (if as_json then json_lines (health_json isoformat h)
          else (''ok: '' @ py_str (JBool (hs_ok h))) # map (\<lambda>(st, n). st @ '': '' @ show_int n) (hs_counts h)))"

definition handle_parse_reply :: "bool \<Rightarrow> string \<Rightarrow> 's handler" where
  "handle_parse_reply as_json text =
     (case parse_reply text of
        None \<Rightarrow> exits 1 [''no approval decision found'']
      | Some r \<Rightarrow>
          exits 0 (if as_json then json_lines (JObj [(''token'', JStr (rp_token r)), (''decision'', JStr (rp_decision r))])
                   else [rp_decision r @ '' '' @ rp_token r]))"

text \<open>\<open>approve\<close> and \<open>reject\<close>, with the three clock readings of the service.\<close>

definition handle_redeem ::
  "'a approval_ops \<Rightarrow> 'q queue_ops \<Rightarrow> string \<Rightarrow> string \<Rightarrow> time \<Rightarrow> time \<Rightarrow> time \<Rightarrow> ('a \<times> 'q) handler" where
  "handle_redeem A Q decision token n1 n2 n3 =
     bindE (attempt (\<lambda>(a, q). service_apply A Q \<lparr>rp_token = token, rp_decision = decision\<rparr> None None n1 n2 n3 a q)) (\<lambda>r.
       case r of
         Inl e \<Rightarrow> raise (if is_ApprovalError e then RuntimeError (exn_text e) else e)
       | Inr t \<Rightarrow> exits 0 [moved_line t])"

definition token_of :: "bool \<Rightarrow> approval \<Rightarrow> string" where
  "token_of show_tokens a = (if show_tokens then ap_token a else ''<redacted>'')"

definition handle_pending_approvals ::
  "'a approval_ops \<Rightarrow> (time \<Rightarrow> string) \<Rightarrow> (time \<Rightarrow> string) \<Rightarrow> bool \<Rightarrow> bool \<Rightarrow> 'a handler" where
  "handle_pending_approvals A str_time isoformat as_json show_tokens =
     bindE (asks (a_pending A)) (\<lambda>pending.
       exits 0
         (if as_json
          then json_lines (JArr (map (\<lambda>a. JObj
                 [(''task_id'', JStr (ap_task_id a)), (''action'', JStr (ap_action a)), (''token'', JStr (token_of show_tokens a)),
                  (''created_at'', JStr (str_time (ap_created_at a))), (''expires_at'', JStr (str_time (ap_expires_at a)))]) pending))
          else if pending = [] then [''no pending approvals'']
          else map (\<lambda>a. ap_task_id a @ '' '' @ ap_action a @ '' '' @ token_of show_tokens a @ '' expires '' @ isoformat (ap_expires_at a)) pending))"

section \<open>The decision log\<close>

text \<open>\<open>_decision_store\<close>: the table or the file.\<close>

definition decision_store_config :: "(string, string) dict \<Rightarrow> string option \<Rightarrow> exn + store_config" where
  "decision_store_config env target =
     (if \<not> truthy target then Inl (RuntimeError ''a decision log is required (--log or DEAR_AGENT_DECIDER_LOG)'')
      else if the target = ''postgres''
      then bindR (required env ''DEAR_AGENT_DATABASE_URL'' ''DEAR_AGENT_DATABASE_URL is required for --log postgres'') (\<lambda>dsn. Inr (DatabaseStore dsn))
      else Inr (FileStore (the target)))"

definition share_json :: "(rat \<Rightarrow> string) \<Rightarrow> nat \<Rightarrow> nat \<Rightarrow> json" where
  "share_json float_repr part whole = (if whole = 0 then JNull else JFloat (float_repr (of_nat part / of_nat whole)))"

definition calibration_payload :: "(rat \<Rightarrow> string) \<Rightarrow> calibration_report \<Rightarrow> (string, json) dict" where
  "calibration_payload float_repr r =
     [(''question'', JStr (cr_question r)), (''total'', JInt (int (cr_total r))), (''labeled'', JInt (int (cr_labeled r))),
      (''accuracy'', share_json float_repr (cr_correct r) (cr_labeled r)),
      (''recommended_threshold'', case cr_threshold r of None \<Rightarrow> JNull | Some x \<Rightarrow> JFloat (float_repr x)),
      (''bands'', JArr (map (\<lambda>b. JObj [(''band'', JStr (cb_label b)), (''count'', JInt (int (cb_count b))),
         (''accuracy'', share_json float_repr (cb_correct b) (cb_count b))]) (cr_bands r)))]"

definition calibration_lines :: "(rat \<Rightarrow> string) \<Rightarrow> calibration_report \<Rightarrow> string list" where
  "calibration_lines float_repr r =
     [cr_question r @ '': '' @ show_int (int (cr_labeled r)) @ ''/'' @ show_int (int (cr_total r)) @ '' labeled, accuracy='' @
        py_str (share_json float_repr (cr_correct r) (cr_labeled r))] @
     map (\<lambda>b. ''  '' @ cb_label b @ '': n='' @ show_int (int (cb_count b)) @ '' accuracy='' @
        py_str (share_json float_repr (cb_correct b) (cb_count b))) (cr_bands r) @
     [''recommended threshold: '' @ (case cr_threshold r of None \<Rightarrow> ''None'' | Some x \<Rightarrow> float_repr x)]"

definition handle_calibrate ::
  "(rat \<Rightarrow> string) \<Rightarrow> (rat \<Rightarrow> string) \<Rightarrow> ('l, decision_record list) prog \<Rightarrow> bool \<Rightarrow> string \<Rightarrow> rat \<Rightarrow> 'l handler" where
  "handle_calibrate two_digits float_repr read as_json question target =
     bindE read (\<lambda>rs. bindE (liftR (calibrate_records two_digits rs question [1/2, 7/10, 9/10] target)) (\<lambda>report.
       exits 0 (if as_json then json_lines (JObj (calibration_payload float_repr report)) else calibration_lines float_repr report)))"

definition handle_label :: "(int \<Rightarrow> string \<Rightarrow> ('l, bool) prog) \<Rightarrow> int \<Rightarrow> string \<Rightarrow> 'l handler" where
  "handle_label label_at index text =
     bindE (label_at index text) (\<lambda>updated.
       if \<not> updated then raise (RuntimeError (''no decision at index '' @ show_int index))
       else exits 0 [''labeled decision '' @ show_int index @ '' as '' @ text])"

section \<open>Commands that run the other parts\<close>

definition handle_idle :: "('q, 'a, 't, 'w) idle \<Rightarrow> bool \<Rightarrow> string \<Rightarrow> ('q, 'a, 't, 'w) idle_state handler" where
  "handle_idle L as_json repo =
     bindE (idle_tick L repo) (\<lambda>r.
       exits 0
         (if as_json
          then json_lines (JObj [(''skipped'', JBool (ip_skipped r)), (''reason'', JStr (ip_reason r)), (''proposed'', ids_json (ip_proposed r))])
          else if ip_skipped r then [''idle skipped: '' @ ip_reason r]
          else [''proposed '' @ show_int (int (length (ip_proposed r))) @ '': '' @ join '', '' (ip_proposed r)]))"

definition handle_poll :: "('q, 'a, 'e, 't, 'p) plane \<Rightarrow> bool \<Rightarrow> string option \<Rightarrow> ('q, 'a, 'e, 't, 'p) plane_state handler" where
  "handle_poll P as_json recipient =
     bindE (plane_poll P) (\<lambda>ms. bindE (ingest P ms recipient) (\<lambda>r.
       exits 0
         (if as_json
          then json_lines (JObj [(''accepted'', ids_json (ir_accepted r)), (''rejected'', ids_json (ir_rejected r)),
                 (''denied'', ids_json (ir_denied r)), (''decided'', ids_json (ir_decided r)), (''suspicious'', ids_json (ir_suspicious r)),
                 (''gated'', ids_json (ir_gated r)), (''needs_human'', ids_json (ir_needs_human r))])
          else [''accepted='' @ show_int (int (length (ir_accepted r))) @ '' rejected='' @ show_int (int (length (ir_rejected r))) @
                '' denied='' @ show_int (int (length (ir_denied r))) @ '' gated='' @ show_int (int (length (ir_gated r)))])))"

text \<open>\<open>run\<close>: the model hint of the task, and the run itself.\<close>

definition model_hint :: "'q queue_ops \<Rightarrow> string option \<Rightarrow> string option \<Rightarrow> 'q \<Rightarrow> string option" where
  "model_hint Q model task_id q =
     (let chosen =
        (if model = None \<and> truthy task_id
         then (case q_get Q (the task_id) q of
                 None \<Rightarrow> None
               | Some t \<Rightarrow> (case t_spec t of None \<Rightarrow> None | Some sp \<Rightarrow> sp_model_request sp))
         else model)
      in if truthy chosen then chosen else None)"

definition handle_run ::
  "('q, 'e, 't, 'w, 'p) worker \<Rightarrow> bool \<Rightarrow> string option \<Rightarrow> ('q, 'e, 't, 'w) exec_state handler" where
  "handle_run W as_json task_id =
     bindE (if truthy task_id then worker_run W (the task_id) else run_next W) (\<lambda>x.
       exits (if xt_ok x then 0 else 1)
         (if as_json
          then json_lines (JObj [(''task_id'', JStr (xt_task_id x)), (''branch'', JStr (xt_branch x)),
                 (''commit'', optional_str (xt_commit x)), (''pr_url'', optional_str (xt_pr_url x))])
          else [xt_task_id x @ '' '' @ xt_branch x @ '' '' @ py_str (optional_str (xt_pr_url x))]))"

text \<open>\<open>sweep\<close>; the dispatcher's launcher, queue and template are set here.\<close>

definition sweep_release :: "('q, 'w) dispatcher \<Rightarrow> (('q, 'w) dispatch_state, task list) prog" where
  "sweep_release D s =
     (case q_release_stale (dp_queue D) (dp_clock D (dq_tick s)) (dq_queue s) of
        (ts, q) \<Rightarrow> (Inr ts, s\<lparr>dq_queue := q, dq_tick := Suc (dq_tick s)\<rparr>))"

definition on_cluster :: "('w, 'r) prog \<Rightarrow> (('q, 'w) dispatch_state, 'r) prog" where
  "on_cluster = on_part dq_cluster (\<lambda>l s. s\<lparr>dq_cluster := l\<rparr>)"

definition handle_sweep ::
  "('q, 'w) dispatcher \<Rightarrow> 'w machine \<Rightarrow> 'w http \<Rightarrow> bool \<Rightarrow> string option \<Rightarrow> ('q, 'w) dispatch_state handler" where
  "handle_sweep D M urlopen as_json template =
     bindE (sweep_release D) (\<lambda>freed.
       if \<not> truthy template then raise (RuntimeError ''DEAR_AGENT_RUNNER_TEMPLATE_CONFIGMAP is required to dispatch'')
       else bindE (attempt (on_cluster (from_cluster M [] SA_DIR))) (\<lambda>client.
         case client of
           Inl (KubernetesError e) \<Rightarrow> raise (RuntimeError (''cannot reach the Kubernetes API ('' @ e @ ''); sweep must run in-cluster''))
         | Inl e \<Rightarrow> raise e
         | Inr K \<Rightarrow>
             bindE (on_cluster (get_configmap urlopen K (the template))) (\<lambda>cm.
               if \<not> truthy (dict_get cm ''job.yaml'')
               then raise (RuntimeError (''configmap '' @ py_repr (the template) @ '' has no job.yaml key''))
               else bindE (dispatch_once (D\<lparr>dp_launcher := kubernetes_launcher urlopen K, dp_template := the (dict_get cm ''job.yaml'')\<rparr>))
                 (\<lambda>created. exits 0
                   (if as_json
                    then json_lines (JObj [(''released'', ids_json (map t_id freed)), (''dispatched'', ids_json created)])
                    else [''released '' @ show_int (int (length freed)) @ '' stale, dispatched '' @ show_int (int (length created))])))))"

text \<open>
  \<open>listen\<close>: connect, then one ingest pass for every change the stream announces. \<open>stream\<close> opens the stream: its lines
  for a URL and a token.
\<close>

definition handle_listen ::
  "(string, string) dict \<Rightarrow> 'w http \<Rightarrow> (string \<Rightarrow> string \<Rightarrow> string list) \<Rightarrow> ('q, 'a, 'e, 't, 'p) plane \<Rightarrow>
    (('w \<times> jmap_client) \<times> ('q, 'a, 'e, 't, 'p) plane_state) handler" where
  "handle_listen env urlopen stream P =
     bindE (liftR (required env ''FASTMAIL_API_TOKEN'' ''FASTMAIL_API_TOKEN is required for listen'')) (\<lambda>token.
       bindE (on_part fst (\<lambda>c (_, p). (c, p)) (seqE (jmap_connect urlopen) event_source_url)) (\<lambda>url.
         bindE (on_part snd (\<lambda>p (c, _). (c, p))
                 (run_listener (ingest_on_change P (dict_get env ''DEAR_AGENT_RECIPIENT'')) (stream url token)))
           (\<lambda>delivered. exits 0 [])))"

section \<open>The entry points\<close>

text \<open>\<open>int(...)\<close> of an environment variable that has a default, as the parser of the arguments evaluates it.\<close>

definition max_running_default :: "(string, string) dict \<Rightarrow> exn + int" where
  "max_running_default env = int_of_text (env_default env ''DEAR_AGENT_MAX_RUNNING'' ''1'')"

fun is_RuntimeError :: "exn \<Rightarrow> bool" where
  "is_RuntimeError (RuntimeError _) = True"
| "is_RuntimeError _ = False"

record cli_outcome =
  co_exit :: int
  co_out :: "string list"
  co_err :: "string list"

definition error_line :: "exn \<Rightarrow> string" where
  "error_line e = ''error: '' @ exn_text e"

text \<open>\<open>main\<close> on parsed arguments: an exception of the program is one that ends it with a traceback.\<close>

definition cli_main :: "(string, string) dict \<Rightarrow> bool \<Rightarrow> 's handler \<Rightarrow> ('s, cli_outcome) prog" where
  "cli_main env needs_queue handler =
     bindE (liftR (max_running_default env)) (\<lambda>_.
       case (if needs_queue then build_queue env else Inr ProcessStore) of
         Inl e \<Rightarrow> if is_RuntimeError e then ret \<lparr>co_exit = 2, co_out = [], co_err = [error_line e]\<rparr> else raise e
       | Inr _ \<Rightarrow>
           bindE (attempt handler) (\<lambda>r.
             ret (case r of
                    Inl e \<Rightarrow> \<lparr>co_exit = 1, co_out = [], co_err = [error_line e]\<rparr>
                  | Inr (n, ls) \<Rightarrow> \<lparr>co_exit = n, co_out = ls, co_err = []\<rparr>)))"

definition limiter_from_env :: "(string, string) dict \<Rightarrow> exn + rate_limiter" where
  "limiter_from_env env =
     bindR (int_of_text (env_default env ''DEAR_AGENT_RATE_LIMIT'' ''60'')) (\<lambda>limit. new_rate_limiter limit (60 * 1000000))"

text \<open>The gate of the mail path and, with a secret, that of the webhook.\<close>

definition mail_gate :: "(string, string) dict \<Rightarrow> exn + gate" where
  "mail_gate env =
     bindR (limiter_from_env env) (\<lambda>rl. Inr (RateLimitedGate rl
       (case email_gate_from_env env of
          Some g \<Rightarrow> Some (EmailAuthGate g)
        | None \<Rightarrow> map_option SenderAllowlist (allowlist_from_env (dict_get env ''DEAR_AGENT_ALLOWED_SENDERS'')))))"

definition webhook_gate :: "(string, string) dict \<Rightarrow> exn + gate option" where
  "webhook_gate env =
     (case dict_get env ''DEAR_AGENT_INBOUND_SECRET'' of
        None \<Rightarrow> Inr None
      | Some secret \<Rightarrow>
          if secret = [] then Inr None
          else bindR (limiter_from_env env) (\<lambda>rl. Inr (Some (InboundGate \<lparr>au_secret = secret, au_allowlist = []\<rparr> rl))))"

definition require_policy_from_env :: "(string, string) dict \<Rightarrow> bool" where
  "require_policy_from_env env \<longleftrightarrow> lower (env_default env ''DEAR_AGENT_REQUIRE_REPO_POLICY'' ''true'') \<noteq> ''false''"

text \<open>
  The plane of both entry points over the stores \<open>C\<close> has: a notifier without approvals, the scanner, and the decider
  both as the advisor and as the human gate. The webhook's plane has no gate of its own.
\<close>

definition inbound_plane :: "(string, string) dict \<Rightarrow> decider option \<Rightarrow> ('q, 'a, 'e, 't, 'p) plane \<Rightarrow> ('q, 'a, 'e, 't, 'p) plane" where
  "inbound_plane env decide C =
     C\<lparr>cp_notifier := Some False, cp_scanner := Some 20, cp_security := Some decide,
       cp_human_gate := Some \<lparr>hg_decider = decide, hg_threshold = HUMAN_THRESHOLD\<rparr>,
       cp_require_policy := require_policy_from_env env\<rparr>"

section \<open>What an operator's command does to the queue\<close>

datatype operator_command =
    CmdList task_state int
  | CmdShow string
  | CmdEnqueue enqueue_args string time
  | CmdClaim string int
  | CmdMove task_state string

fun run_command :: "'q queue_ops \<Rightarrow> (time \<Rightarrow> string) \<Rightarrow> bool \<Rightarrow> time \<Rightarrow> operator_command \<Rightarrow> 'q handler" where
  "run_command Q str_time as_json now (CmdList st limit) = handle_list Q str_time as_json st limit"
| "run_command Q str_time as_json now (CmdShow i) = handle_show Q str_time as_json i"
| "run_command Q str_time as_json now (CmdEnqueue a hex created) = handle_enqueue Q str_time as_json a hex created now"
| "run_command Q str_time as_json now (CmdClaim i lease) = handle_claim Q i lease now"
| "run_command Q str_time as_json now (CmdMove st i) = handle_transition Q st i now"

text \<open>The specification: the store a command is to leave, or \<open>None\<close> when it is to be refused.\<close>

fun commanded ::
  "(task \<Rightarrow> task) \<Rightarrow> (evidence option \<Rightarrow> evidence option \<Rightarrow> evidence option) \<Rightarrow> time \<Rightarrow> operator_command \<Rightarrow> store \<Rightarrow> store option" where
  "commanded canon merge now (CmdList st limit) m = Some m"
| "commanded canon merge now (CmdShow i) m = (if m i = None then None else Some m)"
| "commanded canon merge now (CmdEnqueue a hex created) m =
     (case enqueue_task a hex created of
        Inl _ \<Rightarrow> None
      | Inr t \<Rightarrow> if fresh m t then Some (m(t_id t \<mapsto> enqueued QUEUED now (canon t))) else None)"
| "commanded canon merge now (CmdClaim i lease) m =
     (case m i of
        None \<Rightarrow> None
      | Some t \<Rightarrow> if t_state t = QUEUED then Some (m(i \<mapsto> claimed (lease * 1000000) now t)) else None)"
| "commanded canon merge now (CmdMove st i) m = map_option (\<lambda>t. m(i \<mapsto> moved st (merge None (t_evidence t)) t)) (m i)"

context task_queue
begin

lemma command_exact:
  assumes "invar q" and "run_command Q str_time as_json now c q = (r, q')"
  shows "case commanded canon merge_ev now c (store q) of
      Some m \<Rightarrow> (\<exists>ls. r = Inr (0, ls)) \<and> store q' = m
    | None \<Rightarrow> (case r of Inl _ \<Rightarrow> True | Inr (n, ls) \<Rightarrow> n = 1) \<and> store q' = store q"
proof (cases c)
  case (CmdList st limit)
  then show ?thesis using assms by (auto simp: handle_list_def exits_def)
next
  case (CmdShow i)
  then show ?thesis using assms get_law [OF assms(1), of i] by (auto simp: handle_show_def exits_def no_task_def split: option.splits)
next
  case (CmdEnqueue a hex created)
  show ?thesis
  proof (cases "enqueue_task a hex created")
    case (Inl e) then show ?thesis using assms CmdEnqueue by (auto simp: handle_enqueue_def bindE_def)
  next
    case (Inr t)
    obtain x q1 where e: "q_enqueue Q t QUEUED now q = (x, q1)" by fastforce
    show ?thesis
      using assms CmdEnqueue Inr e enqueue_fresh [OF assms(1), of t QUEUED now] enqueue_dup [OF assms(1), of t QUEUED now]
      by (cases "fresh (store q) t") (auto simp: handle_enqueue_def bindE_def exits_def)
  qed
next
  case (CmdClaim i lease)
  show ?thesis
  proof (cases "store q i")
    case None then show ?thesis using assms CmdClaim get_law [OF assms(1), of i] by (auto simp: handle_claim_def exits_def no_task_def)
  next
    case (Some t)
    have i: "t_id t = i" using store_okD [OF invar_store [OF assms(1)] Some] .
    obtain b q1 where e: "q_claim Q t (lease * 1000000) now q = (b, q1)" by fastforce
    show ?thesis
      using assms CmdClaim Some i e get_law [OF assms(1), of i] claim_ok [OF assms(1), of t t "lease * 1000000" now]
        claim_lost [OF assms(1), of t "lease * 1000000" now]
      by (cases "t_state t = QUEUED") (auto simp: handle_claim_def bindE_def exits_def)
  qed
next
  case (CmdMove st i)
  show ?thesis
  proof (cases "store q i")
    case None then show ?thesis using assms CmdMove get_law [OF assms(1), of i] by (auto simp: handle_transition_def exits_def no_task_def)
  next
    case (Some t)
    have i: "t_id t = i" using store_okD [OF invar_store [OF assms(1)] Some] .
    obtain x q1 where e: "q_transition Q t st None now q = (x, q1)" by fastforce
    show ?thesis
      using assms CmdMove Some i e get_law [OF assms(1), of i] transition_ok [OF assms(1), of t t st None now]
      by (auto simp: handle_transition_def bindE_def exits_def)
  qed
qed

end


definition without_token :: "approval \<Rightarrow> approval" where
  "without_token a = a\<lparr>ap_token := []\<rparr>"

text \<open>
  Listing the pending approvals does not tell their tokens: unless they are asked for, what is printed is the same
  whatever the tokens are.
\<close>

theorem pending_hides_tokens:
  assumes "map without_token (a_pending A a) = map without_token (a_pending B b)"
  shows "fst (handle_pending_approvals A str_time isoformat as_json False a) = fst (handle_pending_approvals B str_time isoformat as_json False b)"
proof -
  have hidden: "map f (a_pending A a) = map f (a_pending B b)" if "\<And>x. f (without_token x) = f x" for f :: "approval \<Rightarrow> 'c"
  proof -
    have "map f (map without_token (a_pending A a)) = map f (map without_token (a_pending B b))" by (simp only: assms)
    then show ?thesis by (simp add: comp_def that)
  qed
  have "(a_pending A a = []) = (a_pending B b = [])" using assms by (metis map_is_Nil_conv)
  then show ?thesis
    by (simp add: handle_pending_approvals_def exits_def token_of_def)
      (auto intro!: hidden arg_cong [where f = json_lines] simp: without_token_def)
qed

text \<open>
  A value of \<open>DEAR_AGENT_MAX_RUNNING\<close> that is no number ends every command with a traceback, whatever it is, not only the
  health command it is meant for.
\<close>

theorem bad_default_stops_every_command:
  assumes "dict_get env ''DEAR_AGENT_MAX_RUNNING'' = Some v" and "py_int v = None"
  shows "\<exists>e. cli_main env needs_queue handler s = (Inl (ValueError e), s)"
  using assms by (simp add: cli_main_def max_running_default_def env_default_def int_of_text_def bindE_def)

section \<open>The gates\<close>

text \<open>
  An allowlist without entries opens the mail path instead of closing it: when it is empty, and no domains are required,
  the gate that is built lets every message through, from any sender and with any headers.
\<close>

theorem empty_allowlist_admits_everyone:
  assumes "mail_gate env = Inr g" and "split_env (dict_get env ''DEAR_AGENT_AUTH_DOMAINS'') = []"
    and "Auth.split_entries (or_else (dict_get env ''DEAR_AGENT_ALLOWED_SENDERS'') []) = []"
  shows "fst (admit hmac body headers sender now g) = Inr ()"
proof -
  have none: "allowlist_from_env (dict_get env ''DEAR_AGENT_ALLOWED_SENDERS'') = None"
    using assms(3) by (cases "dict_get env ''DEAR_AGENT_ALLOWED_SENDERS''") (auto simp: allowlist_from_env_def truthy_def or_else_def)
  obtain rl where g: "g = RateLimitedGate rl None" "limiter_from_env env = Inr rl"
    using assms(1,2) none by (auto simp: mail_gate_def bindR_Inr email_gate_from_env_def)
  have "rl_seen rl = []" "rl_limit rl > 0" using g(2) by (auto simp: limiter_from_env_def bindR_Inr new_rate_limiter_def split: if_splits)
  then show ?thesis by (simp add: g(1) rl_check_def Let_def)
qed

text \<open>
  The webhook does not look at \<open>DEAR_AGENT_ALLOWED_SENDERS\<close>: with any value of it, the gate that is built lets a message
  through that is signed for its sender, whoever that is.
\<close>

theorem webhook_ignores_allowlist:
  assumes "webhook_gate env = Inr (Some g)" and "dict_get env ''DEAR_AGENT_INBOUND_SECRET'' = Some secret"
    and "dict_get headers SIGNATURE_HEADER = Some (sign hmac body secret sender)" and "is_ascii (sign hmac body secret sender)"
    and "sign hmac body secret sender \<noteq> []"
  shows "webhook_gate (dict_set ''DEAR_AGENT_ALLOWED_SENDERS'' v env) = Inr (Some g) \<and> fst (admit hmac body headers sender now g) = Inr ()"
proof
  have same: "dict_get (dict_set ''DEAR_AGENT_ALLOWED_SENDERS'' v env) k = dict_get env k" if "k \<noteq> ''DEAR_AGENT_ALLOWED_SENDERS''" for k
    using that by simp
  show "webhook_gate (dict_set ''DEAR_AGENT_ALLOWED_SENDERS'' v env) = Inr (Some g)"
    using assms(1,2) by (cases "secret = []") (simp_all add: webhook_gate_def limiter_from_env_def env_default_def)
  obtain rl where g: "g = InboundGate \<lparr>au_secret = secret, au_allowlist = []\<rparr> rl" "limiter_from_env env = Inr rl"
    using assms(1,2) by (auto simp: webhook_gate_def bindR_Inr split: if_splits)
  have "rl_seen rl = []" "rl_limit rl > 0" using g(2) by (auto simp: limiter_from_env_def bindR_Inr new_rate_limiter_def split: if_splits)
  then show "fst (admit hmac body headers sender now g) = Inr ()"
    using assms(3-5) by (simp add: g(1) authorize_def compare_digest_def rl_check_def Let_def)
qed

section \<open>One pass over the mail\<close>

text \<open>The answers of a gate to the messages of one pass, each at its time.\<close>

fun gate_answers :: "(string \<Rightarrow> string \<Rightarrow> string) \<Rightarrow> gate \<Rightarrow> (raw_message \<times> time) list \<Rightarrow> (exn + unit) list" where
  "gate_answers hmac g [] = []"
| "gate_answers hmac g ((m, now) # ms) =
     (case admit hmac (rm_body m) (rm_headers m) (rm_sender m) now g of (r, g') \<Rightarrow> r # gate_answers hmac g' ms)"

definition not_limited :: "exn + unit \<Rightarrow> bool" where
  "not_limited r \<longleftrightarrow> (\<forall>k. r \<noteq> Inl (RateLimitedError k))"

definition counted :: "rate_limiter \<Rightarrow> int \<Rightarrow> bool" where
  "counted rl n \<longleftrightarrow> (\<forall>key. int (length (seen_of rl key)) \<le> n)"

lemma check_below_limit:
  assumes "counted rl n" and "n < rl_limit rl" and "0 \<le> n"
  shows "\<exists>rl'. rl_check sender now rl = (Inr (), rl') \<and> rl_limit rl' = rl_limit rl \<and> counted rl' (n + 1)"
proof -
  let ?recent = "filter (\<lambda>t. t > now - rl_window rl) (seen_of rl (rl_key sender))"
  have le: "int (length ?recent) \<le> n" using assms(1) length_filter_le [of _ "seen_of rl (rl_key sender)"]
    unfolding counted_def by (meson dual_order.trans of_nat_mono)
  have "rl_check sender now rl = (Inr (), rl\<lparr>rl_seen := dict_set (rl_key sender) (?recent @ [now]) (rl_seen rl)\<rparr>)"
    using le assms(2) by (simp add: rl_check_def seen_of_def Let_def)
  moreover have "counted (rl\<lparr>rl_seen := dict_set (rl_key sender) (?recent @ [now]) (rl_seen rl)\<rparr>) (n + 1)"
    using assms(1) le unfolding counted_def by (auto simp: seen_of_def intro: order_trans)
  ultimately show ?thesis by simp
qed

definition mail_inner :: "gate option \<Rightarrow> bool" where
  "mail_inner inner \<longleftrightarrow> (case inner of None \<Rightarrow> True | Some (EmailAuthGate _) \<Rightarrow> True | Some (SenderAllowlist _) \<Rightarrow> True | _ \<Rightarrow> False)"

lemma ok_not_limited [simp]: "not_limited (Inr u)"
  by (simp add: not_limited_def)

lemma inner_not_limited:
  "not_limited (email_admit g headers sender)" "not_limited (allowlist_admit l sender)"
  by (auto simp: not_limited_def email_admit_def allowlist_admit_def check_verdicts_def Let_def split: if_splits option.splits)

lemma answers_below_limit:
  assumes "mail_inner inner" and "counted rl n" and "0 \<le> n" and "n + int (length ms) \<le> rl_limit rl"
  shows "list_all not_limited (gate_answers hmac (RateLimitedGate rl inner) ms)"
  using assms(2-4)
proof (induction ms arbitrary: rl n)
  case (Cons x ms)
  obtain m now where x: "x = (m, now)" by fastforce
  obtain rl' where rl': "rl_check (rm_sender m) now rl = (Inr (), rl')" "rl_limit rl' = rl_limit rl" "counted rl' (n + 1)"
    using check_below_limit [of rl n "rm_sender m" now] Cons.prems by auto
  have ok: "list_all not_limited (gate_answers hmac (RateLimitedGate rl' inner) ms)" using Cons.IH [of rl' "n + 1"] Cons.prems rl' by simp
  have "counted rl (n + 1)" using Cons.prems(1) unfolding counted_def by (smt (verit))
  then have ok0: "list_all not_limited (gate_answers hmac (RateLimitedGate rl inner) ms)" using Cons.IH [of rl "n + 1"] Cons.prems by simp
  show ?case
  proof (cases inner)
    case None then show ?thesis using x rl'(1) ok by simp
  next
    case (Some g)
    obtain r where r: "admit hmac (rm_body m) (rm_headers m) (rm_sender m) now g = (r, g)" "not_limited r"
      using assms(1) Some inner_not_limited by (cases g) (auto simp: mail_inner_def)
    show ?thesis
    proof (cases r)
      case (Inl e) then show ?thesis using x Some r ok0 by simp
    next
      case (Inr u) then show ?thesis using x Some r rl'(1) ok by simp
    qed
  qed
qed simp

text \<open>
  A pass of \<open>poll\<close> is never rate limited: it builds its gate anew, so that up to the configured limit, 60 by default, no
  message is refused for its rate, and a transport hands over at most 50.
\<close>

theorem poll_pass_never_limited:
  assumes "mail_gate env = Inr g" and "py_int (env_default env ''DEAR_AGENT_RATE_LIMIT'' ''60'') = Some limit" and "int (length ms) \<le> limit"
  shows "list_all not_limited (gate_answers hmac g ms)"
proof -
  obtain rl inner where g: "g = RateLimitedGate rl inner" "mail_inner inner" "limiter_from_env env = Inr rl"
    using assms(1) by (auto simp: mail_gate_def bindR_Inr mail_inner_def split: option.splits)
  have "rl_limit rl = limit" "counted rl 0"
    using g(3) assms(2) by (auto simp: limiter_from_env_def int_of_text_def bindR_Inr new_rate_limiter_def counted_def seen_of_def split: if_splits)
  then show ?thesis using answers_below_limit [of inner rl 0 ms hmac] g assms(3) by simp
qed

section \<open>Witnesses\<close>

lemma ex_commanded:
  "map_option (\<lambda>m. map_option t_state (m ''a'')) (commanded pg_canon coalesce_ev 7 (CmdMove QUEUED ''a'') (pg_store ex_q)) = Some (Some QUEUED)"
proof -
  have "map_option t_state (pg_store ex_q ''a'') = Some ACTION" by code_simp
  then show ?thesis by (auto simp: moved_def)
qed


definition ex_issued :: "string \<Rightarrow> pg_approvals" where
  "ex_issued token = snd (pa_issue ''a'' ''run'' token 1 \<lparr>pa_ttl = 10, pa_rows = []\<rparr>)"

theorem pending_hides_tokens_witness:
  "fst (handle_pending_approvals pa_ops (\<lambda>_. []) (\<lambda>_. []) False False (ex_issued ''k'')) =
    fst (handle_pending_approvals pa_ops (\<lambda>_. []) (\<lambda>_. []) False False (ex_issued ''secret''))"
proof -
  have "map without_token (a_pending pa_ops (ex_issued ''k'')) = map without_token (a_pending pa_ops (ex_issued ''secret''))" by code_simp
  then show ?thesis by (rule pending_hides_tokens)
qed

theorem bad_default_stops_every_command_witness:
  "\<exists>e. cli_main [(''DEAR_AGENT_MAX_RUNNING'', ''two'')] False (handle_parse_reply False ''approve'') () = (Inl (ValueError e), ())"
proof -
  have "py_int ''two'' = None" by code_simp
  then show ?thesis
    using bad_default_stops_every_command [of "[(''DEAR_AGENT_MAX_RUNNING'', ''two'')]" "''two''"] by simp
qed

definition ex_separators :: "(string, string) dict" where
  "ex_separators = [(''DEAR_AGENT_ALLOWED_SENDERS'', '', ;'')]"

theorem empty_allowlist_admits_everyone_witness:
  "case mail_gate ex_separators of Inl _ \<Rightarrow> False | Inr g \<Rightarrow> fst (admit (\<lambda>_ _. []) [] [] (Some ''eve@evil.io'') 0 g) = Inr ()"
proof -
  have e: "split_env (dict_get ex_separators ''DEAR_AGENT_AUTH_DOMAINS'') = []"
    "Auth.split_entries (or_else (dict_get ex_separators ''DEAR_AGENT_ALLOWED_SENDERS'') []) = []"
    "(case mail_gate ex_separators of Inl _ \<Rightarrow> False | Inr g \<Rightarrow> True)" by code_simp+
  then obtain g where g: "mail_gate ex_separators = Inr g" by (auto split: sum.splits)
  from empty_allowlist_admits_everyone [OF g e(1,2)] g show ?thesis by simp
qed

definition ex_signed :: "(string, string) dict" where
  "ex_signed = [(''DEAR_AGENT_INBOUND_SECRET'', ''s''), (''DEAR_AGENT_ALLOWED_SENDERS'', ''ann@x.io'')]"

theorem webhook_ignores_allowlist_witness:
  "case webhook_gate ex_signed of
     Inr (Some g) \<Rightarrow> fst (admit (\<lambda>_ _. ''00'') ''b'' [(SIGNATURE_HEADER, sign (\<lambda>_ _. ''00'') ''b'' ''s'' (Some ''eve@evil.io''))] (Some ''eve@evil.io'') 0 g) = Inr ()
   | _ \<Rightarrow> False"
proof -
  let ?s = "sign (\<lambda>_ _. ''00'') ''b'' ''s'' (Some ''eve@evil.io'')"
  have e: "dict_get ex_signed ''DEAR_AGENT_INBOUND_SECRET'' = Some ''s''" "is_ascii ?s" "?s \<noteq> []"
    "(case webhook_gate ex_signed of Inr (Some g) \<Rightarrow> True | _ \<Rightarrow> False)" by code_simp+
  then obtain g where g: "webhook_gate ex_signed = Inr (Some g)" by (auto split: sum.splits option.splits)
  have h: "dict_get [(SIGNATURE_HEADER, ?s)] SIGNATURE_HEADER = Some ?s" by simp
  from webhook_ignores_allowlist [OF g e(1) h e(2,3), where now = 0] g show ?thesis by simp
qed

theorem poll_pass_never_limited_witness:
  "case mail_gate [] of
     Inl _ \<Rightarrow> False
   | Inr g \<Rightarrow> list_all not_limited (gate_answers (\<lambda>_ _. []) g (replicate 50 (ex_mail ''ann@x.io'' ex_body, 0)))"
proof -
  have e: "py_int (env_default [] ''DEAR_AGENT_RATE_LIMIT'' ''60'') = Some 60" "(case mail_gate [] of Inl _ \<Rightarrow> False | Inr g \<Rightarrow> True)"
    by code_simp+
  then obtain g where g: "mail_gate [] = Inr g" by (auto split: sum.splits)
  from poll_pass_never_limited [OF g e(1), of "replicate 50 (ex_mail ''ann@x.io'' ex_body, 0)"] g show ?thesis by simp
qed

end
