(* ===== verification/Spec2Isabelle.thy ===== *)
theory Spec2Isabelle
  imports Backends Auth Normalizer Policy Events Deps Scanner Decision Notify ControlPlane ExecutorTrace WorkerRuns Dispatch Review Shared Forge Environment Wiring Inbound Idle Deciders DecisionLog Resilient PolicyFiles EventStream AgentMail Jmap Imap Cli
begin

text \<open>
  A verification development of Dear Agent (\<open>src/src/dear_agent\<close>), an agent control plane driven by mail: a message
  becomes a task in a queue, a worker runs a coding harness on it in a worktree and a jail, a verify gate and an
  optional reviewer look at the result, and a draft pull request and a mail report it. People approve risky tasks by
  answering a mail with a single-use token.

  HOW THE PARTS INTERACT. Mail arrives through a transport (\<open>transports/\<close>) or the webhook (\<open>inbound.py\<close>,
  \<open>http_server.py\<close>). The control plane (\<open>control_plane.py\<close>) authorizes it (\<open>auth.py\<close>), applies an approval reply
  (\<open>approvals_service.py\<close>, \<open>approvals.py\<close>) or normalizes it (\<open>normalizer.py\<close>), checks the policy (\<open>policy.py\<close>), asks scanner and
  deciders (\<open>security.py\<close>, \<open>decision/\<close>) whether a person must approve, and enqueues (\<open>queue/\<close>). The dispatcher
  (\<open>dispatch.py\<close>, \<open>kube.py\<close>) renders a Job per ready task; in it the worker (\<open>worker.py\<close>) applies its guards and hands the
  task to the executor (\<open>executor.py\<close>), which drives git (\<open>gitplane/\<close>, \<open>runners/worktree.py\<close>), the runner
  (\<open>runners/\<close>, \<open>sandbox.py\<close>, \<open>environment/\<close>), the verify gate (\<open>verify.py\<close>), the reviewer (\<open>review.py\<close>) and the forge. The idle
  loop (\<open>idle/\<close>) proposes work when the queue is empty; the command line (\<open>cli/\<close>) drives every part.

  CONVENTIONS. A class becomes a \<open>record\<close> of its fields, an enum a \<open>datatype\<close>; an object another one is given becomes a
  record of its operations (\<open>queue_ops\<close>, \<open>approval_ops\<close>, \<open>event_ops\<close>, \<open>policy_ops\<close>, \<open>transport_ops\<close>, \<open>mailbox_ops\<close>,
  \<open>imap_ops\<close>, \<open>machine\<close>, \<open>sandbox\<close>). Code that changes state and may raise is a \<open>('s, 'a) prog\<close>: the value or the
  exception, and the state left behind, so that what was done before an exception stays done. Code that only
  may raise has the type \<open>exn + 'a\<close>. A dictionary is an insertion-ordered association list. Python integers are
  \<open>int\<close>, times are integers in microseconds, texts are lists of characters below 256. Clock readings and drawn tokens
  are arguments or a stream indexed by a counter in the state.

  THEORIES. Foundations: Prelude (dictionaries, slices), PyText (strings), PyRegex (the \<open>re\<close> module on the patterns of the
  source), PyJson and Json (\<open>json.dumps\<close> and \<open>json.loads\<close>, with the round trip), PyValue (decoded values, HTTP
  requests), PyEffect (programs), Models (the shared data and the exceptions), Machine (processes and files).

  Queue: QueuePort (the locale \<open>task_queue\<close>, labelled steps and runs of any number of clients), MemQueue and PgQueue (both
  backends, interpreted), Backends (their equivalence), Deps, Resilient (the connection of \<open>db.py\<close>).
  Shown: exclusive claims, durability, recovery after a crash, the order of claims, and that a statement retried on a new
  connection is not atomic with those before it.

  Approvals: Approvals (three stores and the locales \<open>approval_store\<close>, \<open>unique_approval_store\<close>, interpreted) and
  ApprovalService (\<open>approval_flow\<close>). Shown: a token takes effect once, only on the waiting task it was issued for, and refusals
  change nothing.

  Ingress: Auth, Normalizer, Policy and PolicyFiles, Events, Scanner, Decision, Deciders, DecisionLog, Notify, ControlPlane,
  Inbound. Shown: what one message can do to the stores on every path, that redelivery does nothing, that unauthorized
  messages reach nothing, bounds of the rate limiter, the soundness of the mail gate and of the normalizer, types of a model's
  answers, refinement of the fallback, the log as one list of records over both of its stores.

  Transports: AgentMail, Jmap, Imap, EventStream (with the ingest trigger). Shown: headers, order, delivery of what was sent,
  connections given back, passwords over TLS only, and the mails a failing poll loses.

  Runs: Verify, GitPlane, Forge, Sandbox, Environment, Runners, Shared (the harness in a second container), Review, Executor,
  ExecutorTrace (what a run does outside the queue, as a recorded trace), Worker, WorkerRuns, Dispatch, Wiring (what
  \<open>worker_factory.py\<close> and the stores' factories build from the environment), Idle. Shown: a run settles its task, only
  verified work is published and only to agent branches as drafts, jails deny by default, the harness's environment and number of
  runs are bounded, the worker takes the oldest runnable task and touches no other, Jobs are of ready tasks only.

  Cli: the handlers of the command line with their exit codes, \<open>main\<close>, and the gates and the plane of the entry points.

  PARAMETERS. Code that is not under \<open>src\<close> is an argument: HMAC and SHA-256, \<open>yaml.safe_load\<close>, \<open>urllib\<close> as an operation on a
  world (type \<open>http\<close>), processes and files (\<open>machine\<close>), the database's collation and its text and \<open>jsonb\<close> columns,
  its driver with a schedule of losses, \<open>imaplib\<close>, \<open>smtplib\<close>, the parser of \<open>email\<close>, \<open>parseaddr\<close>, \<open>isoformat\<close> and
  \<open>fromisoformat\<close>, the text of floats, the decodings of bytes. Properties that need something of them say so as a
  hypothesis (\<open>imap_laws\<close>, say) and have a witness with a concrete instance.

  BOUNDS AND FUEL. \<open>json_loads\<close> has fuel twice the length of its text plus two, which is enough (\<open>fuel_enough\<close>). The matcher of
  PyRegex is structural on the pattern; the searches over a text, the shell patterns, the removal of comments and the list
  parser end by a measure on the text that is left. \<open>serve\<close> and the wait of
  the shared runner take a number of turns; \<open>delegate_returns\<close> shows that the wait ends. The review loop is bounded by its
  rounds (\<open>harness_runs_bounded\<close>). All other loops recur on a list.

  NOT MODELLED. The parser of the arguments and the \<open>decide\<close> and \<open>harness-serve\<close> commands, which only pass arguments on to parts
  modelled here; sockets, threads, signals and the metrics of the HTTP server; DDL; the probe script under \<open>scripts/\<close>,
  which looks at a mail server; characters above 255; rounding of doubles (finite floats are rationals).
\<close>

end
